(* ===== verification/Prelude.thy ===== *)
theory Prelude
  imports Main "HOL-Library.Word"
begin

text \<open>
  Shared vocabulary of the development: machine integer types, the return codes of
  inc/mpp_err.h, bit strings written most significant bit first, and byte memory.
  The collections \<open>bits_simps\<close> and \<open>mem_simps\<close> carry the component proofs.
\<close>

unbundle bit_operations_syntax

section \<open>Types\<close>

type_synonym u8 = "8 word"
type_synonym u16 = "16 word"
type_synonym u32 = "32 word"
type_synonym u64 = "64 word"

text \<open>The members of \<open>MPP_RET\<close> that the modelled functions return.\<close>

datatype mpp_ret =
    MPP_OK | MPP_NOK | MPP_ERR_UNKNOW | MPP_ERR_NULL_PTR | MPP_ERR_MALLOC
  | MPP_ERR_VALUE | MPP_ERR_READ_BIT | MPP_ERR_INIT | MPP_ERR_STREAM | MPP_ERR_NOMEM

named_theorems bits_simps \<open>facts about bit strings\<close>
named_theorems mem_simps \<open>facts about byte memory\<close>

section \<open>Bit strings, most significant bit first\<close>

definition msb_bits :: "nat \<Rightarrow> 'a::semiring_bits \<Rightarrow> bool list" where
  "msb_bits n x = map (bit x) (rev [0..<n])"

definition bits_val :: "bool list \<Rightarrow> 'a::semiring_bit_operations" where
  "bits_val bs = horner_sum of_bool 2 (rev bs)"

lemma length_msb_bits [simp]: "length (msb_bits n x) = n"
  by (simp add: msb_bits_def)

lemma msb_bits_0 [simp]: "msb_bits 0 x = []"
  by (simp add: msb_bits_def)

lemma msb_bits_eq_Nil [simp]: "msb_bits n x = [] \<longleftrightarrow> n = 0"
  by (simp add: msb_bits_def)

lemma msb_bits_Suc: "msb_bits (Suc n) x = bit x n # msb_bits n x"
  by (simp add: msb_bits_def)

lemma msb_bits_1 [simp]: "msb_bits (Suc 0) x = [bit x 0]"
  by (simp add: msb_bits_def)

lemma nth_msb_bits: "i < n \<Longrightarrow> msb_bits n x ! i = bit x (n - Suc i)"
  by (simp add: msb_bits_def rev_nth)

lemma msb_bits_cong: "(\<And>i. i < n \<Longrightarrow> bit x i = bit y i) \<Longrightarrow> msb_bits n x = msb_bits n y"
  by (simp add: msb_bits_def)

lemma msb_bits_zero [simp]: "msb_bits n 0 = replicate n False"
  by (rule nth_equalityI) (simp_all add: nth_msb_bits)

lemma msb_bits_add:
  fixes x :: "'a::semiring_bit_operations"
  shows "msb_bits (m + n) x = msb_bits m (drop_bit n x) @ msb_bits n x"
proof (induction m)
  case (Suc m)
  then show ?case
    by (simp add: msb_bits_Suc bit_drop_bit_eq add.commute)
qed simp

lemma msb_bits_take:
  fixes x :: "'a::semiring_bit_operations"
  shows "m \<le> n \<Longrightarrow> take m (msb_bits n x) = msb_bits m (drop_bit (n - m) x)"
  using msb_bits_add [of m "n - m" x] by simp

lemma msb_bits_drop:
  fixes x :: "'a::semiring_bit_operations"
  shows "m \<le> n \<Longrightarrow> drop m (msb_bits n x) = msb_bits (n - m) x"
  using msb_bits_add [of m "n - m" x] by simp

lemma msb_bits_or_push:
  fixes x y :: "'a::semiring_bit_operations"
  assumes "\<And>i. i < m + n \<Longrightarrow> possible_bit TYPE('a) i" and "\<And>i. n \<le> i \<Longrightarrow> \<not> bit y i"
  shows "msb_bits (m + n) (push_bit n x OR y) = msb_bits m x @ msb_bits n y"
proof -
  have "msb_bits m (drop_bit n (push_bit n x OR y)) = msb_bits m x"
    by (rule msb_bits_cong)
      (use assms in \<open>simp add: bit_drop_bit_eq bit_or_iff bit_push_bit_iff\<close>)
  moreover have "msb_bits n (push_bit n x OR y) = msb_bits n y"
    by (rule msb_bits_cong) (simp add: bit_or_iff bit_push_bit_iff)
  ultimately show ?thesis by (simp add: msb_bits_add)
qed

lemma bit_bits_val:
  "bit (bits_val bs :: 'a::semiring_bit_operations) i \<longleftrightarrow>
     possible_bit TYPE('a) i \<and> i < length bs \<and> bs ! (length bs - Suc i)"
  by (auto simp: bits_val_def bit_horner_sum_bit_iff rev_nth)

lemma bits_val_Nil [simp]: "bits_val [] = 0"
  by (simp add: bits_val_def)

lemma bits_val_msb_bits: "bits_val (msb_bits n x) = take_bit n x"
  by (simp add: bits_val_def msb_bits_def rev_map horner_sum_bit_eq_take_bit)

lemma msb_bits_bits_val:
  assumes "\<And>i. i < length bs \<Longrightarrow> possible_bit TYPE('a::semiring_bit_operations) i"
  shows "msb_bits (length bs) (bits_val bs :: 'a) = bs"
  by (rule nth_equalityI) (use assms in \<open>auto simp: nth_msb_bits bit_bits_val\<close>)

lemma msb_bits_take_bit [simp]:
  fixes x :: "'a::semiring_bit_operations"
  shows "msb_bits n (take_bit n x) = msb_bits n x"
  by (rule msb_bits_cong) (simp add: bit_take_bit_iff)

lemma msb_bits_inj_word:
  fixes x y :: "'a::len word"
  assumes "msb_bits n x = msb_bits n y" and "take_bit n x = x" and "take_bit n y = y"
  shows "x = y"
  using assms by (metis bits_val_msb_bits)

lemmas [bits_simps] = msb_bits_0 length_msb_bits msb_bits_zero bits_val_msb_bits

section \<open>Bytes as bits\<close>

definition byte_bits :: "u8 \<Rightarrow> bool list" where
  "byte_bits b = msb_bits 8 b"

definition bytes_bits :: "u8 list \<Rightarrow> bool list" where
  "bytes_bits bs = concat (map byte_bits bs)"

lemma length_byte_bits [simp]: "length (byte_bits b) = 8"
  by (simp add: byte_bits_def)

lemma bytes_bits_simps [simp]:
  "bytes_bits [] = []"
  "bytes_bits (b # bs) = byte_bits b @ bytes_bits bs"
  "bytes_bits (xs @ ys) = bytes_bits xs @ bytes_bits ys"
  by (simp_all add: bytes_bits_def)

lemma length_bytes_bits [simp]: "length (bytes_bits bs) = 8 * length bs"
  by (induction bs) simp_all

lemma byte_bits_inj: "byte_bits a = byte_bits b \<longleftrightarrow> a = b"
proof
  assume eq: "byte_bits a = byte_bits b"
  have "take_bit 8 a = a" "take_bit 8 b = b"
    by (simp_all add: take_bit_word_eq_self)
  with eq show "a = b" by (metis byte_bits_def bits_val_msb_bits)
qed simp

lemma bytes_bits_inj: "bytes_bits xs = bytes_bits ys \<longleftrightarrow> xs = ys"
proof (induction xs arbitrary: ys)
  case Nil
  show ?case by (cases ys) (auto simp: byte_bits_def msb_bits_def)
next
  case (Cons x xs)
  show ?case
  proof (cases ys)
    case Nil
    then show ?thesis by (simp add: byte_bits_def)
  next
    case (Cons y ys')
    have "bytes_bits (x # xs) = bytes_bits ys \<longleftrightarrow> byte_bits x = byte_bits y \<and> bytes_bits xs = bytes_bits ys'"
      by (simp add: Cons append_eq_append_conv)
    with Cons.IH show ?thesis by (simp add: Cons byte_bits_inj)
  qed
qed

section \<open>Byte memory\<close>

text \<open>\<open>store m p bs\<close> writes the bytes \<open>bs\<close> to the addresses from \<open>p\<close> on.\<close>

fun store :: "'a list \<Rightarrow> nat \<Rightarrow> 'a list \<Rightarrow> 'a list" where
  "store m p [] = m"
| "store m p (b # bs) = store (m[p := b]) (Suc p) bs"

lemma length_store [simp]: "length (store m p bs) = length m"
  by (induction bs arbitrary: m p) simp_all

lemma store_conv: "p + length bs \<le> length m \<Longrightarrow>
    store m p bs = take p m @ bs @ drop (p + length bs) m"
proof (induction bs arbitrary: m p)
  case (Cons b bs)
  then have "store (m[p := b]) (Suc p) bs
      = take (Suc p) (m[p := b]) @ bs @ drop (Suc p + length bs) (m[p := b])"
    by simp
  with Cons.prems show ?case
    by (simp add: take_Suc_conv_app_nth take_update_cancel)
qed simp

lemma take_store [mem_simps]: "q \<le> p \<Longrightarrow> take q (store m p bs) = take q m"
  by (induction bs arbitrary: m p) (simp_all add: take_update_cancel)

lemma take_store_end [mem_simps]:
  "p + length bs \<le> length m \<Longrightarrow> take (p + length bs) (store m p bs) = take p m @ bs"
  by (simp add: store_conv)

lemma drop_store [mem_simps]:
  "p + length bs \<le> q \<Longrightarrow> drop q (store m p bs) = drop q m"
  by (induction bs arbitrary: m p) (simp_all add: drop_update_cancel)

text \<open>The segment of a memory between two positions.\<close>

definition seg :: "'a list \<Rightarrow> nat \<Rightarrow> nat \<Rightarrow> 'a list" where
  "seg m p q = take (q - p) (drop p m)"

lemma seg_empty [simp]: "seg m p p = []"
  by (simp add: seg_def)

lemma length_seg: "q \<le> length m \<Longrightarrow> length (seg m p q) = q - p"
  by (simp add: seg_def)

lemma seg_store_end [mem_simps]:
  "p \<le> q \<Longrightarrow> q + length bs \<le> length m \<Longrightarrow>
     seg (store m q bs) p (q + length bs) = seg m p q @ bs"
  by (simp add: seg_def store_conv drop_take)

lemma seg_store_prefix [mem_simps]:
  "p \<le> q \<Longrightarrow> k \<le> length bs \<Longrightarrow> q + length bs \<le> length m \<Longrightarrow>
     seg (store m q bs) p (q + k) = seg m p q @ take k bs"
  by (simp add: seg_def store_conv drop_take)

lemma seg_store_after [mem_simps]:
  "q \<le> r \<Longrightarrow> seg (store m r bs) p q = seg m p q"
  by (metis drop_take seg_def take_store)

lemma seg_append:
  assumes "p \<le> q" and "q \<le> r"
  shows "seg m p q @ seg m q r = seg m p r"
proof -
  have "take (q - p + (r - q)) (drop p m) = take (q - p) (drop p m) @ take (r - q) (drop (q - p) (drop p m))"
    by (rule take_add)
  with assms show ?thesis by (simp add: seg_def)
qed

section \<open>Big-endian words and bytes\<close>

definition be32_bytes :: "u32 \<Rightarrow> u8 list" where
  "be32_bytes w = [ucast (drop_bit 24 w), ucast (drop_bit 16 w), ucast (drop_bit 8 w), ucast w]"

lemma length_be32_bytes [simp]: "length (be32_bytes w) = 4"
  by (simp add: be32_bytes_def)

lemma byte_bits_ucast: "k + 8 \<le> 32 \<Longrightarrow> byte_bits (ucast (drop_bit k (w :: u32))) = msb_bits 8 (drop_bit k w)"
  unfolding byte_bits_def by (rule msb_bits_cong) (simp add: bit_ucast_iff)

lemma bytes_bits_be32: "bytes_bits (be32_bytes w) = msb_bits 32 w"
proof -
  have "msb_bits 32 w = msb_bits 8 (drop_bit 24 w) @ msb_bits 8 (drop_bit 16 w)
      @ msb_bits 8 (drop_bit 8 w) @ msb_bits 8 w"
    using msb_bits_add [of 8 24 w] msb_bits_add [of 8 16 w] msb_bits_add [of 8 8 w] by simp
  moreover have "byte_bits (ucast w) = msb_bits 8 w"
    using byte_bits_ucast [of 0 w] by simp
  ultimately show ?thesis by (simp add: be32_bytes_def byte_bits_ucast)
qed

section \<open>Signed readings\<close>

lemma sint_of_nat_u32: "n < 2 ^ 31 \<Longrightarrow> sint (of_nat n :: u32) = int n"
  by (simp add: signed_of_nat signed_take_bit_int_eq_self)

lemma sint_of_int_u32: "- (2 ^ 31) \<le> x \<Longrightarrow> x < 2 ^ 31 \<Longrightarrow> sint (of_int x :: u32) = x"
  by (simp add: signed_of_int signed_take_bit_int_eq_self)

lemma unat_of_int_u32: "0 \<le> x \<Longrightarrow> x < 2 ^ 32 \<Longrightarrow> unat (word_of_int x :: u32) = nat x"
  by (simp add: unsigned_of_int take_bit_int_eq_self)

lemma not_bit_above:
  fixes v :: "'a::len word"
  assumes "unat v < 2 ^ n"
  shows "\<not> bit v (n + i)"
proof -
  have "unat v < 2 ^ (n + i)" using assms by (rule less_le_trans) simp
  then have "\<not> bit (unat v) (n + i)" by (simp add: bit_iff_odd)
  then show ?thesis by (auto simp: bit_unsigned_iff dest: bit_imp_le_length)
qed

lemma unat_of_nat_u32: "n < 2 ^ 32 \<Longrightarrow> unat (of_nat n :: u32) = n"
  by (simp add: unat_of_nat take_bit_nat_eq_self)

section \<open>Bytes of a bit string\<close>

definition bits_bytes :: "bool list \<Rightarrow> u8 list" where
  "bits_bytes bs = map (\<lambda>i. bits_val (take 8 (drop (8 * i) bs))) [0..<length bs div 8]"

lemma length_bits_bytes [simp]: "length (bits_bytes bs) = length bs div 8"
  by (simp add: bits_bytes_def)

lemma take_bytes_bits: "take (8 * k) (bytes_bits bs) = bytes_bits (take k bs)"
proof (induction bs arbitrary: k)
  case (Cons b bs)
  then show ?case by (cases k) simp_all
qed simp

lemma drop_bytes_bits: "drop (8 * k) (bytes_bits bs) = bytes_bits (drop k bs)"
proof (induction bs arbitrary: k)
  case (Cons b bs)
  then show ?case by (cases k) simp_all
qed simp

lemma bits_val_byte_bits: "bits_val (byte_bits b) = b"
  using bits_val_msb_bits [of 8 b] by (simp add: byte_bits_def take_bit_word_eq_self)

lemma bits_bytes_bytes_bits [simp]: "bits_bytes (bytes_bits bs) = bs"
proof (rule nth_equalityI)
  fix i assume "i < length (bits_bytes (bytes_bits bs))"
  then have i: "i < length bs" by simp
  then have "take 8 (drop (8 * i) (bytes_bits bs)) = byte_bits (bs ! i)"
    by (simp add: drop_bytes_bits Cons_nth_drop_Suc [symmetric])
  then show "bits_bytes (bytes_bits bs) ! i = bs ! i" using i
    by (simp add: bits_bytes_def bits_val_byte_bits)
qed simp

lemma bytes_bits_bits_bytes:
  assumes "8 dvd length bs"
  shows "bytes_bits (bits_bytes bs) = bs"
proof -
  obtain n where "length bs = 8 * n" using assms by blast
  then show ?thesis
  proof (induction n arbitrary: bs)
    case 0
    then show ?case by (simp add: bits_bytes_def)
  next
    case (Suc n)
    let ?h = "take 8 bs" and ?t = "drop 8 bs"
    have "length ?t = 8 * n" using Suc.prems by simp
    note IH = Suc.IH [OF this]
    have h: "byte_bits (bits_val ?h) = ?h"
      using msb_bits_bits_val [of ?h, where 'a = "8 word"] Suc.prems by (simp add: byte_bits_def)
    have "bits_bytes bs = bits_val ?h # bits_bytes ?t"
    proof (rule nth_equalityI)
      fix i assume "i < length (bits_bytes bs)"
      then show "bits_bytes bs ! i = (bits_val ?h # bits_bytes ?t) ! i"
        using Suc.prems by (cases i) (simp_all add: bits_bytes_def add.commute del: upt_Suc)
    qed (use Suc.prems in simp)
    then show ?case using IH h by simp
  qed
qed

lemma store_append: "store m p (xs @ ys) = store (store m p xs) (p + length xs) ys"
  by (induction xs arbitrary: m p) simp_all

section \<open>Sequences of operations\<close>

definition run :: "('s \<Rightarrow> 's) list \<Rightarrow> 's \<Rightarrow> 's" where
  "run fs s = fold (\<lambda>f s. f s) fs s"

text \<open>A statement under an \<open>if\<close> without \<open>else\<close>.\<close>

definition run_if :: "bool \<Rightarrow> ('s \<Rightarrow> 's) list \<Rightarrow> 's \<Rightarrow> 's" where
  "run_if b fs s = (if b then run fs s else s)"

lemma run_simps [simp]: "run [] s = s" "run (f # fs) s = run fs (f s)"
  by (simp_all add: run_def)

lemma run_append: "run (fs @ gs) s = run gs (run fs s)"
  by (simp add: run_def)

lemma run_eqs [simp]: "run [] = (\<lambda>s. s)" "run_if False fs = (\<lambda>s. s)" "run_if True fs = run fs"
  by (simp_all add: fun_eq_iff run_if_def)

text \<open>Reasoning statement by statement: an invariant, or a fact that one statement
  establishes and the statements after it keep.\<close>

lemma run_invariant: "list_all (\<lambda>f. \<forall>s. P s \<longrightarrow> P (f s)) fs \<Longrightarrow> P s \<Longrightarrow> P (run fs s)"
  by (induction fs arbitrary: s) auto

fun establishes :: "('s \<Rightarrow> bool) \<Rightarrow> ('s \<Rightarrow> 's) list \<Rightarrow> bool" where
  "establishes P [] = False"
| "establishes P (f # fs) =
    ((\<forall>s. P (f s)) \<and> list_all (\<lambda>f. \<forall>s. P s \<longrightarrow> P (f s)) fs \<or> establishes P fs)"

lemma run_establish: "establishes P fs \<Longrightarrow> P (run fs s)"
proof (induction fs arbitrary: s)
  case (Cons f fs)
  then show ?case using run_invariant [of P fs "f s"] by auto
qed simp

end
