(* ===== verification/BitRead.thy ===== *)
theory BitRead
  imports Prelude
begin

text \<open>
  The bit reader of mpp/base/mpp_bitread.c, used by every stream parser. The record is
  \<open>BitReadCtx_t\<close>: \<open>br_data\<close> is the pointer \<open>data_\<close> as an offset into \<open>br_buf\<close>,
  \<open>curr_byte\<close> the 64 bit signed current byte. A function returns the error code, the
  changed context and the value written through the out parameter.
  The specification is the bit string still to be delivered, \<open>rem_bits\<close>: the low bits of
  the current byte, then the bytes left with the emulation prevention bytes removed
  (\<open>unescape\<close>).
\<close>

section \<open>The context and its operations\<close>

record bitread_ctx =
  br_data :: nat
  bytes_left :: nat
  curr_byte :: int
  num_remaining_bits_in_curr_byte :: int
  prev_two_bytes :: u64
  emulation_prevention_bytes :: int
  used_bits :: int
  br_buf :: "u8 list"
  br_buf_len :: int
  need_prevention_detection :: int

definition update_curbyte :: "bitread_ctx \<Rightarrow> mpp_ret \<times> bitread_ctx" where
  "update_curbyte c =
    (if bytes_left c < 1 then (MPP_ERR_READ_BIT, c)
     else
       let detected = need_prevention_detection c \<noteq> 0 \<and> br_buf c ! br_data c = 3
             \<and> prev_two_bytes c AND 0xffff = 0;
           c1 = (if detected
                 then c\<lparr>br_data := br_data c + 1, bytes_left := bytes_left c - 1,
                        emulation_prevention_bytes := emulation_prevention_bytes c + 1,
                        prev_two_bytes := 0xffff\<rparr>
                 else c)
       in if detected \<and> bytes_left c1 < 1 then (MPP_ERR_READ_BIT, c1)
          else let b = br_buf c1 ! br_data c1
            in (MPP_OK, c1\<lparr>curr_byte := uint b AND 0xff, br_data := br_data c1 + 1,
                  bytes_left := bytes_left c1 - 1, num_remaining_bits_in_curr_byte := 8,
                  prev_two_bytes := push_bit 8 (prev_two_bytes c1) OR ucast b\<rparr>))"

lemma update_curbyte_bytes_left:
  "update_curbyte c = (MPP_OK, c') \<Longrightarrow> bytes_left c' < bytes_left c"
  by (auto simp: update_curbyte_def Let_def split: if_splits)

lemma update_curbyte_num_remaining:
  "update_curbyte c = (MPP_OK, c') \<Longrightarrow> num_remaining_bits_in_curr_byte c' = 8"
  by (auto simp: update_curbyte_def Let_def split: if_splits)

text \<open>The loop of \<open>mpp_read_bits\<close>: it returns the code, the context, \<open>bits_left\<close> and \<open>*out\<close>.\<close>

function read_bits_loop :: "bitread_ctx \<Rightarrow> int \<Rightarrow> u32 \<Rightarrow> mpp_ret \<times> bitread_ctx \<times> int \<times> u32" where
  "read_bits_loop c bits_left out =
    (if num_remaining_bits_in_curr_byte c < bits_left then
       let sh = bits_left - num_remaining_bits_in_curr_byte c;
           out = out OR word_of_int (push_bit (nat sh) (curr_byte c));
           bits_left = bits_left - num_remaining_bits_in_curr_byte c
       in case update_curbyte c of (ret, c') \<Rightarrow>
            if ret \<noteq> MPP_OK then (MPP_ERR_READ_BIT, c', bits_left, out)
            else read_bits_loop c' bits_left out
     else (MPP_OK, c, bits_left, out))"
  by pat_completeness auto
termination
  by (relation "measure (\<lambda>(c, _, _). bytes_left c)") (auto dest!: sym update_curbyte_bytes_left)

declare read_bits_loop.simps [simp del]

definition mpp_read_bits :: "bitread_ctx \<Rightarrow> int \<Rightarrow> mpp_ret \<times> bitread_ctx \<times> u32" where
  "mpp_read_bits c num_bits =
    (if num_bits > 31 then (MPP_ERR_READ_BIT, c, 0)
     else case read_bits_loop c num_bits 0 of (ret, c1, bits_left, out) \<Rightarrow>
         if ret \<noteq> MPP_OK then (MPP_ERR_READ_BIT, c1, out)
         else let out = out OR word_of_int (drop_bit
                     (nat (num_remaining_bits_in_curr_byte c1 - bits_left)) (curr_byte c1));
             out = out AND (push_bit (nat num_bits) 1 - 1)
         in (MPP_OK, c1\<lparr>num_remaining_bits_in_curr_byte :=
                           num_remaining_bits_in_curr_byte c1 - bits_left,
                         used_bits := used_bits c1 + num_bits\<rparr>, out))"

definition mpp_read_longbits :: "bitread_ctx \<Rightarrow> int \<Rightarrow> mpp_ret \<times> bitread_ctx \<times> u32" where
  "mpp_read_longbits c num_bits =
    (case mpp_read_bits c 16 of (ret, c1, val) \<Rightarrow>
       if ret \<noteq> MPP_OK then (MPP_ERR_READ_BIT, c1, 0)
       else case mpp_read_bits c1 (num_bits - 16) of (ret, c2, val1) \<Rightarrow>
         if ret \<noteq> MPP_OK then (MPP_ERR_READ_BIT, c2, 0)
         else (MPP_OK, c2, push_bit 16 val OR val1))"

function skip_bits_loop :: "bitread_ctx \<Rightarrow> int \<Rightarrow> mpp_ret \<times> bitread_ctx \<times> int" where
  "skip_bits_loop c bits_left =
    (if num_remaining_bits_in_curr_byte c < bits_left then
       let bits_left = bits_left - num_remaining_bits_in_curr_byte c
       in case update_curbyte c of (ret, c') \<Rightarrow>
            if ret \<noteq> MPP_OK then (MPP_ERR_READ_BIT, c', bits_left)
            else skip_bits_loop c' bits_left
     else (MPP_OK, c, bits_left))"
  by pat_completeness auto
termination
  by (relation "measure (\<lambda>(c, _). bytes_left c)") (auto dest!: sym update_curbyte_bytes_left)

declare skip_bits_loop.simps [simp del]

definition mpp_skip_bits :: "bitread_ctx \<Rightarrow> int \<Rightarrow> mpp_ret \<times> bitread_ctx" where
  "mpp_skip_bits c num_bits =
    (case skip_bits_loop c num_bits of (ret, c1, bits_left) \<Rightarrow>
       if ret \<noteq> MPP_OK then (MPP_ERR_READ_BIT, c1)
       else (MPP_OK, c1\<lparr>num_remaining_bits_in_curr_byte :=
                       num_remaining_bits_in_curr_byte c1 - bits_left,
                     used_bits := used_bits c1 + num_bits\<rparr>))"

definition mpp_skip_longbits :: "bitread_ctx \<Rightarrow> int \<Rightarrow> mpp_ret \<times> bitread_ctx" where
  "mpp_skip_longbits c num_bits =
    (case mpp_skip_bits c 16 of (ret, c1) \<Rightarrow>
       if ret \<noteq> MPP_OK then (MPP_ERR_READ_BIT, c1)
       else case mpp_skip_bits c1 (num_bits - 16) of (ret, c2) \<Rightarrow>
         if ret \<noteq> MPP_OK then (MPP_ERR_READ_BIT, c2) else (MPP_OK, c2))"

definition mpp_show_bits :: "bitread_ctx \<Rightarrow> int \<Rightarrow> mpp_ret \<times> bitread_ctx \<times> u32" where
  "mpp_show_bits c num_bits =
    (let tmp_ctx = c;
         (ret, _, out) = (if num_bits \<le> 31 then mpp_read_bits c num_bits
                          else mpp_read_longbits c num_bits)
     in (ret, tmp_ctx, out))"

definition mpp_show_longbits :: "bitread_ctx \<Rightarrow> int \<Rightarrow> mpp_ret \<times> bitread_ctx \<times> u32" where
  "mpp_show_longbits c num_bits =
    (let tmp_ctx = c; (ret, _, out) = mpp_read_longbits c num_bits in (ret, tmp_ctx, out))"

text \<open>
  The \<open>do ... while\<close> loop of \<open>mpp_read_ue\<close> counts zero bits. It stops because a read of one
  bit consumes one of the bits left; \<open>bit_budget\<close> bounds how many there are.
\<close>

definition bit_budget :: "bitread_ctx \<Rightarrow> nat" where
  "bit_budget c = 8 * bytes_left c + nat (num_remaining_bits_in_curr_byte c)"

lemma read_bits_loop_budget:
  "read_bits_loop c bl out = (MPP_OK, c', bl', out') \<Longrightarrow> 1 \<le> bl \<Longrightarrow>
     (c' = c \<and> bl' = bl \<or>
      bytes_left c' < bytes_left c \<and> num_remaining_bits_in_curr_byte c' = 8 \<and> 1 \<le> bl')
     \<and> bl' \<le> num_remaining_bits_in_curr_byte c'"
proof (induction c bl out rule: read_bits_loop.induct)
  case (1 c bl out)
  show ?case
  proof (cases "num_remaining_bits_in_curr_byte c < bl")
    case True
    obtain r c1 where u: "update_curbyte c = (r, c1)" by fastforce
    with True "1.prems"(1) have r: "r = MPP_OK"
      by (subst (asm) read_bits_loop.simps) (auto simp: Let_def split: if_splits)
    have dec: "bytes_left c1 < bytes_left c" "num_remaining_bits_in_curr_byte c1 = 8"
      using u r by (auto dest: update_curbyte_bytes_left update_curbyte_num_remaining)
    have "read_bits_loop c1 (bl - num_remaining_bits_in_curr_byte c)
        (out OR word_of_int (push_bit (nat (bl - num_remaining_bits_in_curr_byte c)) (curr_byte c)))
        = (MPP_OK, c', bl', out')"
      using "1.prems"(1) True u r by (subst (asm) read_bits_loop.simps) (simp add: Let_def)
    from "1.IH" [OF True refl refl refl u [symmetric]] this True dec r
    show ?thesis by auto
  next
    case False
    with "1.prems" show ?thesis by (subst (asm) read_bits_loop.simps) auto
  qed
qed

lemma mpp_read_bit_budget:
  assumes "mpp_read_bits c 1 = (MPP_OK, c', out)"
  shows "bit_budget c' < bit_budget c"
proof -
  obtain r c1 bl out1 where l: "read_bits_loop c 1 0 = (r, c1, bl, out1)"
    by (metis prod_cases4)
  with assms have r: "r = MPP_OK"
    by (auto simp: mpp_read_bits_def split: if_splits)
  with l assms have c': "bytes_left c' = bytes_left c1"
      "num_remaining_bits_in_curr_byte c' = num_remaining_bits_in_curr_byte c1 - bl"
    by (auto simp: mpp_read_bits_def Let_def)
  from read_bits_loop_budget [of c 1 0 c1 bl out1] l r c' show ?thesis
    by (auto simp: bit_budget_def nat_less_iff)
qed

function read_ue_zeros :: "bitread_ctx \<Rightarrow> int \<Rightarrow> mpp_ret \<times> bitread_ctx \<times> int" where
  "read_ue_zeros c num_bits =
    (case mpp_read_bits c 1 of (ret, c1, b) \<Rightarrow>
       if ret \<noteq> MPP_OK then (MPP_ERR_READ_BIT, c1, num_bits)
       else if b = 0 then read_ue_zeros c1 (num_bits + 1)
       else (MPP_OK, c1, num_bits + 1))"
  by pat_completeness auto
termination
proof (relation "measure (\<lambda>(c, _). bit_budget c)", goal_cases)
  case 2
  then show ?case by (auto dest!: mpp_read_bit_budget [OF sym])
qed simp

declare read_ue_zeros.simps [simp del]

definition mpp_read_ue :: "bitread_ctx \<Rightarrow> mpp_ret \<times> bitread_ctx \<times> u32" where
  "mpp_read_ue c =
    (case read_ue_zeros c (- 1) of (ret, c1, num_bits) \<Rightarrow>
       if ret \<noteq> MPP_OK then (MPP_ERR_READ_BIT, c1, 0)
       else if num_bits > 31 then (MPP_ERR_READ_BIT, c1, 0)
       else let val = push_bit (nat num_bits) 1 - 1
         in if num_bits > 0 then
              (case mpp_read_bits c1 num_bits of (ret, c2, rest) \<Rightarrow>
                 if ret \<noteq> MPP_OK then (MPP_ERR_READ_BIT, c2, val) else (MPP_OK, c2, val + rest))
            else (MPP_OK, c1, val))"

definition mpp_read_se :: "bitread_ctx \<Rightarrow> mpp_ret \<times> bitread_ctx \<times> int" where
  "mpp_read_se c =
    (case mpp_read_ue c of (ret, c1, ue) \<Rightarrow>
       if ret \<noteq> MPP_OK then (MPP_ERR_READ_BIT, c1, 0)
       else (MPP_OK, c1, if ue mod 2 = 0 then - sint (drop_bit 1 ue)
                         else sint (drop_bit 1 ue + 1)))"

definition mpp_has_more_rbsp_data :: "bitread_ctx \<Rightarrow> bool \<times> bitread_ctx" where
  "mpp_has_more_rbsp_data c =
    (let (r, c1) = (if num_remaining_bits_in_curr_byte c = 0 then update_curbyte c else (MPP_OK, c))
     in if r \<noteq> MPP_OK then (False, c1)
        else if bytes_left c1 \<noteq> 0 then (True, c1)
        else (curr_byte c1 AND (push_bit (nat (num_remaining_bits_in_curr_byte c1 - 1)) 1 - 1) \<noteq> 0, c1))"

definition mpp_set_bitread_ctx :: "u8 list \<Rightarrow> int \<Rightarrow> bitread_ctx" where
  "mpp_set_bitread_ctx data len =
    \<lparr>br_data = 0, bytes_left = nat (len mod 2 ^ 32), curr_byte = 0,
     num_remaining_bits_in_curr_byte = 0, prev_two_bytes = 0xffff,
     emulation_prevention_bytes = 0, used_bits = 0, br_buf = data, br_buf_len = len,
     need_prevention_detection = 0\<rparr>"

definition mpp_set_pre_detection :: "bitread_ctx \<Rightarrow> bitread_ctx" where
  "mpp_set_pre_detection c = c\<lparr>need_prevention_detection := 1\<rparr>"

text \<open>\<open>mpp_align_get_bits\<close> returns the pointer \<open>data_\<close> after the alignment.\<close>

definition mpp_align_get_bits :: "bitread_ctx \<Rightarrow> bitread_ctx \<times> nat" where
  "mpp_align_get_bits c =
    (let n = num_remaining_bits_in_curr_byte c;
         c1 = (if n \<noteq> 0 then snd (mpp_skip_bits c n) else c)
     in (c1, br_data c1))"

section \<open>The bits a context still delivers\<close>

text \<open>
  \<open>unescape d w bs\<close> is what \<open>update_curbyte\<close> loads from \<open>bs\<close>: with detection on (\<open>d\<close>), a byte 3
  that follows two zero bytes (kept in \<open>w\<close>) is dropped and the byte after it is loaded
  unconditionally.
\<close>

fun unescape :: "bool \<Rightarrow> u64 \<Rightarrow> u8 list \<Rightarrow> u8 list" where
  "unescape d w [] = []"
| "unescape d w (b # bs) =
    (if d \<and> b = 3 \<and> w AND 0xffff = 0
     then (case bs of [] \<Rightarrow> []
           | b' # bs' \<Rightarrow> b' # unescape d (push_bit 8 0xffff OR ucast b') bs')
     else b # unescape d (push_bit 8 w OR ucast b) bs)"

definition br_payload :: "bitread_ctx \<Rightarrow> u8 list" where
  "br_payload c = unescape (need_prevention_detection c \<noteq> 0) (prev_two_bytes c)
     (take (bytes_left c) (drop (br_data c) (br_buf c)))"

definition rem_bits :: "bitread_ctx \<Rightarrow> bool list" where
  "rem_bits c = msb_bits (nat (num_remaining_bits_in_curr_byte c)) (curr_byte c)
     @ bytes_bits (br_payload c)"

definition br_wf :: "bitread_ctx \<Rightarrow> bool" where
  "br_wf c \<longleftrightarrow> br_data c + bytes_left c \<le> length (br_buf c)
     \<and> 0 \<le> num_remaining_bits_in_curr_byte c \<and> num_remaining_bits_in_curr_byte c \<le> 8
     \<and> (\<forall>i \<ge> 8. \<not> bit (curr_byte c) i)
     \<and> (num_remaining_bits_in_curr_byte c > 0
        \<longrightarrow> (\<forall>i < 8. bit (prev_two_bytes c) i = bit (curr_byte c) i))"

lemma unescape_no_detection: "unescape False w bs = bs"
  by (induction bs arbitrary: w) auto

lemma uint_and_ff [simp]: "uint (b :: u8) AND 0xff = uint b"
proof -
  have "uint b AND mask 8 = take_bit 8 (uint b)"
    by (simp add: take_bit_eq_mask)
  also have "\<dots> = uint b"
    using uint_lt2p [of b] by (simp add: take_bit_int_eq_self)
  finally show ?thesis by (simp add: mask_eq_exp_minus_1)
qed

lemma seg_Cons:
  "n \<noteq> 0 \<Longrightarrow> d + n \<le> length m \<Longrightarrow>
     take n (drop d m) = m ! d # take (n - Suc 0) (drop (Suc d) m)"
  by (cases n) (simp_all add: Cons_nth_drop_Suc [symmetric])

lemma prev_low_byte: "i < 8 \<Longrightarrow> bit (push_bit 8 w OR ucast (b :: u8) :: u64) i = bit b i"
  by (simp add: bit_or_iff bit_push_bit_iff bit_ucast_iff)

text \<open>One refill: it fails exactly when nothing is left, otherwise it loads the next byte.\<close>

lemma update_curbyte_cases:
  assumes "br_wf c"
  obtains (fail) c' where "update_curbyte c = (MPP_ERR_READ_BIT, c')" "br_payload c = []"
  | (load) b bs c' where "update_curbyte c = (MPP_OK, c')" "br_payload c = b # bs"
      "br_payload c' = bs" "curr_byte c' = uint b" "num_remaining_bits_in_curr_byte c' = 8"
      "br_wf c'" "need_prevention_detection c' = need_prevention_detection c"
      "used_bits c' = used_bits c"
proof -
  define n d m where "n = bytes_left c" and "d = br_data c" and "m = br_buf c"
  define e where "e \<longleftrightarrow> need_prevention_detection c \<noteq> 0 \<and> m ! d = 3 \<and> prev_two_bytes c AND 0xffff = 0"
  note defs = n_def d_def m_def e_def
  have wf: "d + n \<le> length m" using assms by (simp add: br_wf_def defs)
  consider (none) "n = 0" | (plain) "n \<noteq> 0" "\<not> e" | (esc_end) "n = 1" "e" | (esc) "n > 1" "e"
    by linarith
  then show thesis
  proof cases
    case none
    then show ?thesis using fail by (simp add: update_curbyte_def br_payload_def defs)
  next
    case plain
    define c' where "c' = c\<lparr>curr_byte := uint (m ! d), br_data := Suc d, bytes_left := n - Suc 0,
      num_remaining_bits_in_curr_byte := 8, prev_two_bytes := push_bit 8 (prev_two_bytes c) OR ucast (m ! d)\<rparr>"
    have "update_curbyte c = (MPP_OK, c')"
      using plain by (auto simp: update_curbyte_def Let_def c'_def defs)
    moreover have "br_payload c = m ! d # br_payload c'"
      using plain wf by (auto simp: br_payload_def c'_def seg_Cons defs)
    moreover have "br_wf c'"
      using plain wf by (auto simp: br_wf_def c'_def prev_low_byte bit_uint_iff defs)
    ultimately show ?thesis using load [of c' "m ! d" "br_payload c'"] by (simp add: c'_def)
  next
    case esc_end
    then show ?thesis using wf
      by (intro fail) (auto simp: update_curbyte_def Let_def br_payload_def seg_Cons defs)
  next
    case esc
    define c' where "c' = c\<lparr>br_data := Suc (Suc d), bytes_left := n - 2,
      emulation_prevention_bytes := emulation_prevention_bytes c + 1,
      curr_byte := uint (m ! Suc d), num_remaining_bits_in_curr_byte := 8,
      prev_two_bytes := push_bit 8 0xffff OR ucast (m ! Suc d)\<rparr>"
    have tk: "take n (drop d m) = 3 # m ! Suc d # take (n - 2) (drop (Suc (Suc d)) m)"
      using esc wf by (simp add: seg_Cons numeral_2_eq_2 e_def)
    have "update_curbyte c = (MPP_OK, c')"
      using esc by (auto simp: update_curbyte_def Let_def c'_def defs numeral_2_eq_2)
    moreover have "br_payload c = m ! Suc d # br_payload c'"
      using esc tk by (auto simp: br_payload_def c'_def defs)
    moreover have "br_wf c'"
      using esc wf
      by (auto simp: br_wf_def c'_def prev_low_byte [of _ "0xffff", simplified] bit_uint_iff defs)
    ultimately show ?thesis using load [of c' "m ! Suc d" "br_payload c'"] by (simp add: c'_def)
  qed
qed

section \<open>Reading bits\<close>

text \<open>
  The loop invariant: below \<open>bits_left\<close> the accumulator is still clear, and apart from the
  first round the current byte is fresh, so no consumed bit leaks into the result.
\<close>

definition clear_below :: "u32 \<Rightarrow> int \<Rightarrow> bool" where
  "clear_below out bl \<longleftrightarrow> (\<forall>i < nat bl. \<not> bit out i)"

lemma msb_bits_out:
  assumes "clear_below out (int b)" and "b \<le> n" and "n \<le> 32" and "r \<le> b"
    and "b = n \<or> (\<forall>i \<ge> r. \<not> bit x i)"
  shows "clear_below (out OR word_of_int (push_bit (b - r) x)) (int (b - r))"
    and "msb_bits (n - (b - r)) (drop_bit (b - r) (out OR word_of_int (push_bit (b - r) x)))
       = msb_bits (n - b) (drop_bit b out) @ msb_bits r (x :: int)"
proof -
  let ?o = "out OR word_of_int (push_bit (b - r) x)"
  show "clear_below ?o (int (b - r))"
    using assms(1) by (auto simp: clear_below_def bit_or_iff bit_word_of_int_iff bit_push_bit_iff)
  have "n - (b - r) = (n - b) + r" using assms by simp
  then have "msb_bits (n - (b - r)) (drop_bit (b - r) ?o)
      = msb_bits (n - b) (drop_bit r (drop_bit (b - r) ?o)) @ msb_bits r (drop_bit (b - r) ?o)"
    by (simp add: msb_bits_add)
  also have "msb_bits (n - b) (drop_bit r (drop_bit (b - r) ?o)) = msb_bits (n - b) (drop_bit b out)"
    by (rule msb_bits_cong)
      (use assms in \<open>auto simp: bit_drop_bit_eq bit_or_iff bit_word_of_int_iff bit_push_bit_iff\<close>)
  also have "msb_bits r (drop_bit (b - r) ?o) = msb_bits r x"
    by (rule msb_bits_cong)
      (use assms in \<open>auto simp: bit_drop_bit_eq bit_or_iff bit_word_of_int_iff bit_push_bit_iff
          clear_below_def\<close>)
  finally show "msb_bits (n - (b - r)) (drop_bit (b - r) ?o)
       = msb_bits (n - b) (drop_bit b out) @ msb_bits r x" .
qed

definition loop_inv :: "nat \<Rightarrow> nat \<Rightarrow> bitread_ctx \<Rightarrow> u32 \<Rightarrow> bool" where
  "loop_inv n b c out \<longleftrightarrow> br_wf c \<and> b \<le> n \<and> clear_below out (int b)
     \<and> (b = n \<or> num_remaining_bits_in_curr_byte c = 8)"

definition loop_post ::
    "nat \<Rightarrow> nat \<Rightarrow> bitread_ctx \<Rightarrow> u32 \<Rightarrow> mpp_ret \<times> bitread_ctx \<times> int \<times> u32 \<Rightarrow> bool" where
  "loop_post n b c out res \<longleftrightarrow>
    (if length (rem_bits c) < b then fst res = MPP_ERR_READ_BIT
     else \<exists>c' b' out' xs. res = (MPP_OK, c', int b', out')
       \<and> loop_inv n b' c' out' \<and> b' \<le> nat (num_remaining_bits_in_curr_byte c')
       \<and> need_prevention_detection c' = need_prevention_detection c \<and> used_bits c' = used_bits c
       \<and> rem_bits c = xs @ rem_bits c' \<and> length xs + b' = b
       \<and> msb_bits (n - b') (drop_bit b' out') = msb_bits (n - b) (drop_bit b out) @ xs)"

lemma loop_postE:
  assumes "loop_post n b c out res" and "b \<le> length (rem_bits c)"
  obtains c' b' out' xs where "res = (MPP_OK, c', int b', out')"
    and "loop_inv n b' c' out'" and "b' \<le> nat (num_remaining_bits_in_curr_byte c')"
    and "need_prevention_detection c' = need_prevention_detection c" and "used_bits c' = used_bits c"
    and "rem_bits c = xs @ rem_bits c'" and "length xs + b' = b"
    and "msb_bits (n - b') (drop_bit b' out') = msb_bits (n - b) (drop_bit b out) @ xs"
  using assms unfolding loop_post_def by (simp only: not_less [symmetric] if_False) blast

lemma loop_post_step:
  assumes "loop_post n b1 c1 out1 res" and "rem_bits c = ys @ rem_bits c1" and "length ys + b1 = b"
    and "msb_bits (n - b1) (drop_bit b1 out1) = msb_bits (n - b) (drop_bit b out) @ ys"
    and "need_prevention_detection c1 = need_prevention_detection c" and "used_bits c1 = used_bits c"
  shows "loop_post n b c out res"
proof (cases "length (rem_bits c1) < b1")
  case True
  with assms show ?thesis by (simp add: loop_post_def)
next
  case False
  with assms(1) obtain c' b' out' xs where *: "res = (MPP_OK, c', int b', out')"
      "loop_inv n b' c' out'" "b' \<le> nat (num_remaining_bits_in_curr_byte c')"
      "need_prevention_detection c' = need_prevention_detection c1" "used_bits c' = used_bits c1"
      "rem_bits c1 = xs @ rem_bits c'" "length xs + b' = b1"
      "msb_bits (n - b') (drop_bit b' out') = msb_bits (n - b1) (drop_bit b1 out1) @ xs"
    by (auto simp: loop_post_def)
  from False assms show ?thesis unfolding loop_post_def
    by (auto simp: * intro!: exI [of _ "ys @ xs"]) 
qed

lemma read_bits_loop_spec:
  "loop_inv n b c out \<Longrightarrow> n \<le> 31 \<Longrightarrow> bl = int b \<Longrightarrow> loop_post n b c out (read_bits_loop c bl out)"
proof (induction c bl out arbitrary: b rule: read_bits_loop.induct)
  case (1 c bl out)
  define r where "r = nat (num_remaining_bits_in_curr_byte c)"
  have wf: "br_wf c" and r: "num_remaining_bits_in_curr_byte c = int r" "r \<le> 8"
    using "1.prems" by (auto simp: loop_inv_def br_wf_def r_def)
  show ?case
  proof (cases "r < b")
    case True
    from wf show ?thesis
    proof (cases rule: update_curbyte_cases)
      case (fail c')
      then show ?thesis using True r "1.prems"
        by (subst read_bits_loop.simps) (simp add: Let_def loop_post_def rem_bits_def)
    next
      case (load b0 bs c')
      let ?o = "out OR word_of_int (push_bit (b - r) (curr_byte c))"
      have clean: "b = n \<or> (\<forall>i\<ge>r. \<not> bit (curr_byte c) i)"
        using "1.prems" r wf by (auto simp: loop_inv_def br_wf_def)
      have pre: "clear_below out (int b)" "b \<le> n" "n \<le> 32" "r \<le> b"
        using "1.prems" True by (auto simp: loop_inv_def)
      note out = msb_bits_out [OF pre clean]
      have inv: "loop_inv n (b - r) c' ?o"
        using out(1) pre(2) load by (auto simp: loop_inv_def)
      have remc: "rem_bits c = msb_bits r (curr_byte c) @ rem_bits c'"
        using load by (simp add: rem_bits_def r(1) byte_bits_def msb_bits_def bit_uint_iff)
      have diff: "int b - int r = int (b - r)" "nat (int (b - r)) = b - r"
        using True "1.prems" by (simp_all add: of_nat_diff)
      have post: "loop_post n (b - r) c' ?o (read_bits_loop c' (int (b - r)) ?o)"
        using "1.IH" [of _ _ _ MPP_OK c' "b - r"] inv True load r "1.prems"
        by (simp add: diff del: of_nat_diff)
      have eq: "read_bits_loop c bl out = read_bits_loop c' (int (b - r)) ?o"
        using True load r "1.prems"
        by (subst read_bits_loop.simps) (simp add: Let_def diff del: of_nat_diff)
      show ?thesis unfolding eq
        by (rule loop_post_step [OF post remc _ out(2)]) (use True load in simp_all)
    qed
  next
    case False
    then have "read_bits_loop c bl out = (MPP_OK, c, int b, out)"
      using "1.prems" r by (subst read_bits_loop.simps) simp
    moreover have "b \<le> length (rem_bits c)" using False by (simp add: rem_bits_def r(1))
    ultimately show ?thesis using "1.prems" False r by (auto simp: loop_post_def)
  qed
qed

text \<open>What \<open>mpp_read_bits\<close> promises: it delivers the next \<open>n\<close> bits, or fails and delivers nothing.\<close>

lemma and_mask_take: "x AND (push_bit n 1 - 1) = take_bit n (x :: 'a::len word)"
  by (simp add: take_bit_eq_mask mask_eq_exp_minus_1 push_bit_eq_mult)

lemma mpp_read_bits_ok:
  assumes wf: "br_wf c" and n: "n \<le> 31" and len: "n \<le> length (rem_bits c)"
  obtains c' where "mpp_read_bits c (int n) = (MPP_OK, c', bits_val (take n (rem_bits c)))"
    and "br_wf c'" and "rem_bits c' = drop n (rem_bits c)"
    and "need_prevention_detection c' = need_prevention_detection c"
    and "used_bits c' = used_bits c + int n"
proof -
  have "loop_inv n n c 0" using wf by (simp add: loop_inv_def clear_below_def)
  from read_bits_loop_spec [OF this n refl] len
  obtain c1 b out xs where l: "read_bits_loop c (int n) 0 = (MPP_OK, c1, int b, out)"
    and inv: "loop_inv n b c1 out" and b: "b \<le> nat (num_remaining_bits_in_curr_byte c1)"
    and same: "need_prevention_detection c1 = need_prevention_detection c" "used_bits c1 = used_bits c"
    and rem: "rem_bits c = xs @ rem_bits c1" and xs: "length xs + b = n"
    and out: "msb_bits (n - b) (drop_bit b out) = xs"
    by (rule loop_postE) simp
  define r where "r = nat (num_remaining_bits_in_curr_byte c1)"
  have r: "num_remaining_bits_in_curr_byte c1 = int r" "r \<le> 8" and br: "b \<le> r"
    using inv b by (auto simp: loop_inv_def br_wf_def r_def)
  define val where "val = (out OR word_of_int (drop_bit (r - b) (curr_byte c1))) AND (push_bit n 1 - 1)"
  have val: "val = take_bit n (out OR word_of_int (drop_bit (r - b) (curr_byte c1)))"
    unfolding val_def by (rule and_mask_take)
  define c' where "c' = c1\<lparr>num_remaining_bits_in_curr_byte := int (r - b), used_bits := used_bits c1 + int n\<rparr>"
  have read: "mpp_read_bits c (int n) = (MPP_OK, c', val)"
    using n l r br by (simp add: mpp_read_bits_def Let_def val_def c'_def nat_diff_distrib of_nat_diff)
  have "msb_bits n val = msb_bits (n - b) (drop_bit b val) @ msb_bits b val"
    using msb_bits_add [of "n - b" b val] xs by simp
  also have "msb_bits (n - b) (drop_bit b val) = xs"
    unfolding out [symmetric] by (rule msb_bits_cong)
      (use inv br r n xs in \<open>auto simp: val bit_take_bit_iff bit_drop_bit_eq bit_or_iff
          bit_word_of_int_iff loop_inv_def br_wf_def\<close>)
  also have "msb_bits b val = msb_bits b (drop_bit (r - b) (curr_byte c1))"
    by (rule msb_bits_cong)
      (use inv xs n in \<open>auto simp: val bit_take_bit_iff bit_or_iff bit_word_of_int_iff
          loop_inv_def clear_below_def\<close>)
  finally have bits: "msb_bits n val = xs @ msb_bits b (drop_bit (r - b) (curr_byte c1))" .
  have cur: "msb_bits r (curr_byte c1)
      = msb_bits b (drop_bit (r - b) (curr_byte c1)) @ msb_bits (r - b) (curr_byte c1)"
    using msb_bits_add [of b "r - b" "curr_byte c1"] br by simp
  have rem': "rem_bits c = msb_bits n val @ rem_bits c'"
    by (simp add: rem bits rem_bits_def [of c1] r(1) cur) (simp add: c'_def rem_bits_def br_payload_def)
  moreover have "take_bit n val = val" by (simp add: val)
  ultimately have "val = bits_val (take n (rem_bits c))" by (simp add: bits_val_msb_bits)
  moreover have "br_wf c'" using inv r br by (auto simp: loop_inv_def br_wf_def c'_def)
  ultimately show thesis
    using that [of c'] read rem' same by (simp add: c'_def)
qed

lemma mpp_read_bits_short:
  assumes "br_wf c" and "n \<le> 31" and "length (rem_bits c) < n"
  shows "fst (mpp_read_bits c (int n)) = MPP_ERR_READ_BIT"
proof -
  have "loop_inv n n c 0" using assms(1) by (simp add: loop_inv_def clear_below_def)
  from read_bits_loop_spec [OF this assms(2) refl] assms(3)
  have "fst (read_bits_loop c (int n) 0) = MPP_ERR_READ_BIT" by (simp add: loop_post_def)
  with assms(2) show ?thesis
    by (cases "read_bits_loop c (int n) 0") (auto simp: mpp_read_bits_def)
qed

end
