(* ===== verification/Golomb.thy ===== *)
theory Golomb
  imports Prelude
begin

text \<open>
  The Exp-Golomb codes of H.264 and H.265 as bit strings: the abstract specification that the
  bit reader and both encoders' writers are measured against.
\<close>

fun bit_len :: "nat \<Rightarrow> nat" where
  "bit_len n = (if n = 0 then 0 else Suc (bit_len (n div 2)))"

declare bit_len.simps [simp del]

lemma bit_len_0 [simp]: "bit_len 0 = 0"
  by (simp add: bit_len.simps)

lemma bit_len_pos: "0 < n \<Longrightarrow> bit_len n = Suc (bit_len (n div 2))"
  by (simp add: bit_len.simps [of n])

lemma bit_len_eq_0 [simp]: "bit_len n = 0 \<longleftrightarrow> n = 0"
  by (simp add: bit_len.simps [of n])

lemma bit_len_gt0: "0 < n \<Longrightarrow> 0 < bit_len n"
  by (simp add: bit_len_pos)

lemma bit_len_upper: "n < 2 ^ bit_len n"
proof (induction n rule: bit_len.induct)
  case (1 n)
  then show ?case by (cases "n = 0") (auto simp: bit_len_pos)
qed

lemma bit_len_lower: "0 < n \<Longrightarrow> 2 ^ (bit_len n - 1) \<le> n"
proof (induction n rule: bit_len.induct)
  case (1 n)
  show ?case
  proof (cases "n div 2 = 0")
    case True
    with "1.prems" show ?thesis by (simp add: bit_len_pos)
  next
    case False
    with 1 have "2 ^ (bit_len (n div 2) - 1) \<le> n div 2" by simp
    moreover have "bit_len (n div 2) = Suc (bit_len (n div 2) - 1)"
      using False bit_len_eq_0 [of "n div 2"] by linarith
    ultimately have "2 ^ bit_len (n div 2) \<le> n"
      by (metis div_le_dividend le_trans mult.commute mult_le_mono1 power_Suc
          times_div_less_eq_dividend)
    with False show ?thesis by (simp add: bit_len_pos)
  qed
qed

lemma bit_len_Suc_pred: "0 < n \<Longrightarrow> Suc (bit_len n - 1) = bit_len n"
  using bit_len_eq_0 [of n] by linarith

lemma bit_len_le: "n < 2 ^ k \<Longrightarrow> bit_len n \<le> k"
proof (cases "n = 0")
  case False
  assume "n < 2 ^ k"
  then have "2 ^ (bit_len n - 1) < (2::nat) ^ k" using bit_len_lower [of n] False by linarith
  then have "bit_len n - 1 < k" by (rule power_less_imp_less_exp [rotated]) simp
  then show ?thesis by linarith
qed simp

lemma bit_len_unique:
  assumes "2 ^ k \<le> n" and "n < 2 ^ Suc k"
  shows "bit_len n = Suc k"
proof -
  have "(2::nat) ^ k < 2 ^ bit_len n" using bit_len_upper [of n] assms by linarith
  then have "k < bit_len n" by (rule power_less_imp_less_exp [rotated]) simp
  with bit_len_le [OF assms(2)] show ?thesis by linarith
qed

lemma bit_len_mono: "m \<le> n \<Longrightarrow> bit_len m \<le> bit_len n"
  by (meson bit_len_le bit_len_upper le_less_trans)

text \<open>\<open>ue(v)\<close>: as many zeros as the binary form of \<open>v + 1\<close> has digits after the first, then that form.\<close>

definition ue_bits :: "nat \<Rightarrow> bool list" where
  "ue_bits v = replicate (bit_len (v + 1) - 1) False @ msb_bits (bit_len (v + 1)) (v + 1)"

text \<open>\<open>se(v)\<close>: positive values take the odd codes.\<close>

definition ue_of_se :: "int \<Rightarrow> nat" where
  "ue_of_se x = (if x > 0 then nat (2 * x - 1) else nat (- 2 * x))"

definition se_of_ue :: "nat \<Rightarrow> int" where
  "se_of_ue u = (if even u then - int (u div 2) else int (u div 2) + 1)"

definition se_bits :: "int \<Rightarrow> bool list" where
  "se_bits x = ue_bits (ue_of_se x)"

lemma se_of_ue_of_se [simp]: "se_of_ue (ue_of_se x) = x"
proof (cases "x > 0")
  case True
  then have "odd (nat (2 * x - 1))" "nat (2 * x - 1) div 2 = nat (x - 1)"
    by (simp_all add: even_nat_iff) 
  with True show ?thesis by (simp add: se_of_ue_def ue_of_se_def)
next
  case False
  then have "even (nat (- 2 * x))" "nat (- 2 * x) div 2 = nat (- x)"
    by (simp_all add: even_nat_iff nat_mult_distrib)
  with False show ?thesis by (simp add: se_of_ue_def ue_of_se_def)
qed

lemma ue_of_se_of_ue [simp]: "ue_of_se (se_of_ue u) = u"
  by (auto simp: se_of_ue_def ue_of_se_def nat_add_distrib nat_mult_distrib elim!: evenE oddE)

lemma bit_top:
  assumes "2 ^ k \<le> n" and "n < 2 ^ Suc k"
  shows "bit (n :: nat) k"
proof -
  have "n div 2 ^ k = 1" using assms by (intro div_nat_eqI) auto
  then show ?thesis by (simp add: bit_iff_odd)
qed

text \<open>The first digit is 1, so the zeros of a code can be counted.\<close>

lemma ue_bits_split:
  "ue_bits v = replicate (bit_len (v + 1) - 1) False @ True
     # msb_bits (bit_len (v + 1) - 1) (v + 1)"
proof -
  let ?k = "bit_len (v + 1) - 1"
  have len: "bit_len (v + 1) = Suc ?k" using bit_len_Suc_pred [of "v + 1"] by simp
  have "bit (v + 1) ?k"
    using bit_len_lower [of "v + 1"] bit_len_upper [of "v + 1"] len by (intro bit_top) auto
  then show ?thesis by (subst ue_bits_def) (subst len, simp add: msb_bits_Suc)
qed

lemma length_ue_bits: "length (ue_bits v) = 2 * bit_len (v + 1) - 1"
  by (simp add: ue_bits_def)

lemma take_bit_top:
  assumes "2 ^ k \<le> n" and "n < 2 ^ Suc k"
  shows "take_bit k (n :: nat) = n - 2 ^ k"
proof -
  have "n mod 2 ^ k = (n - 2 ^ k) mod 2 ^ k" using assms(1) by (rule le_mod_geq)
  also have "\<dots> = n - 2 ^ k" using assms by simp
  finally show ?thesis by (simp add: take_bit_eq_mod)
qed

lemma take_bit_bit_len:
  "0 < n \<Longrightarrow> take_bit (bit_len n - 1) n = n - 2 ^ (bit_len n - 1)"
  using bit_len_lower [of n] bit_len_upper [of n] bit_len_Suc_pred [of n]
  by (intro take_bit_top) auto

text \<open>No code is a prefix of another: a stream of codes decodes in one way.\<close>

lemma replicate_False_True_eq:
  "replicate a False @ True # xs = replicate b False @ True # ys \<longleftrightarrow> a = b \<and> xs = ys"
proof (induction a arbitrary: b)
  case 0
  show ?case by (cases b) auto
next
  case (Suc a)
  then show ?case by (cases b) auto
qed

lemma ue_bits_prefix_free: "ue_bits v @ xs = ue_bits w @ ys \<longleftrightarrow> v = w \<and> xs = ys"
proof
  define k where "k = bit_len (v + 1) - 1"
  assume "ue_bits v @ xs = ue_bits w @ ys"
  then have k: "k = bit_len (w + 1) - 1" and t: "msb_bits k (v + 1) @ xs = msb_bits k (w + 1) @ ys"
    by (auto simp add: ue_bits_split replicate_False_True_eq k_def)
  from t have b: "msb_bits k (v + 1) = msb_bits k (w + 1)" and x: "xs = ys"
    by (auto simp: append_eq_append_conv)
  from b have "take_bit k (v + 1) = take_bit k (w + 1)" by (metis bits_val_msb_bits)
  moreover have "take_bit k (v + 1) = v + 1 - 2 ^ k" "take_bit k (w + 1) = w + 1 - 2 ^ k"
    using take_bit_bit_len [of "v + 1"] take_bit_bit_len [of "w + 1"] k by (simp_all add: k_def)
  moreover have "2 ^ k \<le> v + 1" "2 ^ k \<le> w + 1"
    using bit_len_lower [of "v + 1"] bit_len_lower [of "w + 1"] k by (simp_all add: k_def)
  ultimately show "v = w \<and> xs = ys" using x by linarith
qed simp

end
