(* ===== verification/BitReadSpec.thy ===== *)
theory BitReadSpec
  imports BitRead Golomb
begin

text \<open>
  The contract of the bit reader (mpp/base/mpp_bitread.c) over \<open>rem_bits\<close>: fixed width reads,
  long reads, skips, shows, Exp-Golomb codes and the \<open>more_rbsp_data\<close> test.
\<close>

text \<open>\<open>advanced c bs c'\<close>: the context \<open>c'\<close> is \<open>c\<close> after the bits \<open>bs\<close>.\<close>

definition advanced :: "bitread_ctx \<Rightarrow> bool list \<Rightarrow> bitread_ctx \<Rightarrow> bool" where
  "advanced c bs c' \<longleftrightarrow> br_wf c' \<and> rem_bits c = bs @ rem_bits c'
     \<and> need_prevention_detection c' = need_prevention_detection c
     \<and> used_bits c' = used_bits c + int (length bs)"

lemma advanced_trans: "advanced c xs c1 \<Longrightarrow> advanced c1 ys c2 \<Longrightarrow> advanced c (xs @ ys) c2"
  by (simp add: advanced_def)

lemma advanced_Cons: "advanced c [x] c1 \<Longrightarrow> advanced c1 ys c2 \<Longrightarrow> advanced c (x # ys) c2"
  using advanced_trans [of c "[x]"] by simp

lemma read_bits_advanced:
  assumes "br_wf c" and "rem_bits c = bs @ rest" and "length bs = n" and "n \<le> 31"
  obtains c' where "mpp_read_bits c (int n) = (MPP_OK, c', bits_val bs)"
    and "advanced c bs c'" and "rem_bits c' = rest"
proof -
  from assms have "n \<le> length (rem_bits c)" by simp
  from mpp_read_bits_ok [OF assms(1,4) this] obtain c' where
    "mpp_read_bits c (int n) = (MPP_OK, c', bits_val (take n (rem_bits c)))" "br_wf c'"
    "rem_bits c' = drop n (rem_bits c)" "need_prevention_detection c' = need_prevention_detection c"
    "used_bits c' = used_bits c + int n"
    by metis
  with assms that show thesis by (simp add: advanced_def)
qed

lemma read_bits_value:
  fixes x :: "'a::semiring_bit_operations"
  assumes "br_wf c" and "rem_bits c = msb_bits n x @ rest" and "n \<le> 31"
  obtains c' where "mpp_read_bits c (int n) = (MPP_OK, c', bits_val (msb_bits n x))"
    and "advanced c (msb_bits n x) c'" and "rem_bits c' = rest"
  using read_bits_advanced [OF assms(1,2) length_msb_bits assms(3)] .

lemma bits_val_single [simp]: "bits_val [b] = of_bool b"
  by (simp add: bits_val_def)

lemma read_bit_advanced:
  assumes "br_wf c" and "rem_bits c = b # rest"
  obtains c' where "mpp_read_bits c 1 = (MPP_OK, c', of_bool b)"
    and "advanced c [b] c'" and "rem_bits c' = rest"
  using read_bits_advanced [of c "[b]" rest 1] assms by auto

lemma read_bit_end:
  assumes "br_wf c" and "rem_bits c = []"
  shows "fst (mpp_read_bits c 1) = MPP_ERR_READ_BIT"
  using mpp_read_bits_short [of c 1] assms by simp

section \<open>Exp-Golomb codes\<close>

lemma read_ue_zeros_ok:
  assumes "br_wf c" and "rem_bits c = replicate k False @ True # rest"
  obtains c' where "read_ue_zeros c nb = (MPP_OK, c', nb + int k + 1)"
    and "advanced c (replicate k False @ [True]) c'" and "rem_bits c' = rest"
  using assms
proof (induction k arbitrary: c nb thesis)
  case 0
  from 0(3) have "rem_bits c = True # rest" by simp
  from read_bit_advanced [OF 0(2) this] obtain c' where
    "mpp_read_bits c 1 = (MPP_OK, c', of_bool True)" "advanced c [True] c'" "rem_bits c' = rest" .
  then show ?case using 0(1) [of c'] by (simp add: read_ue_zeros.simps [of c])
next
  case (Suc k)
  from Suc(4) have "rem_bits c = False # replicate k False @ True # rest" by simp
  from read_bit_advanced [OF Suc(3) this] obtain c1 where
    c1: "mpp_read_bits c 1 = (MPP_OK, c1, of_bool False)" "advanced c [False] c1"
      "rem_bits c1 = replicate k False @ True # rest" .
  then have "br_wf c1" by (simp add: advanced_def)
  from Suc(1) [OF _ this c1(3), of "nb + 1"] obtain c' where
    "read_ue_zeros c1 (nb + 1) = (MPP_OK, c', nb + 1 + int k + 1)"
    "advanced c1 (replicate k False @ [True]) c'" "rem_bits c' = rest" by metis
  then show ?case using Suc(2) [of c'] c1 advanced_Cons [OF c1(2)]
    by (simp add: read_ue_zeros.simps [of c] algebra_simps)
qed

lemma read_ue_zeros_end:
  assumes "br_wf c" and "rem_bits c = replicate k False"
  shows "fst (read_ue_zeros c nb) = MPP_ERR_READ_BIT"
  using assms
proof (induction k arbitrary: c nb)
  case 0
  then have "fst (mpp_read_bits c 1) = MPP_ERR_READ_BIT" using read_bit_end by simp
  then show ?case by (subst read_ue_zeros.simps) (auto split: prod.splits)
next
  case (Suc k)
  from Suc(3) have "rem_bits c = False # replicate k False" by simp
  from read_bit_advanced [OF Suc(2) this] obtain c1 where
    c1: "mpp_read_bits c 1 = (MPP_OK, c1, of_bool False)" "advanced c [False] c1"
      "rem_bits c1 = replicate k False" .
  with Suc(1) [of c1 "nb + 1"] show ?case
    by (simp add: read_ue_zeros.simps [of c] advanced_def)
qed

lemma zeros_cases:
  obtains (one) k rest where "xs = replicate k False @ True # rest" | (none) "xs = replicate (length xs) False"
proof (induction xs arbitrary: thesis)
  case (Cons x xs)
  show ?case
  proof (cases x)
    case True
    then show ?thesis using Cons(2) [of 0] by simp
  next
    case False
    show ?thesis
    proof (rule Cons(1))
      fix k rest
      assume "xs = replicate k False @ True # rest"
      then show thesis using Cons(2) [of "Suc k"] False by simp
    next
      assume "xs = replicate (length xs) False"
      then show thesis using Cons(3) False by simp
    qed
  qed
qed simp

lemma mpp_read_ue_code:
  assumes wf: "br_wf c" and rem: "rem_bits c = ue_bits v @ rest" and v: "v < 2 ^ 32 - 1"
  obtains c' where "mpp_read_ue c = (MPP_OK, c', of_nat v)"
    and "advanced c (ue_bits v) c'" and "rem_bits c' = rest"
proof -
  define k where "k = bit_len (v + 1) - 1"
  have "v + 1 < 2 ^ 32" using v by simp
  then have k: "k \<le> 31" using bit_len_le [of "v + 1" 32] by (simp add: k_def)
  have split: "rem_bits c = replicate k False @ True # (msb_bits k (v + 1) @ rest)"
    using rem by (simp add: ue_bits_split k_def)
  obtain c1 where z: "read_ue_zeros c (- 1) = (MPP_OK, c1, - 1 + int k + 1)"
      and adv1: "advanced c (replicate k False @ [True]) c1" and rem1: "rem_bits c1 = msb_bits k (v + 1) @ rest"
    using read_ue_zeros_ok [OF wf split] .
  from z have c1: "read_ue_zeros c (- 1) = (MPP_OK, c1, int k)" by simp
  from adv1 have wf1: "br_wf c1" by (simp add: advanced_def)
  from read_bits_value [OF wf1 rem1 k] obtain c2 where
    c2: "mpp_read_bits c1 (int k) = (MPP_OK, c2, bits_val (msb_bits k (v + 1)))"
      "advanced c1 (msb_bits k (v + 1)) c2" "rem_bits c2 = rest" .
  have tb: "take_bit k (v + 1) = v + 1 - 2 ^ k" using take_bit_bit_len [of "v + 1"] by (simp add: k_def)
  have lo: "2 ^ k \<le> v + 1" using bit_len_lower [of "v + 1"] by (simp add: k_def)
  have "(bits_val (msb_bits k (v + 1)) :: u32) = of_nat (take_bit k (v + 1))"
    by (rule bit_eqI) (auto simp: bit_bits_val nth_msb_bits bit_of_nat_iff bit_take_bit_iff)
  then have val: "push_bit k 1 - 1 + (bits_val (msb_bits k (v + 1)) :: u32) = of_nat v"
  proof -
    have "of_nat (2 ^ k + take_bit k (v + 1)) = (of_nat (v + 1) :: u32)" using lo tb by simp
    moreover have "(bits_val (msb_bits k (v + 1)) :: u32) = of_nat (take_bit k (v + 1))" by fact
    ultimately show ?thesis by (simp add: push_bit_eq_mult algebra_simps)
  qed
  have adv: "advanced c (ue_bits v) c2"
    using advanced_trans [OF adv1 c2(2)] by (simp add: ue_bits_split k_def)
  show thesis
  proof (cases "k = 0")
    case True
    with c2 have "c1 = c1 \<and> rem_bits c1 = rest" "ue_bits v = [True]"
      using rem1 by (simp_all add: ue_bits_split k_def)
    with True c1 val adv1 show thesis using that [of c1]
      by (simp add: mpp_read_ue_def)
  next
    case False
    with c1 c2 k val adv show thesis using that [of c2]
      by (simp add: mpp_read_ue_def)
  qed
qed

text \<open>Conversely a successful read consumed exactly the code of the value it returns.\<close>

lemma mpp_read_ue_inverse:
  assumes wf: "br_wf c" and read: "mpp_read_ue c = (MPP_OK, c', v)"
  shows "advanced c (ue_bits (unat v)) c' \<and> unat v < 2 ^ 32 - 1"
proof (cases rule: zeros_cases [of "rem_bits c"])
  case none
  with read_ue_zeros_end [OF wf, of "length (rem_bits c)" "- 1"] read show ?thesis
    by (auto simp: mpp_read_ue_def split: prod.splits if_splits)
next
  case (one k rest)
  obtain c1 where z: "read_ue_zeros c (- 1) = (MPP_OK, c1, - 1 + int k + 1)"
      and adv1: "advanced c (replicate k False @ [True]) c1" and rem1: "rem_bits c1 = rest"
    using read_ue_zeros_ok [OF wf one] .
  from z have c1: "read_ue_zeros c (- 1) = (MPP_OK, c1, int k)" by simp
  from adv1 have wf1: "br_wf c1" by (simp add: advanced_def)
  have k: "k \<le> 31" using read c1 by (auto simp: mpp_read_ue_def split: if_splits)
  have len: "k \<le> length rest"
  proof (rule ccontr)
    assume "\<not> k \<le> length rest"
    then have "fst (mpp_read_bits c1 (int k)) = MPP_ERR_READ_BIT" "0 < k"
      using mpp_read_bits_short [OF wf1 k] rem1 by auto
    with read c1 show False by (auto simp: mpp_read_ue_def Let_def split: prod.splits if_splits)
  qed
  define w where "w = 2 ^ k + bits_val (take k rest) - (1 :: nat)"
  have small: "bits_val (take k rest) < (2 :: nat) ^ k"
  proof -
    have "take_bit k (bits_val (take k rest) :: nat) = bits_val (take k rest)"
      using len by (intro bit_eqI) (auto simp: bit_bits_val bit_take_bit_iff)
    then show ?thesis by (metis take_bit_nat_less_exp)
  qed
  have bl: "bit_len (w + 1) = Suc k" using small by (intro bit_len_unique) (auto simp: w_def)
  have "take_bit k (w + 1) = bits_val (take k rest)"
    using take_bit_bit_len [of "w + 1"] bl by (simp add: w_def)
  then have "msb_bits k (w + 1) = msb_bits k (bits_val (take k rest) :: nat)"
    by (metis msb_bits_take_bit)
  also have "\<dots> = take k rest"
    using msb_bits_bits_val [of "take k rest", where 'a = nat] len by simp
  finally have "ue_bits w = replicate k False @ True # take k rest"
    using bl by (simp add: ue_bits_split)
  then have rem: "rem_bits c = ue_bits w @ drop k rest" using one by simp
  have "w + 1 < 2 ^ Suc k" using small by (simp add: w_def)
  also have "(2::nat) ^ Suc k \<le> 2 ^ 32" using k by (intro power_increasing) auto
  finally have w: "w + 1 < 2 ^ 32" .
  show ?thesis
  proof (cases "w < 2 ^ 32 - 1")
    case True
    from mpp_read_ue_code [OF wf rem this] obtain c2 where
      c2: "mpp_read_ue c = (MPP_OK, c2, of_nat w)" "advanced c (ue_bits w) c2" by metis
    moreover have "unat (of_nat w :: u32) = w" using True by (intro unat_of_nat_u32) simp
    ultimately show ?thesis using read True by auto
  qed (use w in simp)
qed

lemma mpp_read_se_code:
  assumes wf: "br_wf c" and rem: "rem_bits c = se_bits x @ rest" and x: "\<bar>x\<bar> < 2 ^ 31"
  obtains c' where "mpp_read_se c = (MPP_OK, c', x)"
    and "advanced c (se_bits x) c'" and "rem_bits c' = rest"
proof -
  let ?u = "ue_of_se x"
  have u: "?u < 2 ^ 32 - 1" using x by (auto simp: ue_of_se_def)
  from mpp_read_ue_code [OF wf rem [unfolded se_bits_def] u] obtain c' where
    c': "mpp_read_ue c = (MPP_OK, c', of_nat ?u)" "advanced c (se_bits x) c'" "rem_bits c' = rest"
    by (metis se_bits_def)
  have un: "unat (of_nat ?u :: u32) = ?u" using u by (intro unat_of_nat_u32) simp
  have par: "(of_nat ?u :: u32) mod 2 = 0 \<longleftrightarrow> even ?u"
    by (simp add: word_unat_eq_iff unat_mod_distrib un even_iff_mod_2_eq_zero)
  have half: "drop_bit 1 (of_nat ?u :: u32) = of_nat (?u div 2)"
    using u by (simp add: word_unat_eq_iff unat_drop_bit_eq un unat_of_nat_u32 drop_bit_Suc unat_div_distrib)
  have s: "sint (of_nat (?u div 2) :: u32) = int (?u div 2)"
    using u by (intro sint_of_nat_u32) simp
  have s1: "odd ?u \<Longrightarrow> sint (of_nat (?u div 2) + 1 :: u32) = int (?u div 2) + 1"
    using u sint_of_nat_u32 [of "?u div 2 + 1"] by (auto elim!: oddE simp: add.commute)
  have "mpp_read_se c = (MPP_OK, c', se_of_ue ?u)"
    using c'(1) by (simp add: mpp_read_se_def par half [unfolded One_nat_def] s s1 se_of_ue_def)
  then show thesis using that [of c'] c' by simp
qed

section \<open>Skips, long reads, shows\<close>

text \<open>Skipping walks the context exactly as reading does.\<close>

lemma skip_loop_read_loop:
  "skip_bits_loop c bl = (case read_bits_loop c bl out of (r, c', b, _) \<Rightarrow> (r, c', b))"
proof (induction c bl arbitrary: out rule: skip_bits_loop.induct)
  case (1 c bl)
  show ?case
  proof (cases "num_remaining_bits_in_curr_byte c < bl")
    case True
    obtain r c1 where u: "update_curbyte c = (r, c1)" by fastforce
    let ?bl = "bl - num_remaining_bits_in_curr_byte c"
    show ?thesis
    proof (cases "r = MPP_OK")
      case ok: True
      have "skip_bits_loop c bl = skip_bits_loop c1 ?bl"
        using True u ok by (simp add: skip_bits_loop.simps [of c bl] Let_def)
      moreover have "read_bits_loop c bl out
          = read_bits_loop c1 ?bl (out OR word_of_int (push_bit (nat ?bl) (curr_byte c)))"
        using True u ok by (simp add: read_bits_loop.simps [of c bl] Let_def)
      ultimately show ?thesis
        using "1.IH" [OF True refl u [symmetric]] ok by simp
    qed (use True u in \<open>simp add: skip_bits_loop.simps [of c bl] read_bits_loop.simps [of c bl] Let_def\<close>)
  qed (simp add: skip_bits_loop.simps [of c bl] read_bits_loop.simps [of c bl])
qed

lemma mpp_skip_bits_read:
  assumes "n \<le> 31"
  shows "mpp_skip_bits c n = (case mpp_read_bits c n of (r, c', _) \<Rightarrow> (r, c'))"
proof -
  obtain r c1 b out where "read_bits_loop c n 0 = (r, c1, b, out)" by (metis prod_cases4)
  then show ?thesis using assms skip_loop_read_loop [of c n 0]
    by (simp add: mpp_skip_bits_def mpp_read_bits_def Let_def)
qed

text \<open>
  A long read puts the first 16 bits into the high half whatever the width, so it is the value of
  the bits read only at width 32.
\<close>

definition longbits_val :: "bool list \<Rightarrow> u32" where
  "longbits_val bs = push_bit 16 (bits_val (take 16 bs)) OR bits_val (drop 16 bs)"

lemma longbits_val_32: "length bs = 32 \<Longrightarrow> longbits_val bs = bits_val bs"
  unfolding longbits_val_def
proof (rule bit_word_eqI)
  fix n assume l: "length bs = 32" and n: "n < LENGTH(32)"
  show "bit (push_bit 16 (bits_val (take 16 bs)) OR bits_val (drop 16 bs) :: u32) n
      = bit (bits_val bs :: u32) n"
  proof (cases "n < 16")
    case True
    then have "16 + (15 - n) = 31 - n" by simp
    with True l show ?thesis by (simp add: bit_or_iff bit_push_bit_iff bit_bits_val)
  next
    case False
    with n have "15 - (n - 16) = 31 - n" "n - 16 < 32" "n - 16 < 16" by simp_all
    with False n l show ?thesis by (simp add: bit_or_iff bit_push_bit_iff bit_bits_val)
  qed
qed

lemma mpp_read_longbits_ok:
  assumes wf: "br_wf c" and rem: "rem_bits c = bs @ rest" and n: "length bs = n" "16 \<le> n" "n \<le> 32"
  obtains c' where "mpp_read_longbits c (int n) = (MPP_OK, c', longbits_val bs)"
    and "advanced c bs c'" and "rem_bits c' = rest"
proof -
  let ?h = "take 16 bs" and ?l = "drop 16 bs"
  have rem1: "rem_bits c = ?h @ ?l @ rest" and lh: "length ?h = 16" using rem n by simp_all
  obtain c1 where c1: "mpp_read_bits c (int 16) = (MPP_OK, c1, bits_val ?h)" "advanced c ?h c1"
      "rem_bits c1 = ?l @ rest"
    using read_bits_advanced [OF wf rem1 lh] by auto
  then have wf1: "br_wf c1" by (simp add: advanced_def)
  have ll: "length ?l = n - 16" "n - 16 \<le> 31" using n by simp_all
  obtain c2 where c2: "mpp_read_bits c1 (int (n - 16)) = (MPP_OK, c2, bits_val ?l)"
      "advanced c1 ?l c2" "rem_bits c2 = rest"
    using read_bits_advanced [OF wf1 c1(3) ll] .
  have i: "int n - 16 = int (n - 16)" using n by simp
  have "mpp_read_longbits c (int n) = (MPP_OK, c2, longbits_val bs)"
    using c1(1) c2(1) unfolding mpp_read_longbits_def i longbits_val_def by simp
  then show thesis using that [of c2] c2(3) advanced_trans [OF c1(2) c2(2)] by simp
qed

lemma mpp_show_bits_context: "fst (snd (mpp_show_bits c n)) = c"
  by (simp add: mpp_show_bits_def Let_def split: prod.splits)

lemma mpp_show_bits_value: "n \<le> 31 \<Longrightarrow>
   mpp_show_bits c n = (fst (mpp_read_bits c n), c, snd (snd (mpp_read_bits c n)))"
  by (simp add: mpp_show_bits_def Let_def split: prod.splits)

section \<open>\<open>more_rbsp_data\<close>\<close>

lemma msb_bits_low_zero:
  "x AND (push_bit k 1 - 1) \<noteq> (0 :: int) \<longleftrightarrow> True \<in> set (msb_bits k x)"
proof -
  have "x AND (push_bit k 1 - 1) = take_bit k x"
    by (simp add: take_bit_eq_mask mask_eq_exp_minus_1 push_bit_eq_mult)
  moreover have "take_bit k x = 0 \<longleftrightarrow> (\<forall>i < k. \<not> bit x i)"
    by (auto simp: bit_eq_iff bit_take_bit_iff)
  ultimately show ?thesis by (auto simp: msb_bits_def)
qed

text \<open>
  Reading is only asked for more while something other than the stop bit and its padding
  zeros is left.
\<close>

lemma unescape_Nil_zero:
  assumes "unescape d w bs = []" and "bs \<noteq> []"
  shows "d \<and> w AND 0xffff = 0"
  using assms by (cases bs) (auto split: if_splits)

lemma prev_zero_byte:
  assumes "br_wf c" and "prev_two_bytes c AND 0xffff = 0" and "0 < num_remaining_bits_in_curr_byte c"
  shows "\<not> bit (curr_byte c) i"
proof (cases "i < 8")
  case True
  have "bit (0xffff :: u64) i"
  proof -
    have "(0xffff :: u64) = mask 16" by (simp add: mask_eq_exp_minus_1)
    then show ?thesis using True by (simp only: bit_mask_iff) simp
  qed
  moreover have "\<not> bit (prev_two_bytes c AND 0xffff) i" using assms(2) by simp
  ultimately have "\<not> bit (prev_two_bytes c) i" by (simp add: bit_and_iff)
  with True assms(1,3) show ?thesis by (simp add: br_wf_def)
next
  case False
  with assms(1) show ?thesis by (simp add: br_wf_def)
qed

lemma more_rbsp_loaded:
  assumes wf: "br_wf c" and pos: "0 < num_remaining_bits_in_curr_byte c"
    and rem: "rem_bits c = xs @ True # replicate k False" and k: "k < 8"
  shows "(bytes_left c \<noteq> 0 \<or> curr_byte c AND (push_bit (nat (num_remaining_bits_in_curr_byte c - 1)) 1 - 1) \<noteq> 0)
     \<longleftrightarrow> xs \<noteq> []"
proof -
  define r where "r = nat (num_remaining_bits_in_curr_byte c) - 1"
  have r: "nat (num_remaining_bits_in_curr_byte c) = Suc r" "nat (num_remaining_bits_in_curr_byte c - 1) = r"
    using pos by (auto simp: r_def)
  have split: "rem_bits c = bit (curr_byte c) r # msb_bits r (curr_byte c) @ bytes_bits (br_payload c)"
    by (simp add: rem_bits_def r msb_bits_Suc)
  show ?thesis
  proof (cases "br_payload c")
    case Nil
    have "bytes_left c = 0"
    proof (rule ccontr)
      assume b: "bytes_left c \<noteq> 0"
      then have "take (bytes_left c) (drop (br_data c) (br_buf c)) \<noteq> []" using wf by (auto simp: br_wf_def)
      then have "prev_two_bytes c AND 0xffff = 0"
        using unescape_Nil_zero [OF Nil [unfolded br_payload_def]] by blast
      then have "\<not> bit (curr_byte c) i" for i using prev_zero_byte wf pos by blast
      then have "True \<notin> set (rem_bits c)" using Nil by (auto simp: rem_bits_def msb_bits_def)
      then show False by (simp add: rem)
    qed
    moreover have "True \<in> set (msb_bits r (curr_byte c)) \<longleftrightarrow> xs \<noteq> []"
    proof (cases xs)
      case Nil
      with split rem \<open>br_payload c = []\<close> have "msb_bits r (curr_byte c) = replicate k False" by simp
      then show ?thesis using Nil by simp
    next
      case (Cons a list)
      with split rem \<open>br_payload c = []\<close> have "msb_bits r (curr_byte c) = list @ True # replicate k False"
        by simp
      then show ?thesis using Cons by simp
    qed
    ultimately show ?thesis unfolding r msb_bits_low_zero by simp
  next
    case (Cons b bs)
    then have "bytes_left c \<noteq> 0" by (cases "bytes_left c") (simp_all add: br_payload_def)
    moreover have "xs \<noteq> []"
    proof
      assume "xs = []"
      then have "length (rem_bits c) < 9" using rem k by simp
      then show False using split Cons by simp
    qed
    ultimately show ?thesis by simp
  qed
qed

lemma mpp_has_more_rbsp_data_ok:
  assumes wf: "br_wf c" and rem: "rem_bits c = xs @ True # replicate k False" and k: "k < 8"
  obtains c' where "mpp_has_more_rbsp_data c = (xs \<noteq> [], c')" and "advanced c [] c'"
proof (cases "num_remaining_bits_in_curr_byte c = 0")
  case False
  with wf have pos: "0 < num_remaining_bits_in_curr_byte c" by (simp add: br_wf_def)
  have "mpp_has_more_rbsp_data c = (xs \<noteq> [], c)"
    using more_rbsp_loaded [OF wf pos rem k] False by (auto simp: mpp_has_more_rbsp_data_def)
  then show thesis using that wf by (simp add: advanced_def)
next
  case True
  from wf show thesis
  proof (cases rule: update_curbyte_cases)
    case (fail c')
    with True rem show thesis by (simp add: rem_bits_def)
  next
    case (load b bs c')
    have rem': "rem_bits c' = rem_bits c"
      using load True by (simp add: rem_bits_def byte_bits_def msb_bits_def bit_uint_iff)
    have "mpp_has_more_rbsp_data c = (xs \<noteq> [], c')"
      using more_rbsp_loaded [OF load(6) _ rem [folded rem'] k] load True
      by (auto simp: mpp_has_more_rbsp_data_def)
    then show thesis using that load rem' by (simp add: advanced_def)
  qed
qed

lemma mpp_set_bitread_ctx_bits:
  assumes "length data < 2 ^ 31"
  shows "br_wf (mpp_set_bitread_ctx data (int (length data)))"
    and "rem_bits (mpp_set_bitread_ctx data (int (length data))) = bytes_bits data"
    and "br_wf (mpp_set_pre_detection (mpp_set_bitread_ctx data (int (length data))))"
    and "rem_bits (mpp_set_pre_detection (mpp_set_bitread_ctx data (int (length data))))
      = bytes_bits (unescape True 0xffff data)"
  using assms
  by (simp_all add: mpp_set_bitread_ctx_def mpp_set_pre_detection_def br_wf_def rem_bits_def
      br_payload_def unescape_no_detection)

section \<open>Properties\<close>

text \<open>
  C15: a read of at most 31 bits delivers exactly the next bits of the stream, in order, with the
  emulation prevention bytes removed, and leaves the rest; it fails with
  \<open>MPP_ERR_READ_BIT\<close> exactly when fewer bits are left.
\<close>

theorem read_bits_contract:
  assumes "br_wf c" and "n \<le> 31"
  shows "if n \<le> length (rem_bits c)
    then \<exists>c'. mpp_read_bits c (int n) = (MPP_OK, c', bits_val (take n (rem_bits c)))
           \<and> br_wf c' \<and> rem_bits c' = drop n (rem_bits c) \<and> used_bits c' = used_bits c + int n
    else fst (mpp_read_bits c (int n)) = MPP_ERR_READ_BIT"
  using mpp_read_bits_ok [OF assms] mpp_read_bits_short [OF assms] by (metis not_le)

definition demo_ctx :: bitread_ctx where
  "demo_ctx = mpp_set_pre_detection (mpp_set_bitread_ctx [0, 0, 3, 1, 0x4c, 0x80] 6)"

lemma demo_ctx_wf: "br_wf demo_ctx"
  and demo_ctx_bits: "rem_bits demo_ctx = bytes_bits [0, 0, 1, 0x4c, 0x80]"
  by (simp_all add: demo_ctx_def mpp_set_pre_detection_def mpp_set_bitread_ctx_def br_wf_def
      rem_bits_def br_payload_def)

theorem read_bits_contract_witness:
  "\<exists>c'. mpp_read_bits demo_ctx 24 = (MPP_OK, c', 1) \<and> br_wf c' \<and> rem_bits c' = bytes_bits [0x4c, 0x80]"
  using read_bits_contract [OF demo_ctx_wf, of 24]
  by (auto simp: demo_ctx_bits byte_bits_def msb_bits_def upt_rec bits_val_def)

text \<open>
  C16: Exp-Golomb decoding is exact in both directions: \<open>mpp_read_ue\<close> returns \<open>v\<close> and
  leaves \<open>rest\<close> if and only if the stream is the ue code of \<open>v\<close> followed by \<open>rest\<close> and
  \<open>v\<close> is below \<open>2 ^ 32 - 1\<close>; no other bit string is accepted.
\<close>

theorem read_ue_exact:
  assumes "br_wf c"
  shows "(\<exists>c'. mpp_read_ue c = (MPP_OK, c', v) \<and> rem_bits c' = rest)
    \<longleftrightarrow> unat v < 2 ^ 32 - 1 \<and> rem_bits c = ue_bits (unat v) @ rest"
proof
  assume "\<exists>c'. mpp_read_ue c = (MPP_OK, c', v) \<and> rem_bits c' = rest"
  then show "unat v < 2 ^ 32 - 1 \<and> rem_bits c = ue_bits (unat v) @ rest"
    using mpp_read_ue_inverse [OF assms] by (auto simp: advanced_def)
next
  assume v: "unat v < 2 ^ 32 - 1 \<and> rem_bits c = ue_bits (unat v) @ rest"
  obtain c' where "mpp_read_ue c = (MPP_OK, c', of_nat (unat v))" "rem_bits c' = rest"
    using mpp_read_ue_code [OF assms] v by blast
  then show "\<exists>c'. mpp_read_ue c = (MPP_OK, c', v) \<and> rem_bits c' = rest" by simp
qed

lemma one_byte_ctx: "br_wf (mpp_set_bitread_ctx [b] 1)" "rem_bits (mpp_set_bitread_ctx [b] 1) = byte_bits b"
  by (simp_all add: mpp_set_bitread_ctx_def br_wf_def rem_bits_def br_payload_def unescape_no_detection)

theorem read_ue_exact_witness:
  "\<exists>c'. mpp_read_ue (mpp_set_bitread_ctx [0x2c] 1) = (MPP_OK, c', 4) \<and> rem_bits c' = [True, False, False]"
proof -
  have "byte_bits 0x2c = ue_bits (unat (4 :: u32)) @ [True, False, False]" by code_simp
  then show ?thesis using read_ue_exact [OF one_byte_ctx(1)] one_byte_ctx(2) by simp
qed

text \<open>
  C36: \<open>mpp_read_se\<close> returns the signed value whose se code heads the stream and leaves the rest,
  for every value of magnitude below \<open>2 ^ 31\<close>.
\<close>

theorem read_se_decodes:
  assumes "br_wf c" and "rem_bits c = se_bits x @ rest" and "\<bar>x\<bar> < 2 ^ 31"
  shows "\<exists>c'. mpp_read_se c = (MPP_OK, c', x) \<and> br_wf c' \<and> rem_bits c' = rest"
  using mpp_read_se_code [OF assms] by (metis advanced_def)

theorem read_se_decodes_witness:
  "\<exists>c'. mpp_read_se (mpp_set_bitread_ctx [0x2c] 1) = (MPP_OK, c', - 2) \<and> br_wf c'
     \<and> rem_bits c' = [True, False, False]"
proof -
  have "byte_bits 0x2c = se_bits (- 2) @ [True, False, False]" by code_simp
  then show ?thesis using read_se_decodes [OF one_byte_ctx(1)] one_byte_ctx(2) by simp
qed

text \<open>
  C27: on a well formed payload that ends with the stop bit and fewer than eight alignment zeros,
  \<open>mpp_has_more_rbsp_data\<close> answers whether syntax elements remain before the stop bit, and
  consumes nothing.
\<close>

theorem has_more_rbsp_data_exact:
  assumes "br_wf c" and "rem_bits c = xs @ True # replicate k False" and "k < 8"
  shows "fst (mpp_has_more_rbsp_data c) = (xs \<noteq> [])
     \<and> br_wf (snd (mpp_has_more_rbsp_data c)) \<and> rem_bits (snd (mpp_has_more_rbsp_data c)) = rem_bits c"
proof -
  obtain c' where "mpp_has_more_rbsp_data c = (xs \<noteq> [], c')" "advanced c [] c'"
    using mpp_has_more_rbsp_data_ok [OF assms] .
  then show ?thesis by (simp add: advanced_def)
qed

theorem has_more_rbsp_data_exact_witness:
  "\<not> fst (mpp_has_more_rbsp_data (mpp_set_bitread_ctx [0x80] 1))"
proof -
  have "byte_bits 0x80 = [] @ True # replicate 7 False" by code_simp
  then show ?thesis using has_more_rbsp_data_exact [OF one_byte_ctx(1) [of 128], of "[]" 7] one_byte_ctx(2) by simp
qed

text \<open>
  The width is not respected below 32, against the comment of mpp_bitread.h: the 24 bits
  \<open>0x010203\<close> are returned as \<open>0x01020003\<close>.
\<close>

lemma longbits_24_misplaced: "longbits_val (msb_bits 24 (0x010203 :: u32)) = 0x01020003"
  by code_simp

text \<open>
  A long read of 16 to 32 bits consumes exactly those bits and returns their first 16 in the
  high half and the others in the low half, which is the value of the bits at width 32 and is
  not at width 24.
\<close>

theorem read_longbits_value:
  assumes "br_wf c" and "rem_bits c = bs @ rest" and "length bs = n" and "16 \<le> n" and "n \<le> 32"
  shows "(\<exists>c'. mpp_read_longbits c (int n) = (MPP_OK, c', longbits_val bs) \<and> br_wf c' \<and> rem_bits c' = rest)
    \<and> (n = 32 \<longrightarrow> longbits_val bs = bits_val bs)
    \<and> longbits_val (msb_bits 24 (0x010203 :: u32)) \<noteq> 0x010203"
  using mpp_read_longbits_ok [OF assms] longbits_val_32 [of bs] assms(3) longbits_24_misplaced
  by (auto simp: advanced_def)

theorem read_longbits_value_witness:
  "\<exists>c'. mpp_read_longbits demo_ctx 32 = (MPP_OK, c', 0x14c) \<and> br_wf c' \<and> rem_bits c' = bytes_bits [0x80]"
proof -
  have "longbits_val (bytes_bits [0, 0, 1, 0x4c]) = 0x14c" by code_simp
  then show ?thesis
    using read_longbits_value [OF demo_ctx_wf, of "bytes_bits [0, 0, 1, 0x4c]" "bytes_bits [0x80]" 32]
    by (simp add: demo_ctx_bits)
qed

text \<open>
  C37: skipping at most 31 bits moves the context exactly as reading them does, errors included,
  and showing bits returns what a read would and leaves the context as it was.
\<close>

theorem skip_show_like_read:
  assumes "n \<le> 31"
  shows "mpp_skip_bits c n = (fst (mpp_read_bits c n), fst (snd (mpp_read_bits c n)))
    \<and> mpp_show_bits c n = (fst (mpp_read_bits c n), c, snd (snd (mpp_read_bits c n)))"
  using mpp_skip_bits_read [OF assms, of c] mpp_show_bits_value [OF assms, of c]
  by (simp add: case_prod_unfold)

theorem skip_show_like_read_witness:
  "fst (mpp_skip_bits demo_ctx 5) = MPP_OK \<and> mpp_show_bits demo_ctx 24 = (MPP_OK, demo_ctx, 1)"
  using skip_show_like_read [of 5 demo_ctx] skip_show_like_read [of 24 demo_ctx]
  by (simp, code_simp)

end
