(* ===== verification/BitSink.thy ===== *)
theory BitSink
  imports Golomb
begin

text \<open>
  The interface of the three bit writers of the encoders (rkvenc stream, VEPU stream, JPEG
  header bits): one operation that appends the low \<open>n\<close> bits of a word, a bit string abstraction
  of the state, and the room left in the buffer. A header writer is a list of operations
  performed in order; \<open>emits f bs\<close> says that \<open>f\<close> appends exactly \<open>bs\<close> whenever there is room for
  them, and is closed under composition.
\<close>

section \<open>Bits of conditional statements\<close>

text \<open>The bits a list of statements emits are those of its statements, in order.\<close>

definition bits_if :: "bool \<Rightarrow> bool list list \<Rightarrow> bool list" where
  "bits_if b bss = (if b then concat bss else [])"

section \<open>The interface\<close>

locale bit_sink =
  fixes put :: "nat \<Rightarrow> u32 \<Rightarrow> 's \<Rightarrow> 's"
    and bits :: "'s \<Rightarrow> bool list"
    and ok :: "'s \<Rightarrow> bool"
    and room :: "'s \<Rightarrow> nat"
    and maxw :: nat
  assumes put_law: "ok s \<Longrightarrow> n \<le> maxw \<Longrightarrow> unat v < 2 ^ n \<Longrightarrow> n \<le> room s \<Longrightarrow>
      ok (put n v s) \<and> bits (put n v s) = bits s @ msb_bits n v \<and> room s \<le> room (put n v s) + n"
    and maxw_le: "maxw \<le> 31"
begin

definition emits :: "('s \<Rightarrow> 's) \<Rightarrow> bool list \<Rightarrow> bool" where
  "emits f bs \<longleftrightarrow> (\<forall>s. ok s \<longrightarrow> length bs \<le> room s \<longrightarrow>
     ok (f s) \<and> bits (f s) = bits s @ bs \<and> room s \<le> room (f s) + length bs)"

lemma emitsD:
  assumes "emits f bs" and "ok s" and "length bs \<le> room s"
  shows "ok (f s)" and "bits (f s) = bits s @ bs" and "room s \<le> room (f s) + length bs"
  using assms by (auto simp: emits_def)

lemma emits_id [intro]: "emits (\<lambda>s. s) []"
  by (simp add: emits_def)

lemma emits_comp:
  assumes f: "emits f xs" and g: "emits g ys"
  shows "emits (\<lambda>s. g (f s)) (xs @ ys)"
  unfolding emits_def
proof (intro allI impI)
  fix s assume s: "ok s" "length (xs @ ys) \<le> room s"
  then have "length xs \<le> room s" by simp
  note f = emitsD [OF f s(1) this]
  with s(2) have "length ys \<le> room (f s)" by simp
  from emitsD [OF g f(1) this] f show "ok (g (f s)) \<and> bits (g (f s)) = bits s @ xs @ ys
      \<and> room s \<le> room (g (f s)) + length (xs @ ys)" by simp
qed

lemma emits_run:
  assumes "list_all2 emits fs bss"
  shows "emits (run fs) (concat bss)"
  using assms
proof (induction fs bss rule: list_all2_induct)
  case Nil
  then show ?case by (simp add: emits_id)
next
  case (Cons f fs bs bss)
  from emits_comp [OF Cons(1,3)] show ?case by simp
qed

lemma emits_run_if:
  assumes "b \<Longrightarrow> list_all2 emits fs bss"
  shows "emits (run_if b fs) (bits_if b bss)"
  using assms emits_run [of fs bss] by (cases b) (auto simp: bits_if_def)

lemma emits_put:
  assumes "n \<le> maxw" and "unat v < 2 ^ n"
  shows "emits (put n v) (msb_bits n v)"
  using put_law assms by (auto simp: emits_def)

lemma emits_put_int:
  assumes "n \<le> maxw" and "0 \<le> x" and "x < 2 ^ n"
  shows "emits (put n (word_of_int x)) (msb_bits n x)"
proof -
  have n: "n \<le> 31" using assms(1) maxw_le by simp
  then have "x < 2 ^ 31" using assms(3) power_increasing [of n 31 "2 :: int"] by linarith
  then have "unat (word_of_int x :: u32) = nat x"
    using assms(2) by (intro unat_of_int_u32) simp_all
  moreover have "nat x < 2 ^ n" using assms(2,3) by (simp add: nat_less_iff)
  moreover have "msb_bits n (word_of_int x :: u32) = msb_bits n x"
    using n by (intro msb_bits_cong) (simp add: bit_word_of_int_iff)
  ultimately show ?thesis using emits_put [OF assms(1), of "word_of_int x"] by simp
qed

lemma emits_zeros: "n \<le> maxw \<Longrightarrow> emits (put n 0) (replicate n False)"
  using emits_put [of n 0] by simp

lemma emits_put_flag: "1 \<le> maxw \<Longrightarrow> emits (put 1 (of_bool b)) [b]"
  using emits_put [of 1 "of_bool b"] by (cases b) simp_all

text \<open>Reading back what a sequence of operations has appended to an empty sink.\<close>

lemma emits_total:
  assumes "emits f bs" and "ok s" and "length bs \<le> room s" and "bits s = []"
  shows "bits (f s) = bs"
  using emitsD [OF assms(1-3)] assms(4) by simp

end

end
