(* ===== verification/RkvStream.thy ===== *)
theory RkvStream
  imports BitSink
begin

text \<open>
  The bit writer of the RKVENC header generation, mpp/hal/rkenc/h264e/hal_h264e_rkv_stream.c.
  \<open>rkv_stream\<close> is \<open>H264eRkvStream\<close>: the pointers are offsets into \<open>rs_buf\<close>, the memory that
  \<open>mpp_calloc\<close> returned at address \<open>rs_addr\<close>, so that alignment tests see the address. Counts
  that are never negative are \<open>nat\<close>. The functions always return \<open>MPP_OK\<close> and their result here is
  the stream. A word of which \<open>i_left\<close> bits are free is shifted in at the right; the bits above
  the used ones are never looked at, so the shift by 32 of the initialisation (undefined in C
  when the buffer is aligned) does not matter.
\<close>

section \<open>The stream\<close>

record rkv_stream =
  rs_buf :: "u8 list"
  rs_addr :: nat
  rs_buf_plus8 :: nat
  rs_p_start :: nat
  rs_p :: nat
  rs_cur_bits :: u32
  rs_i_left :: nat
  rs_count_bit :: u32

definition H264E_EXTRA_INFO_BUF_SIZE :: nat where
  "H264E_EXTRA_INFO_BUF_SIZE = 512 + 1024"

definition h264e_ue_size_tab :: "nat list" where
  "h264e_ue_size_tab = replicate 2 1 @ replicate 2 3 @ replicate 4 5 @ replicate 8 7
     @ replicate 16 9 @ replicate 32 11 @ replicate 64 13 @ replicate 128 15"

definition h264e_rkv_stream_get_pos :: "rkv_stream \<Rightarrow> nat" where
  "h264e_rkv_stream_get_pos s = 8 * (rs_p s - rs_p_start s) + 4 * 8 - rs_i_left s"

text \<open>The big-endian word at an offset, as the code assembles it.\<close>

definition load32 :: "u8 list \<Rightarrow> nat \<Rightarrow> u32" where
  "load32 m q = push_bit 24 (ucast (m ! q)) + push_bit 16 (ucast (m ! (q + 1)))
     + push_bit 8 (ucast (m ! (q + 2))) + ucast (m ! (q + 3))"

definition h264e_rkv_stream_init :: "nat \<Rightarrow> rkv_stream" where
  "h264e_rkv_stream_init addr =
    (let offset = (addr + 8) mod 4; q = 8 - offset;
         buf = replicate H264E_EXTRA_INFO_BUF_SIZE 0
     in \<lparr>rs_buf = buf, rs_addr = addr, rs_buf_plus8 = 8, rs_p_start = q, rs_p = q,
         rs_cur_bits = drop_bit ((4 - offset) * 8) (load32 buf q), rs_i_left = (4 - offset) * 8,
         rs_count_bit = 0\<rparr>)"

definition h264e_rkv_stream_deinit :: "rkv_stream \<Rightarrow> rkv_stream" where
  "h264e_rkv_stream_deinit s =
    s\<lparr>rs_buf := [], rs_p := 0, rs_p_start := 0, rs_i_left := 0, rs_cur_bits := 0,
      rs_count_bit := 0\<rparr>"

definition h264e_rkv_stream_reset :: "rkv_stream \<Rightarrow> rkv_stream" where
  "h264e_rkv_stream_reset s =
    (let offset = (rs_addr s + rs_buf_plus8 s) mod 4; q = rs_p_start s
     in s\<lparr>rs_p := q, rs_i_left := (4 - offset) * 8,
          rs_cur_bits := drop_bit ((4 - offset) * 8) (load32 (rs_buf s) q), rs_count_bit := 0\<rparr>)"

definition h264e_rkv_stream_realign :: "rkv_stream \<Rightarrow> rkv_stream" where
  "h264e_rkv_stream_realign s =
    (let offset = (rs_addr s + rs_p s) mod 4
     in if offset \<noteq> 0 then
          let q = rs_p s - offset
          in s\<lparr>rs_p := q, rs_i_left := (4 - offset) * 8,
               rs_cur_bits := drop_bit ((4 - offset) * 8) (load32 (rs_buf s) q)\<rparr>
        else s)"

definition h264e_rkv_stream_write_with_log :: "nat \<Rightarrow> u32 \<Rightarrow> rkv_stream \<Rightarrow> rkv_stream" where
  "h264e_rkv_stream_write_with_log i_count val s =
    (let s = s\<lparr>rs_count_bit := rs_count_bit s + of_nat i_count\<rparr>
     in if i_count < rs_i_left s then
          s\<lparr>rs_cur_bits := push_bit i_count (rs_cur_bits s) OR val,
            rs_i_left := rs_i_left s - i_count\<rparr>
        else
          let i_count = i_count - rs_i_left s;
              cur = push_bit (rs_i_left s) (rs_cur_bits s) OR drop_bit i_count val
          in s\<lparr>rs_buf := store (rs_buf s) (rs_p s) (be32_bytes cur), rs_p := rs_p s + 4,
               rs_cur_bits := val, rs_i_left := 32 - i_count\<rparr>)"

definition h264e_rkv_stream_write1_with_log :: "u32 \<Rightarrow> rkv_stream \<Rightarrow> rkv_stream" where
  "h264e_rkv_stream_write1_with_log val s =
    (let s = s\<lparr>rs_count_bit := rs_count_bit s + 1,
               rs_cur_bits := push_bit 1 (rs_cur_bits s) OR val, rs_i_left := rs_i_left s - 1\<rparr>
     in if rs_i_left s = 4 * 8 - 32 then
          s\<lparr>rs_buf := store (rs_buf s) (rs_p s) (be32_bytes (rs_cur_bits s)),
            rs_p := rs_p s + 4, rs_i_left := 4 * 8\<rparr>
        else s)"

definition h264e_rkv_stream_write_ue_with_log :: "u32 \<Rightarrow> rkv_stream \<Rightarrow> rkv_stream" where
  "h264e_rkv_stream_write_ue_with_log val s =
    (let val = val + 1; tmp = sint val;
         (size1, tmp) = (if tmp \<ge> 0x10000 then (32, drop_bit 16 tmp) else (0, tmp));
         (size2, tmp) = (if tmp \<ge> 0x100 then (size1 + 16, drop_bit 8 tmp) else (size1, tmp));
         size3 = size2 + h264e_ue_size_tab ! nat tmp;
         s = h264e_rkv_stream_write_with_log (drop_bit 1 size3) 0 s
     in h264e_rkv_stream_write_with_log (drop_bit 1 size3 + 1) val s)"

definition h264e_rkv_stream_write_se_with_log :: "int \<Rightarrow> rkv_stream \<Rightarrow> rkv_stream" where
  "h264e_rkv_stream_write_se_with_log val s =
    (let tmp = 1 - val * 2; tmp = (if tmp < 0 then val * 2 else tmp); val = tmp;
         (size1, tmp) = (if tmp \<ge> 0x100 then (16, drop_bit 8 tmp) else (0, tmp));
         size2 = size1 + h264e_ue_size_tab ! nat tmp
     in h264e_rkv_stream_write_with_log size2 (word_of_int val) s)"

definition h264e_rkv_stream_write32 :: "u32 \<Rightarrow> rkv_stream \<Rightarrow> rkv_stream" where
  "h264e_rkv_stream_write32 i_bits s =
     h264e_rkv_stream_write_with_log 16 i_bits
       (h264e_rkv_stream_write_with_log 16 (drop_bit 16 i_bits) s)"

definition h264e_rkv_stream_size_se :: "int \<Rightarrow> nat" where
  "h264e_rkv_stream_size_se val =
    (let tmp = 1 - val * 2; tmp = (if tmp < 0 then val * 2 else tmp)
     in if tmp < 256 then h264e_ue_size_tab ! nat tmp
        else h264e_ue_size_tab ! nat (drop_bit 8 tmp) + 16)"

definition h264e_rkv_stream_rbsp_trailing :: "rkv_stream \<Rightarrow> rkv_stream" where
  "h264e_rkv_stream_rbsp_trailing s =
    (let s = h264e_rkv_stream_write1_with_log 1 s
     in h264e_rkv_stream_write_with_log (rs_i_left s AND 7) 0 s)"

definition h264e_rkv_stream_flush :: "rkv_stream \<Rightarrow> rkv_stream" where
  "h264e_rkv_stream_flush s =
    (let tmp_bit = push_bit (rs_i_left s AND 31) (rs_cur_bits s)
     in s\<lparr>rs_buf := store (rs_buf s) (rs_p s) (be32_bytes tmp_bit),
          rs_p := rs_p s + (4 - drop_bit 3 (rs_i_left s)), rs_i_left := 4 * 8\<rparr>)"

section \<open>The bits written\<close>

definition rkv_bits :: "rkv_stream \<Rightarrow> bool list" where
  "rkv_bits s = bytes_bits (seg (rs_buf s) (rs_p_start s) (rs_p s))
     @ msb_bits (32 - rs_i_left s) (rs_cur_bits s)"

text \<open>
  The invariant, for a buffer at an address that is a multiple of 4, as every allocator returns:
  the stream then starts at \<open>buf_plus8\<close>.
\<close>

definition rkv_ok :: "rkv_stream \<Rightarrow> bool" where
  "rkv_ok s \<longleftrightarrow> rs_addr s mod 4 = 0 \<and> rs_buf_plus8 s = 8 \<and> rs_p_start s = 8
     \<and> length (rs_buf s) = H264E_EXTRA_INFO_BUF_SIZE
     \<and> rs_p_start s \<le> rs_p s \<and> rs_p s \<le> length (rs_buf s) \<and> 0 < rs_i_left s \<and> rs_i_left s \<le> 32"

definition rkv_room :: "rkv_stream \<Rightarrow> nat" where
  "rkv_room s = 32 * ((length (rs_buf s) - rs_p s) div 4) - (32 - rs_i_left s)"

lemma msb_bits_or_compat:
  fixes x y :: u32
  assumes "m + n \<le> 32" and "\<And>i. i < m \<Longrightarrow> bit y (n + i) \<Longrightarrow> bit x i"
  shows "msb_bits (m + n) (push_bit n x OR y) = msb_bits m x @ msb_bits n y"
proof -
  have "msb_bits m (drop_bit n (push_bit n x OR y)) = msb_bits m x"
    by (rule msb_bits_cong)
      (use assms in \<open>auto simp: bit_drop_bit_eq bit_or_iff bit_push_bit_iff\<close>)
  moreover have "msb_bits n (push_bit n x OR y) = msb_bits n y"
    by (rule msb_bits_cong) (simp add: bit_or_iff bit_push_bit_iff)
  ultimately show ?thesis by (simp add: msb_bits_add)
qed

text \<open>
  The condition on a value wider than the width is what \<open>write32\<close> relies on: the bits it puts
  over the ones written before are the same bits.
\<close>

lemma rkv_write_compat:
  assumes ok: "rkv_ok s" and n: "n \<le> 31" and room: "n \<le> rkv_room s"
    and v: "\<And>i. i < 32 - rs_i_left s \<Longrightarrow> bit v (n + i) \<Longrightarrow> bit (rs_cur_bits s) i"
  defines "s' \<equiv> h264e_rkv_stream_write_with_log n v s"
  shows "rkv_ok s' \<and> rkv_bits s' = rkv_bits s @ msb_bits n v \<and> rkv_room s = rkv_room s' + n"
proof (cases "n < rs_i_left s")
  case True
  have "msb_bits (32 - rs_i_left s + n) (push_bit n (rs_cur_bits s) OR v)
      = msb_bits (32 - rs_i_left s) (rs_cur_bits s) @ msb_bits n v"
    using v True ok by (intro msb_bits_or_compat) (auto simp: rkv_ok_def)
  moreover have i: "32 - (rs_i_left s - n) = 32 - rs_i_left s + n" using True ok by (simp add: rkv_ok_def)
  moreover have s': "s' = s\<lparr>rs_count_bit := rs_count_bit s + of_nat n,
      rs_cur_bits := push_bit n (rs_cur_bits s) OR v, rs_i_left := rs_i_left s - n\<rparr>"
    using True by (simp add: s'_def h264e_rkv_stream_write_with_log_def Let_def)
  ultimately have "rkv_bits s' = rkv_bits s @ msb_bits n v" by (simp add: rkv_bits_def)
  moreover have "rkv_ok s'" using True ok by (auto simp: s' rkv_ok_def)
  moreover have "rkv_room s = rkv_room s' + n" using room by (simp add: s' rkv_room_def i flip: diff_diff_left)
  ultimately show ?thesis by simp
next
  case False
  define k where "k = n - rs_i_left s"
  have nk: "n = rs_i_left s + k" and i: "0 < rs_i_left s" "rs_i_left s \<le> 31" "k < 32"
    using False n ok by (auto simp: k_def rkv_ok_def)
  let ?cur = "push_bit (rs_i_left s) (rs_cur_bits s) OR drop_bit k v"
  have "msb_bits (32 - rs_i_left s + rs_i_left s) ?cur
      = msb_bits (32 - rs_i_left s) (rs_cur_bits s) @ msb_bits (rs_i_left s) (drop_bit k v)"
    using v i by (intro msb_bits_or_compat) (auto simp: bit_drop_bit_eq nk add_ac)
  then have word: "bytes_bits (be32_bytes ?cur)
      = msb_bits (32 - rs_i_left s) (rs_cur_bits s) @ msb_bits (rs_i_left s) (drop_bit k v)"
    using i by (simp add: bytes_bits_be32)
  have split: "msb_bits n v = msb_bits (rs_i_left s) (drop_bit k v) @ msb_bits k v"
    by (simp add: nk msb_bits_add)
  have "0 < (length (rs_buf s) - rs_p s) div 4"
    using room nk i by (cases "(length (rs_buf s) - rs_p s) div 4") (simp_all add: rkv_room_def)
  then have p: "rs_p s + 4 \<le> length (rs_buf s)" by (simp add: div_greater_zero_iff)
  have rp: "(length (rs_buf s) - rs_p s) div 4 = Suc ((length (rs_buf s) - (rs_p s + 4)) div 4)"
    using p le_div_geq [of 4 "length (rs_buf s) - rs_p s"] by simp
  have "s' = s\<lparr>rs_count_bit := rs_count_bit s + of_nat n,
      rs_buf := store (rs_buf s) (rs_p s) (be32_bytes ?cur), rs_p := rs_p s + 4,
      rs_cur_bits := v, rs_i_left := 32 - k\<rparr>"
    using False by (simp add: s'_def h264e_rkv_stream_write_with_log_def Let_def k_def)
  then show ?thesis using ok p i room rp nk word split
      seg_store_end [of "rs_p_start s" "rs_p s" "be32_bytes ?cur" "rs_buf s"]
    by (simp add: rkv_ok_def rkv_bits_def rkv_room_def)
qed

lemma rkv_write:
  assumes "rkv_ok s" and "n \<le> 31" and "unat v < 2 ^ n" and "n \<le> rkv_room s"
  defines "s' \<equiv> h264e_rkv_stream_write_with_log n v s"
  shows "rkv_ok s' \<and> rkv_bits s' = rkv_bits s @ msb_bits n v \<and> rkv_room s = rkv_room s' + n"
proof -
  have "\<not> bit v (n + i)" for i
    using assms(3) by (rule not_bit_above)
  with assms show ?thesis unfolding s'_def by (intro rkv_write_compat) auto
qed

interpretation rkv: bit_sink h264e_rkv_stream_write_with_log rkv_bits rkv_ok rkv_room 31
  by unfold_locales (use rkv_write in auto)

lemma write1_write:
  assumes "rkv_ok s" and "unat v < 2"
  shows "rkv_bits (h264e_rkv_stream_write1_with_log v s) = rkv_bits (h264e_rkv_stream_write_with_log 1 v s)"
    and "rkv_room (h264e_rkv_stream_write1_with_log v s) = rkv_room (h264e_rkv_stream_write_with_log 1 v s)"
    and "rkv_ok (h264e_rkv_stream_write1_with_log v s) = rkv_ok (h264e_rkv_stream_write_with_log 1 v s)"
proof -
  from assms(1) consider "rs_i_left s = 1" | "1 < rs_i_left s" unfolding rkv_ok_def by linarith
  note * = this
  show "rkv_bits (h264e_rkv_stream_write1_with_log v s) = rkv_bits (h264e_rkv_stream_write_with_log 1 v s)"
    using * by cases (simp_all add: h264e_rkv_stream_write1_with_log_def
        h264e_rkv_stream_write_with_log_def Let_def rkv_bits_def)
  show "rkv_room (h264e_rkv_stream_write1_with_log v s) = rkv_room (h264e_rkv_stream_write_with_log 1 v s)"
    using * by cases (simp_all add: h264e_rkv_stream_write1_with_log_def
        h264e_rkv_stream_write_with_log_def Let_def rkv_room_def)
  show "rkv_ok (h264e_rkv_stream_write1_with_log v s) = rkv_ok (h264e_rkv_stream_write_with_log 1 v s)"
    using * by cases (simp_all add: h264e_rkv_stream_write1_with_log_def
        h264e_rkv_stream_write_with_log_def Let_def rkv_ok_def)
qed

lemma emits_write1: "unat v < 2 \<Longrightarrow> rkv.emits (h264e_rkv_stream_write1_with_log v) (msb_bits 1 v)"
  using rkv.emits_put [of 1 v] write1_write [of _ v] by (simp add: rkv.emits_def)

lemma emits_write1_int:
  assumes "x = 0 \<or> x = 1"
  shows "rkv.emits (h264e_rkv_stream_write1_with_log (word_of_int x)) [x = 1]"
  using assms emits_write1 [of "word_of_int x"] by auto

section \<open>Exp-Golomb codes\<close>

lemma ue_size_tab: "0 < t \<Longrightarrow> t < 256 \<Longrightarrow> h264e_ue_size_tab ! t = 2 * bit_len t - 1"
proof -
  assume t: "0 < t" "t < 256"
  then consider "t < 2" | "2 \<le> t" "t < 4" | "4 \<le> t" "t < 8" | "8 \<le> t" "t < 16" | "16 \<le> t" "t < 32"
    | "32 \<le> t" "t < 64" | "64 \<le> t" "t < 128" | "128 \<le> t" by linarith
  then show ?thesis
    using t bit_len_unique [of 0 t] bit_len_unique [of 1 t] bit_len_unique [of 2 t]
      bit_len_unique [of 3 t] bit_len_unique [of 4 t] bit_len_unique [of 5 t]
      bit_len_unique [of 6 t] bit_len_unique [of 7 t]
    by cases (auto simp: h264e_ue_size_tab_def nth_append)
qed

lemma bit_len_shift: "2 ^ k \<le> n \<Longrightarrow> bit_len n = bit_len (n div 2 ^ k) + k"
proof (induction k arbitrary: n)
  case (Suc k)
  then have "2 ^ k \<le> n div 2" by (simp add: less_eq_div_iff_mult_less_eq mult.commute)
  moreover have "0 < n" using Suc.prems by (cases n) auto
  ultimately show ?case using Suc.IH [of "n div 2"] by (simp add: bit_len_pos div_mult2_eq)
qed simp

text \<open>The size computation by table lookups is the length of the code.\<close>

definition ue_size :: "int \<Rightarrow> nat" where
  "ue_size tmp =
    (let (size1, tmp) = (if tmp \<ge> 0x10000 then (32, drop_bit 16 tmp) else (0, tmp));
         (size2, tmp) = (if tmp \<ge> 0x100 then (size1 + 16, drop_bit 8 tmp) else (size1, tmp))
     in size2 + h264e_ue_size_tab ! nat tmp)"

lemma drop_bit_int_nat: "drop_bit k (int n) = int (n div 2 ^ k)"
  by (simp add: drop_bit_eq_div zdiv_int)

lemma ue_size_small: "0 < t \<Longrightarrow> t < 2 ^ 16 \<Longrightarrow>
   (if 2 ^ 8 \<le> t then 16 + h264e_ue_size_tab ! (t div 2 ^ 8) else h264e_ue_size_tab ! t) = 2 * bit_len t - 1"
  using bit_len_shift [of 8 t] bit_len_gt0 [of "t div 2 ^ 8"]
  by (auto simp: ue_size_tab div_greater_zero_iff less_mult_imp_div_less)

lemma ue_size_bit_len:
  assumes "0 < t" and "t < 2 ^ 32"
  shows "ue_size (int t) = 2 * bit_len t - 1"
proof (cases "2 ^ 16 \<le> t")
  case True
  then have "0 < t div 2 ^ 16" "t div 2 ^ 16 < 2 ^ 16"
    using assms(2) by (auto simp: div_greater_zero_iff less_mult_imp_div_less)
  note small = ue_size_small [OF this] and pos = bit_len_gt0 [OF this(1)]
  have "16 + (2 * bit_len (t div 2 ^ 16) - 1) + 16 = 2 * bit_len t - 1"
    using pos bit_len_shift [OF True] by linarith
  with small [symmetric] True show ?thesis
    by (auto simp: ue_size_def drop_bit_int_nat split: if_splits)
next
  case False
  with ue_size_small [OF assms(1)] show ?thesis
    by (auto simp: ue_size_def drop_bit_int_nat split: if_splits)
qed

lemma write_ue_puts:
  "h264e_rkv_stream_write_ue_with_log val s =
     (let n = ue_size (sint (val + 1)) div 2
      in h264e_rkv_stream_write_with_log (n + 1) (val + 1) (h264e_rkv_stream_write_with_log n 0 s))"
proof -
  define z where "z = sint (val + 1)"
  show ?thesis unfolding h264e_rkv_stream_write_ue_with_log_def ue_size_def Let_def z_def [symmetric]
    by (cases "z \<ge> 0x10000"; cases "drop_bit 16 z \<ge> 0x100"; cases "z \<ge> 0x100")
      (simp_all add: drop_bit_Suc [of 0, simplified])
qed

lemma ue_bits_eq: "ue_bits v = replicate (bit_len (v + 1) - 1) False @ msb_bits (bit_len (v + 1)) (v + 1)"
  by (simp add: ue_bits_def)

lemma emits_write_ue:
  assumes "x < 2 ^ 31 - 1"
  shows "rkv.emits (h264e_rkv_stream_write_ue_with_log (of_nat x)) (ue_bits x)"
proof -
  define L where "L = bit_len (x + 1)"
  have x: "x + 1 < 2 ^ 31" using assms by simp
  have L: "L \<le> 31" "0 < L" using bit_len_le [OF x] bit_len_gt0 [of "x + 1"] by (simp_all add: L_def)
  have "sint (of_nat x + 1 :: u32) = int (x + 1)"
    using sint_of_nat_u32 [of "x + 1"] x by (simp add: add.commute)
  then have n: "ue_size (sint (of_nat x + 1 :: u32)) div 2 = L - 1"
    using ue_size_bit_len [of "x + 1"] x L by (simp add: L_def)
  have u: "unat (of_nat x + 1 :: u32) = x + 1" "(of_nat x + 1 :: u32) = of_nat (x + 1)"
    using unat_of_nat_u32 [of "x + 1"] x by (simp_all add: add.commute)
  have "msb_bits L (of_nat x + 1 :: u32) = msb_bits L (x + 1)"
    unfolding u(2) using L by (intro msb_bits_cong) (simp add: bit_of_nat_iff del: of_nat_add of_nat_Suc)
  then have "rkv.emits (h264e_rkv_stream_write_with_log L (of_nat x + 1)) (msb_bits L (x + 1))"
    using rkv.emits_put [of L "of_nat x + 1"] L bit_len_upper [of "x + 1"] by (simp add: u(1) L_def)
  from rkv.emits_comp [OF rkv.emits_zeros [of "L - 1"] this] L show ?thesis
    by (simp add: write_ue_puts [abs_def] Let_def n ue_bits_eq L_def)
qed

lemma msb_bits_pad:
  fixes x :: nat
  assumes "x < 2 ^ m"
  shows "msb_bits (k + m) x = replicate k False @ msb_bits m x"
proof -
  have "drop_bit m x = 0" using assms by (simp add: drop_bit_eq_div)
  then show ?thesis by (simp add: msb_bits_add)
qed

lemma se_tmp: "(if 1 - x * 2 < 0 then x * 2 else 1 - x * 2) = int (ue_of_se x + 1)"
  by (auto simp: ue_of_se_def)

lemma write_se_size:
  assumes "0 < t" and "t < 2 ^ 16"
  shows "(let (size1, tmp) = (if int t \<ge> 0x100 then (16, drop_bit 8 (int t)) else (0, int t))
          in size1 + h264e_ue_size_tab ! nat tmp) = 2 * bit_len t - 1"
  using ue_size_small [OF assms] by (auto simp: drop_bit_int_nat split: if_splits)

lemma size_se_length: "\<bar>x\<bar> < 2 ^ 15 \<Longrightarrow> h264e_rkv_stream_size_se x = length (se_bits x)"
proof -
  assume x: "\<bar>x\<bar> < 2 ^ 15"
  define t where "t = ue_of_se x + 1"
  have t: "0 < t" "t < 2 ^ 16" using x by (auto simp: t_def ue_of_se_def)
  have "length (se_bits x) = 2 * bit_len t - 1" by (simp add: se_bits_def length_ue_bits t_def)
  then show ?thesis using ue_size_small [OF t]
    unfolding h264e_rkv_stream_size_se_def Let_def se_tmp t_def [symmetric]
    by (auto simp: drop_bit_int_nat split: if_splits)
qed

lemma emits_write_se:
  assumes "\<bar>x\<bar> < 2 ^ 15"
  shows "rkv.emits (h264e_rkv_stream_write_se_with_log x) (se_bits x)"
proof -
  define t L where "t = ue_of_se x + 1" and "L = bit_len t"
  have t: "0 < t" "t < 2 ^ 16" using assms by (auto simp: t_def ue_of_se_def)
  have L: "0 < L" "L \<le> 16" using bit_len_gt0 [OF t(1)] bit_len_le [OF t(2)] by (simp_all add: L_def)
  have w: "h264e_rkv_stream_write_se_with_log x = h264e_rkv_stream_write_with_log (2 * L - 1) (of_nat t)"
    unfolding h264e_rkv_stream_write_se_with_log_def Let_def se_tmp t_def [symmetric]
    using write_se_size [OF t] by (auto simp: fun_eq_iff L_def)
  have "t < 2 ^ L" using bit_len_upper by (simp add: L_def)
  also have "(2::nat) ^ L \<le> 2 ^ (2 * L - 1)" using L by (intro power_increasing) auto
  finally have fit: "unat (of_nat t :: u32) < 2 ^ (2 * L - 1)" using t by (simp add: unat_of_nat_u32)
  have "msb_bits (2 * L - 1) (of_nat t :: u32) = msb_bits (2 * L - 1) t"
    using L by (intro msb_bits_cong) (auto simp: bit_of_nat_iff)
  also have "\<dots> = replicate (L - 1) False @ msb_bits L t"
  proof -
    have "2 * L - 1 = (L - 1) + L" using L by simp
    then show ?thesis using msb_bits_pad [of t L "L - 1"] bit_len_upper [of t] by (simp only: L_def)
  qed
  finally have "msb_bits (2 * L - 1) (of_nat t :: u32) = se_bits x"
    by (simp add: se_bits_def ue_bits_def L_def t_def)
  with rkv.emits_put [OF _ fit] L show ?thesis by (simp add: w)
qed

lemma rkv_write32:
  "rkv.emits (h264e_rkv_stream_write32 w) (msb_bits 32 w)"
  unfolding rkv.emits_def
proof (intro allI impI)
  fix s assume s: "rkv_ok s" "length (msb_bits 32 w) \<le> rkv_room s"
  let ?hi = "drop_bit 16 w" and ?s1 = "h264e_rkv_stream_write_with_log 16 (drop_bit 16 w) s"
  have "unat w < 2 ^ 16 * 2 ^ 16" using unsigned_less [of w] by simp
  then have "unat ?hi < 2 ^ 16" 
    unfolding unat_drop_bit_eq unfolding drop_bit_eq_div by (simp add: less_mult_imp_div_less)
  then have s1: "rkv_ok ?s1" "rkv_bits ?s1 = rkv_bits s @ msb_bits 16 ?hi" "rkv_room s = rkv_room ?s1 + 16"
    using rkv_write [of s 16 ?hi] s by simp_all
  have compat: "bit w (16 + i) \<Longrightarrow> bit (rs_cur_bits ?s1) i" if "i < 32 - rs_i_left ?s1" for i
    using that bit_imp_le_length [of w "16 + i"] by (auto simp: h264e_rkv_stream_write_with_log_def Let_def bit_or_iff bit_drop_bit_eq)
  have "16 \<le> rkv_room ?s1" using s1(3) s(2) by simp
  from rkv_write_compat [OF s1(1) _ this compat] s1 s(2)
  show "rkv_ok (h264e_rkv_stream_write32 w s)
      \<and> rkv_bits (h264e_rkv_stream_write32 w s) = rkv_bits s @ msb_bits 32 w
      \<and> rkv_room s \<le> rkv_room (h264e_rkv_stream_write32 w s) + length (msb_bits 32 w)"
    using msb_bits_add [of 16 16 w] by (simp add: h264e_rkv_stream_write32_def)
qed

section \<open>Trailing bits, flush, realignment\<close>

text \<open>The stop bit and the zeros up to the next byte boundary.\<close>

definition trailing_bits :: "nat \<Rightarrow> bool list" where
  "trailing_bits n = True # replicate (7 - n mod 8) False"

lemma length_rkv_bits:
  "rkv_ok s \<Longrightarrow> length (rkv_bits s) = 8 * (rs_p s - rs_p_start s) + (32 - rs_i_left s)"
  by (simp add: rkv_bits_def rkv_ok_def length_seg)

lemma get_pos_length: "rkv_ok s \<Longrightarrow> h264e_rkv_stream_get_pos s = length (rkv_bits s)"
  by (simp add: length_rkv_bits h264e_rkv_stream_get_pos_def rkv_ok_def)

lemma dvd_trailing: "8 dvd n + length (trailing_bits n)"
  unfolding trailing_bits_def by simp presburger

lemma pad_arith:
  assumes "n + 1 + x = 8 * (b :: nat)"
  shows "x mod 8 = 7 - n mod 8"
proof -
  have "8 dvd n mod 8 + 1 + x mod 8"
    using assms by (metis dvd_triv_left mod_add_left_eq mod_add_right_eq mod_eq_0_iff_dvd add.commute)
  moreover have "n mod 8 < 8" "x mod 8 < 8" by simp_all
  ultimately show ?thesis by (elim dvdE) (rename_tac k, case_tac k; simp; case_tac nat; simp)
qed

lemma rkv_trailing:
  assumes ok: "rkv_ok s" and room: "8 \<le> rkv_room s"
  defines "s' \<equiv> h264e_rkv_stream_rbsp_trailing s"
  shows "rkv_ok s'" and "rkv_bits s' = rkv_bits s @ trailing_bits (length (rkv_bits s))"
    and "rkv_room s \<le> rkv_room s' + 8" and "8 dvd rs_i_left s'"
proof -
  define s1 where "s1 = h264e_rkv_stream_write1_with_log 1 s"
  have r1: "length (msb_bits 1 (1 :: u32)) \<le> rkv_room s" using room by simp
  note e1 = rkv.emitsD [OF emits_write1 [of 1] ok r1, folded s1_def, simplified]
  define k where "k = rs_i_left s1 mod 8"
  have k: "rs_i_left s1 AND 7 = k" "k \<le> 7"
    using take_bit_eq_mask [of 3 "rs_i_left s1"]
    by (simp_all add: k_def take_bit_eq_mod mask_eq_exp_minus_1)
  have "length (rkv_bits s) + 1 = 8 * (rs_p s1 - rs_p_start s1) + (32 - rs_i_left s1)"
    using length_rkv_bits [OF e1(1)] e1(2) by simp
  moreover have "1 \<le> rs_i_left s1" "rs_i_left s1 \<le> 32" using e1(1) by (simp_all add: rkv_ok_def)
  ultimately have "length (rkv_bits s) + 1 + rs_i_left s1 = 8 * (rs_p s1 - rs_p_start s1 + 4)" by simp
  then have k': "k = 7 - length (rkv_bits s) mod 8" unfolding k_def by (rule pad_arith)
  have s': "s' = h264e_rkv_stream_write_with_log k 0 s1"
    by (simp add: s'_def h264e_rkv_stream_rbsp_trailing_def Let_def s1_def [symmetric] k)
  have r2: "length (replicate k False) \<le> rkv_room s1" using e1(3) room k by simp
  have k31: "k \<le> 31" using k by simp
  note e2 = rkv.emitsD [OF rkv.emits_zeros [OF k31] e1(1) r2, folded s']
  show ok': "rkv_ok s'" by (fact e2(1))
  show b': "rkv_bits s' = rkv_bits s @ trailing_bits (length (rkv_bits s))"
    using e1(2) e2(2) by (simp add: trailing_bits_def k')
  show "rkv_room s \<le> rkv_room s' + 8" using e1(3) e2(3) k by simp
  have "8 dvd length (rkv_bits s')" using dvd_trailing [of "length (rkv_bits s)"] by (simp add: b')
  then have "8 dvd 32 - rs_i_left s'"
    unfolding length_rkv_bits [OF ok'] by (simp add: dvd_add_right_iff)
  then show "8 dvd rs_i_left s'" using ok' unfolding rkv_ok_def by presburger
qed

text \<open>The state between two units: whole bytes only.\<close>

definition rkv_flushed :: "rkv_stream \<Rightarrow> bool" where
  "rkv_flushed s \<longleftrightarrow> rkv_ok s \<and> rs_i_left s = 32"

lemma rkv_flush:
  assumes ok: "rkv_ok s" and i: "8 dvd rs_i_left s" and p: "rs_p s + 4 \<le> length (rs_buf s)"
  defines "s' \<equiv> h264e_rkv_stream_flush s"
  shows "rkv_ok s'" and "rkv_bits s' = rkv_bits s" and "rs_i_left s' = 32"
    and "rs_p s' = rs_p s + (32 - rs_i_left s) div 8"
proof -
  obtain j where j: "rs_i_left s = 8 * j" using i by blast
  with ok have j4: "0 < j" "j \<le> 4" by (auto simp: rkv_ok_def)
  let ?w = "push_bit (rs_i_left s AND 31) (rs_cur_bits s)" and ?k = "4 - j"
  have s': "s' = s\<lparr>rs_buf := store (rs_buf s) (rs_p s) (be32_bytes ?w), rs_p := rs_p s + ?k, rs_i_left := 32\<rparr>"
    by (simp add: s'_def h264e_rkv_stream_flush_def Let_def j drop_bit_eq_div)
  show "rs_i_left s' = 32" "rs_p s' = rs_p s + (32 - rs_i_left s) div 8"
    using j4 by (simp_all add: s' j)
  show "rkv_ok s'" using ok p j4 by (auto simp: s' rkv_ok_def)
  have "rs_p_start s \<le> rs_p s" using ok by (simp add: rkv_ok_def)
  have "seg (store (rs_buf s) (rs_p s) (be32_bytes ?w)) (rs_p_start s) (rs_p s + ?k)
      = seg (rs_buf s) (rs_p_start s) (rs_p s) @ take ?k (be32_bytes ?w)"
    using p j4 \<open>rs_p_start s \<le> rs_p s\<close> by (intro seg_store_prefix) simp_all
  moreover have "bytes_bits (take ?k (be32_bytes ?w)) = msb_bits (32 - 8 * j) (rs_cur_bits s)"
  proof -
    have "bytes_bits (take ?k (be32_bytes ?w)) = msb_bits (8 * ?k) (drop_bit (32 - 8 * ?k) ?w)"
      by (simp add: take_bytes_bits [symmetric] bytes_bits_be32 msb_bits_take)
    moreover have "32 - 8 * ?k = 8 * j" "8 * ?k = 32 - 8 * j" using j4 by simp_all
    moreover have "msb_bits (32 - 8 * j) (drop_bit (8 * j) ?w) = msb_bits (32 - 8 * j) (rs_cur_bits s)"
    proof (cases "j = 4")
      case False
      then have "8 * j AND 31 = 8 * j"
        using j4 take_bit_eq_mask [of 5 "8 * j"] by (simp add: take_bit_eq_mod mask_eq_exp_minus_1)
      then show ?thesis using j4
        by (intro msb_bits_cong) (auto simp: j bit_drop_bit_eq bit_push_bit_iff)
    qed simp
    ultimately show ?thesis by simp
  qed
  ultimately show "rkv_bits s' = rkv_bits s"
    by (simp add: rkv_bits_def s' j)
qed

lemma load32_or: "load32 m q = push_bit 24 (ucast (m ! q)) OR push_bit 16 (ucast (m ! (q + 1)))
     OR push_bit 8 (ucast (m ! (q + 2))) OR ucast (m ! (q + 3))"
proof -
  have b: "bit (b :: u8) i \<Longrightarrow> i < 8" for b i using bit_imp_le_length [of b i] by simp
  have 1: "push_bit 24 (ucast (m ! q)) + push_bit 16 (ucast (m ! (q + 1)))
      = (push_bit 24 (ucast (m ! q)) OR push_bit 16 (ucast (m ! (q + 1))) :: u32)"
    by (rule disjunctive_add_eq_or)
      (auto simp: bit_eq_iff bit_and_iff bit_push_bit_iff bit_ucast_iff dest!: b)
  have 2: "(push_bit 24 (ucast (m ! q)) OR push_bit 16 (ucast (m ! (q + 1)))) + push_bit 8 (ucast (m ! (q + 2)))
      = (push_bit 24 (ucast (m ! q)) OR push_bit 16 (ucast (m ! (q + 1))) OR push_bit 8 (ucast (m ! (q + 2))) :: u32)"
    unfolding or.assoc [symmetric]
    by (rule disjunctive_add_eq_or)
      (auto simp: bit_eq_iff bit_and_iff bit_or_iff bit_push_bit_iff bit_ucast_iff dest!: b)
  have 3: "(push_bit 24 (ucast (m ! q)) OR push_bit 16 (ucast (m ! (q + 1))) OR push_bit 8 (ucast (m ! (q + 2)))) + ucast (m ! (q + 3))
      = (push_bit 24 (ucast (m ! q)) OR push_bit 16 (ucast (m ! (q + 1))) OR push_bit 8 (ucast (m ! (q + 2))) OR ucast (m ! (q + 3)) :: u32)"
    unfolding or.assoc [symmetric]
    by (rule disjunctive_add_eq_or)
      (auto simp: bit_eq_iff bit_and_iff bit_or_iff bit_push_bit_iff bit_ucast_iff dest!: b)
  show ?thesis unfolding load32_def 1 2 3 ..
qed

lemma msb_bits_load32:
  assumes "q + 4 \<le> length m"
  shows "msb_bits 32 (load32 m q) = bytes_bits (seg m q (q + 4))"
proof -
  have b: "bit (b :: u8) i \<Longrightarrow> i < 8" for b i using bit_imp_le_length [of b i] by simp
  have d: "drop q m = m ! q # m ! (q + 1) # m ! (q + 2) # m ! (q + 3) # drop (q + 4) m"
    using assms by (simp add: Cons_nth_drop_Suc [symmetric] numeral_eq_Suc)
  have "msb_bits 8 (drop_bit 24 (load32 m q)) = byte_bits (m ! q)"
    "msb_bits 8 (drop_bit 16 (load32 m q)) = byte_bits (m ! (q + 1))"
    "msb_bits 8 (drop_bit 8 (load32 m q)) = byte_bits (m ! (q + 2))"
    "msb_bits 8 (load32 m q) = byte_bits (m ! (q + 3))"
    unfolding byte_bits_def load32_or
    by (rule msb_bits_cong, auto simp: bit_drop_bit_eq bit_or_iff bit_push_bit_iff bit_ucast_iff dest: b)+
  moreover have "msb_bits 32 (load32 m q) = msb_bits 8 (drop_bit 24 (load32 m q)) @ msb_bits 8 (drop_bit 16 (load32 m q))
      @ msb_bits 8 (drop_bit 8 (load32 m q)) @ msb_bits 8 (load32 m q)"
    using msb_bits_add [of 8 24 "load32 m q"] msb_bits_add [of 8 16 "load32 m q"]
      msb_bits_add [of 8 8 "load32 m q"] by simp
  ultimately show ?thesis by (simp add: seg_def d)
qed

lemma rkv_realign:
  assumes f: "rkv_flushed s" and len: "rs_p s + 4 \<le> length (rs_buf s)"
  defines "s' \<equiv> h264e_rkv_stream_realign s"
  shows "rkv_ok s'" and "rkv_bits s' = rkv_bits s"
    and "rkv_room s' = 32 * ((length (rs_buf s) - (rs_p s - rs_p s mod 4)) div 4) - 8 * (rs_p s mod 4)"
    and "rs_p s' mod 4 = 0"
proof -
  define j where "j = rs_p s mod 4"
  have j: "j < 4" "j \<le> rs_p s" by (simp_all add: j_def)
  have ok: "rkv_ok s" "rs_i_left s = 32" using f by (simp_all add: rkv_flushed_def)
  have al: "(rs_addr s + x) mod 4 = x mod 4" for x
    using ok(1) by (simp add: rkv_ok_def mod_add_eq [of "rs_addr s", symmetric])
  define q where "q = rs_p s - j"
  have q4: "q mod 4 = 0" by (simp add: q_def j_def)
  have q: "8 \<le> q" "q + j = rs_p s" "q + 4 \<le> length (rs_buf s)"
    using j ok(1) len by (auto simp: q_def j_def rkv_ok_def) presburger
  have s': "s' = (if j = 0 then s else s\<lparr>rs_p := q, rs_i_left := (4 - j) * 8,
      rs_cur_bits := drop_bit ((4 - j) * 8) (load32 (rs_buf s) q)\<rparr>)"
    by (simp add: s'_def h264e_rkv_stream_realign_def Let_def al j_def q_def)
  have p': "rs_p s' = q" "rs_i_left s' = (4 - j) * 8" "rs_buf s' = rs_buf s" "rs_addr s' = rs_addr s"
      "rs_p_start s' = rs_p_start s" "rs_buf_plus8 s' = rs_buf_plus8 s"
    using q ok by (auto simp: s')
  have i': "32 - (4 - j) * 8 = 8 * j" using j by simp
  show "rkv_ok s'" using q j ok by (simp add: rkv_ok_def p')
  show "rs_p s' mod 4 = 0" by (simp add: p' q4)
  show "rkv_room s' = 32 * ((length (rs_buf s) - (rs_p s - rs_p s mod 4)) div 4) - 8 * (rs_p s mod 4)"
    unfolding rkv_room_def p' i' j_def [symmetric] q_def ..
  have cur: "msb_bits (8 * j) (rs_cur_bits s') = bytes_bits (seg (rs_buf s) q (rs_p s))"
  proof (cases "j = 0")
    case False
    have i'': "(4 - j) * 8 = 32 - 8 * j" using j by simp
    have "bytes_bits (seg (rs_buf s) q (rs_p s)) = take (8 * j) (bytes_bits (seg (rs_buf s) q (q + 4)))"
      using q j by (simp add: take_bytes_bits seg_def min_def flip: q(2))
    also have "\<dots> = msb_bits (8 * j) (drop_bit (32 - 8 * j) (load32 (rs_buf s) q))"
      using j by (simp add: msb_bits_load32 [OF q(3), symmetric] msb_bits_take)
    finally show ?thesis using False by (simp add: s' i'')
  qed (use q in simp)
  have "rkv_bits s' = bytes_bits (seg (rs_buf s) (rs_p_start s) q @ seg (rs_buf s) q (rs_p s))"
    by (simp add: rkv_bits_def p' i' cur)
  also have "\<dots> = rkv_bits s" using q ok(1) by (simp add: rkv_bits_def ok(2) seg_append rkv_ok_def)
  finally show "rkv_bits s' = rkv_bits s" .
qed

section \<open>A unit\<close>

text \<open>
  The frame of the three unit writers (SPS, PPS, SEI): realign, the syntax elements, the trailing
  bits, flush.
\<close>

lemma rkv_unit:
  assumes f: "rkv_flushed s" and e: "rkv.emits f bs"
    and room: "rs_p s + length bs div 8 + 16 \<le> length (rs_buf s)"
  defines "s' \<equiv> h264e_rkv_stream_flush (h264e_rkv_stream_rbsp_trailing
              (f (h264e_rkv_stream_realign (s\<lparr>rs_count_bit := 0\<rparr>))))"
  shows "rkv_flushed s'" and "rkv_bits s' = rkv_bits s @ bs @ trailing_bits (length bs)"
proof -
  let ?s = "s\<lparr>rs_count_bit := 0\<rparr>"
  define s0 where "s0 = h264e_rkv_stream_realign ?s"
  have f': "rkv_flushed ?s" "rs_p ?s + 4 \<le> length (rs_buf ?s)" "rkv_bits ?s = rkv_bits s"
    using f room by (simp_all add: rkv_flushed_def rkv_ok_def rkv_bits_def)
  note r = rkv_realign [OF f'(1,2), folded s0_def]
  have room0: "length bs + 48 \<le> rkv_room s0" using room unfolding r(3) by simp
  then have "length bs \<le> rkv_room s0" by simp
  note e = rkv.emitsD [OF e r(1) this]
  have "8 \<le> rkv_room (f s0)" using e(3) room0 by simp
  note t = rkv_trailing [OF e(1) this]
  have "0 < (length (rs_buf (h264e_rkv_stream_rbsp_trailing (f s0))) - rs_p (h264e_rkv_stream_rbsp_trailing (f s0))) div 4"
    using t(3) e(3) room0 by (intro gr0I) (auto simp: rkv_room_def)
  then have "rs_p (h264e_rkv_stream_rbsp_trailing (f s0)) + 4 \<le> length (rs_buf (h264e_rkv_stream_rbsp_trailing (f s0)))"
    by (simp add: div_greater_zero_iff)
  note u = rkv_flush [OF t(1,4) this]
  show "rkv_flushed s'" using u(1,3) by (simp add: rkv_flushed_def s'_def s0_def)
  have "length (rkv_bits s) mod 8 = 0"
    using f by (simp add: rkv_flushed_def length_rkv_bits)
  then have "trailing_bits (length (rkv_bits s) + length bs) = trailing_bits (length bs)"
    by (simp add: trailing_bits_def mod_add_left_eq [of "length (rkv_bits s)", symmetric])
  then show "rkv_bits s' = rkv_bits s @ bs @ trailing_bits (length bs)"
    using u(2) t(2) e(2) r(2) f'(3) by (simp add: s'_def s0_def)
qed

lemma rkv_flushed_p: "rkv_flushed s \<Longrightarrow> 8 * rs_p s = 64 + length (rkv_bits s)"
  by (auto simp: rkv_flushed_def length_rkv_bits) (auto simp: rkv_ok_def)

lemma rkv_init:
  assumes "addr mod 4 = 0"
  shows "rkv_flushed (h264e_rkv_stream_init addr)" and "rkv_bits (h264e_rkv_stream_init addr) = []"
proof -
  have "(addr + 8) mod 4 = 0" using assms by presburger
  with assms show "rkv_flushed (h264e_rkv_stream_init addr)" "rkv_bits (h264e_rkv_stream_init addr) = []"
    by (simp_all add: h264e_rkv_stream_init_def rkv_flushed_def rkv_ok_def rkv_bits_def Let_def
        H264E_EXTRA_INFO_BUF_SIZE_def)
qed

lemma rkv_reset:
  assumes "rkv_ok s"
  shows "rkv_flushed (h264e_rkv_stream_reset s)" and "rkv_bits (h264e_rkv_stream_reset s) = []"
proof -
  have "(rs_addr s + 8) mod 4 = 0" using assms unfolding rkv_ok_def by presburger
  with assms show "rkv_flushed (h264e_rkv_stream_reset s)" "rkv_bits (h264e_rkv_stream_reset s) = []"
    by (simp_all add: h264e_rkv_stream_reset_def rkv_flushed_def rkv_ok_def rkv_bits_def Let_def)
qed

end
