(* ===== verification/H264eCom.thy ===== *)
theory H264eCom
  imports Golomb "HOL-Library.Signed_Division"
begin

text \<open>
  The parameter sets of the H.264 encoders and their derivation from the user configuration:
  the structures of inc/rk_mpi_cmd.h and mpp/hal/common/h264/hal_h264e_com.h, and
  \<open>h264e_rkv_set_format\<close>, \<open>h264e_vpu_set_format\<close>, \<open>h264e_set_format\<close>, \<open>h264e_set_sps\<close>,
  \<open>h264e_set_pps\<close> of mpp/hal/common/h264/hal_h264e_com.c. Signed fields are \<open>int\<close>; of the large
  context structures the records keep the members these functions read or write.
\<close>

section \<open>Parameter sets\<close>

record vui_hrd =
  vh_cpb_cnt :: int
  vh_bit_rate_scale :: int
  vh_cpb_size_scale :: int
  vh_bit_rate_value :: int
  vh_cpb_size_value :: int
  vh_cbr_hrd :: int
  vh_initial_cpb_removal_delay_length :: int
  vh_cpb_removal_delay_length :: int
  vh_dpb_output_delay_length :: int
  vh_time_offset_length :: int

record h264e_vui =
  b_vui :: int
  b_aspect_ratio_info_present :: int
  i_sar_width :: int
  i_sar_height :: int
  b_overscan_info_present :: int
  b_overscan_info :: int
  b_signal_type_present :: int
  i_vidformat :: int
  b_fullrange :: int
  b_color_description_present :: int
  i_colorprim :: int
  i_transfer :: int
  i_colmatrix :: int
  b_chroma_loc_info_present :: int
  i_chroma_loc_top :: int
  i_chroma_loc_bottom :: int
  b_timing_info_present :: int
  i_num_units_in_tick :: u32
  i_time_scale :: u32
  b_fixed_frame_rate :: int
  b_nal_hrd_parameters_present :: int
  b_vcl_hrd_parameters_present :: int
  vui_hrd_params :: vui_hrd
  b_pic_struct_present :: int
  b_bitstream_restriction :: int
  b_motion_vectors_over_pic_boundaries :: int
  i_max_bytes_per_pic_denom :: int
  i_max_bits_per_mb_denom :: int
  i_log2_max_mv_length_horizontal :: int
  i_log2_max_mv_length_vertical :: int
  i_num_reorder_frames :: int
  i_max_dec_frame_buffering :: int

record crop_rect =
  crop_left :: int
  crop_right :: int
  crop_top :: int
  crop_bottom :: int

record h264e_sps =
  sps_id :: int
  i_profile_idc :: int
  i_level_idc :: int
  b_constraint_set0 :: int
  b_constraint_set1 :: int
  b_constraint_set2 :: int
  b_constraint_set3 :: int
  i_log2_max_frame_num :: int
  i_poc_type :: int
  i_log2_max_poc_lsb :: int
  i_num_ref_frames :: int
  b_gaps_in_frame_num_value_allowed :: int
  i_mb_width :: int
  i_mb_height :: int
  b_frame_mbs_only :: int
  b_mb_adaptive_frame_field :: int
  b_direct8x8_inference :: int
  b_crop :: int
  sps_crop :: crop_rect
  sps_vui :: h264e_vui
  b_qpprime_y_zero_transform_bypass :: int
  i_chroma_format_idc :: int
  keyframe_max_interval :: int

record h264e_pps =
  pps_id :: int
  pps_sps_id :: int
  b_cabac :: int
  b_pic_order :: int
  i_num_slice_groups :: int
  i_num_ref_idx_l0_default_active :: int
  i_num_ref_idx_l1_default_active :: int
  b_weighted_pred :: int
  i_weighted_bipred_idc :: int
  i_pic_init_qp :: int
  i_pic_init_qs :: int
  i_chroma_qp_index_offset :: int
  i_second_chroma_qp_index_offset :: int
  b_deblocking_filter_control :: int
  b_constrained_intra_pred :: int
  b_redundant_pic_cnt :: int
  b_transform_8x8_mode :: int
  b_cqm_preset :: int
  scaling_list :: "u8 list list"

section \<open>Input formats\<close>

text \<open>\<open>MppFrameFormat\<close>, and the members of \<open>H264eHwCfg\<close> the format decides.\<close>

datatype mpp_frame_format =
    MPP_FMT_YUV420SP | MPP_FMT_YUV420SP_10BIT | MPP_FMT_YUV422SP | MPP_FMT_YUV422SP_10BIT
  | MPP_FMT_YUV420P | MPP_FMT_YUV420SP_VU | MPP_FMT_YUV422P | MPP_FMT_YUV422SP_VU
  | MPP_FMT_YUV422_YUYV | MPP_FMT_YUV422_UYVY | MPP_FMT_YUV400SP | MPP_FMT_YUV440SP
  | MPP_FMT_YUV411SP | MPP_FMT_YUV444SP | MPP_FMT_YUV_BUTT
  | MPP_FMT_RGB565 | MPP_FMT_BGR565 | MPP_FMT_RGB555 | MPP_FMT_BGR555 | MPP_FMT_RGB444
  | MPP_FMT_BGR444 | MPP_FMT_RGB888 | MPP_FMT_BGR888 | MPP_FMT_RGB101010 | MPP_FMT_BGR101010
  | MPP_FMT_ARGB8888 | MPP_FMT_ABGR8888 | MPP_FMT_RGB_BUTT | MPP_FMT_YUV420_8Z4
  | MPP_FMT_COMPLEX_BUTT

datatype h264e_hw_type = H264E_RKV | H264E_VPU

record h264e_hw_cfg =
  hw_type :: h264e_hw_type
  input_format :: nat
  r_mask_msb :: int
  g_mask_msb :: int
  b_mask_msb :: int
  uv_rb_swap :: int
  alpha_swap :: int

text \<open>\<open>H264eRkvCsp\<close>, \<open>H264eVpuCsp\<close> and the colour space codes.\<close>

abbreviation (input) H264E_RKV_CSP_BGRA8888 :: nat where "H264E_RKV_CSP_BGRA8888 \<equiv> 0"
abbreviation (input) H264E_RKV_CSP_BGR888 :: nat where "H264E_RKV_CSP_BGR888 \<equiv> 1"
abbreviation (input) H264E_RKV_CSP_BGR565 :: nat where "H264E_RKV_CSP_BGR565 \<equiv> 2"
abbreviation (input) H264E_RKV_CSP_NONE :: nat where "H264E_RKV_CSP_NONE \<equiv> 3"
abbreviation (input) H264E_RKV_CSP_YUV422SP :: nat where "H264E_RKV_CSP_YUV422SP \<equiv> 4"
abbreviation (input) H264E_RKV_CSP_YUV422P :: nat where "H264E_RKV_CSP_YUV422P \<equiv> 5"
abbreviation (input) H264E_RKV_CSP_YUV420SP :: nat where "H264E_RKV_CSP_YUV420SP \<equiv> 6"
abbreviation (input) H264E_RKV_CSP_YUV420P :: nat where "H264E_RKV_CSP_YUV420P \<equiv> 7"
abbreviation (input) H264E_RKV_CSP_YUYV422 :: nat where "H264E_RKV_CSP_YUYV422 \<equiv> 8"
abbreviation (input) H264E_RKV_CSP_UYVY422 :: nat where "H264E_RKV_CSP_UYVY422 \<equiv> 9"

abbreviation (input) H264E_VPU_CSP_YUV420P :: nat where "H264E_VPU_CSP_YUV420P \<equiv> 0"
abbreviation (input) H264E_VPU_CSP_YUV420SP :: nat where "H264E_VPU_CSP_YUV420SP \<equiv> 1"
abbreviation (input) H264E_VPU_CSP_YUYV422 :: nat where "H264E_VPU_CSP_YUYV422 \<equiv> 2"
abbreviation (input) H264E_VPU_CSP_UYVY422 :: nat where "H264E_VPU_CSP_UYVY422 \<equiv> 3"
abbreviation (input) H264E_VPU_CSP_RGB565 :: nat where "H264E_VPU_CSP_RGB565 \<equiv> 4"
abbreviation (input) H264E_VPU_CSP_BGR565 :: nat where "H264E_VPU_CSP_BGR565 \<equiv> 5"
abbreviation (input) H264E_VPU_CSP_RGB555 :: nat where "H264E_VPU_CSP_RGB555 \<equiv> 6"
abbreviation (input) H264E_VPU_CSP_BGR555 :: nat where "H264E_VPU_CSP_BGR555 \<equiv> 7"
abbreviation (input) H264E_VPU_CSP_ARGB8888 :: nat where "H264E_VPU_CSP_ARGB8888 \<equiv> 7"
abbreviation (input) H264E_VPU_CSP_RGB444 :: nat where "H264E_VPU_CSP_RGB444 \<equiv> 8"
abbreviation (input) H264E_VPU_CSP_BGR444 :: nat where "H264E_VPU_CSP_BGR444 \<equiv> 9"
abbreviation (input) H264E_VPU_CSP_RGB888 :: nat where "H264E_VPU_CSP_RGB888 \<equiv> 10"
abbreviation (input) H264E_VPU_CSP_BGR888 :: nat where "H264E_VPU_CSP_BGR888 \<equiv> 11"
abbreviation (input) H264E_VPU_CSP_RGB101010 :: nat where "H264E_VPU_CSP_RGB101010 \<equiv> 12"
abbreviation (input) H264E_VPU_CSP_BGR101010 :: nat where "H264E_VPU_CSP_BGR101010 \<equiv> 13"
abbreviation (input) H264E_VPU_CSP_NONE :: nat where "H264E_VPU_CSP_NONE \<equiv> 14"

abbreviation (input) H264E_CSP2_NONE :: nat where "H264E_CSP2_NONE \<equiv> 0"
abbreviation (input) H264E_CSP2_I420 :: nat where "H264E_CSP2_I420 \<equiv> 1"
abbreviation (input) H264E_CSP2_NV12 :: nat where "H264E_CSP2_NV12 \<equiv> 3"
abbreviation (input) H264E_CSP2_I422 :: nat where "H264E_CSP2_I422 \<equiv> 4"
abbreviation (input) H264E_CSP2_NV16 :: nat where "H264E_CSP2_NV16 \<equiv> 6"
abbreviation (input) H264E_CSP2_BGR :: nat where "H264E_CSP2_BGR \<equiv> 0xa"
abbreviation (input) H264E_CSP2_BGRA :: nat where "H264E_CSP2_BGRA \<equiv> 0xb"
abbreviation (input) H264E_CSP2_RGB :: nat where "H264E_CSP2_RGB \<equiv> 0xc"
abbreviation (input) H264E_CSP2_MASK :: nat where "H264E_CSP2_MASK \<equiv> 0xff"

text \<open>The last entry of the second table, for \<open>H264E_VPU_CSP_NONE\<close>, is left to be zero.\<close>

definition h264e_rkv_csp_idx_map :: "nat list" where
  "h264e_rkv_csp_idx_map =
    [H264E_CSP2_BGRA, H264E_CSP2_BGR, H264E_CSP2_RGB,
     H264E_CSP2_NONE, H264E_CSP2_NV16, H264E_CSP2_I422,
     H264E_CSP2_NV12, H264E_CSP2_I420, H264E_CSP2_NONE,
     H264E_CSP2_NONE]"

definition h264e_vpu_csp_idx_map :: "nat list" where
  "h264e_vpu_csp_idx_map =
    [H264E_CSP2_I420, H264E_CSP2_NV12, H264E_CSP2_NONE,
     H264E_CSP2_NONE, H264E_CSP2_RGB, H264E_CSP2_BGR,
     H264E_CSP2_RGB, H264E_CSP2_BGR, H264E_CSP2_RGB,
     H264E_CSP2_BGR, H264E_CSP2_RGB, H264E_CSP2_BGR,
     H264E_CSP2_RGB, H264E_CSP2_BGR, 0]"

definition h264e_rkv_set_format :: "mpp_frame_format \<Rightarrow> h264e_hw_cfg \<Rightarrow> h264e_hw_cfg" where
  "h264e_rkv_set_format format c =
    (case format of
      MPP_FMT_YUV420P \<Rightarrow> c\<lparr>input_format := H264E_RKV_CSP_YUV420P, uv_rb_swap := 0, alpha_swap := 0\<rparr>
    | MPP_FMT_YUV420SP \<Rightarrow> c\<lparr>input_format := H264E_RKV_CSP_YUV420SP, uv_rb_swap := 0, alpha_swap := 0\<rparr>
    | MPP_FMT_YUV420SP_10BIT \<Rightarrow> c\<lparr>input_format := H264E_RKV_CSP_NONE, uv_rb_swap := 0, alpha_swap := 0\<rparr>
    | MPP_FMT_YUV420SP_VU \<Rightarrow> c\<lparr>input_format := H264E_RKV_CSP_YUV420SP, uv_rb_swap := 1, alpha_swap := 0\<rparr>
    | MPP_FMT_YUV422P \<Rightarrow> c\<lparr>input_format := H264E_RKV_CSP_YUV422P, uv_rb_swap := 0, alpha_swap := 0\<rparr>
    | MPP_FMT_YUV422SP \<Rightarrow> c\<lparr>input_format := H264E_RKV_CSP_YUV422SP, uv_rb_swap := 0, alpha_swap := 0\<rparr>
    | MPP_FMT_YUV422SP_10BIT \<Rightarrow> c\<lparr>input_format := H264E_RKV_CSP_NONE, uv_rb_swap := 0, alpha_swap := 0\<rparr>
    | MPP_FMT_YUV422SP_VU \<Rightarrow> c\<lparr>input_format := H264E_RKV_CSP_YUV422SP, uv_rb_swap := 1, alpha_swap := 0\<rparr>
    | MPP_FMT_YUV422_YUYV \<Rightarrow> c\<lparr>input_format := H264E_RKV_CSP_YUYV422, uv_rb_swap := 0, alpha_swap := 0\<rparr>
    | MPP_FMT_YUV422_UYVY \<Rightarrow> c\<lparr>input_format := H264E_RKV_CSP_UYVY422, uv_rb_swap := 0, alpha_swap := 0\<rparr>
    | MPP_FMT_RGB565 \<Rightarrow> c\<lparr>input_format := H264E_RKV_CSP_BGR565, uv_rb_swap := 1, alpha_swap := 0\<rparr>
    | MPP_FMT_BGR565 \<Rightarrow> c\<lparr>input_format := H264E_RKV_CSP_BGR565, uv_rb_swap := 0, alpha_swap := 0\<rparr>
    | MPP_FMT_RGB555 \<Rightarrow> c\<lparr>input_format := H264E_RKV_CSP_NONE, uv_rb_swap := 0, alpha_swap := 0\<rparr>
    | MPP_FMT_BGR555 \<Rightarrow> c\<lparr>input_format := H264E_RKV_CSP_NONE, uv_rb_swap := 0, alpha_swap := 0\<rparr>
    | MPP_FMT_RGB444 \<Rightarrow> c\<lparr>input_format := H264E_RKV_CSP_NONE, uv_rb_swap := 0, alpha_swap := 0\<rparr>
    | MPP_FMT_BGR444 \<Rightarrow> c\<lparr>input_format := H264E_RKV_CSP_NONE, uv_rb_swap := 0, alpha_swap := 0\<rparr>
    | MPP_FMT_RGB888 \<Rightarrow> c\<lparr>input_format := H264E_RKV_CSP_BGR888, uv_rb_swap := 1, alpha_swap := 0\<rparr>
    | MPP_FMT_BGR888 \<Rightarrow> c\<lparr>input_format := H264E_RKV_CSP_BGR888, uv_rb_swap := 0, alpha_swap := 0\<rparr>
    | MPP_FMT_RGB101010 \<Rightarrow> c\<lparr>input_format := H264E_RKV_CSP_NONE, uv_rb_swap := 0, alpha_swap := 0\<rparr>
    | MPP_FMT_BGR101010 \<Rightarrow> c\<lparr>input_format := H264E_RKV_CSP_NONE, uv_rb_swap := 0, alpha_swap := 0\<rparr>
    | MPP_FMT_ARGB8888 \<Rightarrow> c\<lparr>input_format := H264E_RKV_CSP_BGRA8888, uv_rb_swap := 1, alpha_swap := 1\<rparr>
    | MPP_FMT_ABGR8888 \<Rightarrow> c\<lparr>input_format := H264E_RKV_CSP_BGRA8888, uv_rb_swap := 0, alpha_swap := 1\<rparr>
    | _ \<Rightarrow> c\<lparr>input_format := H264E_RKV_CSP_NONE, uv_rb_swap := 0, alpha_swap := 0\<rparr>
    )"

definition h264e_vpu_set_format :: "mpp_frame_format \<Rightarrow> h264e_hw_cfg \<Rightarrow> h264e_hw_cfg" where
  "h264e_vpu_set_format format c =
    (let c = c\<lparr>input_format := 0, r_mask_msb := 0, g_mask_msb := 0, b_mask_msb := 0\<rparr>
     in case format of
      MPP_FMT_YUV420P \<Rightarrow> c\<lparr>input_format := H264E_VPU_CSP_YUV420P\<rparr>
    | MPP_FMT_YUV420SP \<Rightarrow> c\<lparr>input_format := H264E_VPU_CSP_YUV420SP\<rparr>
    | MPP_FMT_YUV420SP_10BIT \<Rightarrow> c\<lparr>input_format := H264E_VPU_CSP_NONE\<rparr>
    | MPP_FMT_YUV420SP_VU \<Rightarrow> c\<lparr>input_format := H264E_VPU_CSP_NONE\<rparr>
    | MPP_FMT_YUV422P \<Rightarrow> c\<lparr>input_format := H264E_VPU_CSP_NONE\<rparr>
    | MPP_FMT_YUV422SP \<Rightarrow> c\<lparr>input_format := H264E_VPU_CSP_NONE\<rparr>
    | MPP_FMT_YUV422SP_10BIT \<Rightarrow> c\<lparr>input_format := H264E_VPU_CSP_NONE\<rparr>
    | MPP_FMT_YUV422SP_VU \<Rightarrow> c\<lparr>input_format := H264E_VPU_CSP_NONE\<rparr>
    | MPP_FMT_YUV422_YUYV \<Rightarrow> c\<lparr>input_format := H264E_VPU_CSP_YUYV422\<rparr>
    | MPP_FMT_YUV422_UYVY \<Rightarrow> c\<lparr>input_format := H264E_VPU_CSP_UYVY422\<rparr>
    | MPP_FMT_RGB565 \<Rightarrow> c\<lparr>input_format := H264E_VPU_CSP_RGB565, r_mask_msb := 15, g_mask_msb := 10, b_mask_msb := 4\<rparr>
    | MPP_FMT_BGR565 \<Rightarrow> c\<lparr>input_format := H264E_VPU_CSP_RGB565, r_mask_msb := 4, g_mask_msb := 10, b_mask_msb := 15\<rparr>
    | MPP_FMT_RGB555 \<Rightarrow> c\<lparr>input_format := H264E_VPU_CSP_RGB555, r_mask_msb := 14, g_mask_msb := 9, b_mask_msb := 4\<rparr>
    | MPP_FMT_BGR555 \<Rightarrow> c\<lparr>input_format := H264E_VPU_CSP_RGB555, r_mask_msb := 14, g_mask_msb := 9, b_mask_msb := 4\<rparr>
    | MPP_FMT_RGB444 \<Rightarrow> c\<lparr>input_format := H264E_VPU_CSP_RGB444, r_mask_msb := 11, g_mask_msb := 7, b_mask_msb := 3\<rparr>
    | MPP_FMT_BGR444 \<Rightarrow> c\<lparr>input_format := H264E_VPU_CSP_RGB444, r_mask_msb := 11, g_mask_msb := 7, b_mask_msb := 3\<rparr>
    | MPP_FMT_RGB888 \<Rightarrow> c\<lparr>input_format := H264E_VPU_CSP_RGB888, r_mask_msb := 23, g_mask_msb := 15, b_mask_msb := 7\<rparr>
    | MPP_FMT_BGR888 \<Rightarrow> c\<lparr>input_format := H264E_VPU_CSP_RGB888, r_mask_msb := 23, g_mask_msb := 15, b_mask_msb := 7\<rparr>
    | MPP_FMT_RGB101010 \<Rightarrow> c\<lparr>input_format := H264E_VPU_CSP_RGB101010, r_mask_msb := 29, g_mask_msb := 19, b_mask_msb := 9\<rparr>
    | MPP_FMT_BGR101010 \<Rightarrow> c\<lparr>input_format := H264E_VPU_CSP_RGB101010, r_mask_msb := 29, g_mask_msb := 19, b_mask_msb := 9\<rparr>
    | MPP_FMT_ARGB8888 \<Rightarrow> c\<lparr>input_format := H264E_VPU_CSP_ARGB8888, b_mask_msb := 23, g_mask_msb := 15, r_mask_msb := 7\<rparr>
    | MPP_FMT_ABGR8888 \<Rightarrow> c\<lparr>input_format := H264E_VPU_CSP_ARGB8888, r_mask_msb := 23, g_mask_msb := 15, b_mask_msb := 7\<rparr>
    | _ \<Rightarrow> c\<lparr>input_format := H264E_VPU_CSP_NONE\<rparr>
    )"

definition h264e_set_format :: "mpp_frame_format \<Rightarrow> h264e_hw_cfg \<Rightarrow> nat \<times> h264e_hw_cfg" where
  "h264e_set_format format c =
    (if hw_type c = H264E_RKV then
       let c = h264e_rkv_set_format format c
       in (h264e_rkv_csp_idx_map ! input_format c AND H264E_CSP2_MASK, c)
     else
       let c = h264e_vpu_set_format format c
       in (h264e_vpu_csp_idx_map ! input_format c AND H264E_CSP2_MASK, c))"

section \<open>From the configuration to the parameter sets\<close>

text \<open>The members of \<open>MppEncCfgSet\<close> (prep, rc, codec.h264) that are read.\<close>

record mpp_enc_cfg =
  prep_width :: int
  prep_height :: int
  prep_format :: mpp_frame_format
  rc_fps_out_num :: int
  rc_fps_out_denorm :: int
  rc_gop :: int
  codec_profile :: int
  codec_level :: int
  codec_entropy_coding_mode :: int
  codec_transform8x8_mode :: int
  codec_constrained_intra_pred_mode :: int
  codec_chroma_cb_qp_offset :: int
  codec_chroma_cr_qp_offset :: int
  codec_vui_fullrange :: int
  codec_vui_sar_width :: int
  codec_vui_sar_height :: int
  codec_ref_dpb_size :: int
  codec_ref_frame_reference :: int

abbreviation (input) H264_PROFILE_BASELINE :: int where "H264_PROFILE_BASELINE \<equiv> 66"
abbreviation (input) H264_PROFILE_MAIN :: int where "H264_PROFILE_MAIN \<equiv> 77"
abbreviation (input) H264_PROFILE_HIGH :: int where "H264_PROFILE_HIGH \<equiv> 100"
abbreviation (input) H264E_REF_MAX :: int where "H264E_REF_MAX \<equiv> 16"
abbreviation (input) H264E_CHROMA_420 :: int where "H264E_CHROMA_420 \<equiv> 1"
abbreviation (input) H264E_CHROMA_422 :: int where "H264E_CHROMA_422 \<equiv> 2"
abbreviation (input) H264E_CHROMA_444 :: int where "H264E_CHROMA_444 \<equiv> 3"
abbreviation (input) H264E_B_PYRAMID_STRICT :: int where "H264E_B_PYRAMID_STRICT \<equiv> 1"

text \<open>\<open>while ((1 << n) <= limit) n++\<close>\<close>

function log2_above :: "int \<Rightarrow> nat \<Rightarrow> nat" where
  "log2_above limit n = (if 2 ^ n \<le> limit then log2_above limit (n + 1) else n)"
  by pat_completeness auto
termination
  by (relation "measure (\<lambda>(limit, n). nat (limit + 1 - 2 ^ n))") auto

declare log2_above.simps [simp del]

text \<open>\<open>(RK_S32)log2f((float)x)\<close> for a positive integer: the floor of the logarithm.\<close>

definition log2f_floor :: "int \<Rightarrow> int" where
  "log2f_floor x = int (bit_len (nat x)) - 1"

text \<open>
  \<open>h264e_set_sps\<close>, as lists of its statements: the VUI part, and the whole. The local variables
  that the source fixes are bound as it binds them. The result also returns the hardware
  configuration that \<open>h264e_set_format\<close> changes.
\<close>

definition h264e_set_sps_vui ::
  "mpp_enc_cfg \<Rightarrow> nat \<Rightarrow> int \<Rightarrow> int \<Rightarrow> int \<Rightarrow> h264e_vui \<Rightarrow> h264e_vui" where
  "h264e_set_sps_vui cfg csp i_timebase_den chroma_format_idc keyframe_interval =
    (let i_overscan = (0 :: int); vidformat = (5 :: int); fullrange = codec_vui_fullrange cfg;
         colorprim = (2 :: int); transfer = (2 :: int); colmatrix = - 1 :: int;
         i_chroma_loc = (0 :: int); i_timebase_num = (1 :: int); b_vfr_input = (0 :: int);
         i_nal_hrd = (0 :: int); b_pic_struct = (0 :: int); analyse_mv_range = (128 :: int);
         mv_len = log2f_floor (max 1 (analyse_mv_range * 4 - 1)) + 1
     in run [
       \<lambda>v. v\<lparr>b_aspect_ratio_info_present := 0\<rparr>,
       \<lambda>v. if codec_vui_sar_width cfg > 0 \<and> codec_vui_sar_height cfg > 0
           then v\<lparr>b_aspect_ratio_info_present := 1, i_sar_width := codec_vui_sar_width cfg,
                  i_sar_height := codec_vui_sar_height cfg\<rparr>
           else v,
       \<lambda>v. v\<lparr>b_overscan_info_present := of_bool (i_overscan > 0 \<and> i_overscan \<le> 2)\<rparr>,
       \<lambda>v. if b_overscan_info_present v \<noteq> 0
           then v\<lparr>b_overscan_info := (if i_overscan = 2 then 1 else 0)\<rparr> else v,
       \<lambda>v. v\<lparr>b_signal_type_present := 0\<rparr>,
       \<lambda>v. v\<lparr>i_vidformat := (if vidformat \<ge> 0 \<and> vidformat \<le> 5 then vidformat else 5)\<rparr>,
       \<lambda>v. v\<lparr>b_fullrange := (if fullrange \<ge> 0 \<and> fullrange \<le> 1 then fullrange
                            else if csp \<ge> H264E_CSP2_BGR then 1 else 0)\<rparr>,
       \<lambda>v. v\<lparr>b_color_description_present := 0\<rparr>,
       \<lambda>v. v\<lparr>i_colorprim := (if colorprim \<ge> 0 \<and> colorprim \<le> 9 then colorprim else 2)\<rparr>,
       \<lambda>v. v\<lparr>i_transfer := (if transfer \<ge> 0 \<and> transfer \<le> 15 then transfer else 2)\<rparr>,
       \<lambda>v. v\<lparr>i_colmatrix := (if colmatrix \<ge> 0 \<and> colmatrix \<le> 10 then colmatrix
                            else if csp \<ge> H264E_CSP2_BGR then 0 else 2)\<rparr>,
       \<lambda>v. if i_colorprim v \<noteq> 2 \<or> i_transfer v \<noteq> 2 \<or> i_colmatrix v \<noteq> 2
           then v\<lparr>b_color_description_present := 1\<rparr> else v,
       \<lambda>v. if i_vidformat v \<noteq> 5 \<or> b_fullrange v \<noteq> 0 \<or> b_color_description_present v \<noteq> 0
           then v\<lparr>b_signal_type_present := 1\<rparr> else v,
       \<lambda>v. v\<lparr>b_chroma_loc_info_present := of_bool (i_chroma_loc > 0 \<and> i_chroma_loc \<le> 5
              \<and> chroma_format_idc = H264E_CHROMA_420)\<rparr>,
       \<lambda>v. if b_chroma_loc_info_present v \<noteq> 0
           then v\<lparr>i_chroma_loc_top := i_chroma_loc, i_chroma_loc_bottom := i_chroma_loc\<rparr> else v,
       \<lambda>v. v\<lparr>b_timing_info_present := of_bool (i_timebase_num > 0 \<and> i_timebase_den > 0)\<rparr>,
       \<lambda>v. if b_timing_info_present v \<noteq> 0
           then v\<lparr>i_num_units_in_tick := word_of_int i_timebase_num,
                  i_time_scale := word_of_int (i_timebase_den * 2),
                  b_fixed_frame_rate := of_bool (b_vfr_input = 0)\<rparr> else v,
       \<lambda>v. v\<lparr>b_vcl_hrd_parameters_present := 0\<rparr>,
       \<lambda>v. v\<lparr>b_nal_hrd_parameters_present := of_bool (i_nal_hrd \<noteq> 0)\<rparr>,
       \<lambda>v. v\<lparr>b_pic_struct_present := b_pic_struct\<rparr>,
       \<lambda>v. v\<lparr>b_bitstream_restriction := of_bool (keyframe_interval > 1)\<rparr>,
       \<lambda>v. if b_bitstream_restriction v \<noteq> 0
           then v\<lparr>b_motion_vectors_over_pic_boundaries := 1, i_max_bytes_per_pic_denom := 0,
                  i_max_bits_per_mb_denom := 0, i_log2_max_mv_length_vertical := mv_len,
                  i_log2_max_mv_length_horizontal := mv_len\<rparr>
           else v])"

text \<open>Picture size, profile and level; reference frames and counters; frame coding and cropping.\<close>

definition set_sps_picture :: "mpp_enc_cfg \<Rightarrow> h264e_sps \<Rightarrow> h264e_sps" where
  "set_sps_picture cfg = run [
     \<lambda>s. s\<lparr>sps_id := 0\<rparr>,
     \<lambda>s. s\<lparr>i_mb_width := (prep_width cfg + 15) sdiv 16\<rparr>,
     \<lambda>s. s\<lparr>i_mb_height := (prep_height cfg + 15) sdiv 16\<rparr>,
     \<lambda>s. s\<lparr>i_chroma_format_idc := H264E_CHROMA_420\<rparr>,
     \<lambda>s. s\<lparr>b_qpprime_y_zero_transform_bypass := 0\<rparr>,
     \<lambda>s. s\<lparr>i_profile_idc := codec_profile cfg\<rparr>,
     \<lambda>s. s\<lparr>b_constraint_set0 := 0, b_constraint_set1 := 0, b_constraint_set2 := 0,
           b_constraint_set3 := 0\<rparr>,
     \<lambda>s. s\<lparr>i_level_idc := codec_level cfg\<rparr>,
     \<lambda>s. if codec_level cfg = 9 \<and> (i_profile_idc s = H264_PROFILE_BASELINE
            \<or> i_profile_idc s = H264_PROFILE_MAIN)
         then s\<lparr>i_level_idc := 11\<rparr> else s]"

definition set_sps_frames :: "mpp_enc_cfg \<Rightarrow> h264e_hw_cfg \<Rightarrow> h264e_sps \<Rightarrow> h264e_sps" where
  "set_sps_frames cfg hw =
    (let i_bframe_pyramid = (0 :: int); i_bframe = (0 :: int); b_intra_refresh = (0 :: int);
         Log2MaxFrameNum = (16 :: nat); Sw_log2_max_pic_order_cnt_lsb_minus4 = (12 :: nat);
         i_dpb_size = codec_ref_dpb_size cfg; i_frame_reference = codec_ref_frame_reference cfg
     in run [
     \<lambda>s. s\<lparr>sps_vui := (sps_vui s)\<lparr>i_num_reorder_frames :=
           (if i_bframe_pyramid \<noteq> 0 then 2 else if i_bframe \<noteq> 0 then 1 else 0)\<rparr>\<rparr>,
     \<lambda>s. s\<lparr>i_num_ref_frames := min H264E_REF_MAX (max (max i_frame_reference
           (1 + i_num_reorder_frames (sps_vui s)))
           (max (if i_bframe_pyramid \<noteq> 0 then 4 else 1) i_dpb_size))\<rparr>,
     \<lambda>s. s\<lparr>sps_vui := (sps_vui s)\<lparr>i_max_dec_frame_buffering := i_num_ref_frames s\<rparr>\<rparr>,
     \<lambda>s. s\<lparr>i_num_ref_frames := i_num_ref_frames s - of_bool (i_bframe_pyramid = H264E_B_PYRAMID_STRICT)\<rparr>,
     \<lambda>s. s\<lparr>keyframe_max_interval := rc_gop cfg\<rparr>,
     \<lambda>s. if keyframe_max_interval s = 1
         then s\<lparr>i_num_ref_frames := 0, sps_vui := (sps_vui s)\<lparr>i_max_dec_frame_buffering := 0\<rparr>\<rparr>
         else s,
     \<lambda>s. let max_frame_num = i_max_dec_frame_buffering (sps_vui s) * (of_bool (i_bframe_pyramid \<noteq> 0) + 1) + 1;
             max_frame_num = (if b_intra_refresh \<noteq> 0
               then max max_frame_num (min (i_mb_width s - 1) (keyframe_max_interval s) + i_bframe - 1 + 1)
               else max_frame_num)
         in s\<lparr>i_log2_max_frame_num := int (log2_above max_frame_num Log2MaxFrameNum)\<rparr>,
     \<lambda>s. s\<lparr>i_poc_type := (if hw_type hw = H264E_RKV then 0 else 2)\<rparr>,
     \<lambda>s. if i_poc_type s = 0
         then let max_delta_poc = (i_bframe + 2) * (of_bool (i_bframe_pyramid \<noteq> 0) + 1) * 2
              in s\<lparr>i_log2_max_poc_lsb := int (log2_above (max_delta_poc * 2)
                                         (Sw_log2_max_pic_order_cnt_lsb_minus4 + 4))\<rparr>
         else s,
     \<lambda>s. s\<lparr>sps_vui := (sps_vui s)\<lparr>b_vui := 1\<rparr>\<rparr>])"

definition set_sps_crop :: "mpp_enc_cfg \<Rightarrow> h264e_sps \<Rightarrow> h264e_sps" where
  "set_sps_crop cfg =
    (let b_interlaced = (0 :: int); b_fake_interlaced = (0 :: int);
         crop_rect_left = (0 :: int); crop_rect_right = (0 :: int);
         crop_rect_top = (0 :: int); crop_rect_bottom = (0 :: int)
     in run [
     \<lambda>s. s\<lparr>b_gaps_in_frame_num_value_allowed := 0\<rparr>,
     \<lambda>s. s\<lparr>b_frame_mbs_only := of_bool (\<not> (b_interlaced \<noteq> 0 \<or> b_fake_interlaced \<noteq> 0))\<rparr>,
     \<lambda>s. if b_frame_mbs_only s = 0 then s\<lparr>i_mb_height := (i_mb_height s + 1) AND NOT 1\<rparr> else s,
     \<lambda>s. s\<lparr>b_mb_adaptive_frame_field := b_interlaced\<rparr>,
     \<lambda>s. s\<lparr>b_direct8x8_inference := 1\<rparr>,
     \<lambda>s. s\<lparr>sps_crop := \<lparr>crop_left = crop_rect_left,
           crop_right = crop_rect_right + i_mb_width s * 16 - prep_width cfg,
           crop_top = crop_rect_top,
           crop_bottom = drop_bit (of_bool (b_frame_mbs_only s = 0))
             (crop_rect_bottom + i_mb_height s * 16 - prep_height cfg)\<rparr>\<rparr>,
     \<lambda>s. s\<lparr>b_crop := of_bool (crop_left (sps_crop s) \<noteq> 0 \<or> crop_top (sps_crop s) \<noteq> 0
           \<or> crop_right (sps_crop s) \<noteq> 0 \<or> crop_bottom (sps_crop s) \<noteq> 0)\<rparr>])"

text \<open>
  The frame rate is a quotient of two \<open>RK_S32\<close> of the configuration; a configuration for which the division
  is not defined is a fault, \<open>None\<close>.
\<close>

definition fps_defined :: "mpp_enc_cfg \<Rightarrow> bool" where
  "fps_defined cfg \<longleftrightarrow> rc_fps_out_denorm cfg \<noteq> 0 \<and> \<not> (rc_fps_out_num cfg = - 2147483648 \<and> rc_fps_out_denorm cfg = - 1)"

definition h264e_set_sps ::
  "mpp_enc_cfg \<Rightarrow> h264e_hw_cfg \<Rightarrow> h264e_sps \<Rightarrow> (mpp_ret \<times> h264e_sps \<times> h264e_hw_cfg) option" where
  "h264e_set_sps cfg hw sps =
    (if \<not> fps_defined cfg then None else
     let i_timebase_den = rc_fps_out_num cfg sdiv rc_fps_out_denorm cfg;
         (csp, hw) = h264e_set_format (prep_format cfg) hw;
         s = set_sps_crop cfg (set_sps_frames cfg hw (set_sps_picture cfg sps))
     in Some (MPP_OK,
         s\<lparr>sps_vui := h264e_set_sps_vui cfg csp i_timebase_den (i_chroma_format_idc s)
                 (keyframe_max_interval s) (sps_vui s)\<rparr>, hw))"

abbreviation (input) H264E_CQM_FLAT :: int where "H264E_CQM_FLAT \<equiv> 0"
abbreviation (input) H264E_CQM_JVT :: int where "H264E_CQM_JVT \<equiv> 1"

definition h264e_cqm_jvt4i :: "u8 list" where
  "h264e_cqm_jvt4i =
   [6, 13, 20, 28, 13, 20, 28, 32, 20, 28, 32, 37, 28, 32, 37, 42]"

definition h264e_cqm_jvt4p :: "u8 list" where
  "h264e_cqm_jvt4p =
   [10, 14, 20, 24, 14, 20, 24, 27, 20, 24, 27, 30, 24, 27, 30, 34]"

definition h264e_cqm_jvt8i :: "u8 list" where
  "h264e_cqm_jvt8i =
   [6, 10, 13, 16, 18, 23, 25, 27, 10, 11, 16, 18, 23, 25, 27, 29,
    13, 16, 18, 23, 25, 27, 29, 31, 16, 18, 23, 25, 27, 29, 31, 33,
    18, 23, 25, 27, 29, 31, 33, 36, 23, 25, 27, 29, 31, 33, 36, 38,
    25, 27, 29, 31, 33, 36, 38, 40, 27, 29, 31, 33, 36, 38, 40, 42]"

definition h264e_cqm_jvt8p :: "u8 list" where
  "h264e_cqm_jvt8p =
   [9, 13, 15, 17, 19, 21, 22, 24, 13, 13, 17, 19, 21, 22, 24, 25,
    15, 17, 19, 21, 22, 24, 25, 27, 17, 19, 21, 22, 24, 25, 27, 28,
    19, 21, 22, 24, 25, 27, 28, 30, 21, 22, 24, 25, 27, 28, 30, 32,
    22, 24, 25, 27, 28, 30, 32, 33, 24, 25, 27, 28, 30, 32, 33, 35]"

definition h264e_cqm_flat16 :: "u8 list" where
  "h264e_cqm_flat16 = replicate 64 16"

definition h264e_cqm_jvt :: "u8 list list" where
  "h264e_cqm_jvt =
    [h264e_cqm_jvt4i, h264e_cqm_jvt4p, h264e_cqm_jvt4i, h264e_cqm_jvt4p,
     h264e_cqm_jvt8i, h264e_cqm_jvt8p, h264e_cqm_jvt8i, h264e_cqm_jvt8p]"

definition h264e_set_pps :: "mpp_enc_cfg \<Rightarrow> h264e_sps \<Rightarrow> h264e_pps \<Rightarrow> mpp_ret \<times> h264e_pps" where
  "h264e_set_pps cfg sps pps =
    (let i_avcintra_class = (0 :: int); b_interlaced = (0 :: int);
         analyse_weighted_pred = (0 :: int); analyse_b_weighted_bipred = (0 :: int);
         Sw_deblock_filter_ctrl_present_flag = (1 :: int); cqm_preset = (0 :: int);
         p = pps\<lparr>pps_id := 0, pps_sps_id := sps_id sps, b_cabac := codec_entropy_coding_mode cfg,
                 b_pic_order := of_bool (i_avcintra_class = 0 \<and> b_interlaced \<noteq> 0),
                 i_num_slice_groups := 1, i_num_ref_idx_l0_default_active := 1,
                 i_num_ref_idx_l1_default_active := 1,
                 b_weighted_pred := of_bool (analyse_weighted_pred > 0),
                 i_weighted_bipred_idc := (if analyse_b_weighted_bipred \<noteq> 0 then 2 else 0),
                 i_pic_init_qp := 26\<rparr>;
         p = p\<lparr>i_pic_init_qs := i_pic_init_qp p, b_transform_8x8_mode := codec_transform8x8_mode cfg,
               i_chroma_qp_index_offset := codec_chroma_cb_qp_offset cfg,
               i_second_chroma_qp_index_offset := codec_chroma_cr_qp_offset cfg,
               b_deblocking_filter_control := Sw_deblock_filter_ctrl_present_flag,
               b_constrained_intra_pred := codec_constrained_intra_pred_mode cfg,
               b_redundant_pic_cnt := 0\<rparr>;
         p = (if i_profile_idc sps < H264_PROFILE_HIGH then
                let p = (if b_transform_8x8_mode p \<noteq> 0 then p\<lparr>b_transform_8x8_mode := 0\<rparr> else p)
                in if i_second_chroma_qp_index_offset p \<noteq> 0
                   then p\<lparr>i_second_chroma_qp_index_offset := 0\<rparr> else p
              else p);
         p = (if i_profile_idc sps = H264_PROFILE_BASELINE \<and> b_cabac p \<noteq> 0
              then p\<lparr>b_cabac := 0\<rparr> else p);
         p = p\<lparr>b_cqm_preset := cqm_preset\<rparr>
     in if b_cqm_preset p = H264E_CQM_FLAT
        then (MPP_OK, p\<lparr>scaling_list := replicate 8 h264e_cqm_flat16\<rparr>)
        else if b_cqm_preset p = H264E_CQM_JVT
        then (MPP_OK, p\<lparr>scaling_list := h264e_cqm_jvt\<rparr>)
        else (MPP_NOK, p))"

end
