(* ===== verification/Escape.thy ===== *)
theory Escape
  imports BitRead
begin

text \<open>
  Emulation prevention as the two H.264 encoders do it, as one function on byte lists: \<open>escape z bs\<close>
  with \<open>z\<close> the zero bytes just written (at most 2). The reader's \<open>unescape\<close> undoes it, the
  result contains no start code, and it is at most half as long again.
\<close>

fun escape :: "nat \<Rightarrow> u8 list \<Rightarrow> u8 list" where
  "escape z [] = []"
| "escape z (b # bs) =
    (if z = 2 \<and> b \<le> 3 then 3 # b # escape (of_bool (b = 0)) bs
     else b # escape (if b = 0 then z + 1 else 0) bs)"

text \<open>The number of zeros just written, after the bytes \<open>bs\<close>.\<close>

fun zeros_after :: "nat \<Rightarrow> u8 list \<Rightarrow> nat" where
  "zeros_after z [] = z"
| "zeros_after z (b # bs) =
    zeros_after (if z = 2 \<and> b \<le> 3 then of_bool (b = 0) else if b = 0 then z + 1 else 0) bs"

lemma escape_append: "escape z (xs @ ys) = escape z xs @ escape (zeros_after z xs) ys"
  by (induction xs arbitrary: z) auto

lemma zeros_after_append: "zeros_after z (xs @ ys) = zeros_after (zeros_after z xs) ys"
  by (induction xs arbitrary: z) auto

lemma zeros_after_le: "z \<le> 2 \<Longrightarrow> zeros_after z bs \<le> 2"
proof (induction bs arbitrary: z)
  case (Cons b bs)
  have "(if z = 2 \<and> b \<le> 3 then of_bool (b = 0) else if b = 0 then z + 1 else 0) \<le> (2 :: nat)"
    using Cons.prems by auto
  from Cons.IH [OF this] show ?case by simp
qed simp

section \<open>The reader undoes it\<close>

text \<open>\<open>hist w z\<close>: the two byte history of the reader shows \<open>z\<close> zero bytes.\<close>

definition hist :: "u64 \<Rightarrow> nat \<Rightarrow> bool" where
  "hist w z \<longleftrightarrow> z \<le> 2 \<and> (w AND 0xffff = 0 \<longleftrightarrow> z = 2) \<and> (w AND 0xff = 0 \<longleftrightarrow> 1 \<le> z)"

lemma and_ff_0: "w AND 0xff = (0 :: u64) \<longleftrightarrow> (\<forall>i < 8. \<not> bit w i)"
  and and_ffff_0: "w AND 0xffff = (0 :: u64) \<longleftrightarrow> (\<forall>i < 16. \<not> bit w i)"
proof -
  have "w AND 0xff = take_bit 8 w" "w AND 0xffff = take_bit 16 w"
    by (simp_all add: take_bit_eq_mask mask_eq_exp_minus_1)
  then show "w AND 0xff = (0 :: u64) \<longleftrightarrow> (\<forall>i < 8. \<not> bit w i)"
    "w AND 0xffff = (0 :: u64) \<longleftrightarrow> (\<forall>i < 16. \<not> bit w i)"
    by (auto simp: bit_eq_iff bit_take_bit_iff dest: bit_imp_le_length)
qed

lemma byte_0: "(b :: u8) = 0 \<longleftrightarrow> (\<forall>i < 8. \<not> bit b i)"
  by (auto simp: bit_eq_iff dest: bit_imp_le_length)

lemma split16: "(\<forall>i < 16. P i) \<longleftrightarrow> (\<forall>i < 8. P i) \<and> (\<forall>i < 8 :: nat. P (i + 8))"
proof (intro iffI conjI allI impI)
  fix i :: nat
  assume P: "(\<forall>i < 8. P i) \<and> (\<forall>i < 8. P (i + 8))" and i: "i < 16"
  show "P i"
  proof (cases "i < 8")
    case False
    then have e: "i - 8 + 8 = i" "i - 8 < 8" using i by simp_all
    with P have "P (i - 8 + 8)" by blast
    then show ?thesis unfolding e(1) .
  qed (use P in simp)
qed auto

lemma hist_step:
  fixes b :: u8
  assumes "hist w z" and "\<not> (z = 2 \<and> b = 0)"
  shows "hist (push_bit 8 w OR ucast b) (if b = 0 then z + 1 else 0)"
proof -
  let ?w = "push_bit 8 w OR ucast b :: u64"
  have low: "?w AND 0xff = 0 \<longleftrightarrow> b = 0"
    using prev_low_byte [of _ w b] by (auto simp: and_ff_0 byte_0)
  have "bit ?w (i + 8) \<longleftrightarrow> bit w i" if "i < 8" for i
    using that bit_imp_le_length [of b "i + 8"] by (auto simp: bit_or_iff bit_push_bit_iff bit_ucast_iff)
  then have high: "(\<forall>i < 8. \<not> bit ?w (i + 8)) \<longleftrightarrow> w AND 0xff = 0" by (simp add: and_ff_0)
  have "(\<forall>i < 16. \<not> bit ?w i) \<longleftrightarrow> (\<forall>i < 8. \<not> bit ?w i) \<and> (\<forall>i < 8. \<not> bit ?w (i + 8))"
    using split16 [of "\<lambda>i. \<not> bit ?w i"] .
  then have "?w AND 0xffff = 0 \<longleftrightarrow> b = 0 \<and> w AND 0xff = 0"
    using low high unfolding and_ffff_0 and_ff_0 by blast
  with low assms show ?thesis by (auto simp: hist_def)
qed

lemma hist_start: "hist 0xffff 0" by (simp add: hist_def)

lemma hist_ffff: "hist (push_bit 8 0xffff OR ucast (b :: u8)) (of_bool (b = 0))"
proof -
  have e: "(if b = 0 then 0 + 1 else 0) = (of_bool (b = 0) :: nat)" by simp
  show ?thesis using hist_step [OF hist_start, of b] unfolding e by simp
qed

lemma unescape_escape: "hist w z \<Longrightarrow> unescape True w (escape z bs) = bs"
proof (induction bs arbitrary: w z)
  case (Cons b bs)
  show ?case
  proof (cases "z = 2 \<and> b \<le> 3")
    case True
    then have "w AND 0xffff = 0" using Cons.prems by (simp add: hist_def)
    with True Cons.IH [OF hist_ffff [of b]] show ?thesis by (cases "b = 0") simp_all
  next
    case False
    have "\<not> (b = 3 \<and> w AND 0xffff = 0)" using False Cons.prems by (auto simp: hist_def)
    have "\<not> (z = 2 \<and> b = 0)" using False by auto
    note IH = Cons.IH [OF hist_step [OF Cons.prems this]]
    have "escape z (b # bs) = b # escape (if b = 0 then z + 1 else 0) bs" using False by auto
    moreover have "unescape True w (b # xs) = b # unescape True (push_bit 8 w OR ucast b) xs" for xs
      using \<open>\<not> (b = 3 \<and> w AND 0xffff = 0)\<close> by auto
    ultimately show ?thesis using IH by (simp only:)
  qed
qed simp

text \<open>A header byte that is not zero does not disturb the history.\<close>

lemma unescape_header:
  fixes h :: u8
  assumes "h \<noteq> 0" and "hist w z" and "z < 2"
  shows "unescape True w (h # escape 0 bs) = h # bs"
proof -
  have "w AND 0xffff \<noteq> 0" using assms(2,3) by (simp add: hist_def)
  moreover have "hist (push_bit 8 w OR ucast h) 0" using hist_step [OF assms(2), of h] assms(1) by simp
  ultimately show ?thesis by (simp add: unescape_escape)
qed

section \<open>No start code, bounded length\<close>

text \<open>A start code prefix: two zeros and a byte below 3 (which also covers three zeros).\<close>

fun start_code_free :: "u8 list \<Rightarrow> bool" where
  "start_code_free (a # b # c # bs) = (\<not> (a = 0 \<and> b = 0 \<and> c \<le> 2) \<and> start_code_free (b # c # bs))"
| "start_code_free bs = True"

lemma start_code_free_Cons: "start_code_free (a # bs) \<longleftrightarrow>
   (case bs of b # c # _ \<Rightarrow> \<not> (a = 0 \<and> b = 0 \<and> c \<le> 2) | _ \<Rightarrow> True) \<and> start_code_free bs"
  by (cases bs; cases "tl bs") auto

lemma start_code_free_nonzero: "a \<noteq> 0 \<Longrightarrow> start_code_free (a # bs) = start_code_free bs"
  by (cases bs; cases "tl bs") auto

lemma start_code_free_zeros:
  "b \<noteq> 0 \<Longrightarrow> start_code_free (0 # b # bs) = start_code_free (b # bs)"
  "b \<noteq> 0 \<Longrightarrow> \<not> b \<le> 2 \<Longrightarrow> start_code_free (0 # 0 # b # bs) = start_code_free (b # bs)"
  by (cases bs; simp)+

lemma start_code_free_escape:
  "z \<le> 2 \<Longrightarrow> start_code_free (replicate z 0 @ escape z bs)"
proof (induction bs arbitrary: z)
  case Nil
  then consider "z = 0" | "z = 1" | "z = 2" by linarith
  then show ?case by cases (simp_all add: numeral_2_eq_2)
next
  case (Cons b bs)
  show ?case
  proof (cases "z = 2 \<and> b \<le> 3")
    case True
    have "start_code_free (replicate (of_bool (b = 0)) 0 @ escape (of_bool (b = 0)) bs)"
      by (rule Cons.IH) simp
    then have "start_code_free (b # escape (of_bool (b = 0)) bs)"
      by (cases "b = 0") (simp_all add: start_code_free_nonzero)
    then have "start_code_free (0 # 0 # 3 # b # escape (of_bool (b = 0)) bs)"
      by (simp add: start_code_free_nonzero)
    with True show ?thesis by (simp add: numeral_2_eq_2)
  next
    case False
    show ?thesis
    proof (cases "b = 0")
      case True
      with False Cons.prems have "z + 1 \<le> 2" by auto
      from Cons.IH [OF this] True False show ?thesis
        by (simp add: replicate_app_Cons_same)
    next
      case b: False
      have s: "start_code_free (b # escape 0 bs)" using Cons.IH [of 0] b by (simp add: start_code_free_nonzero)
      have "\<not> b \<le> 2" if "z = 2" using False that by (auto intro: order_trans)
      from Cons.prems consider "z = 0" | "z = 1" | "z = 2" by linarith
      then have "start_code_free (replicate z 0 @ b # escape 0 bs)"
        using b s \<open>z = 2 \<Longrightarrow> \<not> b \<le> 2\<close>
        by cases (simp_all add: numeral_2_eq_2 start_code_free_zeros del: start_code_free.simps)
      moreover have "escape z (b # bs) = b # escape 0 bs" using False b by auto
      ultimately show ?thesis by simp
    qed
  qed
qed

lemma length_escape_le: "z \<le> 2 \<Longrightarrow> 2 * length (escape z bs) \<le> 3 * length bs + z"
proof (induction bs arbitrary: z)
  case (Cons b bs)
  show ?case
  proof (cases "z = 2 \<and> b \<le> 3")
    case True
    then show ?thesis using Cons.IH [of "of_bool (b = 0)"] by (cases "b = 0") auto
  next
    case False
    then have "(if b = 0 then z + 1 else 0) \<le> 2" using Cons.prems by auto
    from Cons.IH [OF this] False show ?thesis by (cases "b = 0") auto
  qed
qed simp

lemma length_escape_ge: "length bs \<le> length (escape z bs)"
proof (induction bs arbitrary: z)
  case (Cons b bs)
  have "length bs \<le> length (escape z' bs)" for z' by (rule Cons.IH)
  then show ?case by (simp add: le_SucI)
qed simp

end
