(* ===== verification/RkvNal.thy ===== *)
theory RkvNal
  imports RkvStream H264eCom Escape
begin

text \<open>
  Header generation of the RKVENC encoder, mpp/hal/rkenc/h264e/hal_h264e_rkv_nal.c: the SPS, PPS
  and SEI writers over the stream of \<open>RkvStream\<close>, the NAL bookkeeping, the emulation prevention
  copy and the functions that set up and hand out the headers. A pointer \<open>p_payload\<close> is an offset
  into the stream buffer until the NAL is encoded and into the NAL buffer afterwards.
\<close>

section \<open>Syntax writers\<close>

text \<open>The writer calls with the conversion of their signed arguments to \<open>RK_U32\<close>.\<close>

definition wr :: "nat \<Rightarrow> int \<Rightarrow> rkv_stream \<Rightarrow> rkv_stream" where
  "wr n x = h264e_rkv_stream_write_with_log n (word_of_int x)"
definition wr1 :: "int \<Rightarrow> rkv_stream \<Rightarrow> rkv_stream" where
  "wr1 x = h264e_rkv_stream_write1_with_log (word_of_int x)"
definition wue :: "int \<Rightarrow> rkv_stream \<Rightarrow> rkv_stream" where
  "wue x = h264e_rkv_stream_write_ue_with_log (word_of_int x)"
definition wse :: "int \<Rightarrow> rkv_stream \<Rightarrow> rkv_stream" where
  "wse x = h264e_rkv_stream_write_se_with_log x"

abbreviation (input) H264_BIT_DEPTH :: int where "H264_BIT_DEPTH \<equiv> 8"
abbreviation (input) H264_QP_BD_OFFSET :: int where "H264_QP_BD_OFFSET \<equiv> 6 * (H264_BIT_DEPTH - 8)"

text \<open>The sample aspect ratio table: width, height, \<open>aspect_ratio_idc\<close>; 255 ends it.\<close>

definition sar_table :: "(int \<times> int \<times> int) list" where
  "sar_table =
    [(1, 1, 1), (12, 11, 2), (10, 11, 3), (16, 11, 4),
     (40, 33, 5), (24, 11, 6), (20, 11, 7), (32, 11, 8),
     (80, 33, 9), (18, 11, 10), (15, 11, 11), (64, 33, 12),
     (160, 99, 13), (4, 3, 14), (3, 2, 15), (2, 1, 16),
     (0, 0, 255)]"

fun find_sar :: "(int \<times> int \<times> int) list \<Rightarrow> int \<Rightarrow> int \<Rightarrow> int" where
  "find_sar [] w h = 255"
| "find_sar ((tw, th, sar) # rest) w h =
    (if sar = 255 \<or> tw = w \<and> th = h then sar else find_sar rest w h)"

definition h264e_rkv_hrd_write :: "vui_hrd \<Rightarrow> rkv_stream \<Rightarrow> rkv_stream" where
  "h264e_rkv_hrd_write h = run [
    wue (vh_cpb_cnt h - 1),
    wr 4 (vh_bit_rate_scale h),
    wr 4 (vh_cpb_size_scale h),
    wue (vh_bit_rate_value h - 1),
    wue (vh_cpb_size_value h - 1),
    wr1 (vh_cbr_hrd h),
    wr 5 (vh_initial_cpb_removal_delay_length h - 1),
    wr 5 (vh_cpb_removal_delay_length h - 1),
    wr 5 (vh_dpb_output_delay_length h - 1),
    wr 5 (vh_time_offset_length h)]"

definition h264e_rkv_vui_write :: "h264e_vui \<Rightarrow> rkv_stream \<Rightarrow> rkv_stream" where
  "h264e_rkv_vui_write v = run [
    wr1 (b_aspect_ratio_info_present v),
    run_if (b_aspect_ratio_info_present v \<noteq> 0)
      [wr 8 (find_sar sar_table (i_sar_width v) (i_sar_height v)),
       run_if (find_sar sar_table (i_sar_width v) (i_sar_height v) = 255)
         [wr 16 (i_sar_width v), wr 16 (i_sar_height v)]],
    wr1 (b_overscan_info_present v),
    run_if (b_overscan_info_present v \<noteq> 0) [wr1 (b_overscan_info v)],
    wr1 (b_signal_type_present v),
    run_if (b_signal_type_present v \<noteq> 0)
      [wr 3 (i_vidformat v),
       wr1 (b_fullrange v),
       wr1 (b_color_description_present v),
       run_if (b_color_description_present v \<noteq> 0)
         [wr 8 (i_colorprim v), wr 8 (i_transfer v), wr 8 (i_colmatrix v)]],
    wr1 (b_chroma_loc_info_present v),
    run_if (b_chroma_loc_info_present v \<noteq> 0)
      [wue (i_chroma_loc_top v), wue (i_chroma_loc_bottom v)],
    wr1 (b_timing_info_present v),
    run_if (b_timing_info_present v \<noteq> 0)
      [h264e_rkv_stream_write32 (i_num_units_in_tick v),
       h264e_rkv_stream_write32 (i_time_scale v),
       wr1 (b_fixed_frame_rate v)],
    wr1 (b_nal_hrd_parameters_present v),
    run_if (b_nal_hrd_parameters_present v \<noteq> 0) [h264e_rkv_hrd_write (vui_hrd_params v)],
    wr1 (b_vcl_hrd_parameters_present v),
    run_if (b_nal_hrd_parameters_present v \<noteq> 0 \<or> b_vcl_hrd_parameters_present v \<noteq> 0) [wr1 0],
    wr1 (b_pic_struct_present v),
    wr1 (b_bitstream_restriction v),
    run_if (b_bitstream_restriction v \<noteq> 0)
      [wr1 (b_motion_vectors_over_pic_boundaries v),
       wue (i_max_bytes_per_pic_denom v),
       wue (i_max_bits_per_mb_denom v),
       wue (i_log2_max_mv_length_horizontal v),
       wue (i_log2_max_mv_length_vertical v),
       wue (i_num_reorder_frames v),
       wue (i_max_dec_frame_buffering v)]]"

text \<open>The syntax elements of the SPS, then the function with its frame.\<close>

definition h264e_rkv_sps_elements :: "h264e_sps \<Rightarrow> rkv_stream \<Rightarrow> rkv_stream" where
  "h264e_rkv_sps_elements sps =
    (let h_shift = of_bool (i_chroma_format_idc sps = H264E_CHROMA_420
                            \<or> i_chroma_format_idc sps = H264E_CHROMA_422);
         v_shift = of_bool (i_chroma_format_idc sps = H264E_CHROMA_420)
     in run [
    wr 8 (i_profile_idc sps),
    wr1 (b_constraint_set0 sps),
    wr1 (b_constraint_set1 sps),
    wr1 (b_constraint_set2 sps),
    wr1 (b_constraint_set3 sps),
    wr 4 0,
    wr 8 (i_level_idc sps),
    wue (sps_id sps),
    run_if (i_profile_idc sps \<ge> H264_PROFILE_HIGH)
      [wue (i_chroma_format_idc sps),
       run_if (i_chroma_format_idc sps = H264E_CHROMA_444) [wr1 0],
       wue (H264_BIT_DEPTH - 8),
       wue (H264_BIT_DEPTH - 8),
       wr1 (b_qpprime_y_zero_transform_bypass sps),
       wr1 0],
    wue (i_log2_max_frame_num sps - 4),
    wue (i_poc_type sps),
    run_if (i_poc_type sps = 0) [wue (i_log2_max_poc_lsb sps - 4)],
    wue (i_num_ref_frames sps),
    wr1 (b_gaps_in_frame_num_value_allowed sps),
    wue (i_mb_width sps - 1),
    wue (drop_bit (of_bool (b_frame_mbs_only sps = 0)) (i_mb_height sps) - 1),
    wr1 (b_frame_mbs_only sps),
    run_if (b_frame_mbs_only sps = 0) [wr1 (b_mb_adaptive_frame_field sps)],
    wr1 (b_direct8x8_inference sps),
    wr1 (b_crop sps),
    run_if (b_crop sps \<noteq> 0)
      [wue (drop_bit h_shift (crop_left (sps_crop sps))),
       wue (drop_bit h_shift (crop_right (sps_crop sps))),
       wue (drop_bit v_shift (crop_top (sps_crop sps))),
       wue (drop_bit v_shift (crop_bottom (sps_crop sps)))],
    wr1 (b_vui (sps_vui sps)),
    run_if (b_vui (sps_vui sps) \<noteq> 0) [h264e_rkv_vui_write (sps_vui sps)]])"

definition h264e_rkv_sps_write :: "h264e_sps \<Rightarrow> rkv_stream \<Rightarrow> rkv_stream" where
  "h264e_rkv_sps_write sps s =
    (let s = s\<lparr>rs_count_bit := 0\<rparr>;
         s = h264e_rkv_stream_realign s;
         s = h264e_rkv_sps_elements sps s;
         s = h264e_rkv_stream_rbsp_trailing s
     in h264e_rkv_stream_flush s)"

section \<open>Scaling lists and the PPS\<close>

definition h264e_zigzag_scan4 :: "nat list" where
  "h264e_zigzag_scan4 =
   [0, 4, 1, 2, 5, 8, 12, 9, 6, 3, 7, 10, 13, 14, 11, 15]"

definition h264e_zigzag_scan8 :: "nat list" where
  "h264e_zigzag_scan8 =
   [0, 8, 1, 2, 9, 16, 24, 17, 10, 3, 4, 11, 18, 25, 32, 40,
    33, 26, 19, 12, 5, 6, 13, 20, 27, 34, 41, 48, 56, 49, 42, 35,
    28, 21, 14, 7, 15, 22, 29, 36, 43, 50, 57, 58, 51, 44, 37, 30,
    23, 31, 38, 45, 52, 59, 60, 53, 46, 39, 47, 54, 61, 62, 55, 63]"

abbreviation (input) H264E_CQM_4IY :: nat where "H264E_CQM_4IY \<equiv> 0"
abbreviation (input) H264E_CQM_4PY :: nat where "H264E_CQM_4PY \<equiv> 1"
abbreviation (input) H264E_CQM_4IC :: nat where "H264E_CQM_4IC \<equiv> 2"
abbreviation (input) H264E_CQM_4PC :: nat where "H264E_CQM_4PC \<equiv> 3"
abbreviation (input) H264E_CQM_8IY :: nat where "H264E_CQM_8IY \<equiv> 0"
abbreviation (input) H264E_CQM_8PY :: nat where "H264E_CQM_8PY \<equiv> 1"
abbreviation (input) H264E_CQM_8IC :: nat where "H264E_CQM_8IC \<equiv> 2"
abbreviation (input) H264E_CQM_8PC :: nat where "H264E_CQM_8PC \<equiv> 3"

text \<open>The cast to \<open>RK_S8\<close>, and the loop that finds where the tail of equal values starts.\<close>

definition rk_s8 :: "int \<Rightarrow> int" where
  "rk_s8 x = sint (word_of_int x :: u8)"

fun trailing_run :: "(nat \<Rightarrow> int) \<Rightarrow> nat \<Rightarrow> nat" where
  "trailing_run f (Suc (Suc n)) = (if f (Suc n) \<noteq> f n then Suc (Suc n) else trailing_run f (Suc n))"
| "trailing_run f n = n"

definition h264e_rkv_scaling_list_write :: "h264e_pps \<Rightarrow> nat \<Rightarrow> rkv_stream \<Rightarrow> rkv_stream" where
  "h264e_rkv_scaling_list_write pps idx =
    (let len = (if idx < 4 then 16 else 64);
         zigzag = (if idx < 4 then h264e_zigzag_scan4 else h264e_zigzag_scan8);
         list = scaling_list pps ! idx;
         def_list =
           (if idx = H264E_CQM_4IC then scaling_list pps ! H264E_CQM_4IY
            else if idx = H264E_CQM_4PC then scaling_list pps ! H264E_CQM_4PY
            else if idx = H264E_CQM_8IC + 4 then scaling_list pps ! (H264E_CQM_8IY + 4)
            else if idx = H264E_CQM_8PC + 4 then scaling_list pps ! (H264E_CQM_8PY + 4)
            else h264e_cqm_jvt ! idx)
     in if take len list = take len def_list then wr1 0
        else if take len list = take len (h264e_cqm_jvt ! idx) then run [wr1 1, wse (- 8)]
        else
          let v = (\<lambda>k. uint (list ! (zigzag ! k)));
              run1 = trailing_run v len;
              run2 = (if run1 < len \<and> len - run1 < h264e_rkv_stream_size_se (rk_s8 (- v run1))
                      then len else run1)
          in run [wr1 1,
                  run (map (\<lambda>k. wse (rk_s8 (v k - (if k > 0 then v (k - 1) else 8)))) [0..<run2]),
                  run_if (run2 < len) [wse (rk_s8 (- v run2))]])"

definition h264e_rkv_pps_elements :: "h264e_pps \<Rightarrow> h264e_sps \<Rightarrow> rkv_stream \<Rightarrow> rkv_stream" where
  "h264e_rkv_pps_elements pps sps =
    (let sl = h264e_rkv_scaling_list_write pps in run [
    wue (pps_id pps),
    wue (pps_sps_id pps),
    wr1 (b_cabac pps),
    wr1 (b_pic_order pps),
    wue (i_num_slice_groups pps - 1),
    wue (i_num_ref_idx_l0_default_active pps - 1),
    wue (i_num_ref_idx_l1_default_active pps - 1),
    wr1 (b_weighted_pred pps),
    wr 2 (i_weighted_bipred_idc pps),
    wse (i_pic_init_qp pps - 26 - H264_QP_BD_OFFSET),
    wse (i_pic_init_qs pps - 26 - H264_QP_BD_OFFSET),
    wse (i_chroma_qp_index_offset pps),
    wr1 (b_deblocking_filter_control pps),
    wr1 (b_constrained_intra_pred pps),
    wr1 (b_redundant_pic_cnt pps),
    run_if (b_transform_8x8_mode pps \<noteq> 0 \<or> b_cqm_preset pps \<noteq> H264E_CQM_FLAT)
      [wr1 (b_transform_8x8_mode pps),
       wr1 (of_bool (b_cqm_preset pps \<noteq> H264E_CQM_FLAT)),
       run_if (b_cqm_preset pps \<noteq> H264E_CQM_FLAT)
         [sl H264E_CQM_4IY, sl H264E_CQM_4IC, wr1 0,
          sl H264E_CQM_4PY, sl H264E_CQM_4PC, wr1 0,
          run_if (b_transform_8x8_mode pps \<noteq> 0)
            (if i_chroma_format_idc sps = H264E_CHROMA_444
             then [sl (H264E_CQM_8IY + 4), sl (H264E_CQM_8IC + 4), wr1 0,
                   sl (H264E_CQM_8PY + 4), sl (H264E_CQM_8PC + 4), wr1 0]
             else [sl (H264E_CQM_8IY + 4), sl (H264E_CQM_8PY + 4)])],
       wse (i_second_chroma_qp_index_offset pps)]])"

definition h264e_rkv_pps_write :: "h264e_pps \<Rightarrow> h264e_sps \<Rightarrow> rkv_stream \<Rightarrow> rkv_stream" where
  "h264e_rkv_pps_write pps sps s =
    (let s = s\<lparr>rs_count_bit := 0\<rparr>;
         s = h264e_rkv_stream_realign s;
         s = h264e_rkv_pps_elements pps sps s;
         s = h264e_rkv_stream_rbsp_trailing s
     in h264e_rkv_stream_flush s)"

section \<open>The SEI\<close>

text \<open>\<open>for (i = 0; i <= n - 255; i += 255) write 0xff\<close>, then the rest in one byte.\<close>

function sei_ff_loop :: "nat \<Rightarrow> nat \<Rightarrow> rkv_stream \<Rightarrow> nat \<times> rkv_stream" where
  "sei_ff_loop i n s = (if i + 255 \<le> n then sei_ff_loop (i + 255) n (wr 8 0xff s) else (i, s))"
  by pat_completeness auto
termination by (relation "measure (\<lambda>(i, n, _). n - i)") auto

declare sei_ff_loop.simps [simp del]

definition h264e_rkv_sei_write :: "u8 list \<Rightarrow> nat \<Rightarrow> nat \<Rightarrow> rkv_stream \<Rightarrow> rkv_stream" where
  "h264e_rkv_sei_write payload payload_size payload_type s =
    (let s = s\<lparr>rs_count_bit := 0\<rparr>;
         s = h264e_rkv_stream_realign s;
         (i, s) = sei_ff_loop 0 payload_type s;
         s = wr 8 (int payload_type - int i) s;
         (i, s) = sei_ff_loop 0 payload_size s;
         s = wr 8 (int payload_size - int i) s;
         s = run (map (\<lambda>i. wr 8 (uint (payload ! i))) [0..<payload_size]) s;
         s = h264e_rkv_stream_rbsp_trailing s
     in h264e_rkv_stream_flush s)"

section \<open>The bits of the parameter sets\<close>

text \<open>
  The syntax structures as bit strings, and the ranges under which the writer functions produce
  them: flags are 0 or 1, fixed width fields fit, \<open>ue\<close> values are below \<open>2 ^ 31 - 1\<close>.
\<close>

abbreviation flag :: "int \<Rightarrow> bool list" where "flag x \<equiv> [x = 1]"
abbreviation ue :: "int \<Rightarrow> bool list" where "ue x \<equiv> ue_bits (nat x)"

definition flag_ok :: "int \<Rightarrow> bool" where "flag_ok x \<longleftrightarrow> x = 0 \<or> x = 1"
definition ue_ok :: "int \<Rightarrow> bool" where "ue_ok x \<longleftrightarrow> 0 \<le> x \<and> x < 2 ^ 31 - 1"
definition se_ok :: "int \<Rightarrow> bool" where "se_ok x \<longleftrightarrow> \<bar>x\<bar> < 2 ^ 15"
definition u_ok :: "nat \<Rightarrow> int \<Rightarrow> bool" where "u_ok n x \<longleftrightarrow> 0 \<le> x \<and> x < 2 ^ n"

named_theorems emits_ops \<open>what the single operations emit\<close>

lemma emits_wr [emits_ops]: "u_ok n x \<Longrightarrow> n \<le> 31 \<Longrightarrow> rkv.emits (wr n x) (msb_bits n x)"
  using rkv.emits_put_int [of n x] by (simp add: u_ok_def wr_def)

lemma emits_wr1 [emits_ops]: "flag_ok x \<Longrightarrow> rkv.emits (wr1 x) (flag x)"
  using emits_write1_int [of x] by (simp add: flag_ok_def wr1_def)

lemma emits_wue [emits_ops]: "ue_ok x \<Longrightarrow> rkv.emits (wue x) (ue x)"
  using emits_write_ue [of "nat x"] by (simp add: ue_ok_def nat_less_iff wue_def)

lemma emits_wse [emits_ops]: "se_ok x \<Longrightarrow> rkv.emits (wse x) (se_bits x)"
  using emits_write_se [of x] by (simp add: se_ok_def wse_def)

lemmas [emits_ops] = rkv_write32

definition hrd_bits :: "vui_hrd \<Rightarrow> bool list" where
  "hrd_bits h = concat
    [ue (vh_cpb_cnt h - 1),
     msb_bits 4 (vh_bit_rate_scale h),
     msb_bits 4 (vh_cpb_size_scale h),
     ue (vh_bit_rate_value h - 1),
     ue (vh_cpb_size_value h - 1),
     flag (vh_cbr_hrd h),
     msb_bits 5 (vh_initial_cpb_removal_delay_length h - 1),
     msb_bits 5 (vh_cpb_removal_delay_length h - 1),
     msb_bits 5 (vh_dpb_output_delay_length h - 1),
     msb_bits 5 (vh_time_offset_length h)]"

definition hrd_ok :: "vui_hrd \<Rightarrow> bool" where
  "hrd_ok h \<longleftrightarrow> ue_ok (vh_cpb_cnt h - 1) \<and> u_ok 4 (vh_bit_rate_scale h) \<and> u_ok 4 (vh_cpb_size_scale h)
     \<and> ue_ok (vh_bit_rate_value h - 1) \<and> ue_ok (vh_cpb_size_value h - 1) \<and> flag_ok (vh_cbr_hrd h)
     \<and> u_ok 5 (vh_initial_cpb_removal_delay_length h - 1) \<and> u_ok 5 (vh_cpb_removal_delay_length h - 1)
     \<and> u_ok 5 (vh_dpb_output_delay_length h - 1) \<and> u_ok 5 (vh_time_offset_length h)"

lemma hrd_write [emits_ops]: "hrd_ok h \<Longrightarrow> rkv.emits (h264e_rkv_hrd_write h) (hrd_bits h)"
  unfolding h264e_rkv_hrd_write_def hrd_bits_def
  by (rule rkv.emits_run) (simp add: emits_ops hrd_ok_def)

definition vui_bits :: "h264e_vui \<Rightarrow> bool list" where
  "vui_bits v = concat
    [flag (b_aspect_ratio_info_present v),
     bits_if (b_aspect_ratio_info_present v \<noteq> 0)
       [msb_bits 8 (find_sar sar_table (i_sar_width v) (i_sar_height v)),
        bits_if (find_sar sar_table (i_sar_width v) (i_sar_height v) = 255)
          [msb_bits 16 (i_sar_width v), msb_bits 16 (i_sar_height v)]],
     flag (b_overscan_info_present v),
     bits_if (b_overscan_info_present v \<noteq> 0) [flag (b_overscan_info v)],
     flag (b_signal_type_present v),
     bits_if (b_signal_type_present v \<noteq> 0)
       [msb_bits 3 (i_vidformat v), flag (b_fullrange v), flag (b_color_description_present v),
        bits_if (b_color_description_present v \<noteq> 0)
          [msb_bits 8 (i_colorprim v), msb_bits 8 (i_transfer v), msb_bits 8 (i_colmatrix v)]],
     flag (b_chroma_loc_info_present v),
     bits_if (b_chroma_loc_info_present v \<noteq> 0) [ue (i_chroma_loc_top v), ue (i_chroma_loc_bottom v)],
     flag (b_timing_info_present v),
     bits_if (b_timing_info_present v \<noteq> 0)
       [msb_bits 32 (i_num_units_in_tick v), msb_bits 32 (i_time_scale v), flag (b_fixed_frame_rate v)],
     flag (b_nal_hrd_parameters_present v),
     bits_if (b_nal_hrd_parameters_present v \<noteq> 0) [hrd_bits (vui_hrd_params v)],
     flag (b_vcl_hrd_parameters_present v),
     bits_if (b_nal_hrd_parameters_present v \<noteq> 0 \<or> b_vcl_hrd_parameters_present v \<noteq> 0) [[False]],
     flag (b_pic_struct_present v),
     flag (b_bitstream_restriction v),
     bits_if (b_bitstream_restriction v \<noteq> 0)
       [flag (b_motion_vectors_over_pic_boundaries v), ue (i_max_bytes_per_pic_denom v),
        ue (i_max_bits_per_mb_denom v), ue (i_log2_max_mv_length_horizontal v),
        ue (i_log2_max_mv_length_vertical v), ue (i_num_reorder_frames v),
        ue (i_max_dec_frame_buffering v)]]"

definition vui_ok :: "h264e_vui \<Rightarrow> bool" where
  "vui_ok v \<longleftrightarrow> flag_ok (b_aspect_ratio_info_present v) \<and> u_ok 16 (i_sar_width v) \<and> u_ok 16 (i_sar_height v)
     \<and> flag_ok (b_overscan_info_present v) \<and> flag_ok (b_overscan_info v)
     \<and> flag_ok (b_signal_type_present v) \<and> u_ok 3 (i_vidformat v) \<and> flag_ok (b_fullrange v)
     \<and> flag_ok (b_color_description_present v) \<and> u_ok 8 (i_colorprim v) \<and> u_ok 8 (i_transfer v)
     \<and> u_ok 8 (i_colmatrix v) \<and> flag_ok (b_chroma_loc_info_present v) \<and> ue_ok (i_chroma_loc_top v)
     \<and> ue_ok (i_chroma_loc_bottom v) \<and> flag_ok (b_timing_info_present v) \<and> flag_ok (b_fixed_frame_rate v)
     \<and> flag_ok (b_nal_hrd_parameters_present v) \<and> flag_ok (b_vcl_hrd_parameters_present v)
     \<and> (b_nal_hrd_parameters_present v \<noteq> 0 \<longrightarrow> hrd_ok (vui_hrd_params v))
     \<and> flag_ok (b_pic_struct_present v) \<and> flag_ok (b_bitstream_restriction v)
     \<and> flag_ok (b_motion_vectors_over_pic_boundaries v) \<and> ue_ok (i_max_bytes_per_pic_denom v)
     \<and> ue_ok (i_max_bits_per_mb_denom v) \<and> ue_ok (i_log2_max_mv_length_horizontal v)
     \<and> ue_ok (i_log2_max_mv_length_vertical v) \<and> ue_ok (i_num_reorder_frames v)
     \<and> ue_ok (i_max_dec_frame_buffering v)"

lemma find_sar_range: "\<forall>x \<in> set tab. u_ok 8 (snd (snd x)) \<Longrightarrow> u_ok 8 (find_sar tab w h)"
  by (induction tab w h rule: find_sar.induct) (auto simp: u_ok_def)

lemma find_sar_u8: "u_ok 8 (find_sar sar_table w h)"
  by (rule find_sar_range) (simp add: sar_table_def u_ok_def)

lemma emits_wr1_0: "rkv.emits (wr1 0) [False]"
  using emits_wr1 [of 0] by (simp add: flag_ok_def)

lemma vui_write [emits_ops]: "vui_ok v \<Longrightarrow> rkv.emits (h264e_rkv_vui_write v) (vui_bits v)"
  unfolding h264e_rkv_vui_write_def vui_bits_def
  by (rule rkv.emits_run)
    (simp add: emits_ops emits_wr1_0 vui_ok_def find_sar_u8 rkv.emits_run_if)

definition sps_bits :: "h264e_sps \<Rightarrow> bool list" where
  "sps_bits sps =
    (let h_shift = of_bool (i_chroma_format_idc sps = H264E_CHROMA_420
                            \<or> i_chroma_format_idc sps = H264E_CHROMA_422);
         v_shift = of_bool (i_chroma_format_idc sps = H264E_CHROMA_420)
     in concat
    [msb_bits 8 (i_profile_idc sps),
     flag (b_constraint_set0 sps), flag (b_constraint_set1 sps),
     flag (b_constraint_set2 sps), flag (b_constraint_set3 sps),
     msb_bits 4 (0 :: int),
     msb_bits 8 (i_level_idc sps),
     ue (sps_id sps),
     bits_if (i_profile_idc sps \<ge> H264_PROFILE_HIGH)
       [ue (i_chroma_format_idc sps),
        bits_if (i_chroma_format_idc sps = H264E_CHROMA_444) [[False]],
        ue 0, ue 0, flag (b_qpprime_y_zero_transform_bypass sps), [False]],
     ue (i_log2_max_frame_num sps - 4),
     ue (i_poc_type sps),
     bits_if (i_poc_type sps = 0) [ue (i_log2_max_poc_lsb sps - 4)],
     ue (i_num_ref_frames sps),
     flag (b_gaps_in_frame_num_value_allowed sps),
     ue (i_mb_width sps - 1),
     ue (drop_bit (of_bool (b_frame_mbs_only sps = 0)) (i_mb_height sps) - 1),
     flag (b_frame_mbs_only sps),
     bits_if (b_frame_mbs_only sps = 0) [flag (b_mb_adaptive_frame_field sps)],
     flag (b_direct8x8_inference sps),
     flag (b_crop sps),
     bits_if (b_crop sps \<noteq> 0)
       [ue (drop_bit h_shift (crop_left (sps_crop sps))), ue (drop_bit h_shift (crop_right (sps_crop sps))),
        ue (drop_bit v_shift (crop_top (sps_crop sps))), ue (drop_bit v_shift (crop_bottom (sps_crop sps)))],
     flag (b_vui (sps_vui sps)),
     bits_if (b_vui (sps_vui sps) \<noteq> 0) [vui_bits (sps_vui sps)]])"

definition sps_ok :: "h264e_sps \<Rightarrow> bool" where
  "sps_ok s \<longleftrightarrow> u_ok 8 (i_profile_idc s) \<and> flag_ok (b_constraint_set0 s) \<and> flag_ok (b_constraint_set1 s)
     \<and> flag_ok (b_constraint_set2 s) \<and> flag_ok (b_constraint_set3 s) \<and> u_ok 8 (i_level_idc s)
     \<and> ue_ok (sps_id s) \<and> ue_ok (i_chroma_format_idc s)
     \<and> flag_ok (b_qpprime_y_zero_transform_bypass s) \<and> ue_ok (i_log2_max_frame_num s - 4)
     \<and> ue_ok (i_poc_type s) \<and> (i_poc_type s = 0 \<longrightarrow> ue_ok (i_log2_max_poc_lsb s - 4))
     \<and> ue_ok (i_num_ref_frames s) \<and> flag_ok (b_gaps_in_frame_num_value_allowed s)
     \<and> ue_ok (i_mb_width s - 1)
     \<and> ue_ok (drop_bit (of_bool (b_frame_mbs_only s = 0)) (i_mb_height s) - 1)
     \<and> flag_ok (b_frame_mbs_only s) \<and> flag_ok (b_mb_adaptive_frame_field s)
     \<and> flag_ok (b_direct8x8_inference s) \<and> flag_ok (b_crop s)
     \<and> (b_crop s \<noteq> 0 \<longrightarrow> ue_ok (crop_left (sps_crop s)) \<and> ue_ok (crop_right (sps_crop s))
          \<and> ue_ok (crop_top (sps_crop s)) \<and> ue_ok (crop_bottom (sps_crop s)))
     \<and> flag_ok (b_vui (sps_vui s)) \<and> (b_vui (sps_vui s) \<noteq> 0 \<longrightarrow> vui_ok (sps_vui s))"

lemma emits_wr_0: "n \<le> 31 \<Longrightarrow> rkv.emits (wr n 0) (replicate n False)"
  using emits_wr [of n 0] by (simp add: u_ok_def)

lemma emits_wue_0: "rkv.emits (wue 0) (ue_bits 0)"
  using emits_wue [of 0] by (simp add: ue_ok_def)

lemma div_power_le: "0 \<le> x \<Longrightarrow> x div 2 ^ n \<le> (x :: int)"
  using zdiv_mono2 [of x 1 "2 ^ n"] by simp

lemma ue_ok_drop_bit: "ue_ok x \<Longrightarrow> ue_ok (drop_bit n x)"
  using div_power_le [of x n]
  by (auto simp: ue_ok_def drop_bit_eq_div pos_imp_zdiv_nonneg_iff)

lemma sps_elements [emits_ops]: "sps_ok s \<Longrightarrow> rkv.emits (h264e_rkv_sps_elements s) (sps_bits s)"
  unfolding h264e_rkv_sps_elements_def sps_bits_def Let_def
  by (rule rkv.emits_run)
    (simp add: emits_ops emits_wr1_0 emits_wr_0 emits_wue_0 sps_ok_def rkv.emits_run_if ue_ok_drop_bit)

text \<open>The frame of the unit writers, on the stream that has been flushed.\<close>

definition unit_fits :: "rkv_stream \<Rightarrow> bool list \<Rightarrow> bool" where
  "unit_fits s bs \<longleftrightarrow> rs_p s + length bs div 8 + 16 \<le> length (rs_buf s)"

lemma sps_write_unit:
  assumes "rkv_flushed s" and "sps_ok sps" and "unit_fits s (sps_bits sps)"
  shows "rkv_flushed (h264e_rkv_sps_write sps s)"
    and "rkv_bits (h264e_rkv_sps_write sps s) = rkv_bits s @ sps_bits sps @ trailing_bits (length (sps_bits sps))"
  using rkv_unit [OF assms(1) sps_elements [OF assms(2)]] assms(3)
  by (simp_all add: h264e_rkv_sps_write_def Let_def unit_fits_def)

section \<open>The bits of scaling lists and PPS\<close>

definition scaling_list_bits :: "h264e_pps \<Rightarrow> nat \<Rightarrow> bool list" where
  "scaling_list_bits pps idx =
    (let len = (if idx < 4 then 16 else 64);
         zigzag = (if idx < 4 then h264e_zigzag_scan4 else h264e_zigzag_scan8);
         list = scaling_list pps ! idx;
         def_list =
           (if idx = H264E_CQM_4IC then scaling_list pps ! H264E_CQM_4IY
            else if idx = H264E_CQM_4PC then scaling_list pps ! H264E_CQM_4PY
            else if idx = H264E_CQM_8IC + 4 then scaling_list pps ! (H264E_CQM_8IY + 4)
            else if idx = H264E_CQM_8PC + 4 then scaling_list pps ! (H264E_CQM_8PY + 4)
            else h264e_cqm_jvt ! idx)
     in if take len list = take len def_list then [False]
        else if take len list = take len (h264e_cqm_jvt ! idx) then concat [[True], se_bits (- 8)]
        else
          let v = (\<lambda>k. uint (list ! (zigzag ! k)));
              run1 = trailing_run v len;
              run2 = (if run1 < len \<and> len - run1 < h264e_rkv_stream_size_se (rk_s8 (- v run1))
                      then len else run1)
          in concat [[True],
                  concat (map (\<lambda>k. se_bits (rk_s8 (v k - (if k > 0 then v (k - 1) else 8)))) [0..<run2]),
                  bits_if (run2 < len) [se_bits (rk_s8 (- v run2))]])"

lemma rk_s8_range: "- 128 \<le> rk_s8 x" "rk_s8 x < 128"
  using sint_greater_eq [of "word_of_int x :: u8"] sint_less [of "word_of_int x :: u8"]
  by (simp_all add: rk_s8_def)

lemma se_ok_rk_s8: "se_ok (rk_s8 x)"
  using rk_s8_range [of x] by (simp add: se_ok_def)

lemma emits_wr1_1: "rkv.emits (wr1 1) [True]"
  using emits_wr1 [of 1] by (simp add: flag_ok_def)

lemma emits_if_else:
  "(b \<Longrightarrow> rkv.emits f xs) \<Longrightarrow> (\<not> b \<Longrightarrow> rkv.emits g ys) \<Longrightarrow>
     rkv.emits (if b then f else g) (if b then xs else ys)"
  by simp

lemma scaling_list_write [emits_ops]:
  "rkv.emits (h264e_rkv_scaling_list_write pps idx) (scaling_list_bits pps idx)"
proof -
  have jvt: "rkv.emits (run [wr1 1, wse (- 8)]) (concat [[True], se_bits (- 8)])"
    by (rule rkv.emits_run) (simp add: emits_wr1_1 emits_wse se_ok_def)
  have custom: "rkv.emits
      (run [wr1 1, run (map (\<lambda>k. wse (rk_s8 (f k))) ks), run_if b [wse (rk_s8 x)]])
      (concat [[True], concat (map (\<lambda>k. se_bits (rk_s8 (f k))) ks), bits_if b [se_bits (rk_s8 x)]])" for f ks b x
  proof (rule rkv.emits_run)
    have "rkv.emits (run (map (\<lambda>k. wse (rk_s8 (f k))) ks)) (concat (map (\<lambda>k. se_bits (rk_s8 (f k))) ks))"
      by (rule rkv.emits_run)
        (simp add: list_all2_map1 list_all2_map2 list_all2_same emits_wse se_ok_rk_s8)
    then show "list_all2 rkv.emits [wr1 1, run (map (\<lambda>k. wse (rk_s8 (f k))) ks), run_if b [wse (rk_s8 x)]]
        [[True], concat (map (\<lambda>k. se_bits (rk_s8 (f k))) ks), bits_if b [se_bits (rk_s8 x)]]"
      by (simp add: emits_wr1_1 rkv.emits_run_if emits_wse se_ok_rk_s8)
  qed
  show ?thesis unfolding h264e_rkv_scaling_list_write_def scaling_list_bits_def Let_def
    by (intro emits_if_else emits_wr1_0 jvt custom)
qed

definition pps_bits :: "h264e_pps \<Rightarrow> h264e_sps \<Rightarrow> bool list" where
  "pps_bits pps sps =
    (let sl = scaling_list_bits pps in concat
    [ue (pps_id pps), ue (pps_sps_id pps), flag (b_cabac pps), flag (b_pic_order pps),
     ue (i_num_slice_groups pps - 1), ue (i_num_ref_idx_l0_default_active pps - 1),
     ue (i_num_ref_idx_l1_default_active pps - 1), flag (b_weighted_pred pps),
     msb_bits 2 (i_weighted_bipred_idc pps), se_bits (i_pic_init_qp pps - 26),
     se_bits (i_pic_init_qs pps - 26), se_bits (i_chroma_qp_index_offset pps),
     flag (b_deblocking_filter_control pps), flag (b_constrained_intra_pred pps),
     flag (b_redundant_pic_cnt pps),
     bits_if (b_transform_8x8_mode pps \<noteq> 0 \<or> b_cqm_preset pps \<noteq> H264E_CQM_FLAT)
       [flag (b_transform_8x8_mode pps),
        [b_cqm_preset pps \<noteq> H264E_CQM_FLAT],
        bits_if (b_cqm_preset pps \<noteq> H264E_CQM_FLAT)
          [sl H264E_CQM_4IY, sl H264E_CQM_4IC, [False], sl H264E_CQM_4PY, sl H264E_CQM_4PC, [False],
           bits_if (b_transform_8x8_mode pps \<noteq> 0)
             (if i_chroma_format_idc sps = H264E_CHROMA_444
              then [sl (H264E_CQM_8IY + 4), sl (H264E_CQM_8IC + 4), [False],
                    sl (H264E_CQM_8PY + 4), sl (H264E_CQM_8PC + 4), [False]]
              else [sl (H264E_CQM_8IY + 4), sl (H264E_CQM_8PY + 4)])],
        se_bits (i_second_chroma_qp_index_offset pps)]])"

definition pps_ok :: "h264e_pps \<Rightarrow> bool" where
  "pps_ok p \<longleftrightarrow> ue_ok (pps_id p) \<and> ue_ok (pps_sps_id p) \<and> flag_ok (b_cabac p) \<and> flag_ok (b_pic_order p)
     \<and> ue_ok (i_num_slice_groups p - 1) \<and> ue_ok (i_num_ref_idx_l0_default_active p - 1)
     \<and> ue_ok (i_num_ref_idx_l1_default_active p - 1) \<and> flag_ok (b_weighted_pred p)
     \<and> u_ok 2 (i_weighted_bipred_idc p) \<and> se_ok (i_pic_init_qp p - 26) \<and> se_ok (i_pic_init_qs p - 26)
     \<and> se_ok (i_chroma_qp_index_offset p) \<and> flag_ok (b_deblocking_filter_control p)
     \<and> flag_ok (b_constrained_intra_pred p) \<and> flag_ok (b_redundant_pic_cnt p)
     \<and> flag_ok (b_transform_8x8_mode p) \<and> se_ok (i_second_chroma_qp_index_offset p)"

lemma pps_elements [emits_ops]: "pps_ok p \<Longrightarrow> rkv.emits (h264e_rkv_pps_elements p sps) (pps_bits p sps)"
  unfolding h264e_rkv_pps_elements_def pps_bits_def Let_def
  by (rule rkv.emits_run)
    (simp add: emits_ops emits_wr1_0 emits_wr1_1 pps_ok_def rkv.emits_run_if of_bool_def)

lemma pps_write_unit:
  assumes "rkv_flushed s" and "pps_ok pps" and "unit_fits s (pps_bits pps sps)"
  shows "rkv_flushed (h264e_rkv_pps_write pps sps s)"
    and "rkv_bits (h264e_rkv_pps_write pps sps s)
      = rkv_bits s @ pps_bits pps sps @ trailing_bits (length (pps_bits pps sps))"
  using rkv_unit [OF assms(1) pps_elements [OF assms(2), of sps]] assms(3)
  by (simp_all add: h264e_rkv_pps_write_def Let_def unit_fits_def)
section \<open>The bits of the SEI\<close>

text \<open>A number in the 255-escaped form of the SEI payload type and size.\<close>

definition ff_bytes :: "nat \<Rightarrow> u8 list" where
  "ff_bytes n = replicate (n div 255) 255 @ [of_nat (n mod 255)]"

definition sei_bytes :: "u8 list \<Rightarrow> nat \<Rightarrow> nat \<Rightarrow> u8 list" where
  "sei_bytes payload payload_size payload_type =
     ff_bytes payload_type @ ff_bytes payload_size @ map (\<lambda>i. payload ! i) [0..<payload_size]"

lemma sei_ff_loop_run:
  "sei_ff_loop i n s = (i + 255 * ((n - i) div 255), run (replicate ((n - i) div 255) (wr 8 255)) s)"
proof (induction i n s rule: sei_ff_loop.induct)
  case (1 i n s)
  show ?case
  proof (cases "i + 255 \<le> n")
    case True
    then have "(n - i) div 255 = Suc ((n - (i + 255)) div 255)" using le_div_geq [of 255 "n - i"] by simp
    with True 1 show ?thesis by (simp add: sei_ff_loop.simps [of i])
  next
    case False
    then have "(n - i) div 255 = 0" by simp
    with False show ?thesis by (simp add: sei_ff_loop.simps [of i])
  qed
qed

lemma emits_byte: "rkv.emits (wr 8 (uint b)) (byte_bits b)"
proof -
  have "msb_bits 8 (uint b) = byte_bits b" by (simp add: byte_bits_def msb_bits_def bit_uint_iff)
  moreover have "u_ok 8 (uint b)" using uint_lt2p [of b] by (simp add: u_ok_def)
  ultimately show ?thesis using emits_wr [of 8 "uint b"] by simp
qed

lemma emits_bytes: "rkv.emits (run (map (\<lambda>b. wr 8 (uint b)) bs)) (bytes_bits bs)"
proof (induction bs)
  case (Cons b bs)
  from rkv.emits_comp [OF emits_byte this] show ?case by simp
qed (simp add: rkv.emits_id)

lemma run_concat: "run (concat fss) = run (map run fss)"
  by (induction fss) (simp_all add: fun_eq_iff run_append)

lemma sei_ff_write:
  "rkv.emits (\<lambda>s. case sei_ff_loop 0 n s of (i, s) \<Rightarrow> wr 8 (int n - int i) s) (bytes_bits (ff_bytes n))"
proof -
  have "int n - int (255 * (n div 255)) = uint (of_nat (n mod 255) :: u8)"
  proof -
    have "255 * (n div 255) + n mod 255 = n" by simp
    then have "int n - int (255 * (n div 255)) = int (n mod 255)" by linarith
    moreover have "uint (of_nat (n mod 255) :: u8) = int (n mod 255)"
    proof -
      have "n mod 255 < 255" by simp
      then have "take_bit 8 (n mod 255) = n mod 255" by (intro take_bit_nat_eq_self) simp
      then show ?thesis by (simp add: unsigned_of_nat)
    qed
    ultimately show ?thesis by simp
  qed
  then have "(\<lambda>s. case sei_ff_loop 0 n s of (i, s) \<Rightarrow> wr 8 (int n - int i) s)
      = run (map (\<lambda>b. wr 8 (uint b)) (ff_bytes n))"
    by (simp add: fun_eq_iff sei_ff_loop_run ff_bytes_def run_append)
  then show ?thesis by (simp add: emits_bytes)
qed

lemma sei_write_unit:
  assumes "rkv_flushed s" and "unit_fits s (bytes_bits (sei_bytes payload n ty))"
  shows "rkv_flushed (h264e_rkv_sei_write payload n ty s)"
    and "rkv_bits (h264e_rkv_sei_write payload n ty s)
      = rkv_bits s @ bytes_bits (sei_bytes payload n ty @ [0x80])"
proof -
  have p: "rkv.emits (run (map (\<lambda>i. wr 8 (uint (payload ! i))) [0..<n]))
      (bytes_bits (map (\<lambda>i. payload ! i) [0..<n]))"
    using emits_bytes [of "map (\<lambda>i. payload ! i) [0..<n]"] by (simp add: comp_def)
  note e = rkv.emits_comp [OF sei_ff_write [of ty] rkv.emits_comp [OF sei_ff_write [of n] p]]
  have "trailing_bits (length (bytes_bits (sei_bytes payload n ty))) = byte_bits 0x80"
  proof -
    have "trailing_bits (length (bytes_bits (sei_bytes payload n ty))) = trailing_bits 0"
      by (simp add: trailing_bits_def)
    also have "\<dots> = byte_bits 0x80" by code_simp
    finally show ?thesis .
  qed
  moreover note u = rkv_unit [OF assms(1) e]
  ultimately show "rkv_flushed (h264e_rkv_sei_write payload n ty s)"
    and "rkv_bits (h264e_rkv_sei_write payload n ty s)
      = rkv_bits s @ bytes_bits (sei_bytes payload n ty @ [0x80])"
    using assms(2) by (simp_all add: h264e_rkv_sei_write_def Let_def case_prod_unfold unit_fits_def sei_bytes_def)
qed

end
