(* ===== verification/RkvExtra.thy ===== *)
theory RkvExtra
  imports RkvNal
begin

text \<open>
  The NAL units of the RKVENC headers, second half of mpp/hal/rkenc/h264e/hal_h264e_rkv_nal.c:
  \<open>H264eRkvNal\<close> and \<open>H264eRkvExtraInfo\<close>, the emulation prevention copy, the start codes, and the
  functions that build the SPS and PPS units and hand them out in a packet. A pointer
  \<open>p_payload\<close> is an offset into the stream buffer until the unit is encoded and into the NAL
  buffer afterwards.
\<close>

section \<open>State\<close>

datatype payload_ptr = Stream_ptr nat | Nal_ptr nat

record rkv_nal =
  i_ref_idc :: int
  i_type :: int
  b_long_startcode :: int
  i_payload :: nat
  p_payload :: payload_ptr
  i_padding :: nat

record rkv_extra_info =
  nal_num :: nat
  nal :: "rkv_nal list"
  nal_buf :: "u8 list"
  sei_buf :: "u8 list"
  ei_stream :: rkv_stream
  ei_sps :: h264e_sps
  ei_pps :: h264e_pps

abbreviation (input) H264E_NAL_SEI :: int where "H264E_NAL_SEI \<equiv> 6"
abbreviation (input) H264E_NAL_SPS :: int where "H264E_NAL_SPS \<equiv> 7"
abbreviation (input) H264E_NAL_PPS :: int where "H264E_NAL_PPS \<equiv> 8"
abbreviation (input) H264E_NAL_PRIORITY_HIGHEST :: int where "H264E_NAL_PRIORITY_HIGHEST \<equiv> 3"
abbreviation (input) H264E_UUID_LENGTH :: nat where "H264E_UUID_LENGTH \<equiv> 16"
abbreviation (input) H264E_SEI_BUF_SIZE :: nat where "H264E_SEI_BUF_SIZE \<equiv> 1024"
abbreviation (input) H264E_SEI_USER_DATA_UNREGISTERED :: nat where
  "H264E_SEI_USER_DATA_UNREGISTERED \<equiv> 5"

definition h264e_rkv_nals_init :: "rkv_extra_info \<Rightarrow> rkv_extra_info" where
  "h264e_rkv_nals_init out = out\<lparr>nal_buf := replicate H264E_EXTRA_INFO_BUF_SIZE 0, nal_num := 0\<rparr>"

definition h264e_rkv_nals_deinit :: "rkv_extra_info \<Rightarrow> rkv_extra_info" where
  "h264e_rkv_nals_deinit out = out\<lparr>nal_buf := [], nal_num := 0\<rparr>"

section \<open>Escaping and encoding\<close>

fun nal_escape_loop :: "u8 list \<Rightarrow> nat \<Rightarrow> u8 list \<Rightarrow> u8 list \<times> nat" where
  "nal_escape_loop m dst [] = (m, dst)"
| "nal_escape_loop m dst (b # src) =
    (if b \<le> 3 \<and> m ! (dst - 2) = 0 \<and> m ! (dst - 1) = 0
     then nal_escape_loop (m[dst := 3, dst + 1 := b]) (dst + 2) src
     else nal_escape_loop (m[dst := b]) (dst + 1) src)"

definition h264e_rkv_nal_escape_c :: "u8 list \<Rightarrow> nat \<Rightarrow> u8 list \<Rightarrow> u8 list \<times> nat" where
  "h264e_rkv_nal_escape_c m dst src =
    (let (m, dst, src) = (if src \<noteq> [] then (m[dst := hd src], dst + 1, tl src) else (m, dst, src));
         (m, dst, src) = (if src \<noteq> [] then (m[dst := hd src], dst + 1, tl src) else (m, dst, src))
     in nal_escape_loop m dst src)"

text \<open>The bytes a unit's pointer and length denote.\<close>

definition payload_bytes :: "rkv_extra_info \<Rightarrow> rkv_nal \<Rightarrow> u8 list" where
  "payload_bytes out n =
    (case p_payload n of
       Stream_ptr q \<Rightarrow> seg (rs_buf (ei_stream out)) q (q + i_payload n)
     | Nal_ptr q \<Rightarrow> seg (nal_buf out) q (q + i_payload n))"

definition h264e_rkv_nal_encode :: "nat \<Rightarrow> nat \<Rightarrow> rkv_extra_info \<Rightarrow> rkv_extra_info" where
  "h264e_rkv_nal_encode dst k out =
    (let n = nal out ! k; src = payload_bytes out n; orig_dst = dst;
         m = store (nal_buf out) dst [0, 0, 1]; dst = dst + 3;
         m = m[dst := word_of_int (push_bit 5 (i_ref_idc n) OR i_type n)]; dst = dst + 1;
         (m, dst) = h264e_rkv_nal_escape_c m dst src;
         size = dst - orig_dst - 4
     in out\<lparr>nal_buf := m, nal := (nal out)[k := n\<lparr>i_payload := size + 4, p_payload := Nal_ptr orig_dst\<rparr>]\<rparr>)"

definition encapsulate_step :: "nat \<Rightarrow> nat \<times> rkv_extra_info \<Rightarrow> nat \<times> rkv_extra_info" where
  "encapsulate_step i = (\<lambda>(nal_buffer, out).
    let n = nal out ! i;
        out = out\<lparr>nal := (nal out)[i := n\<lparr>b_long_startcode :=
                    of_bool (i = 0 \<or> i_type n = H264E_NAL_SPS \<or> i_type n = H264E_NAL_PPS)\<rparr>]\<rparr>;
        out = h264e_rkv_nal_encode nal_buffer i out
    in (nal_buffer + i_payload (nal out ! i), out))"

text \<open>The worst case size the source computes first is never used, so it is not part of the model.\<close>

definition h264e_rkv_encapsulate_nals :: "rkv_extra_info \<Rightarrow> rkv_extra_info" where
  "h264e_rkv_encapsulate_nals out = snd (fold encapsulate_step [0..<nal_num out] (0, out))"

section \<open>Units\<close>

definition h264e_rkv_nal_start :: "int \<Rightarrow> int \<Rightarrow> rkv_extra_info \<Rightarrow> rkv_extra_info" where
  "h264e_rkv_nal_start ty ref_idc out =
    (let s = ei_stream out; n = nal out ! nal_num out
     in out\<lparr>nal := (nal out)[nal_num out := n\<lparr>i_ref_idc := ref_idc, i_type := ty, b_long_startcode := 1,
          i_payload := 0, p_payload := Stream_ptr (rs_buf_plus8 s + h264e_rkv_stream_get_pos s div 8),
          i_padding := 0\<rparr>]\<rparr>)"

text \<open>The difference of the two pointers, and the 64 bytes of 0xff behind the end.\<close>

definition h264e_rkv_nal_end :: "rkv_extra_info \<Rightarrow> rkv_extra_info" where
  "h264e_rkv_nal_end out =
    (let n = nal out ! nal_num out; s = ei_stream out;
         end_ptr = rs_buf_plus8 s + h264e_rkv_stream_get_pos s div 8;
         start = (case p_payload n of Stream_ptr q \<Rightarrow> q | Nal_ptr q \<Rightarrow> q)
     in out\<lparr>nal := (nal out)[nal_num out := n\<lparr>i_payload := end_ptr - start\<rparr>],
            ei_stream := s\<lparr>rs_buf := store (rs_buf s) end_ptr (replicate 64 0xff)\<rparr>,
            nal_num := nal_num out + 1\<rparr>)"

definition h264e_sei_uuid :: "u8 list" where
  "h264e_sei_uuid = [0x63, 0xfc, 0x6a, 0x3c, 0xd8, 0x5c, 0x44, 0x1e,
     0x87, 0xfb, 0x3f, 0xab, 0xec, 0xb3, 0xb6, 0x77]"

definition h264e_rkv_init_extra_info :: "nat \<Rightarrow> rkv_extra_info \<Rightarrow> rkv_extra_info" where
  "h264e_rkv_init_extra_info addr info =
    (let info = h264e_rkv_nals_init info
     in info\<lparr>ei_stream := h264e_rkv_stream_init addr,
             sei_buf := store (replicate H264E_SEI_BUF_SIZE 0) 0 h264e_sei_uuid\<rparr>)"

definition h264e_rkv_deinit_extra_info :: "rkv_extra_info \<Rightarrow> rkv_extra_info" where
  "h264e_rkv_deinit_extra_info info =
    (let info = info\<lparr>ei_stream := h264e_rkv_stream_deinit (ei_stream info)\<rparr>;
         info = h264e_rkv_nals_deinit info
     in info\<lparr>sei_buf := []\<rparr>)"

definition h264e_rkv_set_extra_info ::
  "mpp_enc_cfg \<Rightarrow> h264e_hw_cfg \<Rightarrow> rkv_extra_info \<Rightarrow> (rkv_extra_info \<times> h264e_hw_cfg) option" where
  "h264e_rkv_set_extra_info cfg hw info =
    (let info = info\<lparr>nal_num := 0, ei_stream := h264e_rkv_stream_reset (ei_stream info)\<rparr>;
         info = h264e_rkv_nal_start H264E_NAL_SPS H264E_NAL_PRIORITY_HIGHEST info
     in case h264e_set_sps cfg hw (ei_sps info) of None \<Rightarrow> None | Some (_, sps, hw) \<Rightarrow>
     let info = info\<lparr>ei_sps := sps, ei_stream := h264e_rkv_sps_write sps (ei_stream info)\<rparr>;
         info = h264e_rkv_nal_end info;
         info = h264e_rkv_nal_start H264E_NAL_PPS H264E_NAL_PRIORITY_HIGHEST info;
         (_, pps) = h264e_set_pps cfg sps (ei_pps info);
         info = info\<lparr>ei_pps := pps, ei_stream := h264e_rkv_pps_write pps sps (ei_stream info)\<rparr>;
         info = h264e_rkv_nal_end info
     in Some (h264e_rkv_encapsulate_nals info, hw))"

text \<open>
  The packet: \<open>mpp_packet_write\<close> copies into its data, \<open>mpp_packet_set_length\<close> sets the length.
\<close>

record mpp_packet =
  pkt_data :: "u8 list"
  pkt_length :: nat

definition h264e_rkv_get_extra_info :: "rkv_extra_info \<Rightarrow> mpp_packet \<Rightarrow> mpp_packet" where
  "h264e_rkv_get_extra_info src pkt =
    (case fold (\<lambda>k (offset, pkt).
        (offset + i_payload (nal src ! k),
         pkt\<lparr>pkt_data := store (pkt_data pkt) offset (payload_bytes src (nal src ! k))\<rparr>))
      [0..<nal_num src] (0, pkt) of (offset, pkt) \<Rightarrow> pkt\<lparr>pkt_length := offset\<rparr>)"

text \<open>
  \<open>h264e_rkv_sei_encode\<close>; \<open>text\<close> are the characters that \<open>h264e_sei_pack2str\<close> prints behind the
  UUID (it writes them with \<open>snprintf\<close>, hence a terminating zero).
\<close>

fun strlen :: "u8 list \<Rightarrow> nat" where
  "strlen [] = 0"
| "strlen (c # cs) = (if c = 0 then 0 else Suc (strlen cs))"

definition h264e_rkv_sei_encode :: "u8 list \<Rightarrow> rkv_extra_info \<Rightarrow> mpp_ret \<times> rkv_extra_info" where
  "h264e_rkv_sei_encode text info =
    (let info = info\<lparr>sei_buf := store (sei_buf info) H264E_UUID_LENGTH (text @ [0])\<rparr>;
         str = sei_buf info; str_len = strlen str + 1
     in if str_len > H264E_SEI_BUF_SIZE then (MPP_NOK, info)
        else (MPP_OK, info\<lparr>ei_stream := h264e_rkv_sei_write str str_len
                H264E_SEI_USER_DATA_UNREGISTERED (ei_stream info)\<rparr>))"

section \<open>The escape copy\<close>

definition zeros_before :: "u8 list \<Rightarrow> nat \<Rightarrow> nat" where
  "zeros_before m d = (if m ! (d - 1) \<noteq> 0 then 0 else if m ! (d - 2) \<noteq> 0 then 1 else 2)"

lemma nal_escape_loop_escape:
  assumes "2 \<le> d" and "d + length (escape (zeros_before m d) src) \<le> length m"
  shows "nal_escape_loop m d src
    = (store m d (escape (zeros_before m d) src), d + length (escape (zeros_before m d) src))"
  using assms
proof (induction m d src rule: nal_escape_loop.induct)
  case (2 m d b src)
  have z: "zeros_before m d = 2 \<longleftrightarrow> m ! (d - 2) = 0 \<and> m ! (d - 1) = 0"
    by (simp add: zeros_before_def)
  show ?case
  proof (cases "b \<le> 3 \<and> m ! (d - 2) = 0 \<and> m ! (d - 1) = 0")
    case True
    with 2 have d: "d + 1 < length m" by (simp add: z)
    then have "zeros_before (m[d := 3, d + 1 := b]) (d + 2) = of_bool (b = 0)"
      by (simp add: zeros_before_def)
    with True 2 show ?thesis by (simp add: z)
  next
    case False
    with 2 have d: "d < length m" by (auto simp: z)
    have "zeros_before (m[d := b]) (d + 1) = (if b = 0 then zeros_before m d + 1 else 0)"
      using d False 2(3) by (auto simp: zeros_before_def Suc_diff_le)
    then have e: "escape (zeros_before m d) (b # src) = b # escape (zeros_before (m[d := b]) (d + 1)) src"
      using False by (auto simp: z)
    have "nal_escape_loop (m[d := b]) (d + 1) src
        = (store (m[d := b]) (d + 1) (escape (zeros_before (m[d := b]) (d + 1)) src),
           d + 1 + length (escape (zeros_before (m[d := b]) (d + 1)) src))"
      using 2(3,4) unfolding e by (intro 2(2) [OF False]) simp_all
    with False show ?thesis unfolding e by (simp only: nal_escape_loop.simps if_False) simp
  qed
qed simp

lemma nal_escape_c_escape:
  assumes "2 \<le> d" and "d + length (escape 0 src) \<le> length m"
  shows "h264e_rkv_nal_escape_c m d src = (store m d (escape 0 src), d + length (escape 0 src))"
proof -
  consider "src = []" | x where "src = [x]" | x y ys where "src = x # y # ys"
    by (metis neq_Nil_conv)
  then show ?thesis
  proof cases
    case 3
    with assms have d: "d + 1 < length m" by (auto split: if_splits)
    let ?m = "m[d := x, Suc d := y]"
    have zb: "zeros_before ?m (Suc (Suc d)) = (if y = 0 then (if x = 0 then 2 else 1) else 0)"
      using d by (simp add: zeros_before_def)
    have e: "escape 0 src = x # y # escape (zeros_before ?m (Suc (Suc d))) ys" using 3 by (simp add: zb numeral_2_eq_2)
    have "nal_escape_loop ?m (Suc (Suc d)) ys = (store ?m (Suc (Suc d)) (escape (zeros_before ?m (Suc (Suc d))) ys),
        Suc (Suc d) + length (escape (zeros_before ?m (Suc (Suc d))) ys))"
      using assms e by (intro nal_escape_loop_escape) simp_all
    then show ?thesis using 3 e by (simp add: h264e_rkv_nal_escape_c_def)
  qed (simp_all add: h264e_rkv_nal_escape_c_def)
qed

text \<open>A NAL unit in the byte stream format.\<close>

definition nal_header :: "int \<Rightarrow> int \<Rightarrow> u8" where
  "nal_header ref_idc ty = word_of_int (push_bit 5 ref_idc OR ty)"

definition annexb :: "u8 \<Rightarrow> u8 list \<Rightarrow> u8 list" where
  "annexb hdr bs = [0, 0, 1, hdr] @ escape 0 bs"

lemma nal_encode_annexb:
  fixes out k
  defines "n \<equiv> nal out ! k"
  defines "u \<equiv> annexb (nal_header (i_ref_idc n) (i_type n)) (payload_bytes out n)"
  assumes room: "dst + length u \<le> length (nal_buf out)"
  shows "h264e_rkv_nal_encode dst k out = out\<lparr>nal_buf := store (nal_buf out) dst u,
     nal := (nal out)[k := n\<lparr>i_payload := length u, p_payload := Nal_ptr dst\<rparr>]\<rparr>"
proof -
  let ?src = "payload_bytes out n" and ?h = "nal_header (i_ref_idc n) (i_type n)"
  let ?m = "(store (nal_buf out) dst [0, 0, 1])[dst + 3 := ?h]"
  have m: "?m = store (nal_buf out) dst [0, 0, 1, ?h]" by (simp add: numeral_eq_Suc)
  have "h264e_rkv_nal_escape_c ?m (dst + 4) ?src = (store ?m (dst + 4) (escape 0 ?src), dst + 4 + length (escape 0 ?src))"
    using room by (intro nal_escape_c_escape) (simp_all add: u_def annexb_def)
  moreover have "store ?m (dst + 4) (escape 0 ?src) = store (nal_buf out) dst u"
    unfolding m u_def annexb_def store_append by (simp add: numeral_eq_Suc)
  ultimately have e: "h264e_rkv_nal_escape_c ?m (dst + 4) ?src = (store (nal_buf out) dst u, dst + length u)"
    by (simp add: u_def annexb_def)
  have d: "dst + 3 + 1 = dst + 4" "dst + length u - dst - 4 + 4 = length u"
    by (simp_all add: u_def annexb_def)
  show ?thesis
    unfolding h264e_rkv_nal_encode_def Let_def n_def [symmetric] nal_header_def [symmetric] d e prod.case ..
qed

section \<open>Units in the stream\<close>

lemma unit_segment:
  assumes f: "rkv_flushed s" and b: "rkv_bits s = xs @ u @ ys" and d: "8 dvd length xs" "8 dvd length u"
  shows "seg (rs_buf s) (8 + length xs div 8) (8 + length xs div 8 + length u div 8) = bits_bytes u"
proof -
  let ?B = "seg (rs_buf s) 8 (rs_p s)"
  obtain a c where a: "length xs = 8 * a" "length u = 8 * c" using d by blast
  have B: "bytes_bits ?B = xs @ u @ ys"
    using f b by (simp add: rkv_flushed_def rkv_bits_def rkv_ok_def)
  have "length (xs @ u @ ys) = 8 * length ?B" using B by (metis length_bytes_bits)
  then have "a + c \<le> length ?B" using a by simp
  then have len: "a + c \<le> rs_p s - 8" using f by (simp add: length_seg rkv_flushed_def rkv_ok_def)
  have "bytes_bits (take c (drop a ?B)) = u"
    using a by (simp add: take_bytes_bits [symmetric] drop_bytes_bits [symmetric] B)
  then have "bits_bytes u = take c (drop a ?B)" by (metis bits_bytes_bytes_bits)
  also have "\<dots> = seg (rs_buf s) (8 + a) (8 + a + c)"
    using len by (simp add: seg_def drop_take min_def add.commute)
  finally show ?thesis using a by simp
qed

text \<open>The bytes a unit of bits takes in the stream.\<close>

definition rbsp :: "bool list \<Rightarrow> u8 list" where
  "rbsp bs = bits_bytes (bs @ trailing_bits (length bs))"

lemma dvd_rbsp: "8 dvd length (bs @ trailing_bits (length bs))"
  using dvd_trailing [of "length bs"] by simp

lemma bytes_bits_rbsp: "bytes_bits (rbsp bs) = bs @ trailing_bits (length bs)"
  unfolding rbsp_def by (rule bytes_bits_bits_bytes) (rule dvd_rbsp)

lemma length_rbsp: "8 * length (rbsp bs) = length (bs @ trailing_bits (length bs))"
  by (metis bytes_bits_rbsp length_bytes_bits)

lemma rbsp_segment:
  assumes "rkv_flushed s" and "rkv_bits s = bytes_bits xs @ bytes_bits (rbsp bs) @ ys"
  shows "seg (rs_buf s) (8 + length xs) (8 + length xs + length (rbsp bs)) = rbsp bs"
  using unit_segment [OF assms] by (simp add: bits_bytes_bytes_bits)

lemma flushed_end:
  assumes "rkv_flushed s" and "rkv_bits s = bytes_bits xs"
  shows "rs_buf_plus8 s + h264e_rkv_stream_get_pos s div 8 = 8 + length xs"
    and "rs_p s = 8 + length xs"
    and "rkv_flushed (s\<lparr>rs_buf := store (rs_buf s) (8 + length xs) fill\<rparr>)"
    and "rkv_bits (s\<lparr>rs_buf := store (rs_buf s) (8 + length xs) fill\<rparr>) = bytes_bits xs"
proof -
  have ok: "rkv_ok s" using assms(1) by (simp add: rkv_flushed_def)
  show "rs_buf_plus8 s + h264e_rkv_stream_get_pos s div 8 = 8 + length xs"
    using ok by (simp add: get_pos_length assms(2)) (simp add: rkv_ok_def)
  show p: "rs_p s = 8 + length xs" using rkv_flushed_p [OF assms(1)] by (simp add: assms(2))
  show "rkv_flushed (s\<lparr>rs_buf := store (rs_buf s) (8 + length xs) fill\<rparr>)"
    using assms(1) by (simp add: rkv_flushed_def rkv_ok_def)
  show "rkv_bits (s\<lparr>rs_buf := store (rs_buf s) (8 + length xs) fill\<rparr>) = bytes_bits xs"
    using assms by (simp add: rkv_flushed_def rkv_bits_def p mem_simps)
qed

text \<open>A whole unit of \<open>set_extra_info\<close>: start, write, end.\<close>

lemma nal_unit:
  fixes info w bs
  assumes f: "rkv_flushed (ei_stream info)" and b: "rkv_bits (ei_stream info) = bytes_bits xs"
    and w: "rkv_flushed (w (ei_stream info))"
      "rkv_bits (w (ei_stream info)) = rkv_bits (ei_stream info) @ bs @ trailing_bits (length bs)"
    and k: "nal_num info < length (nal info)"
  obtains s' n' where
    "h264e_rkv_nal_end (info'\<lparr>ei_stream := w (ei_stream info), nal := nal (h264e_rkv_nal_start ty ref info),
        nal_num := nal_num info\<rparr>)
      = info'\<lparr>nal := (nal info)[nal_num info := n'], ei_stream := s', nal_num := nal_num info + 1\<rparr>"
    and "rkv_flushed s'" and "rkv_bits s' = bytes_bits (xs @ rbsp bs)"
    and "i_ref_idc n' = ref" and "i_type n' = ty" and "p_payload n' = Stream_ptr (8 + length xs)"
    and "i_payload n' = length (rbsp bs)"
proof -
  let ?s = "w (ei_stream info)"
  have wb: "rkv_bits ?s = bytes_bits (xs @ rbsp bs)" by (simp add: w(2) b bytes_bits_rbsp)
  note e0 = flushed_end [OF f b] and e1 = flushed_end [OF w(1) wb]
  show thesis
    by (rule that [of "?s\<lparr>rs_buf := store (rs_buf ?s) (8 + length (xs @ rbsp bs)) (replicate 64 0xff)\<rparr>"
        "(nal info ! nal_num info)\<lparr>i_ref_idc := ref, i_type := ty, b_long_startcode := 1,
          p_payload := Stream_ptr (8 + length xs), i_padding := 0, i_payload := length (rbsp bs)\<rparr>"])
      (use e0(1) e1(1,3,4) k in \<open>simp_all add: h264e_rkv_nal_end_def h264e_rkv_nal_start_def Let_def\<close>)
qed

text \<open>Encoding the units one after the other.\<close>

lemma encapsulate_step_annexb:
  fixes out k
  defines "n \<equiv> nal out ! k"
  defines "u \<equiv> annexb (nal_header (i_ref_idc n) (i_type n)) (payload_bytes out n)"
  assumes "k < length (nal out)" and "dst + length u \<le> length (nal_buf out)"
  obtains n' where "encapsulate_step k (dst, out)
      = (dst + length u, out\<lparr>nal_buf := store (nal_buf out) dst u, nal := (nal out)[k := n']\<rparr>)"
    and "i_payload n' = length u" and "p_payload n' = Nal_ptr dst"
    and "i_ref_idc n' = i_ref_idc n" and "i_type n' = i_type n"
proof -
  define m where "m = n\<lparr>b_long_startcode := of_bool (k = 0 \<or> i_type n = H264E_NAL_SPS \<or> i_type n = H264E_NAL_PPS)\<rparr>"
  define out1 where "out1 = out\<lparr>nal := (nal out)[k := m]\<rparr>"
  have m: "nal out1 ! k = m" "payload_bytes out1 m = payload_bytes out n" "i_ref_idc m = i_ref_idc n"
      "i_type m = i_type n"
    using assms(3) by (simp_all add: out1_def m_def payload_bytes_def split: payload_ptr.split)
  have u: "annexb (nal_header (i_ref_idc m) (i_type m)) (payload_bytes out1 m) = u"
    by (simp add: m u_def)
  have b: "nal_buf out1 = nal_buf out" by (simp add: out1_def)
  have "h264e_rkv_nal_encode dst k out1 = out1\<lparr>nal_buf := store (nal_buf out1) dst u,
      nal := (nal out1)[k := m\<lparr>i_payload := length u, p_payload := Nal_ptr dst\<rparr>]\<rparr>"
    using nal_encode_annexb [of dst out1 k, unfolded m(1) u] assms(4) b by simp
  moreover have "encapsulate_step k (dst, out) = (dst + i_payload (nal (h264e_rkv_nal_encode dst k out1) ! k),
      h264e_rkv_nal_encode dst k out1)"
    unfolding encapsulate_step_def Let_def prod.case n_def [symmetric] m_def [symmetric]
      out1_def [symmetric] ..
  ultimately show thesis using m assms(3)
    by (intro that [of "m\<lparr>i_payload := length u, p_payload := Nal_ptr dst\<rparr>"]) (simp_all add: out1_def)
qed

section \<open>The headers handed out\<close>

definition extra_ok :: "rkv_extra_info \<Rightarrow> bool" where
  "extra_ok info \<longleftrightarrow> rkv_ok (ei_stream info) \<and> length (nal info) = 3
     \<and> length (nal_buf info) = H264E_EXTRA_INFO_BUF_SIZE"

lemma init_extra_ok:
  "addr mod 4 = 0 \<Longrightarrow> length (nal info) = 3 \<Longrightarrow> extra_ok (h264e_rkv_init_extra_info addr info)"
  using rkv_init [of addr]
  by (simp add: extra_ok_def h264e_rkv_init_extra_info_def h264e_rkv_nals_init_def Let_def rkv_flushed_def)

lemma length_annexb: "2 * length (annexb h bs) \<le> 8 + 3 * length bs"
  using length_escape_le [of 0 bs] by (simp_all add: annexb_def)

lemma nal_header_sps: "nal_header 3 7 = 0x67" and nal_header_pps: "nal_header 3 8 = 0x68"
  by (simp_all add: nal_header_def)

lemma nal_start_updates:
  "(h264e_rkv_nal_start ty ref i)\<lparr>ei_sps := x, ei_stream := w (ei_stream (h264e_rkv_nal_start ty ref i))\<rparr>
     = i\<lparr>ei_sps := x, ei_stream := w (ei_stream i), nal := nal (h264e_rkv_nal_start ty ref i), nal_num := nal_num i\<rparr>"
  "(h264e_rkv_nal_start ty ref i)\<lparr>ei_pps := y, ei_stream := w (ei_stream (h264e_rkv_nal_start ty ref i))\<rparr>
     = i\<lparr>ei_pps := y, ei_stream := w (ei_stream i), nal := nal (h264e_rkv_nal_start ty ref i), nal_num := nal_num i\<rparr>"
  by (cases i; simp add: h264e_rkv_nal_start_def Let_def)+

lemma set_extra_info_units:
  assumes ok: "extra_ok info"
    and sps: "h264e_set_sps cfg hw (ei_sps info) = Some (r1, sps, hw')" "sps_ok sps"
    and pps: "h264e_set_pps cfg sps (ei_pps info) = (r2, pps)" "pps_ok pps"
    and fit: "length (rbsp (sps_bits sps)) + length (rbsp (pps_bits pps sps)) \<le> 512"
  defines "S \<equiv> annexb 0x67 (rbsp (sps_bits sps))" and "P \<equiv> annexb 0x68 (rbsp (pps_bits pps sps))"
  obtains info' where "h264e_rkv_set_extra_info cfg hw info = Some (info', hw')"
    and "extra_ok info'" and "nal_num info' = 2"
    and "i_payload (nal info' ! 0) = length S" and "payload_bytes info' (nal info' ! 0) = S"
    and "i_payload (nal info' ! 1) = length P" and "payload_bytes info' (nal info' ! 1) = P"
proof -
  let ?s = "rbsp (sps_bits sps)" and ?p = "rbsp (pps_bits pps sps)"
  define s0 where "s0 = h264e_rkv_stream_reset (ei_stream info)"
  have s0: "rkv_flushed s0" "rkv_bits s0 = bytes_bits []"
    using rkv_reset ok by (simp_all add: s0_def extra_ok_def)
  define i0 where "i0 = info\<lparr>nal_num := 0, ei_stream := s0\<rparr>"
  have i0: "ei_stream i0 = s0" "nal i0 = nal info" "nal_num i0 = 0" "length (nal info) = 3"
    using ok by (simp_all add: i0_def extra_ok_def)
  have fs: "unit_fits s0 (sps_bits sps)"
    using flushed_end(2) [OF s0] length_rbsp [of "sps_bits sps"] fit s0(1)
    by (simp add: unit_fits_def rkv_flushed_def rkv_ok_def H264E_EXTRA_INFO_BUF_SIZE_def)
  note w1 = sps_write_unit [OF s0(1) sps(2) fs]
  obtain s1 n1 where
    e1: "h264e_rkv_nal_end (i0\<lparr>ei_sps := sps, ei_stream := h264e_rkv_sps_write sps (ei_stream i0),
        nal := nal (h264e_rkv_nal_start 7 3 i0), nal_num := nal_num i0\<rparr>)
      = i0\<lparr>ei_sps := sps, nal := (nal i0)[nal_num i0 := n1], ei_stream := s1, nal_num := nal_num i0 + 1\<rparr>"
    and s1: "rkv_flushed s1" "rkv_bits s1 = bytes_bits ([] @ ?s)" "i_ref_idc n1 = 3" "i_type n1 = 7"
      "p_payload n1 = Stream_ptr (8 + length ([] :: u8 list))" "i_payload n1 = length ?s"
    by (rule nal_unit [where info = i0 and xs = "[]" and w = "h264e_rkv_sps_write sps" and bs = "sps_bits sps"
          and info' = "i0\<lparr>ei_sps := sps\<rparr>" and ty = 7 and ref = 3])
      (use i0 s0 w1 in simp_all)
  define i1 where "i1 = i0\<lparr>ei_sps := sps, nal := (nal i0)[0 := n1], ei_stream := s1, nal_num := 1\<rparr>"
  have i1: "ei_stream i1 = s1" "nal i1 = (nal info)[0 := n1]" "nal_num i1 = 1"
    using i0 by (simp_all add: i1_def)
  have fp: "unit_fits s1 (pps_bits pps sps)"
    using flushed_end(2) [OF s1(1,2)] length_rbsp [of "pps_bits pps sps"] fit s1(1)
    by (simp add: unit_fits_def rkv_flushed_def rkv_ok_def H264E_EXTRA_INFO_BUF_SIZE_def)
  note w2 = pps_write_unit [OF s1(1) pps(2) fp]
  obtain s2 n2 where
    e2: "h264e_rkv_nal_end (i1\<lparr>ei_pps := pps, ei_stream := h264e_rkv_pps_write pps sps (ei_stream i1),
        nal := nal (h264e_rkv_nal_start 8 3 i1), nal_num := nal_num i1\<rparr>)
      = i1\<lparr>ei_pps := pps, nal := (nal i1)[nal_num i1 := n2], ei_stream := s2, nal_num := nal_num i1 + 1\<rparr>"
    and s2: "rkv_flushed s2" "rkv_bits s2 = bytes_bits (([] @ ?s) @ ?p)" "i_ref_idc n2 = 3" "i_type n2 = 8"
      "p_payload n2 = Stream_ptr (8 + length ([] @ ?s))" "i_payload n2 = length ?p"
    by (rule nal_unit [where info = i1 and xs = "[] @ ?s" and w = "h264e_rkv_pps_write pps sps"
          and bs = "pps_bits pps sps" and info' = "i1\<lparr>ei_pps := pps\<rparr>" and ty = 8 and ref = 3])
      (use i1 i0 s1 w2 in simp_all)
  define i2 where "i2 = i1\<lparr>ei_pps := pps, nal := (nal i1)[1 := n2], ei_stream := s2, nal_num := 2\<rparr>"
  have i2: "ei_stream i2 = s2" "nal i2 = (nal info)[0 := n1, 1 := n2]" "nal_num i2 = 2" "nal_buf i2 = nal_buf info"
    using i1 by (simp_all add: i2_def i1_def i0_def)
  have set: "h264e_rkv_set_extra_info cfg hw info = Some (h264e_rkv_encapsulate_nals i2, hw')"
  proof -
    have "i0\<lparr>ei_sps := sps, nal := (nal i0)[nal_num i0 := n1], ei_stream := s1, nal_num := nal_num i0 + 1\<rparr> = i1"
      "i1\<lparr>ei_pps := pps, nal := (nal i1)[nal_num i1 := n2], ei_stream := s2, nal_num := nal_num i1 + 1\<rparr> = i2"
      using i0 i1 by (simp_all add: i1_def i2_def numeral_2_eq_2)
    note e = e1 [unfolded this] e2 [unfolded this]
    have ei: "ei_sps (h264e_rkv_nal_start ty ref i) = ei_sps i" "ei_pps (h264e_rkv_nal_start ty ref i) = ei_pps i"
        for ty ref i
      by (simp_all add: h264e_rkv_nal_start_def Let_def)
    have "ei_sps i0 = ei_sps info" "ei_pps i1 = ei_pps info" by (simp_all add: i0_def i1_def)
    then show ?thesis
      unfolding h264e_rkv_set_extra_info_def Let_def s0_def [symmetric] i0_def [symmetric]
      by (simp only: ei sps pps prod.case option.case nal_start_updates e)
  qed
  have pb: "payload_bytes i2 n1 = ?s" "payload_bytes i2 n2 = ?p"
    using rbsp_segment [OF s2(1), of "[]" "sps_bits sps" "bytes_bits ?p"]
      rbsp_segment [OF s2(1), of "?s" "pps_bits pps sps" "[]"] s1 s2(2,5,6)
    by (simp_all add: payload_bytes_def i2)
  have len: "length S + length P \<le> H264E_EXTRA_INFO_BUF_SIZE"
    using length_annexb [of "0x67" ?s] length_annexb [of "0x68" ?p] fit
    by (simp add: S_def P_def H264E_EXTRA_INFO_BUF_SIZE_def)
  have nb: "length (nal_buf info) = H264E_EXTRA_INFO_BUF_SIZE" using ok by (simp add: extra_ok_def)
  obtain m1 where m1: "encapsulate_step 0 (0, i2)
      = (length S, i2\<lparr>nal_buf := store (nal_buf info) 0 S, nal := (nal i2)[0 := m1]\<rparr>)"
      "i_payload m1 = length S" "p_payload m1 = Nal_ptr 0"
    using encapsulate_step_annexb [of 0 i2 0] len nb pb i0(4)
    by (auto simp: i2 s1 nal_header_sps S_def)
  define i3 where "i3 = i2\<lparr>nal_buf := store (nal_buf info) 0 S, nal := (nal i2)[0 := m1]\<rparr>"
  have pb3: "payload_bytes i3 n2 = ?p" using pb(2) s2(5) by (simp add: payload_bytes_def i3_def)
  obtain m2 where m2: "encapsulate_step 1 (length S, i3)
      = (length S + length P, i3\<lparr>nal_buf := store (store (nal_buf info) 0 S) (length S) P, nal := (nal i3)[1 := m2]\<rparr>)"
      "i_payload m2 = length P" "p_payload m2 = Nal_ptr (length S)"
    using encapsulate_step_annexb [of 1 i3 "length S"] len nb pb3 i0(4)
    by (auto simp: i3_def i2 s2 nal_header_pps P_def)
  define i4 where "i4 = i3\<lparr>nal_buf := store (store (nal_buf info) 0 S) (length S) P, nal := (nal i3)[1 := m2]\<rparr>"
  have "h264e_rkv_encapsulate_nals i2 = i4"
    using m1(1) m2(1) by (simp add: h264e_rkv_encapsulate_nals_def i2(3) numeral_2_eq_2 i3_def [symmetric] i4_def)
  moreover have "nal_buf i4 = S @ P @ drop (length S + length P) (nal_buf info)"
    using len nb by (simp add: i4_def store_append [symmetric, of _ 0, simplified] store_conv add.commute)
  moreover have "nal i4 ! 0 = m1" "nal i4 ! 1 = m2" using i0(4) by (simp_all add: i4_def i3_def i2)
  moreover have "extra_ok i4" "nal_num i4 = 2"
    using ok s2(1) by (simp_all add: extra_ok_def i4_def i3_def i2 rkv_flushed_def)
  ultimately show thesis using set m1 m2
    by (intro that [of i4]) (simp_all add: payload_bytes_def seg_def)
qed

lemma get_extra_info_two:
  assumes "nal_num info = 2" and "i_payload (nal info ! 0) = length S" and "payload_bytes info (nal info ! 0) = S"
    and "i_payload (nal info ! 1) = length P" and "payload_bytes info (nal info ! 1) = P"
    and "length S + length P \<le> length (pkt_data pkt)"
  shows "pkt_length (h264e_rkv_get_extra_info info pkt) = length S + length P"
    and "take (length S + length P) (pkt_data (h264e_rkv_get_extra_info info pkt)) = S @ P"
  using assms
  by (simp_all add: h264e_rkv_get_extra_info_def numeral_2_eq_2 store_append [symmetric, of _ 0, simplified] store_conv)

end
