(* ===== verification/H264eCfg.thy ===== *)
theory H264eCfg
  imports RkvNal
begin

text \<open>
  The parameter sets that \<open>h264e_set_sps\<close> and \<open>h264e_set_pps\<close> derive from an encoder
  configuration: their fields, that they are in the range of the writers of \<open>RkvNal\<close>, and how many
  bits they take.
\<close>

section \<open>The parameter sets a configuration gives\<close>

text \<open>
  The configurations the encoder accepts: a picture of 1 to 65535 samples each way, fields that
  fit their syntax elements, offsets in the range of H.264.
\<close>

definition enc_cfg_ok :: "mpp_enc_cfg \<Rightarrow> bool" where
  "enc_cfg_ok cfg \<longleftrightarrow> 1 \<le> prep_width cfg \<and> prep_width cfg < 2 ^ 16 \<and> 1 \<le> prep_height cfg \<and> prep_height cfg < 2 ^ 16
     \<and> u_ok 8 (codec_profile cfg) \<and> u_ok 8 (codec_level cfg) \<and> flag_ok (codec_entropy_coding_mode cfg)
     \<and> flag_ok (codec_transform8x8_mode cfg) \<and> flag_ok (codec_constrained_intra_pred_mode cfg)
     \<and> \<bar>codec_chroma_cb_qp_offset cfg\<bar> \<le> 12 \<and> \<bar>codec_chroma_cr_qp_offset cfg\<bar> \<le> 12
     \<and> codec_vui_sar_width cfg < 2 ^ 16 \<and> codec_vui_sar_height cfg < 2 ^ 16"

lemma sdiv16: "0 \<le> x \<Longrightarrow> x sdiv 16 = x div (16 :: int)"
  by (simp add: signed_divide_int_def sgn_if)

lemma log2_above_small: "limit < 2 ^ n \<Longrightarrow> log2_above limit n = n"
  by (simp add: log2_above.simps)

lemma mv_len: "log2f_floor 511 = 8"
  by code_simp

lemma field_oks:
  "flag_ok 0" "flag_ok 1" "flag_ok (of_bool b)" "ue_ok 0" "ue_ok 9"
  "u_ok 3 5" "u_ok 8 2" "u_ok 8 0"
  by (auto simp: flag_ok_def ue_ok_def u_ok_def)

lemma flag_ok_bit: "0 \<le> x \<Longrightarrow> x \<le> 1 \<Longrightarrow> flag_ok x"
  by (auto simp: flag_ok_def)

lemma set_sps_vui_ok:
  assumes cfg: "enc_cfg_ok cfg" and v: "vui_ok v"
  shows "vui_ok (h264e_set_sps_vui cfg csp den chroma interval v)"
proof -
  have sar: "u_ok 16 (codec_vui_sar_width cfg)" "u_ok 16 (codec_vui_sar_height cfg)"
    if "0 < codec_vui_sar_width cfg" "0 < codec_vui_sar_height cfg"
    using that cfg by (auto simp: enc_cfg_ok_def u_ok_def)
  show ?thesis unfolding h264e_set_sps_vui_def Let_def
  proof (rule run_invariant [where P = vui_ok], goal_cases)
    case 1
    show ?case by (simp add: mv_len field_oks flag_ok_bit vui_ok_def) (use sar in blast)
  qed (use v in simp)
qed

lemma set_sps_vui_b_vui: "b_vui (h264e_set_sps_vui cfg csp den chroma interval v) = b_vui v"
  unfolding h264e_set_sps_vui_def Let_def
  by (rule run_invariant [where P = "\<lambda>w. b_vui w = b_vui v"]) simp_all

lemma no_nal_hrd: "b_nal_hrd_parameters_present (h264e_set_sps_vui cfg csp den chroma interval v) = 0"
  unfolding h264e_set_sps_vui_def Let_def
  by (rule run_establish [where P = "\<lambda>v. b_nal_hrd_parameters_present v = 0"]) simp

lemma no_vcl_hrd: "b_vcl_hrd_parameters_present (h264e_set_sps_vui cfg csp den chroma interval v) = 0"
  unfolding h264e_set_sps_vui_def Let_def
  by (rule run_establish [where P = "\<lambda>v. b_vcl_hrd_parameters_present v = 0"]) simp

lemma set_sps_picture_fields:
  assumes "enc_cfg_ok cfg"
  shows "set_sps_picture cfg s = s\<lparr>sps_id := 0, i_mb_width := (prep_width cfg + 15) div 16,
    i_mb_height := (prep_height cfg + 15) div 16, i_chroma_format_idc := 1,
    b_qpprime_y_zero_transform_bypass := 0, i_profile_idc := codec_profile cfg,
    b_constraint_set0 := 0, b_constraint_set1 := 0, b_constraint_set2 := 0, b_constraint_set3 := 0,
    i_level_idc := (if codec_level cfg = 9 \<and> (codec_profile cfg = 66 \<or> codec_profile cfg = 77)
                    then 11 else codec_level cfg)\<rparr>"
  using assms by (simp add: set_sps_picture_def enc_cfg_ok_def sdiv16)

lemma set_sps_crop_fields:
  "set_sps_crop cfg s = s\<lparr>b_gaps_in_frame_num_value_allowed := 0, b_frame_mbs_only := 1,
    b_mb_adaptive_frame_field := 0, b_direct8x8_inference := 1,
    sps_crop := \<lparr>crop_left = 0, crop_right = i_mb_width s * 16 - prep_width cfg, crop_top = 0,
      crop_bottom = i_mb_height s * 16 - prep_height cfg\<rparr>,
    b_crop := of_bool (i_mb_width s * 16 - prep_width cfg \<noteq> 0 \<or> i_mb_height s * 16 - prep_height cfg \<noteq> 0)\<rparr>"
  by (simp add: set_sps_crop_def)

lemma log2_above_refs: "log2_above (min 16 x + 1) 16 = 16" "log2_above 1 16 = 16" "log2_above 8 16 = 16"
  by (simp_all add: log2_above_small min_def)

lemma set_sps_frames_fields:
  fixes cfg s
  defines "refs \<equiv> min 16 (max (max (codec_ref_frame_reference cfg) 1) (max 1 (codec_ref_dpb_size cfg)))"
  defines "refs' \<equiv> (if rc_gop cfg = 1 then 0 else refs)"
  shows "set_sps_frames cfg hw s = (let s1 = s\<lparr>i_num_ref_frames := refs', keyframe_max_interval := rc_gop cfg,
      i_log2_max_frame_num := 16, i_poc_type := (if hw_type hw = H264E_RKV then 0 else 2),
      sps_vui := (sps_vui s)\<lparr>i_num_reorder_frames := 0, i_max_dec_frame_buffering := refs', b_vui := 1\<rparr>\<rparr>
    in if hw_type hw = H264E_RKV then s1\<lparr>i_log2_max_poc_lsb := 16\<rparr> else s1)"
  unfolding set_sps_frames_def Let_def refs'_def refs_def
  by (cases "rc_gop cfg = 1"; cases "hw_type hw = H264E_RKV"; simp add: log2_above_refs)

lemma ue_ok_small: "0 \<le> x \<Longrightarrow> x < 2 ^ 20 \<Longrightarrow> ue_ok x"
  by (simp add: ue_ok_def)

text \<open>What \<open>h264e_set_sps\<close> leaves in the SPS.\<close>

definition sps_result :: "mpp_enc_cfg \<Rightarrow> h264e_hw_cfg \<Rightarrow> h264e_sps \<Rightarrow> bool" where
  "sps_result cfg hw s \<longleftrightarrow> sps_id s = 0 \<and> i_profile_idc s = codec_profile cfg
     \<and> i_mb_width s = (prep_width cfg + 15) div 16 \<and> i_mb_height s = (prep_height cfg + 15) div 16
     \<and> crop_left (sps_crop s) = 0 \<and> crop_right (sps_crop s) = 16 * i_mb_width s - prep_width cfg
     \<and> crop_top (sps_crop s) = 0 \<and> crop_bottom (sps_crop s) = 16 * i_mb_height s - prep_height cfg
     \<and> b_crop s = of_bool (crop_right (sps_crop s) \<noteq> 0 \<or> crop_bottom (sps_crop s) \<noteq> 0)
     \<and> b_frame_mbs_only s = 1 \<and> i_log2_max_frame_num s = 16 \<and> i_chroma_format_idc s = 1
     \<and> i_poc_type s = (if hw_type hw = H264E_RKV then 0 else 2)
     \<and> (hw_type hw = H264E_RKV \<longrightarrow> i_log2_max_poc_lsb s = 16)
     \<and> 0 \<le> i_num_ref_frames s \<and> i_num_ref_frames s \<le> 16 \<and> b_vui (sps_vui s) = 1
     \<and> b_nal_hrd_parameters_present (sps_vui s) = 0 \<and> b_vcl_hrd_parameters_present (sps_vui s) = 0
     \<and> (i_level_idc s = codec_level cfg \<or> i_level_idc s = 11)"

lemma mb_crop:
  assumes "1 \<le> w" and "w < (2 :: int) ^ 16"
  shows "1 \<le> (w + 15) div 16" "(w + 15) div 16 \<le> 4096" "0 \<le> 16 * ((w + 15) div 16) - w"
    "16 * ((w + 15) div 16) - w < 16"
  using assms by simp_all

lemma set_sps_result:
  assumes cfg: "enc_cfg_ok cfg" and fps: "fps_defined cfg" and v: "vui_ok (sps_vui sps0)"
  shows "\<exists>s hw'. h264e_set_sps cfg hw sps0 = Some (MPP_OK, s, hw') \<and> sps_ok s \<and> sps_result cfg hw' s"
proof -
  obtain csp hw' where f: "h264e_set_format (prep_format cfg) hw = (csp, hw')" by fastforce
  define refs where "refs = (if rc_gop cfg = 1 then 0
      else min 16 (max (max (codec_ref_frame_reference cfg) 1) (max 1 (codec_ref_dpb_size cfg))))"
  have r: "0 \<le> refs" "refs \<le> 16" by (auto simp: refs_def)
  define s1 where "s1 = set_sps_crop cfg (set_sps_frames cfg hw' (set_sps_picture cfg sps0))"
  have vui: "sps_vui s1 = (sps_vui sps0)\<lparr>i_num_reorder_frames := 0, i_max_dec_frame_buffering := refs, b_vui := 1\<rparr>"
    by (simp add: s1_def set_sps_crop_fields set_sps_frames_fields set_sps_picture_fields [OF cfg] Let_def refs_def)
  define s where "s = s1\<lparr>sps_vui := h264e_set_sps_vui cfg csp (rc_fps_out_num cfg sdiv rc_fps_out_denorm cfg)
      (i_chroma_format_idc s1) (keyframe_max_interval s1) (sps_vui s1)\<rparr>"
  have set: "h264e_set_sps cfg hw sps0 = Some (MPP_OK, s, hw')"
    using fps by (simp add: h264e_set_sps_def f Let_def s_def s1_def)
  have "vui_ok (sps_vui s1)" using v r by (simp add: vui vui_ok_def field_oks ue_ok_small)
  then have v': "vui_ok (sps_vui s)" "b_vui (sps_vui s) = 1"
      "b_nal_hrd_parameters_present (sps_vui s) = 0" "b_vcl_hrd_parameters_present (sps_vui s) = 0"
    using set_sps_vui_ok [OF cfg] by (simp_all add: s_def set_sps_vui_b_vui no_nal_hrd no_vcl_hrd) (simp add: vui)
  have w: "1 \<le> prep_width cfg" "prep_width cfg < 2 ^ 16" "1 \<le> prep_height cfg" "prep_height cfg < 2 ^ 16"
    using cfg by (simp_all add: enc_cfg_ok_def)
  note c = mb_crop [OF w(1,2)] mb_crop [OF w(3,4)]
  have rest: "b_constraint_set0 s = 0" "b_constraint_set1 s = 0" "b_constraint_set2 s = 0" "b_constraint_set3 s = 0"
      "b_qpprime_y_zero_transform_bypass s = 0" "b_gaps_in_frame_num_value_allowed s = 0"
      "b_mb_adaptive_frame_field s = 0" "b_direct8x8_inference s = 1"
      "i_level_idc s = codec_level cfg \<or> i_level_idc s = 11"
    by (simp_all add: s_def s1_def set_sps_crop_fields set_sps_frames_fields set_sps_picture_fields [OF cfg] Let_def)
  have res: "sps_result cfg hw' s"
    using r rest(9) unfolding sps_result_def v'(2-4)
    by (simp only: s_def s1_def set_sps_crop_fields set_sps_frames_fields set_sps_picture_fields [OF cfg] Let_def
        refs_def [symmetric] mult.commute) simp
  have "u_ok 8 (i_level_idc s)" using rest(9) cfg by (auto simp: u_ok_def enc_cfg_ok_def)
  moreover have "u_ok 8 (codec_profile cfg)" using cfg by (simp add: enc_cfg_ok_def)
  ultimately have "sps_ok s"
    using res v' c unfolding sps_ok_def rest(1-8) sps_result_def
    by (auto simp: field_oks ue_ok_def)
  with set res show ?thesis by blast
qed

lemma set_pps_ok:
  assumes "enc_cfg_ok cfg" and "ue_ok (sps_id sps)"
  shows "\<exists>p. h264e_set_pps cfg sps pps0 = (MPP_OK, p) \<and> pps_ok p \<and> pps_id p = 0 \<and> pps_sps_id p = sps_id sps
    \<and> i_pic_init_qp p = 26 \<and> b_cqm_preset p = 0 \<and> i_num_slice_groups p = 1
    \<and> i_num_ref_idx_l0_default_active p = 1 \<and> i_num_ref_idx_l1_default_active p = 1
    \<and> i_weighted_bipred_idc p = 0 \<and> b_redundant_pic_cnt p = 0
    \<and> (i_profile_idc sps < 100 \<longrightarrow> b_transform_8x8_mode p = 0 \<and> i_second_chroma_qp_index_offset p = 0)
    \<and> (i_profile_idc sps = 66 \<longrightarrow> b_cabac p = 0)"
proof -
  have cfg: "flag_ok (codec_entropy_coding_mode cfg)" "flag_ok (codec_transform8x8_mode cfg)"
      "flag_ok (codec_constrained_intra_pred_mode cfg)" "se_ok (codec_chroma_cb_qp_offset cfg)"
      "se_ok (codec_chroma_cr_qp_offset cfg)" "se_ok 0" "u_ok 2 0"
    using assms(1) by (simp_all add: enc_cfg_ok_def se_ok_def u_ok_def)
  show ?thesis
    by (cases "i_profile_idc sps < 100"; cases "i_profile_idc sps = 66";
        cases "codec_transform8x8_mode cfg = 0"; cases "codec_entropy_coding_mode cfg = 0";
        cases "codec_chroma_cr_qp_offset cfg = 0")
      (simp_all add: h264e_set_pps_def Let_def pps_ok_def cfg assms(2) field_oks)
qed

section \<open>How long the parameter sets are\<close>

lemma length_ue_le: "ue_ok x \<Longrightarrow> length (ue x) \<le> 61"
proof -
  assume "ue_ok x"
  then have "nat x + 1 < 2 ^ 31" by (auto simp: ue_ok_def)
  then have "bit_len (nat x + 1) \<le> 31" by (rule bit_len_le)
  then show ?thesis by (simp add: length_ue_bits)
qed

lemma length_se_le: "se_ok x \<Longrightarrow> length (se_bits x) \<le> 33"
proof -
  assume "se_ok x"
  then have "ue_of_se x + 1 < 2 ^ 17" by (auto simp: se_ok_def ue_of_se_def)
  then have "bit_len (ue_of_se x + 1) \<le> 17" by (rule bit_len_le)
  then show ?thesis by (simp add: se_bits_def length_ue_bits)
qed

lemma length_concat_le: "list_all2 (\<lambda>bs n. length bs \<le> n) bss ns \<Longrightarrow> length (concat bss) \<le> sum_list ns"
  by (induction bss ns rule: list_all2_induct) simp_all

lemma length_bits_if: "list_all2 (\<lambda>bs n. length bs \<le> n) bss ns \<Longrightarrow> sum_list ns \<le> n \<Longrightarrow> length (bits_if b bss) \<le> n"
  using length_concat_le [of bss ns] by (simp add: bits_if_def)

lemma length_vui_bits:
  assumes "vui_ok v" and "b_nal_hrd_parameters_present v = 0"
  shows "length (vui_bits v) \<le> 700"
proof -
  have 1: "length (bits_if (find_sar sar_table (i_sar_width v) (i_sar_height v) = 255)
          [msb_bits 16 (i_sar_width v), msb_bits 16 (i_sar_height v)]) \<le> 32"
    "length (bits_if (b_color_description_present v \<noteq> 0)
          [msb_bits 8 (i_colorprim v), msb_bits 8 (i_transfer v), msb_bits 8 (i_colmatrix v)]) \<le> 24"
    by (simp_all add: bits_if_def)
  note le = length_ue_le [of "i_chroma_loc_top v"] length_ue_le [of "i_chroma_loc_bottom v"]
    length_ue_le [of "i_max_bytes_per_pic_denom v"] length_ue_le [of "i_max_bits_per_mb_denom v"]
    length_ue_le [of "i_log2_max_mv_length_horizontal v"] length_ue_le [of "i_log2_max_mv_length_vertical v"]
    length_ue_le [of "i_num_reorder_frames v"] length_ue_le [of "i_max_dec_frame_buffering v"]
  have "length (vui_bits v) \<le> sum_list [1, 40, 1, 1, 1, 29, 1, 122, 1, 65, 1, 0, 1, 1, 1, 1, 367]"
    unfolding vui_bits_def
  proof (rule length_concat_le, intro list.rel_intros)
  qed (use assms 1 le in \<open>simp_all add: vui_ok_def bits_if_def\<close>)
  then show ?thesis by simp
qed

lemma length_ue_small: "length (ue_bits 0) = 1" "length (ue_bits 3) = 5"
  by code_simp+

lemma length_sps_bits:
  assumes ok: "sps_ok s" and hrd: "b_nal_hrd_parameters_present (sps_vui s) = 0"
  shows "length (sps_bits s) \<le> 1600"
proof -
  note le = length_ue_le [of "sps_id s"] length_ue_le [of "i_chroma_format_idc s"]
    length_ue_le [of "i_log2_max_frame_num s - 4"] length_ue_le [of "i_poc_type s"]
    length_ue_le [of "i_log2_max_poc_lsb s - 4"] length_ue_le [of "i_num_ref_frames s"]
    length_ue_le [of "i_mb_width s - 1"]
    length_ue_le [of "drop_bit (of_bool (b_frame_mbs_only s = 0)) (i_mb_height s) - 1"]
  have crop: "length (ue (drop_bit k x)) \<le> 61" if "ue_ok x" for k x
    by (rule length_ue_le) (rule ue_ok_drop_bit [OF that])
  have vui: "length (bits_if (b_vui (sps_vui s) \<noteq> 0) [vui_bits (sps_vui s)]) \<le> 700"
    using length_vui_bits ok hrd by (auto simp: bits_if_def sps_ok_def)
  have cr: "length (bits_if (b_crop s \<noteq> 0)
       [ue (drop_bit h (crop_left (sps_crop s))), ue (drop_bit h (crop_right (sps_crop s))),
        ue (drop_bit v (crop_top (sps_crop s))), ue (drop_bit v (crop_bottom (sps_crop s)))]) \<le> 244" for h v
  proof (cases "b_crop s = 0")
    case False
    then show ?thesis
      using crop [of "crop_left (sps_crop s)" h] crop [of "crop_right (sps_crop s)" h]
        crop [of "crop_top (sps_crop s)" v] crop [of "crop_bottom (sps_crop s)" v] ok
      by (simp add: bits_if_def sps_ok_def)
  qed (simp add: bits_if_def)
  have "length (sps_bits s) \<le> sum_list [8, 1, 1, 1, 1, 4, 8, 61, 186, 61, 61, 61, 61, 1, 61, 61, 1, 1, 1, 1, 244, 1, 700]"
    unfolding sps_bits_def Let_def
  proof (rule length_concat_le, intro list.rel_intros)
  qed (use ok le vui cr in \<open>simp_all add: sps_ok_def bits_if_def field_oks length_ue_small\<close>)
  then show ?thesis by simp
qed

lemma length_pps_bits:
  assumes ok: "pps_ok p" and cqm: "b_cqm_preset p = 0"
  shows "length (pps_bits p sps) \<le> 500"
proof -
  note le = length_ue_le [of "pps_id p"] length_ue_le [of "pps_sps_id p"]
    length_ue_le [of "i_num_slice_groups p - 1"] length_ue_le [of "i_num_ref_idx_l0_default_active p - 1"]
    length_ue_le [of "i_num_ref_idx_l1_default_active p - 1"] length_se_le [of "i_pic_init_qp p - 26"]
    length_se_le [of "i_pic_init_qs p - 26"] length_se_le [of "i_chroma_qp_index_offset p"]
    length_se_le [of "i_second_chroma_qp_index_offset p"]
  have "length (pps_bits p sps) \<le> sum_list [61, 61, 1, 1, 61, 61, 61, 1, 2, 33, 33, 33, 1, 1, 1, 35]"
    unfolding pps_bits_def Let_def
  proof (rule length_concat_le, intro list.rel_intros)
  qed (use ok le cqm in \<open>simp_all add: pps_ok_def bits_if_def\<close>)
  then show ?thesis by simp
qed

end
