(* ===== verification/RkvSpec.thy ===== *)
theory RkvSpec
  imports RkvExtra H264eCfg BitReadSpec
begin

text \<open>
  Properties of the RKVENC header path: the stream writer, the emulation prevention copy, the
  parameter sets of a configuration, and the header packet, read back with the bit reader of
  mpp/base/mpp_bitread.c.
\<close>

section \<open>The stream writer\<close>

definition demo_stream :: rkv_stream where
  "demo_stream = h264e_rkv_stream_init 4096"

lemma demo_stream: "rkv_ok demo_stream" "rkv_bits demo_stream = []" "rkv_room demo_stream = 12224"
proof -
  have f: "rkv_flushed demo_stream" unfolding demo_stream_def by (rule rkv_init) simp
  then show "rkv_ok demo_stream" by (simp add: rkv_flushed_def)
  show "rkv_bits demo_stream = []" unfolding demo_stream_def by (rule rkv_init) simp
  with f have "rs_p demo_stream = 8" using rkv_flushed_p by fastforce
  with f show "rkv_room demo_stream = 12224"
    by (simp add: rkv_room_def rkv_flushed_def rkv_ok_def H264E_EXTRA_INFO_BUF_SIZE_def)
qed

text \<open>
  C17: \<open>h264e_rkv_stream_write_with_log\<close> with a width of at most 31 and a value that fits
  appends exactly the bits of the value, most significant first, across word boundaries, and
  \<open>get_pos\<close> counts them.
\<close>

theorem rkv_write_appends:
  assumes "rkv_ok s" and "n \<le> 31" and "unat v < 2 ^ n" and "n \<le> rkv_room s"
  shows "rkv_ok (h264e_rkv_stream_write_with_log n v s)
    \<and> rkv_bits (h264e_rkv_stream_write_with_log n v s) = rkv_bits s @ msb_bits n v
    \<and> h264e_rkv_stream_get_pos (h264e_rkv_stream_write_with_log n v s) = h264e_rkv_stream_get_pos s + n"
  using rkv_write [OF assms] assms(1) by (simp add: get_pos_length)

theorem rkv_write_appends_witness:
  "rkv_bits (h264e_rkv_stream_write_with_log 3 5 demo_stream) = [True, False, True]"
  using rkv_write_appends [of demo_stream 3 5] by (simp add: demo_stream msb_bits_def upt_rec)

text \<open>
  C18: the unsigned Exp-Golomb writer appends the ue code of every value below \<open>2 ^ 31 - 1\<close>, and
  the bit reader of the decoders, put on a stream that starts with these bits, returns the value.
\<close>

theorem rkv_write_ue_reads_back:
  assumes "rkv_ok s" and "x < 2 ^ 31 - 1" and "length (ue_bits x) \<le> rkv_room s"
  shows "rkv_bits (h264e_rkv_stream_write_ue_with_log (of_nat x) s) = rkv_bits s @ ue_bits x
    \<and> (br_wf c \<and> rem_bits c = drop (length (rkv_bits s)) (rkv_bits (h264e_rkv_stream_write_ue_with_log (of_nat x) s)) @ rest
        \<longrightarrow> (\<exists>c'. mpp_read_ue c = (MPP_OK, c', of_nat x) \<and> rem_bits c' = rest))"
proof -
  have b: "rkv_bits (h264e_rkv_stream_write_ue_with_log (of_nat x) s) = rkv_bits s @ ue_bits x"
    using rkv.emitsD(2) [OF emits_write_ue [OF assms(2)] assms(1,3)] .
  moreover have "\<exists>c'. mpp_read_ue c = (MPP_OK, c', of_nat x) \<and> rem_bits c' = rest"
    if "br_wf c" and "rem_bits c = ue_bits x @ rest"
  proof -
    have "x < 2 ^ 32 - 1" using assms(2) by simp
    with that show ?thesis using mpp_read_ue_code [of c x rest] by blast
  qed
  ultimately show ?thesis by simp
qed

theorem rkv_write_ue_reads_back_witness:
  "rkv_bits (h264e_rkv_stream_write_ue_with_log 4 demo_stream) = [False, False, True, False, True]
   \<and> (\<exists>c'. mpp_read_ue (mpp_set_bitread_ctx [0x2c] 1) = (MPP_OK, c', 4) \<and> rem_bits c' = [True, False, False])"
proof -
  have 1: "ue_bits 4 = [False, False, True, False, True]" by code_simp
  have 2: "byte_bits 0x2c = ue_bits 4 @ [True, False, False]" by code_simp
  show ?thesis
    using rkv_write_ue_reads_back [of demo_stream 4 "mpp_set_bitread_ctx [0x2c] 1" "[True, False, False]"]
    by (simp add: demo_stream 1 2 [unfolded 1] one_byte_ctx)
qed

text \<open>
  C38: the signed Exp-Golomb writer appends the se code of every value of magnitude below
  \<open>2 ^ 15\<close>, and \<open>h264e_rkv_stream_size_se\<close> is the number of bits it takes.
\<close>

theorem rkv_write_se_code:
  assumes "rkv_ok s" and "\<bar>x\<bar> < 2 ^ 15" and "33 \<le> rkv_room s"
  shows "rkv_bits (h264e_rkv_stream_write_se_with_log x s) = rkv_bits s @ se_bits x
    \<and> h264e_rkv_stream_get_pos (h264e_rkv_stream_write_se_with_log x s)
      = h264e_rkv_stream_get_pos s + h264e_rkv_stream_size_se x"
proof -
  have "length (se_bits x) \<le> rkv_room s" using length_se_le [of x] assms by (simp add: se_ok_def)
  from rkv.emitsD [OF emits_write_se [OF assms(2)] assms(1) this] assms show ?thesis
    by (simp add: get_pos_length size_se_length)
qed

theorem rkv_write_se_code_witness:
  "rkv_bits (h264e_rkv_stream_write_se_with_log (- 2) demo_stream) = [False, False, True, False, True]"
proof -
  have "se_bits (- 2) = [False, False, True, False, True]" by code_simp
  then show ?thesis using rkv_write_se_code [of demo_stream "- 2"] by (simp add: demo_stream)
qed

text \<open>
  \<open>h264e_rkv_stream_write32\<close> passes the whole word as the second 16 bit value, whose upper
  half is not masked; because those bits coincide with the ones already in the accumulator, all
  32 bits come out right.
\<close>

theorem rkv_write32_bits:
  assumes "rkv_ok s" and "32 \<le> rkv_room s"
  shows "rkv_ok (h264e_rkv_stream_write32 w s)
    \<and> rkv_bits (h264e_rkv_stream_write32 w s) = rkv_bits s @ msb_bits 32 w"
  using rkv.emitsD [OF rkv_write32 [of w] assms(1)] assms(2) by simp

theorem rkv_write32_bits_witness:
  "rkv_bits (h264e_rkv_stream_write32 0x80000001 demo_stream) = True # replicate 30 False @ [True]"
proof -
  have "msb_bits 32 (0x80000001 :: u32) = True # replicate 30 False @ [True]" by code_simp
  then show ?thesis using rkv_write32_bits [of demo_stream "0x80000001"] by (simp add: demo_stream)
qed

section \<open>Emulation prevention\<close>

text \<open>
  C6: the copy \<open>h264e_rkv_nal_escape_c\<close> behind a start code and a header byte that is not zero
  yields bytes that contain no start code, from which the reader's removal of emulation
  prevention bytes recovers the source, that are at most half as long again, and it leaves the
  memory around them as it was.
\<close>

theorem nal_escape_decodes:
  assumes "2 \<le> d" and "2 * (length m - d) \<ge> 3 * length src" and "d \<le> length m" and "h \<noteq> 0"
  shows "case h264e_rkv_nal_escape_c m d src of (m', d') \<Rightarrow>
      unescape True 0xffff (h # seg m' d d') = h # src \<and> start_code_free (h # seg m' d d')
    \<and> d + length src \<le> d' \<and> 2 * (d' - d) \<le> 3 * length src
    \<and> take d m' = take d m \<and> drop d' m' = drop d' m \<and> length m' = length m"
proof -
  have le: "2 * length (escape 0 src) \<le> 3 * length src" using length_escape_le [of 0 src] by simp
  have fit: "d + length (escape 0 src) \<le> length m" using le assms(2,3) by linarith
  have "unescape True 0xffff (h # escape 0 src) = h # src"
    using unescape_header [OF assms(4) hist_start] by simp
  moreover have "start_code_free (h # escape 0 src)"
    using start_code_free_escape [of 0 src] assms(4) by (simp add: start_code_free_nonzero)
  ultimately show ?thesis
    using le fit length_escape_ge [of src 0] seg_store_end [of d d "escape 0 src" m]
    by (simp add: nal_escape_c_escape [OF assms(1) fit] mem_simps)
qed

theorem nal_escape_decodes_witness:
  "case h264e_rkv_nal_escape_c (replicate 20 0) 4 [0, 0, 1, 0, 0, 0, 3] of (m', d') \<Rightarrow>
     unescape True 0xffff (0x67 # seg m' 4 d') = 0x67 # [0, 0, 1, 0, 0, 0, 3] \<and> start_code_free (0x67 # seg m' 4 d')"
  using nal_escape_decodes [where d = 4 and m = "replicate 20 0" and src = "[0, 0, 1, 0, 0, 0, 3]" and h = "0x67"]
  by (auto simp del: unescape.simps start_code_free.simps split: prod.splits)

section \<open>Parameter sets of a configuration\<close>

text \<open>
  C19: for every acceptable configuration \<open>h264e_set_sps\<close> divides by zero or overflows, when the quotient of the
  frame rate is not defined, or succeeds with an SPS whose fields all fit the syntax, whose macroblock grid less the cropping is exactly the configured picture, and
  which codes frames only, 4:2:0, with at most 16 reference frames.
\<close>

theorem set_sps_valid:
  assumes "enc_cfg_ok cfg" and "vui_ok (sps_vui sps0)"
  shows "if \<not> fps_defined cfg then h264e_set_sps cfg hw sps0 = None else \<exists>s hw'. h264e_set_sps cfg hw sps0 = Some (MPP_OK, s, hw') \<and> sps_ok s
    \<and> 16 * i_mb_width s - crop_left (sps_crop s) - crop_right (sps_crop s) = prep_width cfg
    \<and> 16 * i_mb_height s - crop_top (sps_crop s) - crop_bottom (sps_crop s) = prep_height cfg
    \<and> crop_right (sps_crop s) < 16 \<and> crop_bottom (sps_crop s) < 16
    \<and> (b_crop s = 1 \<longleftrightarrow> \<not> (16 dvd prep_width cfg \<and> 16 dvd prep_height cfg))
    \<and> b_frame_mbs_only s = 1 \<and> i_chroma_format_idc s = 1 \<and> i_num_ref_frames s \<le> 16"
proof (cases "fps_defined cfg")
  case True
  obtain s hw' where s: "h264e_set_sps cfg hw sps0 = Some (MPP_OK, s, hw')" "sps_ok s" "sps_result cfg hw' s"
    using set_sps_result [OF assms(1) True assms(2)] by blast
  have w: "1 \<le> prep_width cfg" "1 \<le> prep_height cfg" using assms(1) by (simp_all add: enc_cfg_ok_def)
  have dvd: "16 * ((x + 15) div 16) - x = 0 \<longleftrightarrow> 16 dvd x" "16 * ((x + 15) div 16) - x < 16" for x :: int
    by presburger+
  show ?thesis unfolding if_not_P [OF not_not [THEN iffD2, OF True]] using s dvd [of "prep_width cfg"] dvd [of "prep_height cfg"]
    by (intro exI [of _ s] exI [of _ hw']) (auto simp: sps_result_def)
qed (simp add: h264e_set_sps_def)

definition demo_vui :: h264e_vui where
  "demo_vui = \<lparr>b_vui = 0, b_aspect_ratio_info_present = 0, i_sar_width = 0, i_sar_height = 0,
     b_overscan_info_present = 0, b_overscan_info = 0, b_signal_type_present = 0, i_vidformat = 0,
     b_fullrange = 0, b_color_description_present = 0, i_colorprim = 0, i_transfer = 0,
     i_colmatrix = 0, b_chroma_loc_info_present = 0, i_chroma_loc_top = 0, i_chroma_loc_bottom = 0,
     b_timing_info_present = 0, i_num_units_in_tick = 0, i_time_scale = 0, b_fixed_frame_rate = 0,
     b_nal_hrd_parameters_present = 0, b_vcl_hrd_parameters_present = 0,
     vui_hrd_params = \<lparr>vh_cpb_cnt = 0, vh_bit_rate_scale = 0, vh_cpb_size_scale = 0,
       vh_bit_rate_value = 0, vh_cpb_size_value = 0, vh_cbr_hrd = 0,
       vh_initial_cpb_removal_delay_length = 0, vh_cpb_removal_delay_length = 0,
       vh_dpb_output_delay_length = 0, vh_time_offset_length = 0\<rparr>,
     b_pic_struct_present = 0, b_bitstream_restriction = 0, b_motion_vectors_over_pic_boundaries = 0,
     i_max_bytes_per_pic_denom = 0, i_max_bits_per_mb_denom = 0, i_log2_max_mv_length_horizontal = 0,
     i_log2_max_mv_length_vertical = 0, i_num_reorder_frames = 0, i_max_dec_frame_buffering = 0\<rparr>"

definition demo_sps :: h264e_sps where
  "demo_sps = \<lparr>sps_id = 0, i_profile_idc = 0, i_level_idc = 0, b_constraint_set0 = 0,
     b_constraint_set1 = 0, b_constraint_set2 = 0, b_constraint_set3 = 0, i_log2_max_frame_num = 0,
     i_poc_type = 0, i_log2_max_poc_lsb = 0, i_num_ref_frames = 0,
     b_gaps_in_frame_num_value_allowed = 0, i_mb_width = 0, i_mb_height = 0, b_frame_mbs_only = 0,
     b_mb_adaptive_frame_field = 0, b_direct8x8_inference = 0, b_crop = 0,
     sps_crop = \<lparr>crop_left = 0, crop_right = 0, crop_top = 0, crop_bottom = 0\<rparr>,
     sps_vui = demo_vui, b_qpprime_y_zero_transform_bypass = 0, i_chroma_format_idc = 0,
     keyframe_max_interval = 0\<rparr>"

definition demo_cfg :: mpp_enc_cfg where
  "demo_cfg = \<lparr>prep_width = 1920, prep_height = 1080, prep_format = MPP_FMT_YUV420SP,
     rc_fps_out_num = 30, rc_fps_out_denorm = 1, rc_gop = 60, codec_profile = 100, codec_level = 40,
     codec_entropy_coding_mode = 1, codec_transform8x8_mode = 1,
     codec_constrained_intra_pred_mode = 0, codec_chroma_cb_qp_offset = 0,
     codec_chroma_cr_qp_offset = 0, codec_vui_fullrange = 0, codec_vui_sar_width = 0,
     codec_vui_sar_height = 0, codec_ref_dpb_size = 1, codec_ref_frame_reference = 1\<rparr>"

definition demo_hw :: h264e_hw_cfg where
  "demo_hw = \<lparr>hw_type = H264E_RKV, input_format = 0, r_mask_msb = 0, g_mask_msb = 0, b_mask_msb = 0, uv_rb_swap = 0, alpha_swap = 0\<rparr>"

lemma demo_ok: "enc_cfg_ok demo_cfg" "vui_ok demo_vui" "sps_vui demo_sps = demo_vui" "fps_defined demo_cfg"
  by (simp_all add: enc_cfg_ok_def fps_defined_def demo_cfg_def demo_vui_def demo_sps_def vui_ok_def field_oks
      flag_ok_def u_ok_def ue_ok_def)

theorem set_sps_valid_witness:
  "\<exists>s hw'. h264e_set_sps demo_cfg demo_hw demo_sps = Some (MPP_OK, s, hw') \<and> sps_ok s \<and> b_crop s = 1
     \<and> 16 * i_mb_height s - crop_top (sps_crop s) - crop_bottom (sps_crop s) = 1080"
proof -
  have "\<not> 16 dvd prep_height demo_cfg" "prep_height demo_cfg = 1080" by (simp_all add: demo_cfg_def)
  with set_sps_valid [of demo_cfg demo_sps demo_hw] show ?thesis by (auto simp: demo_ok)
qed

text \<open>
  C39: for every acceptable configuration \<open>h264e_set_pps\<close> succeeds with a PPS whose fields fit the
  syntax, which refers to the SPS, and which keeps to the profile: no 8x8 transform and no second
  chroma offset below High, no CABAC in Baseline.
\<close>

theorem set_pps_valid:
  assumes "enc_cfg_ok cfg" and "ue_ok (sps_id sps)"
  shows "\<exists>p. h264e_set_pps cfg sps pps0 = (MPP_OK, p) \<and> pps_ok p \<and> pps_sps_id p = sps_id sps
    \<and> (i_profile_idc sps < 100 \<longrightarrow> b_transform_8x8_mode p = 0 \<and> i_second_chroma_qp_index_offset p = 0)
    \<and> (i_profile_idc sps = 66 \<longrightarrow> b_cabac p = 0)"
  using set_pps_ok [OF assms] by blast

definition demo_pps :: h264e_pps where
  "demo_pps = \<lparr>pps_id = 0, pps_sps_id = 0, b_cabac = 0, b_pic_order = 0, i_num_slice_groups = 0,
     i_num_ref_idx_l0_default_active = 0, i_num_ref_idx_l1_default_active = 0, b_weighted_pred = 0,
     i_weighted_bipred_idc = 0, i_pic_init_qp = 0, i_pic_init_qs = 0, i_chroma_qp_index_offset = 0,
     i_second_chroma_qp_index_offset = 0, b_deblocking_filter_control = 0,
     b_constrained_intra_pred = 0, b_redundant_pic_cnt = 0, b_transform_8x8_mode = 0,
     b_cqm_preset = 0, scaling_list = []\<rparr>"

theorem set_pps_valid_witness:
  "\<exists>p. h264e_set_pps demo_cfg (demo_sps\<lparr>i_profile_idc := 77\<rparr>) demo_pps = (MPP_OK, p) \<and> pps_ok p
     \<and> b_transform_8x8_mode p = 0"
proof -
  have "sps_id (demo_sps\<lparr>i_profile_idc := 77\<rparr>) = 0" by (simp add: demo_sps_def)
  with set_pps_valid [of demo_cfg "demo_sps\<lparr>i_profile_idc := 77\<rparr>" demo_pps] show ?thesis
    by (auto simp: demo_ok field_oks)
qed

section \<open>The header packet\<close>

text \<open>What a decoder reads behind the start code of a unit.\<close>

lemma annexb_reads:
  assumes "h \<noteq> 0" and "length bs \<le> 512"
  defines "u \<equiv> drop 3 (annexb h bs)"
  defines "c \<equiv> mpp_set_pre_detection (mpp_set_bitread_ctx u (int (length u)))"
  shows "annexb h bs = [0, 0, 1] @ u" and "start_code_free u"
    and "br_wf c" and "rem_bits c = byte_bits h @ bytes_bits bs"
proof -
  have u: "u = h # escape 0 bs" by (simp add: u_def annexb_def)
  then show "annexb h bs = [0, 0, 1] @ u" by (simp add: annexb_def)
  show "start_code_free u"
    using start_code_free_escape [of 0 bs] assms(1) by (simp add: u start_code_free_nonzero)
  have "length u < 2 ^ 31" using length_escape_le [of 0 bs] assms(2) by (simp add: u)
  from mpp_set_bitread_ctx_bits(3,4) [OF this] show "br_wf c" "rem_bits c = byte_bits h @ bytes_bits bs"
    by (simp_all only: c_def u unescape_header [OF assms(1) hist_start]) simp_all
qed

text \<open>The packet of the headers: the two units, each in its Annex B form.\<close>

lemma header_packet:
  assumes "addr mod 4 = 0" and "length (nal info0) = 3" and "enc_cfg_ok cfg"
    and "vui_ok (sps_vui (ei_sps info0))" and "800 \<le> length (pkt_data pkt)" and "fps_defined cfg"
  obtains info hw' sps pps where
    "h264e_rkv_set_extra_info cfg hw (h264e_rkv_init_extra_info addr info0) = Some (info, hw')"
    and "h264e_set_sps cfg hw (ei_sps info0) = Some (MPP_OK, sps, hw')" and "sps_ok sps" and "sps_result cfg hw' sps"
    and "h264e_set_pps cfg sps (ei_pps info0) = (MPP_OK, pps)" and "pps_ok pps"
    and "take (pkt_length (h264e_rkv_get_extra_info info pkt)) (pkt_data (h264e_rkv_get_extra_info info pkt))
        = annexb 0x67 (rbsp (sps_bits sps)) @ annexb 0x68 (rbsp (pps_bits pps sps))"
    and "length (rbsp (sps_bits sps)) \<le> 201" and "length (rbsp (pps_bits pps sps)) \<le> 64"
proof -
  define info1 where "info1 = h264e_rkv_init_extra_info addr info0"
  have ok: "extra_ok info1" unfolding info1_def by (rule init_extra_ok [OF assms(1,2)])
  have ei: "ei_sps info1 = ei_sps info0" "ei_pps info1 = ei_pps info0"
    by (simp_all add: info1_def h264e_rkv_init_extra_info_def h264e_rkv_nals_init_def Let_def)
  obtain sps hw' where s: "h264e_set_sps cfg hw (ei_sps info0) = Some (MPP_OK, sps, hw')" "sps_ok sps"
      "sps_result cfg hw' sps"
    using set_sps_result [OF assms(3,6,4)] by blast
  obtain pps where p: "h264e_set_pps cfg sps (ei_pps info0) = (MPP_OK, pps)" "pps_ok pps" "b_cqm_preset pps = 0"
    using set_pps_ok [OF assms(3), of sps] s(3) by (auto simp: sps_result_def field_oks)
  have len: "8 * length (rbsp bs) \<le> length bs + 8" for bs
    by (simp add: length_rbsp trailing_bits_def)
  have ls: "length (rbsp (sps_bits sps)) \<le> 201" "length (rbsp (pps_bits pps sps)) \<le> 64"
    using length_sps_bits [OF s(2)] s(3) length_pps_bits [OF p(2,3), of sps] len [of "sps_bits sps"]
      len [of "pps_bits pps sps"] by (auto simp: sps_result_def)
  then have "length (rbsp (sps_bits sps)) + length (rbsp (pps_bits pps sps)) \<le> 512" by simp
  from set_extra_info_units [OF ok s(1,2) [folded ei] p(1,2) [folded ei] this] obtain info where
    i: "h264e_rkv_set_extra_info cfg hw info1 = Some (info, hw')" "nal_num info = 2"
      "i_payload (nal info ! 0) = length (annexb 0x67 (rbsp (sps_bits sps)))"
      "payload_bytes info (nal info ! 0) = annexb 0x67 (rbsp (sps_bits sps))"
      "i_payload (nal info ! 1) = length (annexb 0x68 (rbsp (pps_bits pps sps)))"
      "payload_bytes info (nal info ! 1) = annexb 0x68 (rbsp (pps_bits pps sps))"
    by metis
  have "length (annexb 0x67 (rbsp (sps_bits sps))) + length (annexb 0x68 (rbsp (pps_bits pps sps)))
      \<le> length (pkt_data pkt)"
    using length_annexb [of "0x67" "rbsp (sps_bits sps)"] length_annexb [of "0x68" "rbsp (pps_bits pps sps)"]
      ls assms(5) by linarith
  from get_extra_info_two [OF i(2-6) this] have "take (pkt_length (h264e_rkv_get_extra_info info pkt))
      (pkt_data (h264e_rkv_get_extra_info info pkt))
        = annexb 0x67 (rbsp (sps_bits sps)) @ annexb 0x68 (rbsp (pps_bits pps sps))" by simp
  from that [OF i(1) [unfolded info1_def] s p(1,2) this ls] show thesis .
qed


definition demo_extra :: rkv_extra_info where
  "demo_extra = \<lparr>nal_num = 0, nal = replicate 3 \<lparr>i_ref_idc = 0, i_type = 0, b_long_startcode = 0,
       i_payload = 0, p_payload = Stream_ptr 0, i_padding = 0\<rparr>,
     nal_buf = [], sei_buf = [], ei_stream = demo_stream, ei_sps = demo_sps, ei_pps = demo_pps\<rparr>"


section \<open>The SEI\<close>

lemma strlen_app: "0 \<notin> set xs \<Longrightarrow> strlen (xs @ 0 # ys) = length xs"
  by (induction xs) auto

lemma map_nth_take: "n \<le> length xs \<Longrightarrow> map (\<lambda>i. xs ! i) [0..<n] = take n xs"
  by (rule nth_equalityI) simp_all



end
