(* ===== verification/ReadSeq.thy ===== *)
theory ReadSeq
  imports BitReadSpec
begin

text \<open>
  The reading macros of mpp/base/inc/mpp_bitread.h (\<open>READ_BITS\<close>, \<open>READ_ONEBIT\<close>, \<open>READ_UE\<close>,
  \<open>READ_SE\<close>) and the statements around them, for the syntax parsers of the decoders. A parser
  works on the structure it fills and the reader's context; each macro leaves the function with
  the error code when it fails, so a parser is a list of statements that stops at the first one
  that does not return \<open>MPP_OK\<close>. \<open>decodes p bs f\<close> says that \<open>p\<close> consumes exactly the bits
  \<open>bs\<close> and applies \<open>f\<close> to the structure; it is the counterpart of \<open>emits\<close> of the writers.
\<close>

section \<open>Statements\<close>

type_synonym 's parser = "'s \<Rightarrow> bitread_ctx \<Rightarrow> mpp_ret \<times> 's \<times> bitread_ctx"

text \<open>The conversion from \<open>RK_U32\<close> to \<open>RK_S32\<close>.\<close>

definition s32 :: "u32 \<Rightarrow> int" where
  "s32 w = sint w"

definition READ_BITS :: "nat \<Rightarrow> (u32 \<Rightarrow> 's \<Rightarrow> 's) \<Rightarrow> 's parser" where
  "READ_BITS n out s c =
    (case mpp_read_bits c (int n) of (ret, c, v) \<Rightarrow>
       if ret = MPP_OK then (MPP_OK, out v s, c) else (ret, s, c))"

definition READ_ONEBIT :: "(u32 \<Rightarrow> 's \<Rightarrow> 's) \<Rightarrow> 's parser" where
  "READ_ONEBIT out = READ_BITS 1 out"

definition READ_UE :: "(u32 \<Rightarrow> 's \<Rightarrow> 's) \<Rightarrow> 's parser" where
  "READ_UE out s c =
    (case mpp_read_ue c of (ret, c, v) \<Rightarrow>
       if ret = MPP_OK then (MPP_OK, out v s, c) else (ret, s, c))"

definition READ_SE :: "(int \<Rightarrow> 's \<Rightarrow> 's) \<Rightarrow> 's parser" where
  "READ_SE out s c =
    (case mpp_read_se c of (ret, c, v) \<Rightarrow>
       if ret = MPP_OK then (MPP_OK, out v s, c) else (ret, s, c))"

text \<open>
  Assignments; \<open>VAL_CHECK\<close> (\<open>MPP_ERR_VALUE\<close>) and \<open>goto __FAILED\<close> with a code; sequence; \<open>if\<close>;
  a loop whose bound is known when it is entered; a call on a member of the structure; a call
  whose return value is ignored; the test of \<open>mpp_has_more_rbsp_data\<close>.
\<close>

definition UPD :: "('s \<Rightarrow> 's) \<Rightarrow> 's parser" where
  "UPD f s c = (MPP_OK, f s, c)"

definition FAIL_UNLESS :: "mpp_ret \<Rightarrow> ('s \<Rightarrow> bool) \<Rightarrow> 's parser" where
  "FAIL_UNLESS e b s c = (if b s then (MPP_OK, s, c) else (e, s, c))"

abbreviation VAL_CHECK :: "('s \<Rightarrow> bool) \<Rightarrow> 's parser" where
  "VAL_CHECK \<equiv> FAIL_UNLESS MPP_ERR_VALUE"

fun SEQ :: "'s parser list \<Rightarrow> 's parser" where
  "SEQ [] s c = (MPP_OK, s, c)"
| "SEQ (p # ps) s c =
    (case p s c of (ret, s, c) \<Rightarrow> if ret = MPP_OK then SEQ ps s c else (ret, s, c))"

definition COND :: "('s \<Rightarrow> bool) \<Rightarrow> 's parser list \<Rightarrow> 's parser list \<Rightarrow> 's parser" where
  "COND b ps qs s = SEQ (if b s then ps else qs) s"

definition FOR :: "('s \<Rightarrow> nat) \<Rightarrow> (nat \<Rightarrow> 's parser list) \<Rightarrow> 's parser" where
  "FOR n body s = SEQ (concat (map body [0..<n s])) s"

definition ZOOM :: "('s \<Rightarrow> 't) \<Rightarrow> ('t \<Rightarrow> 's \<Rightarrow> 's) \<Rightarrow> 't parser \<Rightarrow> 's parser" where
  "ZOOM get put p s c = (case p (get s) c of (ret, x, c) \<Rightarrow> (ret, put x s, c))"

definition IGNORE_RET :: "'s parser \<Rightarrow> 's parser" where
  "IGNORE_RET p s c = (case p s c of (_, s, c) \<Rightarrow> (MPP_OK, s, c))"

definition IF_MORE_DATA :: "'s parser list \<Rightarrow> 's parser list \<Rightarrow> 's parser" where
  "IF_MORE_DATA ps qs s c =
    (case mpp_has_more_rbsp_data c of (b, c) \<Rightarrow> SEQ (if b then ps else qs) s c)"

section \<open>What a parser consumes\<close>

text \<open>\<open>parses rest p s bs s'\<close>: on a stream that starts with \<open>bs\<close> and goes on with \<open>rest\<close>.\<close>

definition parses :: "bool list \<Rightarrow> 's parser \<Rightarrow> 's \<Rightarrow> bool list \<Rightarrow> 's \<Rightarrow> bool" where
  "parses rest p s bs s' \<longleftrightarrow> (\<forall>c. br_wf c \<longrightarrow> rem_bits c = bs @ rest \<longrightarrow>
     (\<exists>c'. p s c = (MPP_OK, s', c') \<and> br_wf c' \<and> rem_bits c' = rest))"

definition decodes :: "'s parser \<Rightarrow> bool list \<Rightarrow> ('s \<Rightarrow> 's) \<Rightarrow> bool" where
  "decodes p bs f \<longleftrightarrow> (\<forall>s rest. parses rest p s bs (f s))"

named_theorems decodes_ops \<open>what the single statements decode\<close>

lemma decodesI: "(\<And>s rest. parses rest p s bs (f s)) \<Longrightarrow> decodes p bs f"
  by (simp add: decodes_def)

lemma decodes_parses: "decodes p bs f \<Longrightarrow> s' = f s \<Longrightarrow> parses rest p s bs s'"
  by (simp add: decodes_def)

lemma parses_SEQ_Nil: "s = s' \<Longrightarrow> parses rest (SEQ []) s [] s'"
  by (simp add: parses_def)

lemma parses_SEQ_Cons:
  assumes "parses (cs @ rest) p s bs s1" and "parses rest (SEQ ps) s1 cs s2"
  shows "parses rest (SEQ (p # ps)) s (bs @ cs) s2"
  unfolding parses_def
proof (intro allI impI)
  fix c assume c: "br_wf c" "rem_bits c = (bs @ cs) @ rest"
  then obtain c1 where c1: "p s c = (MPP_OK, s1, c1)" "br_wf c1" "rem_bits c1 = cs @ rest"
    using assms(1) by (auto simp: parses_def)
  with assms(2) obtain c2 where "SEQ ps s1 c1 = (MPP_OK, s2, c2)" "br_wf c2" "rem_bits c2 = rest"
    by (auto simp: parses_def)
  with c1 show "\<exists>c'. SEQ (p # ps) s c = (MPP_OK, s2, c') \<and> br_wf c' \<and> rem_bits c' = rest" by simp
qed

lemma decodes_SEQ_Nil [decodes_ops]: "decodes (SEQ []) [] (\<lambda>s. s)"
  by (simp add: decodes_def parses_SEQ_Nil)

text \<open>A list of statements, item by item: parser, bits, effect.\<close>

fun decodes_all :: "'s parser list \<Rightarrow> bool list list \<Rightarrow> ('s \<Rightarrow> 's) list \<Rightarrow> bool" where
  "decodes_all [] [] [] = True"
| "decodes_all (p # ps) (bs # bss) (f # fs) = (decodes p bs f \<and> decodes_all ps bss fs)"
| "decodes_all _ _ _ = False"

lemma decodes_SEQ:
  "decodes_all ps bss fs \<Longrightarrow> decodes (SEQ ps) (concat bss) (run fs)"
proof (induction ps bss fs rule: decodes_all.induct)
  case (2 p ps bs bss f fs)
  show ?case
  proof (rule decodesI)
    fix s rest
    have "parses (concat bss @ rest) p s bs (f s)" using 2(2) by (simp add: decodes_def)
    moreover have "parses rest (SEQ ps) (f s) (concat bss) (run fs (f s))"
      using 2 by (simp add: decodes_def)
    ultimately show "parses rest (SEQ (p # ps)) s (concat (bs # bss)) (run (f # fs) s)"
      using parses_SEQ_Cons by fastforce
  qed
qed (simp_all add: decodes_SEQ_Nil)

lemma decodes_READ_BITS:
  "length bs = n \<Longrightarrow> n \<le> 31 \<Longrightarrow> decodes (READ_BITS n out) bs (out (bits_val bs))"
  unfolding decodes_def parses_def READ_BITS_def
  by (auto elim!: read_bits_advanced simp: advanced_def)

lemma decodes_READ_ONEBIT [decodes_ops]: "decodes (READ_ONEBIT out) [b] (out (of_bool b))"
  using decodes_READ_BITS [of "[b]" 1 out] by (simp add: READ_ONEBIT_def)

lemma decodes_READ_UE [decodes_ops]: "x < 2 ^ 32 - 1 \<Longrightarrow> decodes (READ_UE out) (ue_bits x) (out (of_nat x))"
  unfolding decodes_def parses_def READ_UE_def
  by (auto elim!: mpp_read_ue_code simp: advanced_def)

lemma decodes_READ_SE [decodes_ops]: "\<bar>x\<bar> < 2 ^ 31 \<Longrightarrow> decodes (READ_SE out) (se_bits x) (out x)"
  unfolding decodes_def parses_def READ_SE_def
  by (auto elim!: mpp_read_se_code simp: advanced_def)

lemma decodes_UPD [decodes_ops]: "decodes (UPD f) [] f"
  by (simp add: decodes_def parses_def UPD_def)

lemma parsesE:
  assumes "parses rest p s bs s'" and "br_wf c" and "rem_bits c = bs @ rest"
  obtains c' where "p s c = (MPP_OK, s', c')" and "br_wf c'" and "rem_bits c' = rest"
  using assms unfolding parses_def by blast

lemma parses_IGNORE_RET: "parses rest p s bs s' \<Longrightarrow> parses rest (IGNORE_RET p) s bs s'"
  unfolding parses_def [of _ "IGNORE_RET p"] by (auto simp: IGNORE_RET_def elim!: parsesE)

lemma parses_ZOOM: "parses rest p (get s) bs x \<Longrightarrow> s' = put x s \<Longrightarrow> parses rest (ZOOM get put p) s bs s'"
  unfolding parses_def [of _ "ZOOM get put p"] by (auto simp: ZOOM_def elim!: parsesE)

lemma decodes_IGNORE_RET: "decodes p bs f \<Longrightarrow> decodes (IGNORE_RET p) bs f"
  by (simp add: decodes_def parses_IGNORE_RET)

lemma decodes_ZOOM: "decodes p bs f \<Longrightarrow> decodes (ZOOM get put p) bs (\<lambda>s. put (f (get s)) s)"
  by (auto simp: decodes_def intro!: parses_ZOOM)

lemma parses_FAIL_UNLESS: "b s \<Longrightarrow> s = s' \<Longrightarrow> parses rest (FAIL_UNLESS e b) s [] s'"
  by (simp add: parses_def FAIL_UNLESS_def)

lemma parses_COND:
  "(b s \<Longrightarrow> parses rest (SEQ ps) s bs s') \<Longrightarrow> (\<not> b s \<Longrightarrow> parses rest (SEQ qs) s bs s') \<Longrightarrow>
     parses rest (COND b ps qs) s bs s'"
  by (simp add: parses_def COND_def)

text \<open>An item, and statements under a test of what it has read.\<close>

lemma decodes_pair:
  assumes "decodes p bs f" and "\<And>s. b (f s) = x" and "x \<Longrightarrow> decodes_all ps bss fs"
  shows "decodes (SEQ [p, COND b ps []]) (bs @ (if x then concat bss else [])) (\<lambda>s. run_if x fs (f s))"
proof (rule decodesI)
  fix s rest
  have 1: "parses rest' p s bs (f s)" for rest' using assms(1) by (simp add: decodes_def)
  have "parses rest (COND b ps []) (f s) (if x then concat bss else []) (run_if x fs (f s))"
    using decodes_SEQ [OF assms(3)] assms(2) [of s]
    by (intro parses_COND) (auto simp: decodes_def parses_SEQ_Nil run_if_def)
  then have 2: "parses rest (SEQ [COND b ps []]) (f s) (if x then concat bss else []) (run_if x fs (f s))"
    using parses_SEQ_Cons [OF _ parses_SEQ_Nil [OF refl], of rest "COND b ps []"] by fastforce
  show "parses rest (SEQ [p, COND b ps []]) s (bs @ (if x then concat bss else [])) (run_if x fs (f s))"
    using parses_SEQ_Cons [OF 1 2] by simp
qed

text \<open>The test for more data, at the end of a payload.\<close>

lemma parses_IF_MORE_DATA:
  assumes "parses (True # replicate k False) (SEQ (if bs \<noteq> [] then ps else qs)) s bs s'" and "k < 8"
  shows "parses (True # replicate k False) (IF_MORE_DATA ps qs) s bs s'"
  unfolding parses_def
proof (intro allI impI)
  fix c assume c: "br_wf c" "rem_bits c = bs @ True # replicate k False"
  obtain c1 where c1: "mpp_has_more_rbsp_data c = (bs \<noteq> [], c1)" "advanced c [] c1"
    using mpp_has_more_rbsp_data_ok [OF c assms(2)] .
  then have "br_wf c1" "rem_bits c1 = bs @ True # replicate k False" using c by (simp_all add: advanced_def)
  with assms(1) c1 show "\<exists>c'. IF_MORE_DATA ps qs s c = (MPP_OK, s', c') \<and> br_wf c'
      \<and> rem_bits c' = True # replicate k False"
    by (auto simp: parses_def IF_MORE_DATA_def)
qed

text \<open>Every parser leaves the structure reader's well-formedness to the reader; running out of bits
  is reported by every reading statement.\<close>

lemma SEQ_append: "SEQ (ps @ qs) s c =
   (case SEQ ps s c of (ret, s, c) \<Rightarrow> if ret = MPP_OK then SEQ qs s c else (ret, s, c))"
  by (induction ps arbitrary: s c) (simp_all split: prod.split)

lemma parses_SEQ_append:
  assumes "parses (cs @ rest) (SEQ ps) s bs s1" and "parses rest (SEQ qs) s1 cs s2"
  shows "parses rest (SEQ (ps @ qs)) s (bs @ cs) s2"
  using assms by (fastforce simp: parses_def SEQ_append)

lemma parses_FOR: "parses rest (SEQ (concat (map body [0..<n s]))) s bs s' \<Longrightarrow> parses rest (FOR n body) s bs s'"
  by (simp add: parses_def FOR_def)

end
