(* ===== verification/H264dSps.thy ===== *)
theory H264dSps
  imports ReadSeq "HOL-Library.Signed_Division"
begin

text \<open>
  The SPS side of the H.264 decoder: the structures of h264d_global.h, mpp/codec/dec/h264/h264d_sps.c
  and h264d_scalist.c. A field of type \<open>RK_S32\<close> is an \<open>int\<close>, of type \<open>RK_U32\<close> or \<open>RK_U16\<close> a
  word. Arrays are lists of the declared length; a store past the end of an array, which C leaves
  undefined, does not change the list. Arrays that \<open>mpp_calloc\<close> returns are lists of the requested
  length, and the call fails for a negative count, which is an impossible size.
\<close>

section \<open>Structures\<close>

record h264_hrd =
  hrd_cpb_cnt_minus1 :: u32
  hrd_bit_rate_scale :: u32
  hrd_cpb_size_scale :: u32
  hrd_bit_rate_value_minus1 :: "u32 list"
  hrd_cpb_size_value_minus1 :: "u32 list"
  hrd_cbr_flag :: "u32 list"
  hrd_initial_cpb_removal_delay_length_minus1 :: u32
  hrd_cpb_removal_delay_length_minus1 :: u32
  hrd_dpb_output_delay_length_minus1 :: u32
  hrd_time_offset_length :: u32

record h264_vui =
  vui_aspect_ratio_info_present_flag :: int
  vui_aspect_ratio_idc :: u32
  vui_sar_width :: u16
  vui_sar_height :: u16
  vui_overscan_info_present_flag :: int
  vui_overscan_appropriate_flag :: int
  vui_video_signal_type_present_flag :: int
  vui_video_format :: u32
  vui_video_full_range_flag :: int
  vui_colour_description_present_flag :: int
  vui_colour_primaries :: u32
  vui_transfer_characteristics :: u32
  vui_matrix_coefficients :: u32
  vui_chroma_location_info_present_flag :: int
  vui_chroma_sample_loc_type_top_field :: u32
  vui_chroma_sample_loc_type_bottom_field :: u32
  vui_timing_info_present_flag :: int
  vui_num_units_in_tick :: u32
  vui_time_scale :: u32
  vui_fixed_frame_rate_flag :: int
  vui_nal_hrd_parameters_present_flag :: int
  vui_nal_hrd_parameters :: h264_hrd
  vui_vcl_hrd_parameters_present_flag :: int
  vui_vcl_hrd_parameters :: h264_hrd
  vui_low_delay_hrd_flag :: int
  vui_pic_struct_present_flag :: int
  vui_bitstream_restriction_flag :: int
  vui_motion_vectors_over_pic_boundaries_flag :: int
  vui_max_bytes_per_pic_denom :: u32
  vui_max_bits_per_mb_denom :: u32
  vui_log2_max_mv_length_vertical :: u32
  vui_log2_max_mv_length_horizontal :: u32
  vui_num_reorder_frames :: u32
  vui_max_dec_frame_buffering :: u32

record h264_sps =
  s_Valid :: int
  s_profile_idc :: int
  s_constrained_set0_flag :: int
  s_constrained_set1_flag :: int
  s_constrained_set2_flag :: int
  s_constrained_set3_flag :: int
  s_constrained_set4_flag :: int
  s_constrained_set5_flag :: int
  s_level_idc :: int
  s_seq_parameter_set_id :: int
  s_chroma_format_idc :: int
  s_seq_scaling_matrix_present_flag :: int
  s_seq_scaling_list_present_flag :: "int list"
  s_ScalingList4x4 :: "int list list"
  s_ScalingList8x8 :: "int list list"
  s_UseDefaultScalingMatrix4x4Flag :: "int list"
  s_UseDefaultScalingMatrix8x8Flag :: "int list"
  s_bit_depth_luma_minus8 :: int
  s_bit_depth_chroma_minus8 :: int
  s_log2_max_frame_num_minus4 :: int
  s_pic_order_cnt_type :: int
  s_log2_max_pic_order_cnt_lsb_minus4 :: int
  s_delta_pic_order_always_zero_flag :: int
  s_offset_for_non_ref_pic :: int
  s_offset_for_top_to_bottom_field :: int
  s_num_ref_frames_in_pic_order_cnt_cycle :: int
  s_offset_for_ref_frame :: "int list"
  s_max_num_ref_frames :: int
  s_gaps_in_frame_num_value_allowed_flag :: int
  s_pic_width_in_mbs_minus1 :: int
  s_pic_height_in_map_units_minus1 :: int
  s_frame_mbs_only_flag :: int
  s_mb_adaptive_frame_field_flag :: int
  s_direct_8x8_inference_flag :: int
  s_frame_cropping_flag :: int
  s_frame_crop_left_offset :: int
  s_frame_crop_right_offset :: int
  s_frame_crop_top_offset :: int
  s_frame_crop_bottom_offset :: int
  s_vui_parameters_present_flag :: int
  s_vui_seq_parameters :: h264_vui
  s_separate_colour_plane_flag :: int
  s_max_dec_frame_buffering :: int
  s_qpprime_y_zero_transform_bypass_flag :: int
  s_expected_delta_per_pic_order_cnt_cycle :: int

text \<open>The structures as \<open>memset\<close> with 0 leaves them.\<close>

definition zero_hrd :: h264_hrd where
  "zero_hrd = \<lparr>hrd_cpb_cnt_minus1 = 0, hrd_bit_rate_scale = 0, hrd_cpb_size_scale = 0,
     hrd_bit_rate_value_minus1 = replicate 32 0, hrd_cpb_size_value_minus1 = replicate 32 0,
     hrd_cbr_flag = replicate 32 0, hrd_initial_cpb_removal_delay_length_minus1 = 0,
     hrd_cpb_removal_delay_length_minus1 = 0, hrd_dpb_output_delay_length_minus1 = 0,
     hrd_time_offset_length = 0\<rparr>"

definition zero_vui :: h264_vui where
  "zero_vui = \<lparr>vui_aspect_ratio_info_present_flag = 0, vui_aspect_ratio_idc = 0, vui_sar_width = 0,
     vui_sar_height = 0, vui_overscan_info_present_flag = 0, vui_overscan_appropriate_flag = 0,
     vui_video_signal_type_present_flag = 0, vui_video_format = 0, vui_video_full_range_flag = 0,
     vui_colour_description_present_flag = 0, vui_colour_primaries = 0,
     vui_transfer_characteristics = 0, vui_matrix_coefficients = 0,
     vui_chroma_location_info_present_flag = 0, vui_chroma_sample_loc_type_top_field = 0,
     vui_chroma_sample_loc_type_bottom_field = 0, vui_timing_info_present_flag = 0,
     vui_num_units_in_tick = 0, vui_time_scale = 0, vui_fixed_frame_rate_flag = 0,
     vui_nal_hrd_parameters_present_flag = 0, vui_nal_hrd_parameters = zero_hrd,
     vui_vcl_hrd_parameters_present_flag = 0, vui_vcl_hrd_parameters = zero_hrd,
     vui_low_delay_hrd_flag = 0, vui_pic_struct_present_flag = 0, vui_bitstream_restriction_flag = 0,
     vui_motion_vectors_over_pic_boundaries_flag = 0, vui_max_bytes_per_pic_denom = 0,
     vui_max_bits_per_mb_denom = 0, vui_log2_max_mv_length_vertical = 0,
     vui_log2_max_mv_length_horizontal = 0, vui_num_reorder_frames = 0,
     vui_max_dec_frame_buffering = 0\<rparr>"

definition zero_sps :: h264_sps where
  "zero_sps = \<lparr>s_Valid = 0, s_profile_idc = 0, s_constrained_set0_flag = 0,
     s_constrained_set1_flag = 0, s_constrained_set2_flag = 0, s_constrained_set3_flag = 0,
     s_constrained_set4_flag = 0, s_constrained_set5_flag = 0, s_level_idc = 0,
     s_seq_parameter_set_id = 0, s_chroma_format_idc = 0, s_seq_scaling_matrix_present_flag = 0,
     s_seq_scaling_list_present_flag = replicate 12 0,
     s_ScalingList4x4 = replicate 6 (replicate 16 0), s_ScalingList8x8 = replicate 6 (replicate 64 0),
     s_UseDefaultScalingMatrix4x4Flag = replicate 6 0, s_UseDefaultScalingMatrix8x8Flag = replicate 6 0,
     s_bit_depth_luma_minus8 = 0, s_bit_depth_chroma_minus8 = 0, s_log2_max_frame_num_minus4 = 0,
     s_pic_order_cnt_type = 0, s_log2_max_pic_order_cnt_lsb_minus4 = 0,
     s_delta_pic_order_always_zero_flag = 0, s_offset_for_non_ref_pic = 0,
     s_offset_for_top_to_bottom_field = 0, s_num_ref_frames_in_pic_order_cnt_cycle = 0,
     s_offset_for_ref_frame = replicate 256 0, s_max_num_ref_frames = 0,
     s_gaps_in_frame_num_value_allowed_flag = 0, s_pic_width_in_mbs_minus1 = 0,
     s_pic_height_in_map_units_minus1 = 0, s_frame_mbs_only_flag = 0,
     s_mb_adaptive_frame_field_flag = 0, s_direct_8x8_inference_flag = 0, s_frame_cropping_flag = 0,
     s_frame_crop_left_offset = 0, s_frame_crop_right_offset = 0, s_frame_crop_top_offset = 0,
     s_frame_crop_bottom_offset = 0, s_vui_parameters_present_flag = 0,
     s_vui_seq_parameters = zero_vui, s_separate_colour_plane_flag = 0, s_max_dec_frame_buffering = 0,
     s_qpprime_y_zero_transform_bypass_flag = 0, s_expected_delta_per_pic_order_cnt_cycle = 0\<rparr>"

definition reset_cur_sps_data :: "h264_sps \<Rightarrow> h264_sps" where
  "reset_cur_sps_data cur_sps = zero_sps\<lparr>s_seq_parameter_set_id := 0\<rparr>"

text \<open>32 bit wrap-around of a signed result.\<close>

definition wrap32 :: "int \<Rightarrow> int" where
  "wrap32 x = sint (word_of_int x :: u32)"

section \<open>HRD and VUI\<close>

definition read_hrd_parameters :: "h264_hrd parser" where
  "read_hrd_parameters = SEQ [
    READ_UE (\<lambda>w h. h\<lparr>hrd_cpb_cnt_minus1 := w\<rparr>),
    READ_BITS 4 (\<lambda>w h. h\<lparr>hrd_bit_rate_scale := w\<rparr>),
    READ_BITS 4 (\<lambda>w h. h\<lparr>hrd_cpb_size_scale := w\<rparr>),
    FOR (\<lambda>h. unat (hrd_cpb_cnt_minus1 h) + 1) (\<lambda>i.
      [READ_UE (\<lambda>w h. h\<lparr>hrd_bit_rate_value_minus1 := (hrd_bit_rate_value_minus1 h)[i := w]\<rparr>),
       READ_UE (\<lambda>w h. h\<lparr>hrd_cpb_size_value_minus1 := (hrd_cpb_size_value_minus1 h)[i := w]\<rparr>),
       READ_ONEBIT (\<lambda>w h. h\<lparr>hrd_cbr_flag := (hrd_cbr_flag h)[i := w]\<rparr>)]),
    READ_BITS 5 (\<lambda>w h. h\<lparr>hrd_initial_cpb_removal_delay_length_minus1 := w\<rparr>),
    READ_BITS 5 (\<lambda>w h. h\<lparr>hrd_cpb_removal_delay_length_minus1 := w\<rparr>),
    READ_BITS 5 (\<lambda>w h. h\<lparr>hrd_dpb_output_delay_length_minus1 := w\<rparr>),
    READ_BITS 5 (\<lambda>w h. h\<lparr>hrd_time_offset_length := w\<rparr>)]"

definition init_VUI :: "h264_vui \<Rightarrow> h264_vui" where
  "init_VUI vui = vui\<lparr>vui_matrix_coefficients := 2\<rparr>"

text \<open>
  A value that is tested right after it has been read is one item of the list together with the test,
  here and in the parsers below.
\<close>

definition read_VUI_hrd :: "h264_vui parser" where
  "read_VUI_hrd = SEQ [
    SEQ [READ_ONEBIT (\<lambda>w v. v\<lparr>vui_nal_hrd_parameters_present_flag := s32 w\<rparr>),
      COND (\<lambda>v. vui_nal_hrd_parameters_present_flag v \<noteq> 0)
        [ZOOM vui_nal_hrd_parameters (\<lambda>h v. v\<lparr>vui_nal_hrd_parameters := h\<rparr>) read_hrd_parameters] []],
    SEQ [READ_ONEBIT (\<lambda>w v. v\<lparr>vui_vcl_hrd_parameters_present_flag := s32 w\<rparr>),
      COND (\<lambda>v. vui_vcl_hrd_parameters_present_flag v \<noteq> 0)
        [ZOOM vui_vcl_hrd_parameters (\<lambda>h v. v\<lparr>vui_vcl_hrd_parameters := h\<rparr>) read_hrd_parameters] []],
    COND (\<lambda>v. vui_nal_hrd_parameters_present_flag v \<noteq> 0 \<or> vui_vcl_hrd_parameters_present_flag v \<noteq> 0)
      [READ_ONEBIT (\<lambda>w v. v\<lparr>vui_low_delay_hrd_flag := s32 w\<rparr>)] []]"

definition read_VUI :: "h264_vui parser" where
  "read_VUI = SEQ [
    SEQ [READ_ONEBIT (\<lambda>w v. v\<lparr>vui_aspect_ratio_info_present_flag := s32 w\<rparr>),
      COND (\<lambda>v. vui_aspect_ratio_info_present_flag v \<noteq> 0)
        [SEQ [READ_BITS 8 (\<lambda>w v. v\<lparr>vui_aspect_ratio_idc := w\<rparr>),
           COND (\<lambda>v. vui_aspect_ratio_idc v = 255)
             [READ_BITS 16 (\<lambda>w v. v\<lparr>vui_sar_width := ucast w\<rparr>),
              READ_BITS 16 (\<lambda>w v. v\<lparr>vui_sar_height := ucast w\<rparr>)] []]] []],
    SEQ [READ_ONEBIT (\<lambda>w v. v\<lparr>vui_overscan_info_present_flag := s32 w\<rparr>),
      COND (\<lambda>v. vui_overscan_info_present_flag v \<noteq> 0)
        [READ_ONEBIT (\<lambda>w v. v\<lparr>vui_overscan_appropriate_flag := s32 w\<rparr>)] []],
    SEQ [READ_ONEBIT (\<lambda>w v. v\<lparr>vui_video_signal_type_present_flag := s32 w\<rparr>),
      COND (\<lambda>v. vui_video_signal_type_present_flag v \<noteq> 0)
        [READ_BITS 3 (\<lambda>w v. v\<lparr>vui_video_format := w\<rparr>),
         READ_ONEBIT (\<lambda>w v. v\<lparr>vui_video_full_range_flag := s32 w\<rparr>),
         SEQ [READ_ONEBIT (\<lambda>w v. v\<lparr>vui_colour_description_present_flag := s32 w\<rparr>),
           COND (\<lambda>v. vui_colour_description_present_flag v \<noteq> 0)
             [READ_BITS 8 (\<lambda>w v. v\<lparr>vui_colour_primaries := w\<rparr>),
              READ_BITS 8 (\<lambda>w v. v\<lparr>vui_transfer_characteristics := w\<rparr>),
              READ_BITS 8 (\<lambda>w v. v\<lparr>vui_matrix_coefficients := w\<rparr>)] []]] []],
    SEQ [READ_ONEBIT (\<lambda>w v. v\<lparr>vui_chroma_location_info_present_flag := s32 w\<rparr>),
      COND (\<lambda>v. vui_chroma_location_info_present_flag v \<noteq> 0)
        [READ_UE (\<lambda>w v. v\<lparr>vui_chroma_sample_loc_type_top_field := w\<rparr>),
         READ_UE (\<lambda>w v. v\<lparr>vui_chroma_sample_loc_type_bottom_field := w\<rparr>)] []],
    SEQ [READ_ONEBIT (\<lambda>w v. v\<lparr>vui_timing_info_present_flag := s32 w\<rparr>),
      COND (\<lambda>v. vui_timing_info_present_flag v \<noteq> 0)
        [READ_BITS 16 (\<lambda>w v. v\<lparr>vui_num_units_in_tick := w\<rparr>),
         READ_BITS 16 (\<lambda>w v. v\<lparr>vui_num_units_in_tick := w\<rparr>),
         READ_BITS 16 (\<lambda>w v. v\<lparr>vui_time_scale := w\<rparr>),
         READ_BITS 16 (\<lambda>w v. v\<lparr>vui_time_scale := w\<rparr>),
         READ_ONEBIT (\<lambda>w v. v\<lparr>vui_fixed_frame_rate_flag := s32 w\<rparr>)] []],
    read_VUI_hrd,
    READ_ONEBIT (\<lambda>w v. v\<lparr>vui_pic_struct_present_flag := s32 w\<rparr>),
    SEQ [READ_ONEBIT (\<lambda>w v. v\<lparr>vui_bitstream_restriction_flag := s32 w\<rparr>),
      COND (\<lambda>v. vui_bitstream_restriction_flag v \<noteq> 0)
        [READ_ONEBIT (\<lambda>w v. v\<lparr>vui_motion_vectors_over_pic_boundaries_flag := s32 w\<rparr>),
         READ_UE (\<lambda>w v. v\<lparr>vui_max_bytes_per_pic_denom := w\<rparr>),
         READ_UE (\<lambda>w v. v\<lparr>vui_max_bits_per_mb_denom := w\<rparr>),
         READ_UE (\<lambda>w v. v\<lparr>vui_log2_max_mv_length_horizontal := w\<rparr>),
         READ_UE (\<lambda>w v. v\<lparr>vui_log2_max_mv_length_vertical := w\<rparr>),
         READ_UE (\<lambda>w v. v\<lparr>vui_num_reorder_frames := w\<rparr>),
         READ_UE (\<lambda>w v. v\<lparr>vui_max_dec_frame_buffering := w\<rparr>)] []]]"

section \<open>Scaling lists\<close>

definition ZZ_SCAN :: "nat list" where
  "ZZ_SCAN = [0, 1, 4, 8, 5, 2, 3, 6, 9, 12, 13, 10, 7, 11, 14, 15]"

definition ZZ_SCAN8 :: "nat list" where
  "ZZ_SCAN8 = [
    0, 1, 8, 16, 9, 2, 3, 10, 17, 24, 32, 25, 18, 11, 4, 5,
    12, 19, 26, 33, 40, 48, 41, 34, 27, 20, 13, 6, 7, 14, 21, 28,
    35, 42, 49, 56, 57, 50, 43, 36, 29, 22, 15, 23, 30, 37, 44, 51,
    58, 59, 52, 45, 38, 31, 39, 46, 53, 60, 61, 54, 47, 55, 62, 63]"

record scaling_locals =
  sl_list :: "int list"
  sl_use_default :: int
  sl_last_scale :: int
  sl_next_scale :: int

definition scaling_body :: "nat \<Rightarrow> nat \<Rightarrow> scaling_locals parser list" where
  "scaling_body len j =
    (let scanj = (if len > 16 then ZZ_SCAN8 else ZZ_SCAN) ! j in
    [COND (\<lambda>l. sl_next_scale l \<noteq> 0)
       [READ_SE (\<lambda>d l. let nx = (sl_last_scale l + d + 256) AND 0xff
          in l\<lparr>sl_next_scale := nx, sl_use_default := of_bool (scanj = 0 \<and> nx = 0)\<rparr>)] [],
     UPD (\<lambda>l. let v = (if sl_next_scale l = 0 then sl_last_scale l else sl_next_scale l)
          in l\<lparr>sl_list := (sl_list l)[scanj := v], sl_last_scale := v\<rparr>)])"

definition parse_scalingList :: "nat \<Rightarrow> (int list \<times> int) parser" where
  "parse_scalingList len = (\<lambda>(scaling_list, use_default) c.
    case FOR (\<lambda>_. len) (scaling_body len)
        \<lparr>sl_list = scaling_list, sl_use_default = 0, sl_last_scale = 8, sl_next_scale = 8\<rparr> c of
      (ret, l, c) \<Rightarrow> (ret, (sl_list l, sl_use_default l), c))"

definition parse_sps_scalinglists :: "h264_sps parser" where
  "parse_sps_scalinglists = SEQ [
    FOR (\<lambda>_. 6) (\<lambda>i.
      [READ_ONEBIT (\<lambda>w s. s\<lparr>s_seq_scaling_list_present_flag := (s_seq_scaling_list_present_flag s)[i := s32 w]\<rparr>),
       COND (\<lambda>s. s_seq_scaling_list_present_flag s ! i \<noteq> 0)
         [ZOOM (\<lambda>s. (s_ScalingList4x4 s ! i, s_UseDefaultScalingMatrix4x4Flag s ! i))
            (\<lambda>(l, u) s. s\<lparr>s_ScalingList4x4 := (s_ScalingList4x4 s)[i := l],
               s_UseDefaultScalingMatrix4x4Flag := (s_UseDefaultScalingMatrix4x4Flag s)[i := u]\<rparr>)
            (parse_scalingList 16)] []]),
    FOR (\<lambda>s. if s_chroma_format_idc s \<noteq> 3 then 2 else 6) (\<lambda>i.
      [READ_ONEBIT (\<lambda>w s. s\<lparr>s_seq_scaling_list_present_flag := (s_seq_scaling_list_present_flag s)[6 + i := s32 w]\<rparr>),
       COND (\<lambda>s. s_seq_scaling_list_present_flag s ! (6 + i) \<noteq> 0)
         [ZOOM (\<lambda>s. (s_ScalingList8x8 s ! i, s_UseDefaultScalingMatrix8x8Flag s ! i))
            (\<lambda>(l, u) s. s\<lparr>s_ScalingList8x8 := (s_ScalingList8x8 s)[i := l],
               s_UseDefaultScalingMatrix8x8Flag := (s_UseDefaultScalingMatrix8x8Flag s)[i := u]\<rparr>)
            (parse_scalingList 64)] []])]"

section \<open>The SPS\<close>

text \<open>
  \<open>parser_sps\<close> works on the SPS and on the flag \<open>un_spt_flag\<close> of the decoder's error context,
  which it raises for a chroma format it does not support. The \<open>ASSERT\<close>s are debugging aids
  that are off by default.
\<close>

record sps_state =
  cur_sps :: h264_sps
  un_spt_flag :: bool

abbreviation IN_SPS :: "h264_sps parser \<Rightarrow> sps_state parser" where
  "IN_SPS \<equiv> ZOOM cur_sps (\<lambda>x s. s\<lparr>cur_sps := x\<rparr>)"

definition sps_profile_accepted :: "int \<Rightarrow> bool" where
  "sps_profile_accepted p \<longleftrightarrow> p = 66 \<or> p = 77 \<or> p = 88 \<or> p = 100 \<or> p = 110 \<or> p = 122 \<or> p = 244
     \<or> p = 44 \<or> p = 118 \<or> p = 128"

definition sps_has_chroma_info :: "int \<Rightarrow> bool" where
  "sps_has_chroma_info p \<longleftrightarrow> p = 100 \<or> p = 110 \<or> p = 122 \<or> p = 244 \<or> p = 44 \<or> p = 83 \<or> p = 86
     \<or> p = 118 \<or> p = 128 \<or> p = 138"

definition sps_init :: "h264_sps \<Rightarrow> h264_sps" where
  "sps_init s = s\<lparr>s_chroma_format_idc := 1, s_bit_depth_luma_minus8 := 0, s_bit_depth_chroma_minus8 := 0,
     s_qpprime_y_zero_transform_bypass_flag := 0, s_separate_colour_plane_flag := 0,
     s_log2_max_pic_order_cnt_lsb_minus4 := 0, s_delta_pic_order_always_zero_flag := 0\<rparr>"

definition sps_head :: "h264_sps parser" where
  "sps_head = SEQ [
    SEQ [READ_BITS 8 (\<lambda>w s. s\<lparr>s_profile_idc := s32 w\<rparr>),
      VAL_CHECK (\<lambda>s. sps_profile_accepted (s_profile_idc s))],
    READ_ONEBIT (\<lambda>w s. s\<lparr>s_constrained_set0_flag := s32 w\<rparr>),
    READ_ONEBIT (\<lambda>w s. s\<lparr>s_constrained_set1_flag := s32 w\<rparr>),
    READ_ONEBIT (\<lambda>w s. s\<lparr>s_constrained_set2_flag := s32 w\<rparr>),
    READ_ONEBIT (\<lambda>w s. s\<lparr>s_constrained_set3_flag := s32 w\<rparr>),
    READ_ONEBIT (\<lambda>w s. s\<lparr>s_constrained_set4_flag := s32 w\<rparr>),
    READ_ONEBIT (\<lambda>w s. s\<lparr>s_constrained_set5_flag := s32 w\<rparr>),
    READ_BITS 2 (\<lambda>w s. s),
    READ_BITS 8 (\<lambda>w s. s\<lparr>s_level_idc := s32 w\<rparr>),
    SEQ [READ_UE (\<lambda>w s. s\<lparr>s_seq_parameter_set_id := s32 w\<rparr>),
      UPD (\<lambda>s. if s_seq_parameter_set_id s < 0 \<or> s_seq_parameter_set_id s > 32
               then s\<lparr>s_seq_parameter_set_id := 0\<rparr> else s)]]"

definition sps_poc :: "h264_sps parser" where
  "sps_poc = SEQ [
    READ_UE (\<lambda>w s. s\<lparr>s_log2_max_frame_num_minus4 := s32 w\<rparr>),
    SEQ [READ_UE (\<lambda>w s. s\<lparr>s_pic_order_cnt_type := s32 w\<rparr>),
      UPD (\<lambda>s. s\<lparr>s_log2_max_pic_order_cnt_lsb_minus4 := 0, s_delta_pic_order_always_zero_flag := 0\<rparr>)],
    COND (\<lambda>s. s_pic_order_cnt_type s = 0)
      [READ_UE (\<lambda>w s. s\<lparr>s_log2_max_pic_order_cnt_lsb_minus4 := s32 w\<rparr>)]
      [COND (\<lambda>s. s_pic_order_cnt_type s = 1)
        [READ_ONEBIT (\<lambda>w s. s\<lparr>s_delta_pic_order_always_zero_flag := s32 w\<rparr>),
         READ_SE (\<lambda>d s. s\<lparr>s_offset_for_non_ref_pic := d\<rparr>),
         READ_SE (\<lambda>d s. s\<lparr>s_offset_for_top_to_bottom_field := d\<rparr>),
         READ_UE (\<lambda>w s. s\<lparr>s_num_ref_frames_in_pic_order_cnt_cycle := s32 w\<rparr>),
         FOR (\<lambda>s. nat (s_num_ref_frames_in_pic_order_cnt_cycle s)) (\<lambda>i.
           [READ_SE (\<lambda>d s. s\<lparr>s_offset_for_ref_frame := (s_offset_for_ref_frame s)[i := d]\<rparr>),
            UPD (\<lambda>s. s\<lparr>s_expected_delta_per_pic_order_cnt_cycle :=
              wrap32 (s_expected_delta_per_pic_order_cnt_cycle s + s_offset_for_ref_frame s ! i)\<rparr>)])] []]]"

definition sps_size :: "h264_sps parser" where
  "sps_size = SEQ [
    READ_UE (\<lambda>w s. s\<lparr>s_max_num_ref_frames := s32 w\<rparr>),
    READ_ONEBIT (\<lambda>w s. s\<lparr>s_gaps_in_frame_num_value_allowed_flag := s32 w\<rparr>),
    READ_UE (\<lambda>w s. s\<lparr>s_pic_width_in_mbs_minus1 := s32 w\<rparr>),
    READ_UE (\<lambda>w s. s\<lparr>s_pic_height_in_map_units_minus1 := s32 w\<rparr>),
    SEQ [READ_ONEBIT (\<lambda>w s. s\<lparr>s_frame_mbs_only_flag := s32 w\<rparr>),
      COND (\<lambda>s. s_frame_mbs_only_flag s = 0)
        [READ_ONEBIT (\<lambda>w s. s\<lparr>s_mb_adaptive_frame_field_flag := s32 w\<rparr>)] []],
    READ_ONEBIT (\<lambda>w s. s\<lparr>s_direct_8x8_inference_flag := s32 w\<rparr>),
    SEQ [READ_ONEBIT (\<lambda>w s. s\<lparr>s_frame_cropping_flag := s32 w\<rparr>),
      COND (\<lambda>s. s_frame_cropping_flag s \<noteq> 0)
        [READ_UE (\<lambda>w s. s\<lparr>s_frame_crop_left_offset := s32 w\<rparr>),
         READ_UE (\<lambda>w s. s\<lparr>s_frame_crop_right_offset := s32 w\<rparr>),
         READ_UE (\<lambda>w s. s\<lparr>s_frame_crop_top_offset := s32 w\<rparr>),
         READ_UE (\<lambda>w s. s\<lparr>s_frame_crop_bottom_offset := s32 w\<rparr>)] []]]"

definition sps_vui_part :: "h264_sps parser" where
  "sps_vui_part = SEQ [
    SEQ [SEQ [READ_ONEBIT (\<lambda>w s. s\<lparr>s_vui_parameters_present_flag := s32 w\<rparr>),
        UPD (\<lambda>s. s\<lparr>s_vui_seq_parameters := init_VUI (s_vui_seq_parameters s)\<rparr>)],
      COND (\<lambda>s. s_vui_parameters_present_flag s \<noteq> 0)
        [IGNORE_RET (ZOOM s_vui_seq_parameters (\<lambda>v s. s\<lparr>s_vui_seq_parameters := v\<rparr>) read_VUI)] []],
    UPD (\<lambda>s. s\<lparr>s_Valid := 1\<rparr>)]"

definition sps_chroma :: "sps_state parser list" where
  "sps_chroma =
    [SEQ [IN_SPS (READ_UE (\<lambda>w s. s\<lparr>s_chroma_format_idc := s32 w\<rparr>)),
       COND (\<lambda>s. s_chroma_format_idc (cur_sps s) > 2)
         [UPD (\<lambda>s. s\<lparr>un_spt_flag := True\<rparr>), FAIL_UNLESS MPP_ERR_UNKNOW (\<lambda>_. False)] []],
     IN_SPS (READ_UE (\<lambda>w s. s\<lparr>s_bit_depth_luma_minus8 := s32 w\<rparr>)),
     IN_SPS (READ_UE (\<lambda>w s. s\<lparr>s_bit_depth_chroma_minus8 := s32 w\<rparr>)),
     IN_SPS (READ_ONEBIT (\<lambda>w s. s\<lparr>s_qpprime_y_zero_transform_bypass_flag := s32 w\<rparr>)),
     SEQ [IN_SPS (READ_ONEBIT (\<lambda>w s. s\<lparr>s_seq_scaling_matrix_present_flag := s32 w\<rparr>)),
       COND (\<lambda>s. s_seq_scaling_matrix_present_flag (cur_sps s) \<noteq> 0)
         [IGNORE_RET (IN_SPS parse_sps_scalinglists)] []]]"

definition parser_sps :: "sps_state parser" where
  "parser_sps = SEQ [
    IN_SPS (UPD sps_init),
    SEQ [IN_SPS sps_head,
      COND (\<lambda>s. sps_has_chroma_info (s_profile_idc (cur_sps s))) sps_chroma []],
    IN_SPS sps_poc,
    IN_SPS sps_size,
    IN_SPS sps_vui_part]"

end
