(* ===== verification/H264dPs.thy ===== *)
theory H264dPs
  imports H264dSps
begin

text \<open>
  Subset SPS and PPS of the H.264 decoder, the parameter set stores, the derived picture
  parameters and the scaling matrices: the rest of h264d_sps.c and of h264d_scalist.c, and h264d_pps.c
  (\<open>activate_sps\<close> and \<open>activate_pps\<close> are in \<open>H264dSlice\<close>). Of the large context structures the
  records keep the members these functions read or write.
\<close>

section \<open>Structures\<close>

record h264_subsps =
  ss_sps :: h264_sps
  ss_bit_equal_to_one :: int
  ss_num_views_minus1 :: int
  ss_view_id :: "int list"
  ss_num_anchor_refs_l0 :: "int list"
  ss_anchor_ref_l0 :: "int list list"
  ss_num_anchor_refs_l1 :: "int list"
  ss_anchor_ref_l1 :: "int list list"
  ss_num_non_anchor_refs_l0 :: "int list"
  ss_non_anchor_ref_l0 :: "int list list"
  ss_num_non_anchor_refs_l1 :: "int list"
  ss_non_anchor_ref_l1 :: "int list list"
  ss_num_level_values_signalled_minus1 :: int
  ss_mvc_vui_parameters_present_flag :: int
  ss_Valid :: int

record h264_pps =
  p_Valid :: int
  p_pic_parameter_set_id :: int
  p_seq_parameter_set_id :: int
  p_entropy_coding_mode_flag :: int
  p_transform_8x8_mode_flag :: int
  p_pic_scaling_matrix_present_flag :: int
  p_pic_scaling_list_present_flag :: "int list"
  p_ScalingList4x4 :: "int list list"
  p_ScalingList8x8 :: "int list list"
  p_UseDefaultScalingMatrix4x4Flag :: "int list"
  p_UseDefaultScalingMatrix8x8Flag :: "int list"
  p_bottom_field_pic_order_in_frame_present_flag :: int
  p_num_slice_groups_minus1 :: int
  p_num_ref_idx_l0_default_active_minus1 :: int
  p_num_ref_idx_l1_default_active_minus1 :: int
  p_weighted_pred_flag :: int
  p_weighted_bipred_idc :: int
  p_pic_init_qp_minus26 :: int
  p_pic_init_qs_minus26 :: int
  p_chroma_qp_index_offset :: int
  p_second_chroma_qp_index_offset :: int
  p_deblocking_filter_control_present_flag :: int
  p_constrained_intra_pred_flag :: int
  p_redundant_pic_cnt_present_flag :: int

definition zero_pps :: h264_pps where
  "zero_pps = \<lparr>p_Valid = 0, p_pic_parameter_set_id = 0, p_seq_parameter_set_id = 0,
     p_entropy_coding_mode_flag = 0, p_transform_8x8_mode_flag = 0, p_pic_scaling_matrix_present_flag = 0,
     p_pic_scaling_list_present_flag = replicate 12 0, p_ScalingList4x4 = replicate 6 (replicate 16 0),
     p_ScalingList8x8 = replicate 6 (replicate 64 0), p_UseDefaultScalingMatrix4x4Flag = replicate 6 0,
     p_UseDefaultScalingMatrix8x8Flag = replicate 6 0, p_bottom_field_pic_order_in_frame_present_flag = 0,
     p_num_slice_groups_minus1 = 0, p_num_ref_idx_l0_default_active_minus1 = 0,
     p_num_ref_idx_l1_default_active_minus1 = 0, p_weighted_pred_flag = 0, p_weighted_bipred_idc = 0,
     p_pic_init_qp_minus26 = 0, p_pic_init_qs_minus26 = 0, p_chroma_qp_index_offset = 0,
     p_second_chroma_qp_index_offset = 0, p_deblocking_filter_control_present_flag = 0,
     p_constrained_intra_pred_flag = 0, p_redundant_pic_cnt_present_flag = 0\<rparr>"

definition zero_subsps :: h264_subsps where
  "zero_subsps = \<lparr>ss_sps = zero_sps, ss_bit_equal_to_one = 0, ss_num_views_minus1 = 0,
     ss_view_id = [], ss_num_anchor_refs_l0 = [], ss_anchor_ref_l0 = [], ss_num_anchor_refs_l1 = [],
     ss_anchor_ref_l1 = [], ss_num_non_anchor_refs_l0 = [], ss_non_anchor_ref_l0 = [],
     ss_num_non_anchor_refs_l1 = [], ss_non_anchor_ref_l1 = [],
     ss_num_level_values_signalled_minus1 = 0, ss_mvc_vui_parameters_present_flag = 0, ss_Valid = 0\<rparr>"

text \<open>\<open>H264dVideoCtx_t\<close>; the members of the two DPB layers that are compared are lists of two.\<close>

record h264d_video =
  vd_spsSet :: "h264_sps list"
  vd_subspsSet :: "h264_subsps list"
  vd_ppsSet :: "h264_pps list"
  vd_qmatrix :: "int list list"
  vd_profile_idc :: int
  vd_max_frame_num :: int
  vd_PicWidthInMbs :: u32
  vd_FrameHeightInMbs :: u32
  vd_yuv_format :: int
  vd_bit_depth_chroma :: u32
  vd_bit_depth_luma :: u32
  vd_width :: int
  vd_height :: int
  vd_width_after_crop :: u32
  vd_height_after_crop :: u32
  vd_width_cr :: int
  vd_height_cr :: int
  vd_last_pic_width_in_mbs_minus1 :: "int list"
  vd_last_pic_height_in_map_units_minus1 :: "int list"
  vd_last_profile_idc :: "int list"
  vd_last_level_idc :: "int list"
  vd_dpb_num_ref_frames :: "int list"
  vd_dpb_init_done :: "int list"

text \<open>The slice with what it points to: \<open>p_Cur\<close> (reader and current parameter sets), \<open>p_Vid\<close>, \<open>p_Dec\<close>.\<close>

record h264d_slice =
  bitctx :: bitread_ctx
  pc_sps :: h264_sps
  pc_subsps :: h264_subsps
  pc_pps :: h264_pps
  p_Vid :: h264d_video
  un_spt :: bool

section \<open>Buffer size and picture parameters\<close>

definition is_prext_profile :: "int \<Rightarrow> bool" where
  "is_prext_profile profile_idc \<longleftrightarrow> profile_idc \<ge> 100 \<or> profile_idc = 44"

definition level_buf_size :: "h264_sps \<Rightarrow> int option" where
  "level_buf_size sps =
    (let l = s_level_idc sps in
     if l = 9 then Some 152064 else if l = 10 then Some 152064
     else if l = 11 then
       (if s_constrained_set3_flag sps \<noteq> 0 \<and> \<not> is_prext_profile (s_profile_idc sps)
        then Some 152064 else Some 345600)
     else if l = 12 then Some 912384 else if l = 13 then Some 912384 else if l = 20 then Some 912384
     else if l = 21 then Some 1824768 else if l = 22 then Some 3110400 else if l = 30 then Some 3110400
     else if l = 31 then Some 6912000 else if l = 32 then Some 7864320 else if l = 40 then Some 12582912
     else if l = 41 then Some 12582912 else if l = 42 then Some 13369344 else if l = 50 then Some 42393600
     else if l = 51 then Some 70778880 else if l = 52 then Some 70778880 else None)"

text \<open>\<open>None\<close> is the division by zero that a wrapped picture size leads to.\<close>

definition get_max_dec_frame_buf_size :: "h264_sps \<Rightarrow> (mpp_ret \<times> h264_sps) option" where
  "get_max_dec_frame_buf_size sps =
    (case level_buf_size sps of
       None \<Rightarrow> Some (MPP_NOK, sps)
     | Some sz \<Rightarrow>
         let pic_size = wrap32 ((s_pic_width_in_mbs_minus1 sps + 1) * (s_pic_height_in_map_units_minus1 sps + 1)
               * (if s_frame_mbs_only_flag sps \<noteq> 0 then 1 else 2) * 384)
         in if pic_size = 0 then None
            else Some (MPP_OK, sps\<lparr>s_max_dec_frame_buffering := min (sz sdiv pic_size) 16\<rparr>))"

definition SubWidthC :: "nat list" where "SubWidthC = [1, 2, 2, 1]"
definition SubHeightC :: "nat list" where "SubHeightC = [1, 2, 1, 1]"

text \<open>The crop sums are \<open>RK_U32\<close>.\<close>

definition update_video_pars :: "h264_sps \<Rightarrow> h264d_video \<Rightarrow> h264d_video" where
  "update_video_pars sps v =
    (let w = s_pic_width_in_mbs_minus1 sps + 1;
         h = (2 - s_frame_mbs_only_flag sps) * (s_pic_height_in_map_units_minus1 sps + 1);
         v = v\<lparr>vd_max_frame_num := push_bit (nat (s_log2_max_frame_num_minus4 sps + 4)) 1,
               vd_PicWidthInMbs := word_of_int w, vd_FrameHeightInMbs := word_of_int h,
               vd_yuv_format := s_chroma_format_idc sps\<rparr>;
         v = v\<lparr>vd_width := s32 (vd_PicWidthInMbs v * 16), vd_height := s32 (vd_FrameHeightInMbs v * 16),
               vd_bit_depth_luma := word_of_int (s_bit_depth_luma_minus8 sps + 8),
               vd_bit_depth_chroma := word_of_int (s_bit_depth_chroma_minus8 sps + 8)\<rparr>;
         v = (if vd_yuv_format v = 1
              then v\<lparr>vd_width_cr := drop_bit 1 (vd_width v), vd_height_cr := drop_bit 1 (vd_height v)\<rparr>
              else if vd_yuv_format v = 2
              then v\<lparr>vd_width_cr := drop_bit 1 (vd_width v), vd_height_cr := vd_height v\<rparr>
              else v);
         cw = of_nat (SubWidthC ! nat (s_chroma_format_idc sps)) :: u32;
         ch = of_nat (SubHeightC ! nat (s_chroma_format_idc sps)) :: u32;
         fm = word_of_int (2 - s_frame_mbs_only_flag sps) :: u32;
         (crop_left, crop_right, crop_top, crop_bottom) =
           (if s_frame_cropping_flag sps \<noteq> 0
            then (cw * word_of_int (s_frame_crop_left_offset sps), cw * word_of_int (s_frame_crop_right_offset sps),
                  ch * fm * word_of_int (s_frame_crop_top_offset sps), ch * fm * word_of_int (s_frame_crop_bottom_offset sps))
            else (0, 0, 0, 0))
     in v\<lparr>vd_width_after_crop := word_of_int (vd_width v) - crop_left - crop_right,
          vd_height_after_crop := word_of_int (vd_height v) - crop_top - crop_bottom\<rparr>)"

definition video_pars_changed :: "h264d_video \<Rightarrow> h264_sps \<Rightarrow> nat \<Rightarrow> bool" where
  "video_pars_changed v sps layer_id \<longleftrightarrow>
     vd_dpb_num_ref_frames v ! layer_id \<noteq> s_max_num_ref_frames sps
     \<or> vd_last_pic_width_in_mbs_minus1 v ! layer_id \<noteq> s_pic_width_in_mbs_minus1 sps
     \<or> vd_last_pic_height_in_map_units_minus1 v ! layer_id \<noteq> s_pic_height_in_map_units_minus1 sps
     \<or> vd_last_profile_idc v ! layer_id \<noteq> s_profile_idc sps
     \<or> vd_last_level_idc v ! layer_id \<noteq> s_level_idc sps
     \<or> vd_dpb_init_done v ! layer_id = 0"

definition update_last_video_pars :: "h264_sps \<Rightarrow> nat \<Rightarrow> h264d_video \<Rightarrow> h264d_video" where
  "update_last_video_pars sps layer_id v =
     v\<lparr>vd_last_pic_width_in_mbs_minus1 := (vd_last_pic_width_in_mbs_minus1 v)[layer_id := s_pic_width_in_mbs_minus1 sps],
       vd_last_pic_height_in_map_units_minus1 :=
         (vd_last_pic_height_in_map_units_minus1 v)[layer_id := s_pic_height_in_map_units_minus1 sps],
       vd_last_profile_idc := (vd_last_profile_idc v)[layer_id := s_profile_idc sps],
       vd_last_level_idc := (vd_last_level_idc v)[layer_id := s_level_idc sps]\<rparr>"

section \<open>SPS processing\<close>

text \<open>\<open>spsSet\<close> has 32 entries; an id of 32 passes the parser and writes behind it.\<close>

definition process_sps :: "h264d_slice \<Rightarrow> (mpp_ret \<times> h264d_slice) option" where
  "process_sps c =
    (case parser_sps \<lparr>cur_sps = reset_cur_sps_data (pc_sps c), un_spt_flag = un_spt c\<rparr> (bitctx c) of
       (ret, st, b) \<Rightarrow>
         let c = c\<lparr>bitctx := b, pc_sps := cur_sps st, un_spt := un_spt_flag st\<rparr>
         in if ret \<noteq> MPP_OK then Some (ret, c)
            else case get_max_dec_frame_buf_size (pc_sps c) of
              None \<Rightarrow> None
            | Some (ret, sps) \<Rightarrow>
                let c = c\<lparr>pc_sps := sps\<rparr>
                in if ret \<noteq> MPP_OK then Some (ret, c)
                   else Some (MPP_OK, if s_Valid sps \<noteq> 0
                     then c\<lparr>p_Vid := (p_Vid c)\<lparr>vd_spsSet := (vd_spsSet (p_Vid c))[nat (s_seq_parameter_set_id sps) := sps]\<rparr>\<rparr>
                     else c))"

definition reset_cur_subpps_data :: "h264_subsps \<Rightarrow> h264_subsps" where
  "reset_cur_subpps_data s = zero_subsps\<lparr>ss_num_views_minus1 := - 1, ss_num_level_values_signalled_minus1 := - 1\<rparr>"

text \<open>One of the four reference lists of a view: its count, its array, its elements.\<close>

definition mvc_refs ::
  "(h264_subsps \<Rightarrow> int list) \<Rightarrow> (int list \<Rightarrow> h264_subsps \<Rightarrow> h264_subsps)
   \<Rightarrow> (h264_subsps \<Rightarrow> int list list) \<Rightarrow> (int list list \<Rightarrow> h264_subsps \<Rightarrow> h264_subsps)
   \<Rightarrow> nat \<Rightarrow> h264_subsps parser" where
  "mvc_refs num put_num refs put_refs i = SEQ [
    READ_UE (\<lambda>w s. put_num ((num s)[i := s32 w]) s),
    COND (\<lambda>s. num s ! i \<noteq> 0)
      [FAIL_UNLESS MPP_ERR_MALLOC (\<lambda>s. num s ! i > 0),
       UPD (\<lambda>s. put_refs ((refs s)[i := replicate (nat (num s ! i)) 0]) s),
       FOR (\<lambda>s. nat (num s ! i)) (\<lambda>j.
         [READ_UE (\<lambda>w s. put_refs ((refs s)[i := (refs s ! i)[j := s32 w]]) s)])] []]"

definition sps_mvc_extension :: "h264_subsps parser" where
  "sps_mvc_extension =
    (let num_views = (\<lambda>s. nat (wrap32 (1 + ss_num_views_minus1 s))) in SEQ [
    READ_UE (\<lambda>w s. s\<lparr>ss_num_views_minus1 := s32 w\<rparr>),
    UPD (\<lambda>s. let n = num_views s in
      if n > 0 then s\<lparr>ss_view_id := replicate n 0, ss_num_anchor_refs_l0 := replicate n 0,
          ss_num_anchor_refs_l1 := replicate n 0, ss_anchor_ref_l0 := replicate n [],
          ss_anchor_ref_l1 := replicate n [], ss_num_non_anchor_refs_l0 := replicate n 0,
          ss_num_non_anchor_refs_l1 := replicate n 0, ss_non_anchor_ref_l0 := replicate n [],
          ss_non_anchor_ref_l1 := replicate n []\<rparr>
      else s),
    FOR num_views (\<lambda>i. [READ_UE (\<lambda>w s. s\<lparr>ss_view_id := (ss_view_id s)[i := s32 w]\<rparr>)]),
    FOR (\<lambda>s. num_views s - 1) (\<lambda>k.
      [mvc_refs ss_num_anchor_refs_l0 (\<lambda>x s. s\<lparr>ss_num_anchor_refs_l0 := x\<rparr>)
         ss_anchor_ref_l0 (\<lambda>x s. s\<lparr>ss_anchor_ref_l0 := x\<rparr>) (k + 1),
       mvc_refs ss_num_anchor_refs_l1 (\<lambda>x s. s\<lparr>ss_num_anchor_refs_l1 := x\<rparr>)
         ss_anchor_ref_l1 (\<lambda>x s. s\<lparr>ss_anchor_ref_l1 := x\<rparr>) (k + 1)]),
    FOR (\<lambda>s. num_views s - 1) (\<lambda>k.
      [mvc_refs ss_num_non_anchor_refs_l0 (\<lambda>x s. s\<lparr>ss_num_non_anchor_refs_l0 := x\<rparr>)
         ss_non_anchor_ref_l0 (\<lambda>x s. s\<lparr>ss_non_anchor_ref_l0 := x\<rparr>) (k + 1),
       mvc_refs ss_num_non_anchor_refs_l1 (\<lambda>x s. s\<lparr>ss_num_non_anchor_refs_l1 := x\<rparr>)
         ss_non_anchor_ref_l1 (\<lambda>x s. s\<lparr>ss_non_anchor_ref_l1 := x\<rparr>) (k + 1)])])"

definition parser_subsps_ext :: "h264_subsps parser" where
  "parser_subsps_ext =
    COND (\<lambda>s. s_profile_idc (ss_sps s) = 118 \<or> s_profile_idc (ss_sps s) = 128)
      [READ_ONEBIT (\<lambda>w s. s\<lparr>ss_bit_equal_to_one := s32 w\<rparr>),
       sps_mvc_extension,
       READ_ONEBIT (\<lambda>w s. s\<lparr>ss_mvc_vui_parameters_present_flag := s32 w\<rparr>)] []"

text \<open>\<open>MPP_FREE\<close> leaves null pointers.\<close>

definition recycle_subsps :: "h264_subsps \<Rightarrow> h264_subsps" where
  "recycle_subsps s =
    (if 1 + ss_num_views_minus1 s > 0
     then s\<lparr>ss_view_id := [], ss_num_anchor_refs_l0 := [], ss_num_anchor_refs_l1 := [],
            ss_anchor_ref_l0 := [], ss_anchor_ref_l1 := [], ss_num_non_anchor_refs_l0 := [],
            ss_num_non_anchor_refs_l1 := [], ss_non_anchor_ref_l0 := [], ss_non_anchor_ref_l1 := [],
            ss_Valid := 0\<rparr>
     else s\<lparr>ss_Valid := 0\<rparr>)"

definition process_subsps :: "h264d_slice \<Rightarrow> (mpp_ret \<times> h264d_slice) option" where
  "process_subsps c =
    (let ss = reset_cur_subpps_data (pc_subsps c) in
     case parser_sps \<lparr>cur_sps = ss_sps ss, un_spt_flag = un_spt c\<rparr> (bitctx c) of
       (ret, st, b) \<Rightarrow>
         let ss = ss\<lparr>ss_sps := cur_sps st\<rparr>; c = c\<lparr>bitctx := b, un_spt := un_spt_flag st\<rparr> in
         if ret \<noteq> MPP_OK then Some (ret, c\<lparr>pc_subsps := recycle_subsps ss\<rparr>)
         else case parser_subsps_ext ss (bitctx c) of
           (ret, ss, b) \<Rightarrow>
             let c = c\<lparr>bitctx := b\<rparr> in
             if ret \<noteq> MPP_OK then Some (ret, c\<lparr>pc_subsps := recycle_subsps ss\<rparr>)
             else
               let (ss, c) = (if s_Valid (ss_sps ss) \<noteq> 0
                     then (ss\<lparr>ss_Valid := 1\<rparr>,
                           c\<lparr>p_Vid := (p_Vid c)\<lparr>vd_profile_idc := s_profile_idc (ss_sps ss)\<rparr>\<rparr>)
                     else (ss, c))
               in case get_max_dec_frame_buf_size (ss_sps ss) of
                    None \<Rightarrow> None
                  | Some (_, sps) \<Rightarrow>
                      let ss = ss\<lparr>ss_sps := sps\<rparr>
                      in Some (MPP_OK, c\<lparr>pc_subsps := ss, p_Vid := (p_Vid c)\<lparr>vd_subspsSet :=
                           (vd_subspsSet (p_Vid c))[nat (s_seq_parameter_set_id sps) := ss]\<rparr>\<rparr>))"

section \<open>PPS\<close>

definition reset_curpps_data :: "h264_pps \<Rightarrow> h264_pps" where
  "reset_curpps_data cur_pps = zero_pps\<lparr>p_seq_parameter_set_id := 0, p_pic_parameter_set_id := 0\<rparr>"

definition parse_pps_calingLists :: "h264_sps \<Rightarrow> h264_pps parser" where
  "parse_pps_calingLists sps = SEQ [
    FOR (\<lambda>_. 6) (\<lambda>i.
      [READ_ONEBIT (\<lambda>w s. s\<lparr>p_pic_scaling_list_present_flag := (p_pic_scaling_list_present_flag s)[i := s32 w]\<rparr>),
       COND (\<lambda>s. p_pic_scaling_list_present_flag s ! i \<noteq> 0)
         [ZOOM (\<lambda>s. (p_ScalingList4x4 s ! i, p_UseDefaultScalingMatrix4x4Flag s ! i))
            (\<lambda>(l, u) s. s\<lparr>p_ScalingList4x4 := (p_ScalingList4x4 s)[i := l],
               p_UseDefaultScalingMatrix4x4Flag := (p_UseDefaultScalingMatrix4x4Flag s)[i := u]\<rparr>)
            (parse_scalingList 16)] []]),
    COND (\<lambda>s. p_transform_8x8_mode_flag s \<noteq> 0)
      [FOR (\<lambda>_. if s_chroma_format_idc sps \<noteq> 3 then 2 else 6) (\<lambda>i.
        [READ_ONEBIT (\<lambda>w s. s\<lparr>p_pic_scaling_list_present_flag := (p_pic_scaling_list_present_flag s)[i + 6 := s32 w]\<rparr>),
         COND (\<lambda>s. p_pic_scaling_list_present_flag s ! (i + 6) \<noteq> 0)
           [ZOOM (\<lambda>s. (p_ScalingList8x8 s ! i, p_UseDefaultScalingMatrix8x8Flag s ! i))
              (\<lambda>(l, u) s. s\<lparr>p_ScalingList8x8 := (p_ScalingList8x8 s)[i := l],
                 p_UseDefaultScalingMatrix8x8Flag := (p_UseDefaultScalingMatrix8x8Flag s)[i := u]\<rparr>)
              (parse_scalingList 64)] []])] []]"

definition pps_head :: "h264_pps parser" where
  "pps_head = SEQ [
    READ_UE (\<lambda>w p. p\<lparr>p_pic_parameter_set_id := s32 w\<rparr>),
    SEQ [READ_UE (\<lambda>w p. p\<lparr>p_seq_parameter_set_id := s32 w\<rparr>),
      UPD (\<lambda>p. if p_seq_parameter_set_id p < 0 \<or> p_seq_parameter_set_id p > 32
               then p\<lparr>p_seq_parameter_set_id := 0\<rparr> else p)],
    UPD (\<lambda>p. if p_pic_parameter_set_id p < 0 \<or> p_pic_parameter_set_id p > 256
             then p\<lparr>p_pic_parameter_set_id := 0\<rparr> else p),
    READ_ONEBIT (\<lambda>w p. p\<lparr>p_entropy_coding_mode_flag := s32 w\<rparr>),
    READ_ONEBIT (\<lambda>w p. p\<lparr>p_bottom_field_pic_order_in_frame_present_flag := s32 w\<rparr>),
    SEQ [READ_UE (\<lambda>w p. p\<lparr>p_num_slice_groups_minus1 := s32 w\<rparr>),
      VAL_CHECK (\<lambda>p. p_num_slice_groups_minus1 p \<le> 1)],
    SEQ [READ_UE (\<lambda>w p. p\<lparr>p_num_ref_idx_l0_default_active_minus1 := s32 w\<rparr>),
      VAL_CHECK (\<lambda>p. p_num_ref_idx_l0_default_active_minus1 p < 32)],
    SEQ [READ_UE (\<lambda>w p. p\<lparr>p_num_ref_idx_l1_default_active_minus1 := s32 w\<rparr>),
      VAL_CHECK (\<lambda>p. p_num_ref_idx_l1_default_active_minus1 p < 32)],
    READ_ONEBIT (\<lambda>w p. p\<lparr>p_weighted_pred_flag := s32 w\<rparr>),
    SEQ [READ_BITS 2 (\<lambda>w p. p\<lparr>p_weighted_bipred_idc := s32 w\<rparr>),
      VAL_CHECK (\<lambda>p. p_weighted_bipred_idc p < 3)],
    READ_SE (\<lambda>d p. p\<lparr>p_pic_init_qp_minus26 := d\<rparr>),
    READ_SE (\<lambda>d p. p\<lparr>p_pic_init_qs_minus26 := d\<rparr>),
    SEQ [READ_SE (\<lambda>d p. p\<lparr>p_chroma_qp_index_offset := d\<rparr>),
      UPD (\<lambda>p. p\<lparr>p_second_chroma_qp_index_offset := p_chroma_qp_index_offset p\<rparr>)],
    READ_ONEBIT (\<lambda>w p. p\<lparr>p_deblocking_filter_control_present_flag := s32 w\<rparr>),
    READ_ONEBIT (\<lambda>w p. p\<lparr>p_constrained_intra_pred_flag := s32 w\<rparr>),
    SEQ [READ_ONEBIT (\<lambda>w p. p\<lparr>p_redundant_pic_cnt_present_flag := s32 w\<rparr>),
      VAL_CHECK (\<lambda>p. p_redundant_pic_cnt_present_flag p = 0)]]"

definition pps_more :: "h264_sps \<Rightarrow> h264_pps parser" where
  "pps_more sps =
    IF_MORE_DATA
      [READ_ONEBIT (\<lambda>w p. p\<lparr>p_transform_8x8_mode_flag := s32 w\<rparr>),
       SEQ [READ_ONEBIT (\<lambda>w p. p\<lparr>p_pic_scaling_matrix_present_flag := s32 w\<rparr>),
         COND (\<lambda>p. p_pic_scaling_matrix_present_flag p \<noteq> 0) [parse_pps_calingLists sps] []],
       READ_SE (\<lambda>d p. p\<lparr>p_second_chroma_qp_index_offset := d\<rparr>)]
      [UPD (\<lambda>p. p\<lparr>p_transform_8x8_mode_flag := 0,
                 p_second_chroma_qp_index_offset := p_chroma_qp_index_offset p\<rparr>)]"

definition parser_pps :: "h264_sps \<Rightarrow> h264_pps parser" where
  "parser_pps sps = SEQ [
    pps_head,
    pps_more sps,
    UPD (\<lambda>p. p\<lparr>p_Valid := 1\<rparr>)]"

definition process_pps :: "h264d_slice \<Rightarrow> mpp_ret \<times> h264d_slice" where
  "process_pps c =
    (case parser_pps (pc_sps c) (reset_curpps_data (pc_pps c)) (bitctx c) of
       (ret, pps, b) \<Rightarrow>
         let c = c\<lparr>bitctx := b, pc_pps := pps\<rparr>
         in if ret \<noteq> MPP_OK then (ret, c)
            else (MPP_OK, c\<lparr>p_Vid := (p_Vid c)\<lparr>vd_ppsSet :=
                   (vd_ppsSet (p_Vid c))[nat (p_pic_parameter_set_id pps) := pps]\<rparr>\<rparr>))"

section \<open>Scaling matrices\<close>

definition Default4x4Intra :: "int list" where
  "Default4x4Intra = [6, 13, 20, 28, 13, 20, 28, 32, 20, 28, 32, 37, 28, 32, 37, 42]"

definition Default4x4Inter :: "int list" where
  "Default4x4Inter = [10, 14, 20, 24, 14, 20, 24, 27, 20, 24, 27, 30, 24, 27, 30, 34]"

definition Default8x8Intra :: "int list" where
  "Default8x8Intra = [
    6, 10, 13, 16, 18, 23, 25, 27, 10, 11, 16, 18, 23, 25, 27, 29,
    13, 16, 18, 23, 25, 27, 29, 31, 16, 18, 23, 25, 27, 29, 31, 33,
    18, 23, 25, 27, 29, 31, 33, 36, 23, 25, 27, 29, 31, 33, 36, 38,
    25, 27, 29, 31, 33, 36, 38, 40, 27, 29, 31, 33, 36, 38, 40, 42]"

definition Default8x8Inter :: "int list" where
  "Default8x8Inter = [
    9, 13, 15, 17, 19, 21, 22, 24, 13, 13, 17, 19, 21, 22, 24, 25,
    15, 17, 19, 21, 22, 24, 25, 27, 17, 19, 21, 22, 24, 25, 27, 28,
    19, 21, 22, 24, 25, 27, 28, 30, 21, 22, 24, 25, 27, 28, 30, 32,
    22, 24, 25, 27, 28, 30, 32, 33, 24, 25, 27, 28, 30, 32, 33, 35]"

definition Default4x4 :: "int list" where "Default4x4 = replicate 16 16"
definition Default8x8 :: "int list" where "Default8x8 = replicate 64 16"

text \<open>One iteration of the loops, on the matrices (the pointers of \<open>qmatrix\<close> followed).\<close>

definition sps_qmatrix_step :: "h264_sps \<Rightarrow> nat \<Rightarrow> int list list \<Rightarrow> int list list" where
  "sps_qmatrix_step sps i q =
    (if i < 6 then
       if s_seq_scaling_list_present_flag sps ! i = 0 then
         (if i = 0 then q[i := Default4x4Intra] else if i = 3 then q[i := Default4x4Inter]
          else q[i := q ! (i - 1)])
       else if s_UseDefaultScalingMatrix4x4Flag sps ! i \<noteq> 0
       then q[i := (if i < 3 then Default4x4Intra else Default4x4Inter)]
       else q[i := s_ScalingList4x4 sps ! i]
     else
       if s_seq_scaling_list_present_flag sps ! i = 0 then
         (if i = 6 then q[i := Default8x8Intra] else if i = 7 then q[i := Default8x8Inter]
          else q[i := q ! (i - 2)])
       else if s_UseDefaultScalingMatrix8x8Flag sps ! (i - 6) \<noteq> 0
       then q[i := (if i = 6 \<or> i = 8 \<or> i = 10 then Default8x8Intra else Default8x8Inter)]
       else q[i := s_ScalingList8x8 sps ! (i - 6)])"

definition set_sps_scanlist_matrix :: "h264_sps \<Rightarrow> int list list \<Rightarrow> int list list" where
  "set_sps_scanlist_matrix sps q =
     fold (sps_qmatrix_step sps) [6..<(if s_chroma_format_idc sps \<noteq> 3 then 8 else 12)]
       (fold (sps_qmatrix_step sps) [0..<6] q)"

definition pps_qmatrix_step :: "h264_sps \<Rightarrow> h264_pps \<Rightarrow> nat \<Rightarrow> int list list \<Rightarrow> int list list" where
  "pps_qmatrix_step sps pps i q =
    (if i < 6 then
       if p_pic_scaling_list_present_flag pps ! i = 0 then
         (if i = 0 then (if s_seq_scaling_matrix_present_flag sps = 0 then q[i := Default4x4Intra] else q)
          else if i = 3 then (if s_seq_scaling_matrix_present_flag sps = 0 then q[i := Default4x4Inter] else q)
          else q[i := q ! (i - 1)])
       else if p_UseDefaultScalingMatrix4x4Flag pps ! i \<noteq> 0
       then q[i := (if i < 3 then Default4x4Intra else Default4x4Inter)]
       else q[i := p_ScalingList4x4 pps ! i]
     else
       if p_pic_scaling_list_present_flag pps ! i = 0 then
         (if i = 6 then (if s_seq_scaling_matrix_present_flag sps = 0 then q[i := Default8x8Intra] else q)
          else if i = 7 then (if s_seq_scaling_matrix_present_flag sps = 0 then q[i := Default8x8Inter] else q)
          else q[i := q ! (i - 2)])
       else if p_UseDefaultScalingMatrix8x8Flag pps ! (i - 6) \<noteq> 0
       then q[i := (if i = 6 \<or> i = 8 \<or> i = 10 then Default8x8Intra else Default8x8Inter)]
       else q[i := p_ScalingList8x8 pps ! (i - 6)])"

definition set_pps_scanlist_matrix :: "h264_sps \<Rightarrow> h264_pps \<Rightarrow> int list list \<Rightarrow> int list list" where
  "set_pps_scanlist_matrix sps pps q =
     fold (pps_qmatrix_step sps pps) [6..<(if s_chroma_format_idc sps \<noteq> 3 then 8 else 12)]
       (fold (pps_qmatrix_step sps pps) [0..<6] q)"

text \<open>On the active SPS and PPS.\<close>

definition prepare_init_scanlist :: "h264_sps \<Rightarrow> h264_pps \<Rightarrow> h264d_video \<Rightarrow> h264d_video" where
  "prepare_init_scanlist sps pps v =
    (if p_pic_scaling_matrix_present_flag pps = 0 \<and> s_seq_scaling_matrix_present_flag sps = 0
     then v\<lparr>vd_qmatrix := fold (\<lambda>i q. q[i := (if i < 6 then Default4x4 else Default8x8)]) [0..<12] (vd_qmatrix v)\<rparr>
     else
       let q = (if s_seq_scaling_matrix_present_flag sps \<noteq> 0
                then set_sps_scanlist_matrix sps (vd_qmatrix v) else vd_qmatrix v);
           q = (if p_pic_scaling_matrix_present_flag pps \<noteq> 0
                then set_pps_scanlist_matrix sps pps q else q)
       in v\<lparr>vd_qmatrix := q\<rparr>)"

end
