(* ===== verification/H264dSpec.thy ===== *)
theory H264dSpec
  imports H264dPs RkvSpec
begin

text \<open>
  The decoder's parameter set parsers read what the encoder's writers write: VUI, SPS and PPS, the
  pictures they describe, and the way from an encoder configuration through the headers to the
  decoder's picture size.
\<close>

section \<open>VUI\<close>

lemma s32_int: "- (2 ^ 31) \<le> x \<Longrightarrow> x < 2 ^ 31 \<Longrightarrow> s32 (word_of_int x) = x"
  using sint_of_int_u32 [of x] by (simp add: s32_def)

lemma s32_ok [simp]: "ue_ok x \<Longrightarrow> s32 (word_of_int x) = x" "flag_ok x \<Longrightarrow> s32 (word_of_int x) = x"
  "u_ok 8 x \<Longrightarrow> s32 (word_of_int x) = x" "u_ok 2 x \<Longrightarrow> s32 (word_of_int x) = x"
  by (auto intro!: s32_int simp: ue_ok_def flag_ok_def u_ok_def)

lemma decodes_ue: "ue_ok x \<Longrightarrow> decodes (READ_UE out) (ue x) (out (word_of_int x))"
  using decodes_READ_UE [of "nat x" out] by (simp add: ue_ok_def nat_less_iff)

lemma decodes_u:
  assumes "u_ok n x" and "n \<le> 31"
  shows "decodes (READ_BITS n out) (msb_bits n x) (out (word_of_int x))"
proof -
  have "bits_val (msb_bits n x) = (word_of_int x :: u32)"
  proof (rule bit_word_eqI)
    fix i assume "i < LENGTH(32)"
    have "x = take_bit n x" using assms(1) by (simp add: u_ok_def take_bit_int_eq_self)
    then have "bit x i \<Longrightarrow> i < n" by (metis bit_take_bit_iff)
    with \<open>i < LENGTH(32)\<close> assms(2) show "bit (bits_val (msb_bits n x) :: u32) i = bit (word_of_int x :: u32) i"
      by (auto simp: bit_bits_val nth_msb_bits bit_word_of_int_iff)
  qed
  then show ?thesis using decodes_READ_BITS [of "msb_bits n x" n out] assms(2) by simp
qed

lemma decodes_flag: "flag_ok x \<Longrightarrow> decodes (READ_ONEBIT out) (flag x) (out (word_of_int x))"
  using decodes_READ_ONEBIT [of out "x = 1"] by (auto simp: flag_ok_def)

lemma decodes_opt:
  assumes "flag_ok x" and "\<And>s. b (out (word_of_int x) s) = (x \<noteq> 0)"
    and "x \<noteq> 0 \<Longrightarrow> decodes_all ps bss fs"
  shows "decodes (SEQ [READ_ONEBIT out, COND b ps []]) (flag x @ bits_if (x \<noteq> 0) bss)
    (\<lambda>s. run_if (x \<noteq> 0) fs (out (word_of_int x) s))"
  unfolding bits_if_def by (rule decodes_pair [OF decodes_flag [OF assms(1)]]) (use assms in auto)

text \<open>What the reader makes of an encoder VUI without HRD: item by item in the order of the syntax.\<close>

definition dec_vui :: "h264e_vui \<Rightarrow> h264_vui \<Rightarrow> h264_vui" where
  "dec_vui v = run
    [\<lambda>d. run_if (b_aspect_ratio_info_present v \<noteq> 0)
       [\<lambda>d. run_if (find_sar sar_table (i_sar_width v) (i_sar_height v) = 255)
          [\<lambda>d. d\<lparr>vui_sar_width := ucast (word_of_int (i_sar_width v) :: u32)\<rparr>,
           \<lambda>d. d\<lparr>vui_sar_height := ucast (word_of_int (i_sar_height v) :: u32)\<rparr>]
          (d\<lparr>vui_aspect_ratio_idc := word_of_int (find_sar sar_table (i_sar_width v) (i_sar_height v))\<rparr>)]
       (d\<lparr>vui_aspect_ratio_info_present_flag := b_aspect_ratio_info_present v\<rparr>),
     \<lambda>d. run_if (b_overscan_info_present v \<noteq> 0)
       [\<lambda>d. d\<lparr>vui_overscan_appropriate_flag := b_overscan_info v\<rparr>]
       (d\<lparr>vui_overscan_info_present_flag := b_overscan_info_present v\<rparr>),
     \<lambda>d. run_if (b_signal_type_present v \<noteq> 0)
       [\<lambda>d. d\<lparr>vui_video_format := word_of_int (i_vidformat v)\<rparr>,
        \<lambda>d. d\<lparr>vui_video_full_range_flag := b_fullrange v\<rparr>,
        \<lambda>d. run_if (b_color_description_present v \<noteq> 0)
          [\<lambda>d. d\<lparr>vui_colour_primaries := word_of_int (i_colorprim v)\<rparr>,
           \<lambda>d. d\<lparr>vui_transfer_characteristics := word_of_int (i_transfer v)\<rparr>,
           \<lambda>d. d\<lparr>vui_matrix_coefficients := word_of_int (i_colmatrix v)\<rparr>]
          (d\<lparr>vui_colour_description_present_flag := b_color_description_present v\<rparr>)]
       (d\<lparr>vui_video_signal_type_present_flag := b_signal_type_present v\<rparr>),
     \<lambda>d. run_if (b_chroma_loc_info_present v \<noteq> 0)
       [\<lambda>d. d\<lparr>vui_chroma_sample_loc_type_top_field := word_of_int (i_chroma_loc_top v)\<rparr>,
        \<lambda>d. d\<lparr>vui_chroma_sample_loc_type_bottom_field := word_of_int (i_chroma_loc_bottom v)\<rparr>]
       (d\<lparr>vui_chroma_location_info_present_flag := b_chroma_loc_info_present v\<rparr>),
     \<lambda>d. run_if (b_timing_info_present v \<noteq> 0)
       [\<lambda>d. d\<lparr>vui_num_units_in_tick := take_bit 16 (drop_bit 16 (i_num_units_in_tick v))\<rparr>,
        \<lambda>d. d\<lparr>vui_num_units_in_tick := take_bit 16 (i_num_units_in_tick v)\<rparr>,
        \<lambda>d. d\<lparr>vui_time_scale := take_bit 16 (drop_bit 16 (i_time_scale v))\<rparr>,
        \<lambda>d. d\<lparr>vui_time_scale := take_bit 16 (i_time_scale v)\<rparr>,
        \<lambda>d. d\<lparr>vui_fixed_frame_rate_flag := b_fixed_frame_rate v\<rparr>]
       (d\<lparr>vui_timing_info_present_flag := b_timing_info_present v\<rparr>),
     \<lambda>d. d\<lparr>vui_nal_hrd_parameters_present_flag := 0, vui_vcl_hrd_parameters_present_flag := 0\<rparr>,
     \<lambda>d. d\<lparr>vui_pic_struct_present_flag := b_pic_struct_present v\<rparr>,
     \<lambda>d. run_if (b_bitstream_restriction v \<noteq> 0)
       [\<lambda>d. d\<lparr>vui_motion_vectors_over_pic_boundaries_flag := b_motion_vectors_over_pic_boundaries v\<rparr>,
        \<lambda>d. d\<lparr>vui_max_bytes_per_pic_denom := word_of_int (i_max_bytes_per_pic_denom v)\<rparr>,
        \<lambda>d. d\<lparr>vui_max_bits_per_mb_denom := word_of_int (i_max_bits_per_mb_denom v)\<rparr>,
        \<lambda>d. d\<lparr>vui_log2_max_mv_length_horizontal := word_of_int (i_log2_max_mv_length_horizontal v)\<rparr>,
        \<lambda>d. d\<lparr>vui_log2_max_mv_length_vertical := word_of_int (i_log2_max_mv_length_vertical v)\<rparr>,
        \<lambda>d. d\<lparr>vui_num_reorder_frames := word_of_int (i_num_reorder_frames v)\<rparr>,
        \<lambda>d. d\<lparr>vui_max_dec_frame_buffering := word_of_int (i_max_dec_frame_buffering v)\<rparr>]
       (d\<lparr>vui_bitstream_restriction_flag := b_bitstream_restriction v\<rparr>)]"

lemma decodes_half: "decodes (READ_BITS 16 out) (msb_bits 16 (w :: u32)) (out (take_bit 16 w))"
  using decodes_READ_BITS [of "msb_bits 16 w" 16 out] by (simp add: bits_val_msb_bits)

lemma msb_bits_halves: "msb_bits 32 (w :: u32) = msb_bits 16 (drop_bit 16 w) @ msb_bits 16 w"
  using msb_bits_add [of 16 16 w] by simp

lemma decodes_no_hrd:
  "decodes read_VUI_hrd [False, False] (\<lambda>d. d\<lparr>vui_nal_hrd_parameters_present_flag := 0,
     vui_vcl_hrd_parameters_present_flag := 0\<rparr>)"
proof -
  let ?n = "\<lambda>d :: h264_vui. d\<lparr>vui_nal_hrd_parameters_present_flag := 0\<rparr>"
  let ?v = "\<lambda>d :: h264_vui. d\<lparr>vui_vcl_hrd_parameters_present_flag := 0\<rparr>"
  have n: "decodes (SEQ [READ_ONEBIT (\<lambda>w v. v\<lparr>vui_nal_hrd_parameters_present_flag := s32 w\<rparr>),
      COND (\<lambda>v. vui_nal_hrd_parameters_present_flag v \<noteq> 0) ps []]) [False] ?n" for ps
    using decodes_opt [of 0 "\<lambda>v. vui_nal_hrd_parameters_present_flag v \<noteq> 0"
        "\<lambda>w v. v\<lparr>vui_nal_hrd_parameters_present_flag := s32 w\<rparr>" ps "[]" "[]"]
    by (simp add: flag_ok_def s32_def bits_if_def)
  have v: "decodes (SEQ [READ_ONEBIT (\<lambda>w v. v\<lparr>vui_vcl_hrd_parameters_present_flag := s32 w\<rparr>),
      COND (\<lambda>v. vui_vcl_hrd_parameters_present_flag v \<noteq> 0) ps []]) [False] ?v" for ps
    using decodes_opt [of 0 "\<lambda>v. vui_vcl_hrd_parameters_present_flag v \<noteq> 0"
        "\<lambda>w v. v\<lparr>vui_vcl_hrd_parameters_present_flag := s32 w\<rparr>" ps "[]" "[]"]
    by (simp add: flag_ok_def s32_def bits_if_def)
  show ?thesis
  proof (rule decodesI)
    fix s rest
    have c: "parses r (COND (\<lambda>v. vui_nal_hrd_parameters_present_flag v \<noteq> 0 \<or> vui_vcl_hrd_parameters_present_flag v \<noteq> 0) ps [])
        (?v (?n s)) [] (?v (?n s))" for r ps
      by (rule parses_COND) (simp_all add: parses_SEQ_Nil)
    have p: "parses r p s bs (f s)" if "decodes p bs f" for r p s bs f using that by (simp add: decodes_def)
    have "parses rest read_VUI_hrd s ([False] @ [False] @ [] @ []) (?v (?n s))"
      unfolding read_VUI_hrd_def
      by (rule parses_SEQ_Cons p [OF n] p [OF v] c parses_SEQ_Nil refl)+
    then show "parses rest read_VUI_hrd s [False, False] (?v (?n s))" by simp
  qed
qed

text \<open>The statements of a list one at a time, and the elements the parsers are made of.\<close>

lemma decodes_allI:
  "decodes_all [] [] []"
  "decodes p bs f \<Longrightarrow> decodes_all ps bss fs \<Longrightarrow> decodes_all (p # ps) (bs # bss) (f # fs)"
  by simp_all

lemma decodes_cong: "decodes p bs f \<Longrightarrow> bs = bs' \<Longrightarrow> (\<And>s. f s = g s) \<Longrightarrow> decodes p bs' g"
  by (simp add: decodes_def)

lemma decodes_READ_UE_int: "ue_ok x \<Longrightarrow> (\<And>s. out (word_of_int x) s = g s) \<Longrightarrow> decodes (READ_UE out) (ue x) g"
  by (rule decodes_cong [OF decodes_ue]) simp_all

lemma decodes_READ_BITS_int:
  "u_ok n x \<Longrightarrow> n \<le> 31 \<Longrightarrow> (\<And>s. out (word_of_int x) s = g s) \<Longrightarrow> decodes (READ_BITS n out) (msb_bits n x) g"
  by (rule decodes_cong [OF decodes_u]) simp_all

lemma decodes_READ_ONEBIT_int:
  "flag_ok x \<Longrightarrow> (\<And>s. out (word_of_int x) s = g s) \<Longrightarrow> decodes (READ_ONEBIT out) (flag x) g"
  by (rule decodes_cong [OF decodes_flag]) simp_all

lemma decodes_opt_int:
  assumes "flag_ok x" and "\<And>s. out (word_of_int x) s = g s" and "\<And>s. b (g s) = (x \<noteq> 0)"
    and "x \<noteq> 0 \<Longrightarrow> decodes_all ps bss fs"
  shows "decodes (SEQ [READ_ONEBIT out, COND b ps []]) (flag x @ bits_if (x \<noteq> 0) bss)
    (\<lambda>s. run_if (x \<noteq> 0) fs (g s))"
  by (rule decodes_cong [OF decodes_opt [OF assms(1) _ assms(4)]]) (simp_all add: assms(2,3))

lemma decodes_READ_BITS_half:
  "(\<And>s. out (take_bit 16 w) s = g s) \<Longrightarrow> decodes (READ_BITS 16 out) (msb_bits 16 (w :: u32)) g"
  by (rule decodes_cong [OF decodes_half]) simp_all

lemma decodes_sar:
  assumes "u_ok 8 x" and "\<And>s. out (word_of_int x) s = g s" and "\<And>s. b (g s) = (x = 255)"
    and "x = 255 \<Longrightarrow> decodes_all ps bss fs"
  shows "decodes (SEQ [READ_BITS 8 out, COND b ps []]) (msb_bits 8 x @ bits_if (x = 255) bss)
    (\<lambda>s. run_if (x = 255) fs (g s))"
proof -
  have "decodes (READ_BITS 8 out) (msb_bits 8 x) g"
    by (rule decodes_READ_BITS_int) (simp_all add: assms)
  then show ?thesis unfolding bits_if_def by (rule decodes_pair) (use assms in auto)
qed

lemma word_eq_255: "u_ok 8 x \<Longrightarrow> (word_of_int x :: u32) = 255 \<longleftrightarrow> x = 255"
proof -
  assume "u_ok 8 x"
  then have "take_bit 32 x = x" by (simp add: take_bit_int_eq_self u_ok_def)
  then show ?thesis using word_of_int_eq_iff [of x 255, where 'a = 32] by simp
qed

lemmas decodes_items = decodes_READ_ONEBIT_int decodes_READ_UE_int decodes_READ_BITS_int
  decodes_opt_int decodes_READ_BITS_half decodes_sar decodes_no_hrd decodes_allI

lemma read_VUI_decodes:
  assumes ok: "vui_ok v" and hrd: "b_nal_hrd_parameters_present v = 0" "b_vcl_hrd_parameters_present v = 0"
  shows "decodes read_VUI (vui_bits v) (dec_vui v)"
proof -
  note oks = ok [unfolded vui_ok_def]
  let ?x = "find_sar sar_table (i_sar_width v) (i_sar_height v)"
  have "decodes read_VUI (concat
    [flag (b_aspect_ratio_info_present v) @ bits_if (b_aspect_ratio_info_present v \<noteq> 0)
       [msb_bits 8 ?x @ bits_if (?x = 255) [msb_bits 16 (i_sar_width v), msb_bits 16 (i_sar_height v)]],
     flag (b_overscan_info_present v) @ bits_if (b_overscan_info_present v \<noteq> 0) [flag (b_overscan_info v)],
     flag (b_signal_type_present v) @ bits_if (b_signal_type_present v \<noteq> 0)
       [msb_bits 3 (i_vidformat v), flag (b_fullrange v),
        flag (b_color_description_present v) @ bits_if (b_color_description_present v \<noteq> 0)
          [msb_bits 8 (i_colorprim v), msb_bits 8 (i_transfer v), msb_bits 8 (i_colmatrix v)]],
     flag (b_chroma_loc_info_present v) @
       bits_if (b_chroma_loc_info_present v \<noteq> 0) [ue (i_chroma_loc_top v), ue (i_chroma_loc_bottom v)],
     flag (b_timing_info_present v) @ bits_if (b_timing_info_present v \<noteq> 0)
       [msb_bits 16 (drop_bit 16 (i_num_units_in_tick v)), msb_bits 16 (i_num_units_in_tick v),
        msb_bits 16 (drop_bit 16 (i_time_scale v)), msb_bits 16 (i_time_scale v), flag (b_fixed_frame_rate v)],
     [False, False],
     flag (b_pic_struct_present v),
     flag (b_bitstream_restriction v) @ bits_if (b_bitstream_restriction v \<noteq> 0)
       [flag (b_motion_vectors_over_pic_boundaries v), ue (i_max_bytes_per_pic_denom v),
        ue (i_max_bits_per_mb_denom v), ue (i_log2_max_mv_length_horizontal v),
        ue (i_log2_max_mv_length_vertical v), ue (i_num_reorder_frames v),
        ue (i_max_dec_frame_buffering v)]]) (dec_vui v)"
    unfolding read_VUI_def dec_vui_def
    by (rule decodes_SEQ, (rule decodes_items | (simp add: oks find_sar_u8 word_eq_255; fail))+)
  then show ?thesis
    by (rule decodes_cong) (simp_all add: vui_bits_def hrd msb_bits_halves bits_if_def)
qed

section \<open>SPS\<close>

text \<open>Two statements where the second depends on what the first has read.\<close>

lemma decodes_SEQ2:
  assumes "decodes p bs f" and "\<And>s rest. parses rest q (f s) cs (g s)"
  shows "decodes (SEQ [p, q]) (bs @ cs) g"
proof (rule decodesI)
  fix s rest
  have "parses rest (SEQ [q]) (f s) (cs @ []) (g s)"
    by (rule parses_SEQ_Cons [OF _ parses_SEQ_Nil [OF refl]]) (simp add: assms(2))
  moreover have "parses (cs @ rest) p s bs (f s)" using assms(1) by (simp add: decodes_def)
  ultimately show "parses rest (SEQ [p, q]) s (bs @ cs) (g s)" by (simp add: parses_SEQ_Cons)
qed

lemma decodes_check: "decodes p bs f \<Longrightarrow> (\<And>s. b (f s)) \<Longrightarrow> decodes (SEQ [p, FAIL_UNLESS e b]) bs f"
  using decodes_SEQ2 [of p bs f "FAIL_UNLESS e b" "[]" f] by (simp add: parses_FAIL_UNLESS)

lemma decodes_then: "decodes p bs f \<Longrightarrow> (\<And>s. h (f s) = g s) \<Longrightarrow> decodes (SEQ [p, UPD h]) bs g"
  using decodes_SEQ2 [of p bs f "UPD h" "[]" g] by (simp add: parses_def UPD_def)

lemma decodes_skip: "decodes p bs f \<Longrightarrow> (\<And>s. \<not> b (f s)) \<Longrightarrow> decodes (SEQ [p, COND b ps []]) bs f"
  using decodes_pair [of p bs f b False ps "[]" "[]"] by simp

lemma decodes_in_sps: "decodes p bs f \<Longrightarrow> decodes (IN_SPS p) bs (\<lambda>s. s\<lparr>cur_sps := f (cur_sps s)\<rparr>)"
  by (rule decodes_ZOOM)

definition dec_sps_head :: "h264e_sps \<Rightarrow> h264_sps \<Rightarrow> h264_sps" where
  "dec_sps_head e = run
    [\<lambda>s. s\<lparr>s_profile_idc := i_profile_idc e\<rparr>,
     \<lambda>s. s\<lparr>s_constrained_set0_flag := b_constraint_set0 e\<rparr>,
     \<lambda>s. s\<lparr>s_constrained_set1_flag := b_constraint_set1 e\<rparr>,
     \<lambda>s. s\<lparr>s_constrained_set2_flag := b_constraint_set2 e\<rparr>,
     \<lambda>s. s\<lparr>s_constrained_set3_flag := b_constraint_set3 e\<rparr>,
     \<lambda>s. s\<lparr>s_constrained_set4_flag := 0\<rparr>,
     \<lambda>s. s\<lparr>s_constrained_set5_flag := 0\<rparr>,
     \<lambda>s. s,
     \<lambda>s. s\<lparr>s_level_idc := i_level_idc e\<rparr>,
     \<lambda>s. s\<lparr>s_seq_parameter_set_id := sps_id e\<rparr>]"

text \<open>The parameter sets in question: what the decoder supports and the encoder can produce.\<close>

definition sps_dec :: "h264e_sps \<Rightarrow> bool" where
  "sps_dec e \<longleftrightarrow> sps_profile_accepted (i_profile_idc e) \<and> i_profile_idc e \<noteq> 44 \<and> sps_id e \<le> 31
     \<and> i_chroma_format_idc e = 1 \<and> i_poc_type e \<noteq> 1
     \<and> b_nal_hrd_parameters_present (sps_vui e) = 0 \<and> b_vcl_hrd_parameters_present (sps_vui e) = 0"

lemma s32_small [simp]: "s32 0 = 0" "s32 1 = 1"
  by (simp_all add: s32_def)

lemma sps_head_decodes:
  assumes ok: "sps_ok e" and dec: "sps_dec e"
  shows "decodes sps_head (concat
    [msb_bits 8 (i_profile_idc e), flag (b_constraint_set0 e), flag (b_constraint_set1 e),
     flag (b_constraint_set2 e), flag (b_constraint_set3 e), flag 0, flag 0, msb_bits 2 (0 :: int),
     msb_bits 8 (i_level_idc e), ue (sps_id e)]) (dec_sps_head e)"
proof -
  note oks = ok [unfolded sps_ok_def] dec [unfolded sps_dec_def]
  have u: "u_ok 2 0" by (simp add: u_ok_def)
  have id: "\<not> sps_id e < 0" "\<not> 32 < sps_id e" using ok dec by (simp_all add: sps_ok_def ue_ok_def sps_dec_def)
  show ?thesis unfolding sps_head_def dec_sps_head_def
    by (rule decodes_SEQ, (rule decodes_check decodes_then decodes_items | (simp add: oks u id field_oks; fail))+)
qed

definition dec_sps_chroma :: "h264e_sps \<Rightarrow> (h264_sps \<Rightarrow> h264_sps) list" where
  "dec_sps_chroma e =
    [\<lambda>s. s\<lparr>s_chroma_format_idc := i_chroma_format_idc e\<rparr>,
     \<lambda>s. s\<lparr>s_bit_depth_luma_minus8 := 0\<rparr>,
     \<lambda>s. s\<lparr>s_bit_depth_chroma_minus8 := 0\<rparr>,
     \<lambda>s. s\<lparr>s_qpprime_y_zero_transform_bypass_flag := b_qpprime_y_zero_transform_bypass e\<rparr>,
     \<lambda>s. s\<lparr>s_seq_scaling_matrix_present_flag := 0\<rparr>]"

abbreviation in_sps :: "(h264_sps \<Rightarrow> h264_sps) \<Rightarrow> sps_state \<Rightarrow> sps_state" where
  "in_sps f s \<equiv> s\<lparr>cur_sps := f (cur_sps s)\<rparr>"

lemma sps_chroma_decodes:
  assumes ok: "sps_ok e" and dec: "sps_dec e"
  shows "decodes_all sps_chroma
    [ue (i_chroma_format_idc e), ue 0, ue 0, flag (b_qpprime_y_zero_transform_bypass e), flag 0]
    (map in_sps (dec_sps_chroma e))"
proof -
  note oks = ok [unfolded sps_ok_def] dec [unfolded sps_dec_def]
  show ?thesis unfolding sps_chroma_def dec_sps_chroma_def list.map
    by (rule decodes_skip decodes_in_sps decodes_items | (simp add: oks field_oks ue_ok_small; fail))+
qed

definition dec_sps_poc :: "h264e_sps \<Rightarrow> h264_sps \<Rightarrow> h264_sps" where
  "dec_sps_poc e = run
    [\<lambda>s. s\<lparr>s_log2_max_frame_num_minus4 := i_log2_max_frame_num e - 4\<rparr>,
     \<lambda>s. run_if (i_poc_type e = 0)
       [\<lambda>s. s\<lparr>s_log2_max_pic_order_cnt_lsb_minus4 := i_log2_max_poc_lsb e - 4\<rparr>]
       (s\<lparr>s_pic_order_cnt_type := i_poc_type e, s_log2_max_pic_order_cnt_lsb_minus4 := 0,
          s_delta_pic_order_always_zero_flag := 0\<rparr>)]"

text \<open>A test with an \<open>else\<close> part that has nothing to read.\<close>

lemma decodes_branch:
  assumes "decodes p bs f" and "\<And>s. b (f s) = x" and "x \<Longrightarrow> decodes_all ps bss fs"
    and "\<And>s rest. \<not> x \<Longrightarrow> parses rest (SEQ qs) (f s) [] (f s)"
  shows "decodes (SEQ [p, COND b ps qs]) (bs @ bits_if x bss) (\<lambda>s. run_if x fs (f s))"
proof (rule decodes_SEQ2 [OF assms(1)])
  fix s rest
  show "parses rest (COND b ps qs) (f s) (bits_if x bss) (run_if x fs (f s))"
  proof (rule parses_COND)
    assume "b (f s)"
    then show "parses rest (SEQ ps) (f s) (bits_if x bss) (run_if x fs (f s))"
      using assms(2) decodes_SEQ [OF assms(3)] by (auto simp: decodes_def bits_if_def)
  next
    assume "\<not> b (f s)"
    then show "parses rest (SEQ qs) (f s) (bits_if x bss) (run_if x fs (f s))"
      using assms(2,4) by (auto simp: bits_if_def)
  qed
qed

lemma SEQ_regroup: "SEQ [p, q, r] = SEQ [p, SEQ [q, r]]"
  by (intro ext) (auto split: prod.split)

lemma sps_poc_decodes:
  assumes ok: "sps_ok e" and dec: "sps_dec e"
  shows "decodes sps_poc (concat
    [ue (i_log2_max_frame_num e - 4),
     ue (i_poc_type e) @ bits_if (i_poc_type e = 0) [ue (i_log2_max_poc_lsb e - 4)]]) (dec_sps_poc e)"
proof -
  note oks = ok [unfolded sps_ok_def] dec [unfolded sps_dec_def]
  have no: "parses rest (SEQ [COND b ps []]) s [] s" if "\<not> b s" for rest b ps and s :: h264_sps
    using that by (simp add: parses_def COND_def)
  show ?thesis unfolding sps_poc_def dec_sps_poc_def SEQ_regroup
    by (rule decodes_SEQ, (rule decodes_branch decodes_then decodes_items no | (simp add: oks del: of_int_diff; fail))+)
qed

definition dec_sps_size :: "h264e_sps \<Rightarrow> h264_sps \<Rightarrow> h264_sps" where
  "dec_sps_size e = run
    [\<lambda>s. s\<lparr>s_max_num_ref_frames := i_num_ref_frames e\<rparr>,
     \<lambda>s. s\<lparr>s_gaps_in_frame_num_value_allowed_flag := b_gaps_in_frame_num_value_allowed e\<rparr>,
     \<lambda>s. s\<lparr>s_pic_width_in_mbs_minus1 := i_mb_width e - 1\<rparr>,
     \<lambda>s. s\<lparr>s_pic_height_in_map_units_minus1 := drop_bit (of_bool (b_frame_mbs_only e = 0)) (i_mb_height e) - 1\<rparr>,
     \<lambda>s. run_if (b_frame_mbs_only e = 0)
       [\<lambda>s. s\<lparr>s_mb_adaptive_frame_field_flag := b_mb_adaptive_frame_field e\<rparr>]
       (s\<lparr>s_frame_mbs_only_flag := b_frame_mbs_only e\<rparr>),
     \<lambda>s. s\<lparr>s_direct_8x8_inference_flag := b_direct8x8_inference e\<rparr>,
     \<lambda>s. run_if (b_crop e \<noteq> 0)
       [\<lambda>s. s\<lparr>s_frame_crop_left_offset := drop_bit 1 (crop_left (sps_crop e))\<rparr>,
        \<lambda>s. s\<lparr>s_frame_crop_right_offset := drop_bit 1 (crop_right (sps_crop e))\<rparr>,
        \<lambda>s. s\<lparr>s_frame_crop_top_offset := drop_bit 1 (crop_top (sps_crop e))\<rparr>,
        \<lambda>s. s\<lparr>s_frame_crop_bottom_offset := drop_bit 1 (crop_bottom (sps_crop e))\<rparr>]
       (s\<lparr>s_frame_cropping_flag := b_crop e\<rparr>)]"

text \<open>An optional part under any condition on the flag.\<close>

lemma decodes_flag_if:
  assumes "flag_ok x" and "\<And>s. out (word_of_int x) s = g s" and "\<And>s. b (g s) = c"
    and "c \<Longrightarrow> decodes_all ps bss fs"
  shows "decodes (SEQ [READ_ONEBIT out, COND b ps []]) (flag x @ bits_if c bss) (\<lambda>s. run_if c fs (g s))"
  unfolding bits_if_def
  by (rule decodes_pair [OF decodes_READ_ONEBIT_int [OF assms(1)]]) (use assms in auto)

lemma sps_size_decodes:
  assumes ok: "sps_ok e"
  shows "decodes sps_size (concat
    [ue (i_num_ref_frames e), flag (b_gaps_in_frame_num_value_allowed e), ue (i_mb_width e - 1),
     ue (drop_bit (of_bool (b_frame_mbs_only e = 0)) (i_mb_height e) - 1),
     flag (b_frame_mbs_only e) @ bits_if (b_frame_mbs_only e = 0) [flag (b_mb_adaptive_frame_field e)],
     flag (b_direct8x8_inference e),
     flag (b_crop e) @ bits_if (b_crop e \<noteq> 0)
       [ue (drop_bit 1 (crop_left (sps_crop e))), ue (drop_bit 1 (crop_right (sps_crop e))),
        ue (drop_bit 1 (crop_top (sps_crop e))), ue (drop_bit 1 (crop_bottom (sps_crop e)))]]) (dec_sps_size e)"
proof -
  note oks = ok [unfolded sps_ok_def]
  show ?thesis unfolding sps_size_def dec_sps_size_def
    by (rule decodes_SEQ, (rule decodes_flag_if decodes_items | (simp add: oks ue_ok_drop_bit del: of_int_diff; fail))+)
qed

definition dec_sps_vui :: "h264e_sps \<Rightarrow> h264_sps \<Rightarrow> h264_sps" where
  "dec_sps_vui e = run
    [\<lambda>s. run_if (b_vui (sps_vui e) \<noteq> 0)
       [\<lambda>s. s\<lparr>s_vui_seq_parameters := dec_vui (sps_vui e) (s_vui_seq_parameters s)\<rparr>]
       (s\<lparr>s_vui_parameters_present_flag := b_vui (sps_vui e),
          s_vui_seq_parameters := init_VUI (s_vui_seq_parameters s)\<rparr>),
     \<lambda>s. s\<lparr>s_Valid := 1\<rparr>]"

lemma sps_vui_decodes:
  assumes ok: "sps_ok e" and dec: "sps_dec e"
  shows "decodes sps_vui_part (concat
    [flag (b_vui (sps_vui e)) @ bits_if (b_vui (sps_vui e) \<noteq> 0) [vui_bits (sps_vui e)], []]) (dec_sps_vui e)"
proof -
  note oks = ok [unfolded sps_ok_def] dec [unfolded sps_dec_def]
  show ?thesis unfolding sps_vui_part_def dec_sps_vui_def
    by (rule decodes_SEQ, (rule decodes_branch decodes_then decodes_IGNORE_RET decodes_ZOOM decodes_UPD
        read_VUI_decodes parses_SEQ_Nil decodes_items | (simp add: oks; fail))+)
qed

definition dec_sps :: "h264e_sps \<Rightarrow> h264_sps \<Rightarrow> h264_sps" where
  "dec_sps e = run
    [sps_init, dec_sps_head e, run_if (100 \<le> i_profile_idc e) (dec_sps_chroma e),
     dec_sps_poc e, dec_sps_size e, dec_sps_vui e]"

lemma run_in_sps: "run (map in_sps fs) s = in_sps (run fs) s"
  by (induction fs arbitrary: s) simp_all

lemma run_if_in_sps: "run_if b (map in_sps fs) s = in_sps (run_if b fs) s"
  by (simp add: run_if_def run_in_sps)

lemma profile_chroma: "sps_profile_accepted x \<Longrightarrow> x \<noteq> 44 \<Longrightarrow> sps_has_chroma_info x \<longleftrightarrow> 100 \<le> x"
  by (auto simp: sps_profile_accepted_def sps_has_chroma_info_def)

lemma parser_sps_decodes:
  assumes ok: "sps_ok e" and dec: "sps_dec e"
  shows "decodes parser_sps (sps_bits e) (in_sps (dec_sps e))"
proof -
  note oks = ok [unfolded sps_ok_def] dec [unfolded sps_dec_def]
  note groups = sps_head_decodes [OF ok dec] sps_poc_decodes [OF ok dec] sps_size_decodes [OF ok]
    sps_vui_decodes [OF ok dec] sps_chroma_decodes [OF ok dec]
  have prof: "s_profile_idc (dec_sps_head e s) = i_profile_idc e" for s by (simp add: dec_sps_head_def)
  have chroma: "sps_has_chroma_info (i_profile_idc e) \<longleftrightarrow> 100 \<le> i_profile_idc e"
    using dec by (simp add: sps_dec_def profile_chroma)
  show ?thesis unfolding parser_sps_def
  proof (rule decodes_cong, rule decodes_SEQ,
      (rule decodes_allI decodes_branch decodes_in_sps decodes_UPD groups parses_SEQ_Nil
        | (simp add: prof chroma; fail))+, goal_cases)
    case 1
    have z: "msb_bits 4 (0 :: int) = flag 0 @ flag 0 @ msb_bits 2 0" by (simp add: eval_nat_numeral)
    show ?case using dec by (simp add: sps_bits_def Let_def z bits_if_def sps_dec_def eval_nat_numeral)
  next
    case (2 s)
    show ?case by (simp add: dec_sps_def run_if_in_sps)
  qed
qed

section \<open>PPS\<close>

lemma decodes_READ_SE_int: "se_ok x \<Longrightarrow> (\<And>s. out x s = g s) \<Longrightarrow> decodes (READ_SE out) (se_bits x) g"
  by (rule decodes_cong [OF decodes_READ_SE]) (simp_all add: se_ok_def)

text \<open>PPSs the decoder accepts: one slice group, at most 32 references, flat scaling lists.\<close>

definition pps_dec :: "h264e_pps \<Rightarrow> bool" where
  "pps_dec p \<longleftrightarrow> pps_id p \<le> 255 \<and> pps_sps_id p \<le> 31 \<and> i_num_slice_groups p = 1
     \<and> i_num_ref_idx_l0_default_active p \<le> 32 \<and> i_num_ref_idx_l1_default_active p \<le> 32
     \<and> i_weighted_bipred_idc p \<le> 2 \<and> b_redundant_pic_cnt p = 0 \<and> b_cqm_preset p = 0"

definition dec_pps_head :: "h264e_pps \<Rightarrow> h264_pps \<Rightarrow> h264_pps" where
  "dec_pps_head e = run
    [\<lambda>p. p\<lparr>p_pic_parameter_set_id := pps_id e\<rparr>,
     \<lambda>p. p\<lparr>p_seq_parameter_set_id := pps_sps_id e\<rparr>,
     \<lambda>p. if p_pic_parameter_set_id p < 0 \<or> p_pic_parameter_set_id p > 256
         then p\<lparr>p_pic_parameter_set_id := 0\<rparr> else p,
     \<lambda>p. p\<lparr>p_entropy_coding_mode_flag := b_cabac e\<rparr>,
     \<lambda>p. p\<lparr>p_bottom_field_pic_order_in_frame_present_flag := b_pic_order e\<rparr>,
     \<lambda>p. p\<lparr>p_num_slice_groups_minus1 := 0\<rparr>,
     \<lambda>p. p\<lparr>p_num_ref_idx_l0_default_active_minus1 := i_num_ref_idx_l0_default_active e - 1\<rparr>,
     \<lambda>p. p\<lparr>p_num_ref_idx_l1_default_active_minus1 := i_num_ref_idx_l1_default_active e - 1\<rparr>,
     \<lambda>p. p\<lparr>p_weighted_pred_flag := b_weighted_pred e\<rparr>,
     \<lambda>p. p\<lparr>p_weighted_bipred_idc := i_weighted_bipred_idc e\<rparr>,
     \<lambda>p. p\<lparr>p_pic_init_qp_minus26 := i_pic_init_qp e - 26\<rparr>,
     \<lambda>p. p\<lparr>p_pic_init_qs_minus26 := i_pic_init_qs e - 26\<rparr>,
     \<lambda>p. p\<lparr>p_chroma_qp_index_offset := i_chroma_qp_index_offset e,
           p_second_chroma_qp_index_offset := i_chroma_qp_index_offset e\<rparr>,
     \<lambda>p. p\<lparr>p_deblocking_filter_control_present_flag := b_deblocking_filter_control e\<rparr>,
     \<lambda>p. p\<lparr>p_constrained_intra_pred_flag := b_constrained_intra_pred e\<rparr>,
     \<lambda>p. p\<lparr>p_redundant_pic_cnt_present_flag := 0\<rparr>]"

definition pps_head_bits :: "h264e_pps \<Rightarrow> bool list" where
  "pps_head_bits e = concat
    [ue (pps_id e), ue (pps_sps_id e), [], flag (b_cabac e), flag (b_pic_order e), ue 0,
     ue (i_num_ref_idx_l0_default_active e - 1), ue (i_num_ref_idx_l1_default_active e - 1),
     flag (b_weighted_pred e), msb_bits 2 (i_weighted_bipred_idc e), se_bits (i_pic_init_qp e - 26),
     se_bits (i_pic_init_qs e - 26), se_bits (i_chroma_qp_index_offset e),
     flag (b_deblocking_filter_control e), flag (b_constrained_intra_pred e), flag 0]"

lemma pps_head_decodes:
  assumes ok: "pps_ok e" and dec: "pps_dec e"
  shows "decodes pps_head (pps_head_bits e) (dec_pps_head e)"
proof -
  note oks = ok [unfolded pps_ok_def] dec [unfolded pps_dec_def]
  have c: "\<not> pps_sps_id e < 0" "\<not> 32 < pps_sps_id e" "i_num_ref_idx_l0_default_active e - 1 < 32"
    "i_num_ref_idx_l1_default_active e - 1 < 32" "i_weighted_bipred_idc e < 3"
    using ok dec by (simp_all add: pps_ok_def pps_dec_def ue_ok_def)
  show ?thesis unfolding pps_head_def dec_pps_head_def pps_head_bits_def
    by (rule decodes_SEQ, (rule decodes_check decodes_then decodes_UPD decodes_READ_SE_int decodes_items
        | (simp add: oks c field_oks del: of_int_diff diff_less_eq; fail))+)
qed

lemma decodes_more_data:
  assumes "decodes_all ps bss fs" and "concat bss \<noteq> []" and "k < 8"
  shows "parses (True # replicate k False) (IF_MORE_DATA ps qs) s (concat bss) (run fs s)"
  using decodes_SEQ [OF assms(1)] assms(2,3) by (intro parses_IF_MORE_DATA) (simp_all add: decodes_def)

lemma parses_no_more_data:
  "k < 8 \<Longrightarrow> parses (True # replicate k False) (SEQ qs) s [] s' \<Longrightarrow>
    parses (True # replicate k False) (IF_MORE_DATA ps qs) s [] s'"
  by (rule parses_IF_MORE_DATA) simp_all

lemma parses_UPD: "s' = f s \<Longrightarrow> parses rest (SEQ [UPD f]) s [] s'"
  by (simp add: parses_def UPD_def)

definition dec_pps_more :: "h264e_pps \<Rightarrow> h264_pps \<Rightarrow> h264_pps" where
  "dec_pps_more e p = (if b_transform_8x8_mode e \<noteq> 0
     then p\<lparr>p_transform_8x8_mode_flag := b_transform_8x8_mode e, p_pic_scaling_matrix_present_flag := 0,
            p_second_chroma_qp_index_offset := i_second_chroma_qp_index_offset e\<rparr>
     else p\<lparr>p_transform_8x8_mode_flag := 0, p_second_chroma_qp_index_offset := p_chroma_qp_index_offset p\<rparr>)"

lemma pps_more_parses:
  assumes ok: "pps_ok e" and k: "k < 8"
  shows "parses (True # replicate k False) (pps_more sps) p
    (bits_if (b_transform_8x8_mode e \<noteq> 0)
      [flag (b_transform_8x8_mode e), flag 0, se_bits (i_second_chroma_qp_index_offset e)]) (dec_pps_more e p)"
proof (cases "b_transform_8x8_mode e = 0")
  case True
  then show ?thesis unfolding pps_more_def dec_pps_more_def
    by (simp add: bits_if_def) (rule parses_no_more_data [OF k parses_UPD], simp)
next
  case False
  have f: "flag_ok (b_transform_8x8_mode e)" "se_ok (i_second_chroma_qp_index_offset e)"
    using ok by (simp_all add: pps_ok_def)
  have "parses (True # replicate k False) (pps_more sps) p
      (concat [flag (b_transform_8x8_mode e), flag 0, se_bits (i_second_chroma_qp_index_offset e)])
      (run [\<lambda>p. p\<lparr>p_transform_8x8_mode_flag := b_transform_8x8_mode e\<rparr>,
            \<lambda>p. p\<lparr>p_pic_scaling_matrix_present_flag := 0\<rparr>,
            \<lambda>p. p\<lparr>p_second_chroma_qp_index_offset := i_second_chroma_qp_index_offset e\<rparr>] p)"
    unfolding pps_more_def
    by (rule decodes_more_data, (rule decodes_skip decodes_READ_SE_int decodes_items
         | (simp add: f field_oks k; fail))+)
  with False show ?thesis by (simp add: dec_pps_more_def bits_if_def)
qed

definition dec_pps :: "h264e_pps \<Rightarrow> h264_pps \<Rightarrow> h264_pps" where
  "dec_pps e = run [dec_pps_head e, dec_pps_more e, \<lambda>p. p\<lparr>p_Valid := 1\<rparr>]"

lemma parser_pps_parses:
  assumes ok: "pps_ok e" and dec: "pps_dec e" and k: "k < 8"
  shows "parses (True # replicate k False) (parser_pps sps) p (pps_bits e esps) (dec_pps e p)"
proof -
  have h: "parses r pps_head p (pps_head_bits e) (dec_pps_head e p)" for r
    using pps_head_decodes [OF ok dec] by (simp add: decodes_def)
  have bits: "pps_bits e esps = pps_head_bits e @ bits_if (b_transform_8x8_mode e \<noteq> 0)
      [flag (b_transform_8x8_mode e), flag 0, se_bits (i_second_chroma_qp_index_offset e)] @ []"
    using dec by (simp add: pps_bits_def pps_head_bits_def Let_def bits_if_def pps_dec_def)
  have m: "parses (True # replicate k False) (SEQ [pps_more sps, UPD (\<lambda>p. p\<lparr>p_Valid := 1\<rparr>)]) (dec_pps_head e p)
     (bits_if (b_transform_8x8_mode e \<noteq> 0)
      [flag (b_transform_8x8_mode e), flag 0, se_bits (i_second_chroma_qp_index_offset e)] @ []) (dec_pps e p)"
    by (rule parses_SEQ_Cons [OF _ parses_UPD], unfold append_Nil, rule pps_more_parses [OF ok k])
      (simp add: dec_pps_def)
  show ?thesis unfolding parser_pps_def bits by (rule parses_SEQ_Cons [OF h m])
qed

section \<open>From the configuration to the decoder's picture\<close>

text \<open>The groups leave each other's fields alone.\<close>

lemma field_run: "(\<And>f s. f \<in> set fs \<Longrightarrow> x (f s) = x s) \<Longrightarrow> x (run fs s) = x s"
  by (induction fs arbitrary: s) simp_all

lemma field_run_if: "(\<And>f s. f \<in> set fs \<Longrightarrow> x (f s) = x s) \<Longrightarrow> x (run_if b fs s) = x s"
  by (simp add: run_if_def field_run)

lemma dec_sps_vui_keeps:
  "s_profile_idc (dec_sps_vui e s) = s_profile_idc s" "s_level_idc (dec_sps_vui e s) = s_level_idc s"
  "s_seq_parameter_set_id (dec_sps_vui e s) = s_seq_parameter_set_id s"
  "s_chroma_format_idc (dec_sps_vui e s) = s_chroma_format_idc s"
  "s_bit_depth_luma_minus8 (dec_sps_vui e s) = s_bit_depth_luma_minus8 s"
  "s_bit_depth_chroma_minus8 (dec_sps_vui e s) = s_bit_depth_chroma_minus8 s"
  "s_log2_max_frame_num_minus4 (dec_sps_vui e s) = s_log2_max_frame_num_minus4 s"
  "s_pic_order_cnt_type (dec_sps_vui e s) = s_pic_order_cnt_type s"
  "s_max_num_ref_frames (dec_sps_vui e s) = s_max_num_ref_frames s"
  "s_pic_width_in_mbs_minus1 (dec_sps_vui e s) = s_pic_width_in_mbs_minus1 s"
  "s_pic_height_in_map_units_minus1 (dec_sps_vui e s) = s_pic_height_in_map_units_minus1 s"
  "s_frame_mbs_only_flag (dec_sps_vui e s) = s_frame_mbs_only_flag s"
  "s_frame_cropping_flag (dec_sps_vui e s) = s_frame_cropping_flag s"
  "s_frame_crop_left_offset (dec_sps_vui e s) = s_frame_crop_left_offset s"
  "s_frame_crop_right_offset (dec_sps_vui e s) = s_frame_crop_right_offset s"
  "s_frame_crop_top_offset (dec_sps_vui e s) = s_frame_crop_top_offset s"
  "s_frame_crop_bottom_offset (dec_sps_vui e s) = s_frame_crop_bottom_offset s"
  "s_Valid (dec_sps_vui e s) = 1" "s_seq_scaling_matrix_present_flag (dec_sps_vui e s) = s_seq_scaling_matrix_present_flag s"
  by (simp_all add: dec_sps_vui_def run_if_def)

lemma dec_sps_size_sets:
  "s_max_num_ref_frames (dec_sps_size e s) = i_num_ref_frames e"
  "s_pic_width_in_mbs_minus1 (dec_sps_size e s) = i_mb_width e - 1"
  "s_pic_height_in_map_units_minus1 (dec_sps_size e s) = drop_bit (of_bool (b_frame_mbs_only e = 0)) (i_mb_height e) - 1"
  "s_frame_mbs_only_flag (dec_sps_size e s) = b_frame_mbs_only e"
  "s_frame_cropping_flag (dec_sps_size e s) = b_crop e"
  "b_crop e \<noteq> 0 \<Longrightarrow> s_frame_crop_left_offset (dec_sps_size e s) = drop_bit 1 (crop_left (sps_crop e))"
  "b_crop e \<noteq> 0 \<Longrightarrow> s_frame_crop_right_offset (dec_sps_size e s) = drop_bit 1 (crop_right (sps_crop e))"
  "b_crop e \<noteq> 0 \<Longrightarrow> s_frame_crop_top_offset (dec_sps_size e s) = drop_bit 1 (crop_top (sps_crop e))"
  "b_crop e \<noteq> 0 \<Longrightarrow> s_frame_crop_bottom_offset (dec_sps_size e s) = drop_bit 1 (crop_bottom (sps_crop e))"
  "s_profile_idc (dec_sps_size e s) = s_profile_idc s" "s_level_idc (dec_sps_size e s) = s_level_idc s"
  "s_seq_parameter_set_id (dec_sps_size e s) = s_seq_parameter_set_id s"
  "s_chroma_format_idc (dec_sps_size e s) = s_chroma_format_idc s"
  "s_bit_depth_luma_minus8 (dec_sps_size e s) = s_bit_depth_luma_minus8 s"
  "s_bit_depth_chroma_minus8 (dec_sps_size e s) = s_bit_depth_chroma_minus8 s"
  "s_log2_max_frame_num_minus4 (dec_sps_size e s) = s_log2_max_frame_num_minus4 s"
  "s_pic_order_cnt_type (dec_sps_size e s) = s_pic_order_cnt_type s"
  by (simp_all add: dec_sps_size_def run_if_def)

lemma dec_sps_poc_sets:
  "s_log2_max_frame_num_minus4 (dec_sps_poc e s) = i_log2_max_frame_num e - 4"
  "s_pic_order_cnt_type (dec_sps_poc e s) = i_poc_type e"
  "s_profile_idc (dec_sps_poc e s) = s_profile_idc s" "s_level_idc (dec_sps_poc e s) = s_level_idc s"
  "s_seq_parameter_set_id (dec_sps_poc e s) = s_seq_parameter_set_id s"
  "s_chroma_format_idc (dec_sps_poc e s) = s_chroma_format_idc s"
  "s_bit_depth_luma_minus8 (dec_sps_poc e s) = s_bit_depth_luma_minus8 s"
  "s_bit_depth_chroma_minus8 (dec_sps_poc e s) = s_bit_depth_chroma_minus8 s"
  by (simp_all add: dec_sps_poc_def run_if_def)

lemma dec_sps_head_sets:
  fixes c e s
  defines "t \<equiv> run_if c (dec_sps_chroma e) (dec_sps_head e (sps_init s))"
  assumes "i_chroma_format_idc e = 1"
  shows "s_profile_idc t = i_profile_idc e" "s_level_idc t = i_level_idc e"
    "s_seq_parameter_set_id t = sps_id e" "s_chroma_format_idc t = 1"
    "s_bit_depth_luma_minus8 t = 0" "s_bit_depth_chroma_minus8 t = 0"
  by (simp_all add: t_def run_if_def dec_sps_chroma_def dec_sps_head_def sps_init_def assms(2))

lemma dec_sps_sets:
  assumes "i_chroma_format_idc e = 1"
  shows "s_profile_idc (dec_sps e s) = i_profile_idc e" "s_level_idc (dec_sps e s) = i_level_idc e"
    "s_seq_parameter_set_id (dec_sps e s) = sps_id e" "s_chroma_format_idc (dec_sps e s) = 1"
    "s_bit_depth_luma_minus8 (dec_sps e s) = 0" "s_bit_depth_chroma_minus8 (dec_sps e s) = 0"
    "s_log2_max_frame_num_minus4 (dec_sps e s) = i_log2_max_frame_num e - 4"
    "s_pic_order_cnt_type (dec_sps e s) = i_poc_type e"
    "s_max_num_ref_frames (dec_sps e s) = i_num_ref_frames e"
    "s_pic_width_in_mbs_minus1 (dec_sps e s) = i_mb_width e - 1"
    "s_pic_height_in_map_units_minus1 (dec_sps e s) = drop_bit (of_bool (b_frame_mbs_only e = 0)) (i_mb_height e) - 1"
    "s_frame_mbs_only_flag (dec_sps e s) = b_frame_mbs_only e"
    "s_frame_cropping_flag (dec_sps e s) = b_crop e"
    "b_crop e \<noteq> 0 \<Longrightarrow> s_frame_crop_left_offset (dec_sps e s) = drop_bit 1 (crop_left (sps_crop e))"
    "b_crop e \<noteq> 0 \<Longrightarrow> s_frame_crop_right_offset (dec_sps e s) = drop_bit 1 (crop_right (sps_crop e))"
    "b_crop e \<noteq> 0 \<Longrightarrow> s_frame_crop_top_offset (dec_sps e s) = drop_bit 1 (crop_top (sps_crop e))"
    "b_crop e \<noteq> 0 \<Longrightarrow> s_frame_crop_bottom_offset (dec_sps e s) = drop_bit 1 (crop_bottom (sps_crop e))"
    "s_Valid (dec_sps e s) = 1"
  by (simp_all add: dec_sps_def dec_sps_vui_keeps dec_sps_size_sets dec_sps_poc_sets
      dec_sps_head_sets [OF assms])

text \<open>The levels \<open>get_max_dec_frame_buf_size\<close> knows.\<close>

definition level_known :: "int \<Rightarrow> bool" where
  "level_known l \<longleftrightarrow> l \<in> {9, 10, 11, 12, 13, 20, 21, 22, 30, 31, 32, 40, 41, 42, 50, 51, 52}"

lemma level_buf_size_known:
  "level_known (s_level_idc s) \<longleftrightarrow> (\<exists>n. level_buf_size s = Some n)"
  "level_buf_size s = Some n \<Longrightarrow> 152064 \<le> n \<and> n \<le> 70778880"
  by (auto simp: level_known_def level_buf_size_def Let_def split: if_splits)

lemma wrap32_id: "- (2 ^ 31) \<le> x \<Longrightarrow> x < 2 ^ 31 \<Longrightarrow> wrap32 x = x"
  unfolding wrap32_def using sint_of_int_u32 [of x] by simp

text \<open>The size of a frame in bytes, when it fits.\<close>

lemma get_max_dec_frame_buf_size_ok:
  assumes "level_buf_size s = Some n" and "0 \<le> s_pic_width_in_mbs_minus1 s" "s_pic_width_in_mbs_minus1 s < 4096"
    and "0 \<le> s_pic_height_in_map_units_minus1 s" "s_pic_height_in_map_units_minus1 s < 4096"
    and "s_frame_mbs_only_flag s = 1"
    and "(s_pic_width_in_mbs_minus1 s + 1) * (s_pic_height_in_map_units_minus1 s + 1) * 384 < 2 ^ 31"
  shows "get_max_dec_frame_buf_size s = Some (MPP_OK, s\<lparr>s_max_dec_frame_buffering :=
     min (n div ((s_pic_width_in_mbs_minus1 s + 1) * (s_pic_height_in_map_units_minus1 s + 1) * 384)) 16\<rparr>)"
proof -
  have p: "0 < (s_pic_width_in_mbs_minus1 s + 1) * (s_pic_height_in_map_units_minus1 s + 1)" using assms by simp
  then have "wrap32 ((s_pic_width_in_mbs_minus1 s + 1) * (s_pic_height_in_map_units_minus1 s + 1) * 384)
    = (s_pic_width_in_mbs_minus1 s + 1) * (s_pic_height_in_map_units_minus1 s + 1) * 384"
    using assms(7) mult_pos_pos [OF p, of 384] by (intro wrap32_id) linarith+
  moreover have "n sdiv x = n div x" if "0 < x" for x
    using that level_buf_size_known(2) [OF assms(1)] by (simp add: signed_divide_int_def sgn_if)
  moreover have "s_pic_width_in_mbs_minus1 s + 1 \<noteq> 0" "s_pic_height_in_map_units_minus1 s + 1 \<noteq> 0"
    using assms(2,4) by simp_all
  ultimately show ?thesis using p assms(1,6) by (simp add: get_max_dec_frame_buf_size_def Let_def)
qed

text \<open>The decoder processes the SPS and PPS of the encoder.\<close>

lemma process_sps_decodes:
  assumes e: "sps_ok e" "sps_dec e" and c: "br_wf (bitctx c)" "rem_bits (bitctx c) = sps_bits e @ rest"
    and size: "get_max_dec_frame_buf_size (dec_sps e (reset_cur_sps_data (pc_sps c))) = Some (MPP_OK, d)"
    and v: "s_Valid d = 1"
  shows "\<exists>b. process_sps c = Some (MPP_OK, c\<lparr>bitctx := b, pc_sps := d,
      p_Vid := (p_Vid c)\<lparr>vd_spsSet := (vd_spsSet (p_Vid c))[nat (s_seq_parameter_set_id d) := d]\<rparr>\<rparr>)
    \<and> br_wf b \<and> rem_bits b = rest"
proof -
  let ?s = "\<lparr>cur_sps = reset_cur_sps_data (pc_sps c), un_spt_flag = un_spt c\<rparr>"
  from decodes_parses [OF parser_sps_decodes [OF e] refl, of rest ?s] c
  obtain b where "parser_sps ?s (bitctx c) = (MPP_OK, in_sps (dec_sps e) ?s, b)" "br_wf b" "rem_bits b = rest"
    by (rule parsesE)
  then show ?thesis using size v by (intro exI [of _ b]) (simp add: process_sps_def Let_def)
qed

lemma process_pps_decodes:
  assumes e: "pps_ok e" "pps_dec e" and c: "br_wf (bitctx c)"
    and "rem_bits (bitctx c) = pps_bits e esps @ True # replicate k False" and "k < 8"
  shows "\<exists>b. process_pps c = (MPP_OK, c\<lparr>bitctx := b, pc_pps := dec_pps e (reset_curpps_data (pc_pps c)),
      p_Vid := (p_Vid c)\<lparr>vd_ppsSet := (vd_ppsSet (p_Vid c))
        [nat (p_pic_parameter_set_id (dec_pps e (reset_curpps_data (pc_pps c)))) :=
           dec_pps e (reset_curpps_data (pc_pps c))]\<rparr>\<rparr>)
    \<and> br_wf b \<and> rem_bits b = True # replicate k False"
proof -
  from parser_pps_parses [OF e assms(5), of "pc_sps c" "reset_curpps_data (pc_pps c)" esps] c assms(4)
  obtain b where "parser_pps (pc_sps c) (reset_curpps_data (pc_pps c)) (bitctx c)
      = (MPP_OK, dec_pps e (reset_curpps_data (pc_pps c)), b)" "br_wf b"
      "rem_bits b = True # replicate k False"
    by (rule parsesE)
  then show ?thesis by (intro exI [of _ b]) (simp add: process_pps_def Let_def)
qed

text \<open>The picture size the decoder computes from an SPS of frames in 4:2:0.\<close>

lemma video_size:
  fixes d :: h264_sps
  assumes f: "s_frame_mbs_only_flag d = 1" "s_chroma_format_idc d = 1"
    and w: "0 \<le> s_pic_width_in_mbs_minus1 d" "s_pic_width_in_mbs_minus1 d < 4096"
    and h: "0 \<le> s_pic_height_in_map_units_minus1 d" "s_pic_height_in_map_units_minus1 d < 4096"
  defines "crop x \<equiv> if s_frame_cropping_flag d \<noteq> 0 then 2 * x else 0"
  shows "vd_width_after_crop (update_video_pars d v) = word_of_int (16 * (s_pic_width_in_mbs_minus1 d + 1)
      - crop (s_frame_crop_left_offset d) - crop (s_frame_crop_right_offset d))"
    and "vd_height_after_crop (update_video_pars d v) = word_of_int (16 * (s_pic_height_in_map_units_minus1 d + 1)
      - crop (s_frame_crop_top_offset d) - crop (s_frame_crop_bottom_offset d))"
    and "vd_width (update_video_pars d v) = 16 * (s_pic_width_in_mbs_minus1 d + 1)"
    and "vd_height (update_video_pars d v) = 16 * (s_pic_height_in_map_units_minus1 d + 1)"
proof -
  have s: "s32 (word_of_int (x + 1) * 16) = 16 * (x + 1)" if "0 \<le> x" "x < 4096" for x
  proof -
    have "word_of_int (x + 1) * 16 = (word_of_int (16 * (x + 1)) :: u32)" by simp
    then show ?thesis using that s32_int [of "16 * (x + 1)"] by (simp add: mult.commute)
  qed
  note r = s [OF w] s [OF h]
  show "vd_width_after_crop (update_video_pars d v) = word_of_int (16 * (s_pic_width_in_mbs_minus1 d + 1)
      - crop (s_frame_crop_left_offset d) - crop (s_frame_crop_right_offset d))"
    unfolding update_video_pars_def Let_def crop_def using f r
    by (cases "s_frame_cropping_flag d = 0") (simp_all add: SubWidthC_def SubHeightC_def del: of_int_add)
  show "vd_height_after_crop (update_video_pars d v) = word_of_int (16 * (s_pic_height_in_map_units_minus1 d + 1)
      - crop (s_frame_crop_top_offset d) - crop (s_frame_crop_bottom_offset d))"
    unfolding update_video_pars_def Let_def crop_def using f r
    by (cases "s_frame_cropping_flag d = 0") (simp_all add: SubWidthC_def SubHeightC_def del: of_int_add)
  show "vd_width (update_video_pars d v) = 16 * (s_pic_width_in_mbs_minus1 d + 1)"
    "vd_height (update_video_pars d v) = 16 * (s_pic_height_in_map_units_minus1 d + 1)"
    unfolding update_video_pars_def Let_def using f r
    by (simp_all split: prod.split del: of_int_add)
qed

text \<open>What the decoder makes of the SPS of a configuration.\<close>

lemma sps_result_decoded:
  fixes e s0 n
  assumes r: "sps_result cfg hw e"
  defines "d \<equiv> (dec_sps e s0)\<lparr>s_max_dec_frame_buffering := n\<rparr>"
  shows "s_Valid d = 1" "s_seq_parameter_set_id d = 0" "s_profile_idc d = codec_profile cfg"
    "s_max_num_ref_frames d = i_num_ref_frames e" "s_max_dec_frame_buffering d = n"
    "s_frame_mbs_only_flag d = 1" "s_chroma_format_idc d = 1"
    "s_pic_width_in_mbs_minus1 d = i_mb_width e - 1" "s_pic_height_in_map_units_minus1 d = i_mb_height e - 1"
    "s_frame_cropping_flag d = b_crop e" "s_level_idc d = i_level_idc e"
proof -
  have "i_chroma_format_idc e = 1" using r by (simp add: sps_result_def)
  note sets = dec_sps_sets [OF this]
  have "sps_id e = 0" "i_profile_idc e = codec_profile cfg" "b_frame_mbs_only e = 1" using r by (simp_all add: sps_result_def)
  then show "s_Valid d = 1" "s_seq_parameter_set_id d = 0" "s_profile_idc d = codec_profile cfg"
    "s_max_num_ref_frames d = i_num_ref_frames e" "s_max_dec_frame_buffering d = n"
    "s_frame_mbs_only_flag d = 1" "s_chroma_format_idc d = 1"
    "s_pic_width_in_mbs_minus1 d = i_mb_width e - 1" "s_pic_height_in_map_units_minus1 d = i_mb_height e - 1"
    "s_frame_cropping_flag d = b_crop e" "s_level_idc d = i_level_idc e"
    by (simp_all add: d_def sets)
qed

lemma sps_result_crop:
  fixes e s0 n
  assumes r: "sps_result cfg hw e" and even: "even (prep_width cfg)" "even (prep_height cfg)" and crop: "b_crop e \<noteq> 0"
  defines "d \<equiv> (dec_sps e s0)\<lparr>s_max_dec_frame_buffering := n\<rparr>"
  shows "s_frame_crop_left_offset d = 0" "2 * s_frame_crop_right_offset d = crop_right (sps_crop e)"
    "s_frame_crop_top_offset d = 0" "2 * s_frame_crop_bottom_offset d = crop_bottom (sps_crop e)"
proof -
  have "i_chroma_format_idc e = 1" using r by (simp add: sps_result_def)
  note sets = dec_sps_sets(14-17) [OF this crop, of s0]
  have c: "crop_left (sps_crop e) = 0" "even (crop_right (sps_crop e))" "crop_top (sps_crop e) = 0"
    "even (crop_bottom (sps_crop e))"
    using r even by (simp_all add: sps_result_def)
  show "s_frame_crop_left_offset d = 0" "2 * s_frame_crop_right_offset d = crop_right (sps_crop e)"
    "s_frame_crop_top_offset d = 0" "2 * s_frame_crop_bottom_offset d = crop_bottom (sps_crop e)"
    using c by (simp_all add: d_def sets drop_bit_eq_div)
qed

lemma sps_result_video:
  fixes e s0 n
  assumes cfg: "enc_cfg_ok cfg" and r: "sps_result cfg hw e"
    and even: "even (prep_width cfg)" "even (prep_height cfg)"
  defines "d \<equiv> (dec_sps e s0)\<lparr>s_max_dec_frame_buffering := n\<rparr>"
  shows "vd_width (update_video_pars d v) = 16 * ((prep_width cfg + 15) div 16)"
    "vd_height (update_video_pars d v) = 16 * ((prep_height cfg + 15) div 16)"
    "vd_width_after_crop (update_video_pars d v) = word_of_int (prep_width cfg)"
    "vd_height_after_crop (update_video_pars d v) = word_of_int (prep_height cfg)"
proof -
  note f = sps_result_decoded [OF r, of n s0, folded d_def]
  have wh: "1 \<le> prep_width cfg" "prep_width cfg < 2 ^ 16" "1 \<le> prep_height cfg" "prep_height cfg < 2 ^ 16"
    using cfg by (simp_all add: enc_cfg_ok_def)
  have mb: "i_mb_width e = (prep_width cfg + 15) div 16" "i_mb_height e = (prep_height cfg + 15) div 16"
    using r by (simp_all add: sps_result_def)
  have m: "0 \<le> i_mb_width e - 1" "i_mb_width e - 1 < 4096" "0 \<le> i_mb_height e - 1" "i_mb_height e - 1 < 4096"
    using mb_crop(1,2) [OF wh(1,2)] mb_crop(1,2) [OF wh(3,4)] unfolding mb by simp_all
  note size = video_size [OF f(6,7), unfolded f(8-10), OF m, of v]
  show "vd_width (update_video_pars d v) = 16 * ((prep_width cfg + 15) div 16)"
    "vd_height (update_video_pars d v) = 16 * ((prep_height cfg + 15) div 16)"
    using size(3,4) by (simp_all add: mb)
  have "vd_width_after_crop (update_video_pars d v) = word_of_int (prep_width cfg)
    \<and> vd_height_after_crop (update_video_pars d v) = word_of_int (prep_height cfg)"
  proof (cases "b_crop e = 0")
    case True
    then have "16 * i_mb_width e = prep_width cfg" "16 * i_mb_height e = prep_height cfg"
      using r by (auto simp: sps_result_def)
    then show ?thesis using size(1,2) True by simp
  next
    case False
    have "crop_right (sps_crop e) = 16 * i_mb_width e - prep_width cfg"
      "crop_bottom (sps_crop e) = 16 * i_mb_height e - prep_height cfg" using r by (auto simp: sps_result_def)
    then show ?thesis
      unfolding size(1,2) using False sps_result_crop [OF r even False, of n s0, folded d_def] by simp
  qed
  then show "vd_width_after_crop (update_video_pars d v) = word_of_int (prep_width cfg)"
    "vd_height_after_crop (update_video_pars d v) = word_of_int (prep_height cfg)" by simp_all
qed

lemma sps_result_buffer:
  assumes cfg: "enc_cfg_ok cfg" and r: "sps_result cfg hw e" and "level_known (codec_level cfg)"
    and "(prep_width cfg + 15) * (prep_height cfg + 15) * 3 < 2 ^ 32"
  shows "\<exists>n. 0 \<le> n \<and> n \<le> 16 \<and> get_max_dec_frame_buf_size (dec_sps e s0)
    = Some (MPP_OK, (dec_sps e s0)\<lparr>s_max_dec_frame_buffering := n\<rparr>)"
proof -
  have cf: "i_chroma_format_idc e = 1" and lv: "level_known (i_level_idc e)" and mbs: "b_frame_mbs_only e = 1"
  proof -
    show "i_chroma_format_idc e = 1" "b_frame_mbs_only e = 1" using r by (simp_all add: sps_result_def)
    have "i_level_idc e = codec_level cfg \<or> i_level_idc e = 11" using r by (simp add: sps_result_def)
    then show "level_known (i_level_idc e)" using assms(3) by (auto simp: level_known_def)
  qed
  note sets = dec_sps_sets(2,10-12) [OF cf, of s0]
  have wh: "1 \<le> prep_width cfg" "prep_width cfg < 2 ^ 16" "1 \<le> prep_height cfg" "prep_height cfg < 2 ^ 16"
    using cfg by (simp_all add: enc_cfg_ok_def)
  have mb: "i_mb_width e = (prep_width cfg + 15) div 16" "i_mb_height e = (prep_height cfg + 15) div 16"
    using r by (simp_all add: sps_result_def)
  note m = mb_crop(1,2) [OF wh(1,2), folded mb(1)] mb_crop(1,2) [OF wh(3,4), folded mb(2)]
  have "(16 * i_mb_width e) * (16 * i_mb_height e) \<le> (prep_width cfg + 15) * (prep_height cfg + 15)"
  proof (rule mult_mono)
    show "16 * i_mb_width e \<le> prep_width cfg + 15" "16 * i_mb_height e \<le> prep_height cfg + 15"
      unfolding mb by simp_all
    show "0 \<le> prep_width cfg + 15" "0 \<le> 16 * i_mb_height e" using wh m by linarith+
  qed
  moreover have "(16 * i_mb_width e) * (16 * i_mb_height e) = 256 * (i_mb_width e * i_mb_height e)" by simp
  moreover have "p * 384 < 2 ^ 31" if "x \<le> q" "x = 256 * p" "q * 3 < 2 ^ 32" for x p q :: int using that by simp
  ultimately have frame: "i_mb_width e * i_mb_height e * 384 < 2 ^ 31" using assms(4) by blast
  obtain k where k: "level_buf_size (dec_sps e s0) = Some k"
    using lv level_buf_size_known(1) [of "dec_sps e s0"] by (auto simp: sets)
  have "get_max_dec_frame_buf_size (dec_sps e s0) = Some (MPP_OK, (dec_sps e s0)\<lparr>s_max_dec_frame_buffering :=
      min (k div (i_mb_width e * i_mb_height e * 384)) 16\<rparr>)"
    using get_max_dec_frame_buf_size_ok [OF k, unfolded sets] m frame by (simp add: mbs)
  moreover have "0 \<le> k div (i_mb_width e * i_mb_height e * 384)"
    using level_buf_size_known(2) [OF k] m by (simp add: pos_imp_zdiv_nonneg_iff)
  ultimately show ?thesis
    by (intro exI [of _ "min (k div (i_mb_width e * i_mb_height e * 384)) 16"] conjI) simp_all
qed

text \<open>
  What the decoder knows of the configuration from its SPS: profile, references, buffer, and the size
  of the picture, aligned to macroblocks and after cropping.
\<close>

definition config_sps :: "mpp_enc_cfg \<Rightarrow> h264e_sps \<Rightarrow> h264_sps \<Rightarrow> bool" where
  "config_sps cfg e d \<longleftrightarrow> s_Valid d = 1 \<and> s_profile_idc d = codec_profile cfg
     \<and> s_max_num_ref_frames d = i_num_ref_frames e
     \<and> 0 \<le> s_max_dec_frame_buffering d \<and> s_max_dec_frame_buffering d \<le> 16
     \<and> (\<forall>v. vd_width (update_video_pars d v) = 16 * ((prep_width cfg + 15) div 16)
          \<and> vd_height (update_video_pars d v) = 16 * ((prep_height cfg + 15) div 16)
          \<and> vd_width_after_crop (update_video_pars d v) = word_of_int (prep_width cfg)
          \<and> vd_height_after_crop (update_video_pars d v) = word_of_int (prep_height cfg))"

lemma config_sps_processed:
  assumes "enc_cfg_ok cfg" and e: "sps_ok e" "sps_result cfg hw' e" and "sps_profile_accepted (codec_profile cfg)"
    and "codec_profile cfg \<noteq> 44" and "level_known (codec_level cfg)" and "even (prep_width cfg)"
    and "even (prep_height cfg)" and "(prep_width cfg + 15) * (prep_height cfg + 15) * 3 < 2 ^ 32"
    and c: "br_wf (bitctx c)" "rem_bits (bitctx c) = sps_bits e @ rest"
  obtains b d where "process_sps c = Some (MPP_OK, c\<lparr>bitctx := b, pc_sps := d,
         p_Vid := (p_Vid c)\<lparr>vd_spsSet := (vd_spsSet (p_Vid c))[0 := d]\<rparr>\<rparr>)" and "rem_bits b = rest" and "config_sps cfg e d"
proof -
  have dec: "sps_dec e" using e(2) assms(4,5) by (simp add: sps_dec_def sps_result_def)
  let ?d0 = "dec_sps e (reset_cur_sps_data (pc_sps c))"
  obtain n where n: "0 \<le> n" "n \<le> 16" "get_max_dec_frame_buf_size ?d0 = Some (MPP_OK, ?d0\<lparr>s_max_dec_frame_buffering := n\<rparr>)"
    using sps_result_buffer [OF assms(1) e(2) assms(6,9)] by blast
  define d where "d = ?d0\<lparr>s_max_dec_frame_buffering := n\<rparr>"
  note f = sps_result_decoded [OF e(2), of n "reset_cur_sps_data (pc_sps c)", folded d_def]
  from process_sps_decodes [OF e(1) dec c n(3) [folded d_def] f(1)] f(2) obtain b where b:
    "process_sps c = Some (MPP_OK, c\<lparr>bitctx := b, pc_sps := d,
       p_Vid := (p_Vid c)\<lparr>vd_spsSet := (vd_spsSet (p_Vid c))[0 := d]\<rparr>\<rparr>)" "rem_bits b = rest"
    by auto
  note v = sps_result_video [OF assms(1) e(2) assms(7,8), where n = n and ?s0.0 = "reset_cur_sps_data (pc_sps c)", folded d_def]
  have "config_sps cfg e d" unfolding config_sps_def using n(1,2) f(1,3-5) v by simp
  with b show thesis by (rule that)
qed

text \<open>
  C3: an encoder configuration reaches the decoder. For every acceptable configuration with a defined
  frame rate, a profile and a level the decoder knows, a frame of less than 2 GB and even dimensions, and for every reader that
  stands behind the header byte of the SPS unit, \<open>process_sps\<close> succeeds, stores a valid SPS with the
  configured profile and number of reference frames in its slot, and the picture parameters computed
  from it are the macroblock-aligned size and, after cropping, the configured width and height.
\<close>

theorem config_reaches_decoder:
  assumes "enc_cfg_ok cfg" and "vui_ok (sps_vui sps0)" and "sps_profile_accepted (codec_profile cfg)"
    and "codec_profile cfg \<noteq> 44" and "level_known (codec_level cfg)" and "even (prep_width cfg)"
    and "even (prep_height cfg)" and "(prep_width cfg + 15) * (prep_height cfg + 15) * 3 < 2 ^ 32" and "fps_defined cfg"
  shows "\<exists>sps hw'. h264e_set_sps cfg hw sps0 = Some (MPP_OK, sps, hw') \<and>
    (\<forall>c rest. br_wf (bitctx c) \<and> rem_bits (bitctx c) = sps_bits sps @ rest \<and> vd_spsSet (p_Vid c) \<noteq> [] \<longrightarrow>
      (\<exists>c'. process_sps c = Some (MPP_OK, c') \<and> rem_bits (bitctx c') = rest
        \<and> vd_spsSet (p_Vid c') ! 0 = pc_sps c' \<and> s_Valid (pc_sps c') = 1
        \<and> s_profile_idc (pc_sps c') = codec_profile cfg
        \<and> s_max_num_ref_frames (pc_sps c') = i_num_ref_frames sps
        \<and> 0 \<le> s_max_dec_frame_buffering (pc_sps c') \<and> s_max_dec_frame_buffering (pc_sps c') \<le> 16
        \<and> vd_width (update_video_pars (pc_sps c') v) = 16 * ((prep_width cfg + 15) div 16)
        \<and> vd_height (update_video_pars (pc_sps c') v) = 16 * ((prep_height cfg + 15) div 16)
        \<and> vd_width_after_crop (update_video_pars (pc_sps c') v) = word_of_int (prep_width cfg)
        \<and> vd_height_after_crop (update_video_pars (pc_sps c') v) = word_of_int (prep_height cfg)))"
proof -
  obtain e hw' where e: "h264e_set_sps cfg hw sps0 = Some (MPP_OK, e, hw')" "sps_ok e" "sps_result cfg hw' e"
    using set_sps_result [OF assms(1,9,2)] by blast
  show ?thesis
  proof (intro exI conjI, rule e(1), intro allI impI)
    fix c :: h264d_slice and rest assume "br_wf (bitctx c) \<and> rem_bits (bitctx c) = sps_bits e @ rest \<and> vd_spsSet (p_Vid c) \<noteq> []"
    then have c: "br_wf (bitctx c)" "rem_bits (bitctx c) = sps_bits e @ rest" "vd_spsSet (p_Vid c) \<noteq> []" by simp_all
    obtain b d where b: "process_sps c = Some (MPP_OK, c\<lparr>bitctx := b, pc_sps := d,
         p_Vid := (p_Vid c)\<lparr>vd_spsSet := (vd_spsSet (p_Vid c))[0 := d]\<rparr>\<rparr>)" "rem_bits b = rest" "config_sps cfg e d"
      using config_sps_processed [OF assms(1) e(2,3) assms(3-8) c(1,2)] .
    show "\<exists>c'. process_sps c = Some (MPP_OK, c') \<and> rem_bits (bitctx c') = rest
        \<and> vd_spsSet (p_Vid c') ! 0 = pc_sps c' \<and> s_Valid (pc_sps c') = 1
        \<and> s_profile_idc (pc_sps c') = codec_profile cfg
        \<and> s_max_num_ref_frames (pc_sps c') = i_num_ref_frames e
        \<and> 0 \<le> s_max_dec_frame_buffering (pc_sps c') \<and> s_max_dec_frame_buffering (pc_sps c') \<le> 16
        \<and> vd_width (update_video_pars (pc_sps c') v) = 16 * ((prep_width cfg + 15) div 16)
        \<and> vd_height (update_video_pars (pc_sps c') v) = 16 * ((prep_height cfg + 15) div 16)
        \<and> vd_width_after_crop (update_video_pars (pc_sps c') v) = word_of_int (prep_width cfg)
        \<and> vd_height_after_crop (update_video_pars (pc_sps c') v) = word_of_int (prep_height cfg)"
      by (intro exI conjI, rule b(1)) (use b(2,3) c in \<open>simp_all add: config_sps_def\<close>)
  qed
qed

definition zero_video :: h264d_video where
  "zero_video = \<lparr>vd_spsSet = replicate 32 zero_sps, vd_subspsSet = replicate 32 zero_subsps,
     vd_ppsSet = replicate 256 zero_pps, vd_qmatrix = replicate 12 [], vd_profile_idc = 0, vd_max_frame_num = 0,
     vd_PicWidthInMbs = 0, vd_FrameHeightInMbs = 0, vd_yuv_format = 0, vd_bit_depth_chroma = 0,
     vd_bit_depth_luma = 0, vd_width = 0, vd_height = 0, vd_width_after_crop = 0, vd_height_after_crop = 0,
     vd_width_cr = 0, vd_height_cr = 0, vd_last_pic_width_in_mbs_minus1 = [0, 0],
     vd_last_pic_height_in_map_units_minus1 = [0, 0], vd_last_profile_idc = [0, 0], vd_last_level_idc = [0, 0],
     vd_dpb_num_ref_frames = [0, 0], vd_dpb_init_done = [0, 0]\<rparr>"

definition new_slice :: "bitread_ctx \<Rightarrow> h264d_slice" where
  "new_slice b = \<lparr>bitctx = b, pc_sps = zero_sps, pc_subsps = zero_subsps, pc_pps = zero_pps,
     p_Vid = zero_video, un_spt = False\<rparr>"

text \<open>A reader on the bits of a payload.\<close>

lemma payload_reader:
  assumes "length bs \<le> 1600"
  shows "\<exists>b. br_wf b \<and> rem_bits b = bs @ trailing_bits (length bs)"
proof -
  have "length (rbsp bs) < 2 ^ 31" using length_rbsp [of bs] assms by (simp add: trailing_bits_def)
  from mpp_set_bitread_ctx_bits(1,2) [OF this] show ?thesis by (metis bytes_bits_rbsp)
qed

theorem config_reaches_decoder_witness:
  "\<exists>sps hw' c c'. h264e_set_sps demo_cfg demo_hw demo_sps = Some (MPP_OK, sps, hw')
     \<and> rem_bits (bitctx c) = sps_bits sps @ trailing_bits (length (sps_bits sps))
     \<and> process_sps c = Some (MPP_OK, c') \<and> vd_width (update_video_pars (pc_sps c') zero_video) = 1920
     \<and> vd_height (update_video_pars (pc_sps c') zero_video) = 1088
     \<and> vd_height_after_crop (update_video_pars (pc_sps c') zero_video) = 1080"
proof -
  have d: "sps_profile_accepted (codec_profile demo_cfg)" "codec_profile demo_cfg \<noteq> 44" "level_known (codec_level demo_cfg)"
    "even (prep_width demo_cfg)" "even (prep_height demo_cfg)" "vui_ok (sps_vui demo_sps)"
    "(prep_width demo_cfg + 15) * (prep_height demo_cfg + 15) * 3 < 2 ^ 32"
    "prep_height demo_cfg = 1080" "prep_width demo_cfg = 1920"
    by (simp_all add: demo_cfg_def sps_profile_accepted_def level_known_def demo_ok)
  obtain sps hw' where s: "h264e_set_sps demo_cfg demo_hw demo_sps = Some (MPP_OK, sps, hw')" "sps_ok sps"
      "sps_result demo_cfg hw' sps"
    using set_sps_result [OF demo_ok(1,4) d(6)] by blast
  obtain b where b: "br_wf b" "rem_bits b = sps_bits sps @ trailing_bits (length (sps_bits sps))"
    using payload_reader [of "sps_bits sps"] length_sps_bits [OF s(2)] s(3) by (auto simp: sps_result_def)
  have c: "bitctx (new_slice b) = b" "vd_spsSet (p_Vid (new_slice b)) \<noteq> []"
    by (simp_all add: new_slice_def zero_video_def)
  from config_reaches_decoder [OF demo_ok(1) d(6,1-5,7) demo_ok(4), of demo_hw zero_video] s(1)
  have "\<forall>(c :: h264d_slice) rest. br_wf (bitctx c) \<and> rem_bits (bitctx c) = sps_bits sps @ rest
      \<and> vd_spsSet (p_Vid c) \<noteq> [] \<longrightarrow> (\<exists>c'. process_sps c = Some (MPP_OK, c')
        \<and> vd_width (update_video_pars (pc_sps c') zero_video) = 1920
        \<and> vd_height (update_video_pars (pc_sps c') zero_video) = 1088
        \<and> vd_height_after_crop (update_video_pars (pc_sps c') zero_video) = 1080)"
    unfolding d(8,9) by simp blast
  with b c obtain c' where "process_sps (new_slice b) = Some (MPP_OK, c')"
    "vd_width (update_video_pars (pc_sps c') zero_video) = 1920"
    "vd_height (update_video_pars (pc_sps c') zero_video) = 1088"
    "vd_height_after_crop (update_video_pars (pc_sps c') zero_video) = 1080" by metis
  with s(1) b(2) c(1) show ?thesis by (intro exI [of _ sps] exI [of _ hw'] exI [of _ "new_slice b"] exI [of _ c']) simp
qed

text \<open>What the decoder knows of the PPS of the encoder.\<close>

definition config_pps :: "h264e_pps \<Rightarrow> h264_pps \<Rightarrow> bool" where
  "config_pps e d \<longleftrightarrow> p_Valid d = 1 \<and> p_seq_parameter_set_id d = pps_sps_id e
    \<and> p_entropy_coding_mode_flag d = b_cabac e \<and> p_pic_init_qp_minus26 d + 26 = i_pic_init_qp e
    \<and> p_chroma_qp_index_offset d = i_chroma_qp_index_offset e \<and> p_transform_8x8_mode_flag d = b_transform_8x8_mode e
    \<and> p_num_ref_idx_l0_default_active_minus1 d + 1 = i_num_ref_idx_l0_default_active e
    \<and> p_num_ref_idx_l1_default_active_minus1 d + 1 = i_num_ref_idx_l1_default_active e
    \<and> p_pic_parameter_set_id d = pps_id e \<and> p_bottom_field_pic_order_in_frame_present_flag d = b_pic_order e
    \<and> p_num_slice_groups_minus1 d + 1 = i_num_slice_groups e \<and> p_weighted_pred_flag d = b_weighted_pred e
    \<and> p_weighted_bipred_idc d = i_weighted_bipred_idc e \<and> p_pic_init_qs_minus26 d + 26 = i_pic_init_qs e
    \<and> p_deblocking_filter_control_present_flag d = b_deblocking_filter_control e
    \<and> p_constrained_intra_pred_flag d = b_constrained_intra_pred e
    \<and> p_redundant_pic_cnt_present_flag d = b_redundant_pic_cnt e \<and> p_pic_scaling_matrix_present_flag d = 0
    \<and> (p_second_chroma_qp_index_offset d = i_second_chroma_qp_index_offset e \<longleftrightarrow>
         b_transform_8x8_mode e \<noteq> 0 \<or> i_second_chroma_qp_index_offset e = i_chroma_qp_index_offset e)"

lemma config_pps_processed:
  assumes "pps_ok e" and "pps_dec e" and "br_wf (bitctx c)"
    and "rem_bits (bitctx c) = pps_bits e esps @ trailing_bits (length (pps_bits e esps))"
  obtains b d where "process_pps c = (MPP_OK, c\<lparr>bitctx := b, pc_pps := d, p_Vid := (p_Vid c)\<lparr>vd_ppsSet :=
      (vd_ppsSet (p_Vid c))[nat (pps_id e) := d]\<rparr>\<rparr>)" and "config_pps e d"
proof -
  define d where "d = dec_pps e (reset_curpps_data (pc_pps c))"
  have id: "0 \<le> pps_id e" "pps_id e \<le> 255" using assms(1,2) by (simp_all add: pps_ok_def ue_ok_def pps_dec_def)
  have "7 - length (pps_bits e esps) mod 8 < 8" by simp
  from process_pps_decodes [OF assms(1-3) assms(4) [unfolded trailing_bits_def] this] obtain b where
    b: "process_pps c = (MPP_OK, c\<lparr>bitctx := b, pc_pps := d, p_Vid := (p_Vid c)\<lparr>vd_ppsSet :=
      (vd_ppsSet (p_Vid c))[nat (p_pic_parameter_set_id d) := d]\<rparr>\<rparr>)"
    by (auto simp: d_def)
  have "p_pic_parameter_set_id d = pps_id e" "config_pps e d"
    using id assms(2) by (auto simp: config_pps_def d_def dec_pps_def dec_pps_more_def dec_pps_head_def pps_dec_def
      reset_curpps_data_def zero_pps_def)
  with b that show thesis by simp
qed

text \<open>
  C8: the PPS of the encoder reaches the decoder. Its identifiers, the entropy coder, the picture order flag,
  the slice groups, both numbers of references, the weighted prediction, the initial QP and QS, the chroma
  offset, the deblocking, intra prediction and redundant picture flags and the transform mode are stored
  unchanged in the slot of the PPS, without scaling lists. The second chroma offset arrives only when the 8x8 transform is on, the writer leaves it out otherwise, and the decoder then takes
  the first offset for both.
\<close>

theorem pps_reaches_decoder:
  assumes "pps_ok e" and "pps_dec e" and "br_wf (bitctx c)"
    and "rem_bits (bitctx c) = pps_bits e esps @ trailing_bits (length (pps_bits e esps))"
    and "nat (pps_id e) < length (vd_ppsSet (p_Vid c))"
  shows "\<exists>c'. process_pps c = (MPP_OK, c') \<and> vd_ppsSet (p_Vid c') ! nat (pps_id e) = pc_pps c'
    \<and> p_Valid (pc_pps c') = 1 \<and> p_seq_parameter_set_id (pc_pps c') = pps_sps_id e
    \<and> p_entropy_coding_mode_flag (pc_pps c') = b_cabac e
    \<and> p_pic_init_qp_minus26 (pc_pps c') + 26 = i_pic_init_qp e
    \<and> p_chroma_qp_index_offset (pc_pps c') = i_chroma_qp_index_offset e
    \<and> p_transform_8x8_mode_flag (pc_pps c') = b_transform_8x8_mode e
    \<and> p_num_ref_idx_l0_default_active_minus1 (pc_pps c') + 1 = i_num_ref_idx_l0_default_active e
    \<and> p_num_ref_idx_l1_default_active_minus1 (pc_pps c') + 1 = i_num_ref_idx_l1_default_active e
    \<and> p_pic_parameter_set_id (pc_pps c') = pps_id e
    \<and> p_bottom_field_pic_order_in_frame_present_flag (pc_pps c') = b_pic_order e
    \<and> p_num_slice_groups_minus1 (pc_pps c') + 1 = i_num_slice_groups e
    \<and> p_weighted_pred_flag (pc_pps c') = b_weighted_pred e
    \<and> p_weighted_bipred_idc (pc_pps c') = i_weighted_bipred_idc e
    \<and> p_pic_init_qs_minus26 (pc_pps c') + 26 = i_pic_init_qs e
    \<and> p_deblocking_filter_control_present_flag (pc_pps c') = b_deblocking_filter_control e
    \<and> p_constrained_intra_pred_flag (pc_pps c') = b_constrained_intra_pred e
    \<and> p_redundant_pic_cnt_present_flag (pc_pps c') = b_redundant_pic_cnt e
    \<and> p_pic_scaling_matrix_present_flag (pc_pps c') = 0
    \<and> (p_second_chroma_qp_index_offset (pc_pps c') = i_second_chroma_qp_index_offset e \<longleftrightarrow>
         b_transform_8x8_mode e \<noteq> 0 \<or> i_second_chroma_qp_index_offset e = i_chroma_qp_index_offset e)"
proof -
  obtain b d where b: "process_pps c = (MPP_OK, c\<lparr>bitctx := b, pc_pps := d, p_Vid := (p_Vid c)\<lparr>vd_ppsSet :=
      (vd_ppsSet (p_Vid c))[nat (pps_id e) := d]\<rparr>\<rparr>)" "config_pps e d"
    using config_pps_processed [OF assms(1-4)] .
  then show ?thesis using assms(5) by (simp add: config_pps_def)
qed

definition demo_pps_cr :: h264e_pps where
  "demo_pps_cr = demo_pps\<lparr>i_num_slice_groups := 1, i_num_ref_idx_l0_default_active := 1,
     i_num_ref_idx_l1_default_active := 1, i_pic_init_qp := 26, i_pic_init_qs := 26,
     i_second_chroma_qp_index_offset := 5\<rparr>"

lemma demo_pps_cr: "pps_ok demo_pps_cr" "pps_dec demo_pps_cr"
  by (simp_all add: demo_pps_cr_def demo_pps_def pps_ok_def pps_dec_def field_oks se_ok_def u_ok_def)

theorem pps_reaches_decoder_witness:
  "\<exists>c c'. rem_bits (bitctx c) = pps_bits demo_pps_cr demo_sps @ trailing_bits (length (pps_bits demo_pps_cr demo_sps))
     \<and> process_pps c = (MPP_OK, c') \<and> p_pic_init_qp_minus26 (pc_pps c') = 0
     \<and> p_second_chroma_qp_index_offset (pc_pps c') \<noteq> i_second_chroma_qp_index_offset demo_pps_cr"
proof -
  let ?b = "pps_bits demo_pps_cr demo_sps"
  have f: "b_transform_8x8_mode demo_pps_cr = 0" "i_second_chroma_qp_index_offset demo_pps_cr = 5"
    "i_chroma_qp_index_offset demo_pps_cr = 0" "i_pic_init_qp demo_pps_cr = 26" "b_cqm_preset demo_pps_cr = 0"
    "pps_id demo_pps_cr = 0" by (simp_all add: demo_pps_cr_def demo_pps_def)
  have "length ?b \<le> 1600" using length_pps_bits [OF demo_pps_cr(1) f(5), of demo_sps] by simp
  then obtain b where b: "br_wf b" "rem_bits b = ?b @ trailing_bits (length ?b)" using payload_reader by blast
  have c: "bitctx (new_slice b) = b" "0 < length (vd_ppsSet (p_Vid (new_slice b)))"
    by (simp_all add: new_slice_def zero_video_def)
  from pps_reaches_decoder [OF demo_pps_cr, of "new_slice b" demo_sps] b c f obtain c' where
    "process_pps (new_slice b) = (MPP_OK, c')" "p_pic_init_qp_minus26 (pc_pps c') = 0"
    "p_second_chroma_qp_index_offset (pc_pps c') \<noteq> 5" by auto
  with b(2) c(1) f(2) show ?thesis by (intro exI [of _ "new_slice b"] exI [of _ c']) simp
qed

end
