(* ===== verification/H264dSafe.thy ===== *)
theory H264dSafe
  imports H264dSpec
begin

text \<open>
  Properties of the decoder's parameter set processing that hold for any stream: scaling lists and
  matrices, the VUI timing, the picture buffer size, and what happens to refused parameter sets.
\<close>

section \<open>Scaling lists\<close>

lemma SEQ_FOR_inv:
  assumes step: "\<And>j s c s' c'. j < n \<Longrightarrow> I j s \<Longrightarrow> SEQ (body j) s c = (MPP_OK, s', c') \<Longrightarrow> I (Suc j) s'"
    and "I 0 s" and "SEQ (concat (map body [0..<n])) s c = (MPP_OK, s', c')"
  shows "I n s'"
  using assms
proof (induction n arbitrary: s' c')
  case (Suc n)
  obtain ret s1 c1 where 1: "SEQ (concat (map body [0..<n])) s c = (ret, s1, c1)" by (cases "SEQ (concat (map body [0..<n])) s c")
  with Suc.prems(3) have "ret = MPP_OK" "SEQ (body n) s1 c1 = (MPP_OK, s', c')"
    by (auto simp: SEQ_append split: if_splits)
  with Suc 1 show ?case by (metis less_Suc_eq)
qed simp

text \<open>Both scans visit every position.\<close>

lemma zz_scan_perm: "set ZZ_SCAN = {0..<16}" "set ZZ_SCAN8 = {0..<64}" "length ZZ_SCAN = 16" "length ZZ_SCAN8 = 64"
  by code_simp+

definition scaling_inv :: "nat \<Rightarrow> nat \<Rightarrow> scaling_locals \<Rightarrow> bool" where
  "scaling_inv len j l \<longleftrightarrow> length (sl_list l) = len \<and> 1 \<le> sl_last_scale l \<and> sl_last_scale l \<le> 255
     \<and> 0 \<le> sl_next_scale l \<and> sl_next_scale l \<le> 255 \<and> (sl_use_default l = 0 \<or> sl_use_default l = 1)
     \<and> (\<forall>i < j. sl_list l ! ((if len > 16 then ZZ_SCAN8 else ZZ_SCAN) ! i) \<in> {1..255})"

lemma and_255: "(x :: int) AND 255 = x mod 256"
  using take_bit_eq_mask [of 8 x] by (simp add: mask_eq_exp_minus_1 take_bit_eq_mod)

lemma scaling_body_inv:
  assumes "scaling_inv len j l" and "SEQ (scaling_body len j) l c = (MPP_OK, l', c')"
    and "(if len > 16 then ZZ_SCAN8 else ZZ_SCAN) ! j < len"
  shows "scaling_inv len (Suc j) l'"
proof -
  let ?z = "(if len > 16 then ZZ_SCAN8 else ZZ_SCAN)"
  have fin: "scaling_inv len (Suc j) (k\<lparr>sl_list := (sl_list k)[?z ! j := v], sl_last_scale := v\<rparr>)"
    if "scaling_inv len j k" "v = (if sl_next_scale k = 0 then sl_last_scale k else sl_next_scale k)" for k v
    using that assms(3) by (auto simp: scaling_inv_def nth_list_update less_Suc_eq)
  have rd: "scaling_inv len j (l\<lparr>sl_next_scale := (sl_last_scale l + d + 256) AND 255, sl_use_default := of_bool b\<rparr>)" for d b
    using assms(1) by (auto simp: scaling_inv_def and_255)
  show ?thesis
  proof (cases "sl_next_scale l = 0")
    case True
    then show ?thesis using assms(1,2) fin [of l]
      by (auto simp: scaling_body_def Let_def COND_def UPD_def)
  next
    case False
    obtain ret b d where r: "mpp_read_se c = (ret, b, d)" by (cases "mpp_read_se c")
    let ?k = "l\<lparr>sl_next_scale := (sl_last_scale l + d + 256) AND 255,
        sl_use_default := of_bool (?z ! j = 0 \<and> (sl_last_scale l + d + 256) AND 255 = 0)\<rparr>"
    have "ret = MPP_OK" "l' = ?k\<lparr>sl_list := (sl_list ?k)[?z ! j := if sl_next_scale ?k = 0 then sl_last_scale ?k else sl_next_scale ?k],
        sl_last_scale := if sl_next_scale ?k = 0 then sl_last_scale ?k else sl_next_scale ?k\<rparr>"
      using False assms(2) r by (auto simp: scaling_body_def Let_def COND_def UPD_def READ_SE_def split: if_splits)
    then show ?thesis using fin [OF rd] by simp
  qed
qed

text \<open>
  C21: a scaling list that is read without an error, of either size and whatever the bits say, is
  complete and usable: every coefficient is set to a value from 1 to 255, however early the list
  stops, and the default flag is 0 or 1.
\<close>

theorem scaling_list_complete:
  assumes "len = 16 \<or> len = 64" and "length l = len" and "parse_scalingList len (l, u) c = (MPP_OK, (l', u'), c')"
  shows "length l' = len \<and> (\<forall>k < len. l' ! k \<in> {1..255}) \<and> u' \<in> {0, 1}"
proof -
  let ?z = "(if len > 16 then ZZ_SCAN8 else ZZ_SCAN)"
  let ?l = "\<lparr>sl_list = l, sl_use_default = 0, sl_last_scale = 8, sl_next_scale = 8\<rparr>"
  obtain x where x: "SEQ (concat (map (scaling_body len) [0..<len])) ?l c = (MPP_OK, x, c')"
      "l' = sl_list x" "u' = sl_use_default x"
    using assms(3) by (auto simp: parse_scalingList_def FOR_def split: prod.splits)
  have zz: "set ?z = {0..<len}" "length ?z = len" using assms(1) zz_scan_perm by auto
  have "scaling_inv len len x"
  proof (rule SEQ_FOR_inv [where I = "scaling_inv len", OF _ _ x(1)])
    show "scaling_inv len 0 ?l" using assms(2) by (simp add: scaling_inv_def)
    fix j s c s' c'
    assume "j < len" "scaling_inv len j s" "SEQ (scaling_body len j) s c = (MPP_OK, s', c')"
    moreover from this have "?z ! j < len" using zz by (metis atLeastLessThan_iff nth_mem)
    ultimately show "scaling_inv len (Suc j) s'" using scaling_body_inv by blast
  qed
  then have inv: "length (sl_list x) = len" "\<forall>i < len. sl_list x ! (?z ! i) \<in> {1..255}" "sl_use_default x \<in> {0, 1}"
    by (simp_all add: scaling_inv_def)
  have "l' ! k \<in> {1..255}" if "k < len" for k
  proof -
    have "k \<in> set ?z" using zz(1) that by simp
    then obtain i where "i < len" "?z ! i = k" using zz(2) by (metis in_set_conv_nth)
    with inv(2) show ?thesis by (auto simp: x(2))
  qed
  with inv show ?thesis by (simp add: x(2,3))
qed

theorem scaling_list_complete_witness:
  "\<exists>l' u' c'. parse_scalingList 16 (replicate 16 0, 0) (mpp_set_bitread_ctx [0x08, 0x80] 2) = (MPP_OK, (l', u'), c')
     \<and> (\<forall>k < 16. l' ! k \<in> {1..255})"
proof -
  let ?p = "parse_scalingList 16 (replicate 16 0, 0) (mpp_set_bitread_ctx [0x08, 0x80] 2)"
  have "fst ?p = MPP_OK" by code_simp
  then obtain l' u' c' where p: "?p = (MPP_OK, (l', u'), c')" by (metis prod.collapse)
  from scaling_list_complete [OF _ _ p] show ?thesis unfolding p by simp
qed

section \<open>Timing\<close>

lemma dec_vui_timing:
  assumes "b_timing_info_present v \<noteq> 0"
  shows "vui_num_units_in_tick (dec_vui v d) = take_bit 16 (i_num_units_in_tick v)"
    "vui_time_scale (dec_vui v d) = take_bit 16 (i_time_scale v)"
    "vui_timing_info_present_flag (dec_vui v d) = b_timing_info_present v"
  using assms by (simp_all add: dec_vui_def run_if_def)

lemma take_bit_16: "take_bit 16 w = w \<longleftrightarrow> unat (w :: u32) < 2 ^ 16"
proof -
  have "take_bit 16 w = w \<longleftrightarrow> unat (take_bit 16 w) = unat w" by (auto intro: unsigned_word_eqI)
  then show ?thesis by (simp add: unsigned_take_bit_eq take_bit_nat_eq_self_iff)
qed

text \<open>
  C23: \<open>read_VUI\<close> on a VUI with timing information keeps only the low 16 bits of the two 32 bit
  timing fields: each is read as two halves into the same variable. The time base is right exactly
  when both fields are below \<open>2 ^ 16\<close>.
\<close>

theorem read_VUI_timing:
  assumes "vui_ok v" and "b_nal_hrd_parameters_present v = 0" and "b_vcl_hrd_parameters_present v = 0"
    and "b_timing_info_present v = 1" and "br_wf c" and "rem_bits c = vui_bits v @ rest"
  shows "\<exists>d c'. read_VUI vui c = (MPP_OK, d, c') \<and> rem_bits c' = rest
    \<and> vui_timing_info_present_flag d = 1
    \<and> vui_num_units_in_tick d = take_bit 16 (i_num_units_in_tick v)
    \<and> vui_time_scale d = take_bit 16 (i_time_scale v)
    \<and> (vui_num_units_in_tick d = i_num_units_in_tick v \<and> vui_time_scale d = i_time_scale v
        \<longleftrightarrow> unat (i_num_units_in_tick v) < 2 ^ 16 \<and> unat (i_time_scale v) < 2 ^ 16)"
proof -
  from decodes_parses [OF read_VUI_decodes [OF assms(1-3)] refl, of rest vui] assms(5,6)
  obtain c' where "read_VUI vui c = (MPP_OK, dec_vui v vui, c')" "br_wf c'" "rem_bits c' = rest" by (rule parsesE)
  then show ?thesis using assms(4) by (simp add: dec_vui_timing take_bit_16)
qed

definition demo_timing :: h264e_vui where
  "demo_timing = demo_vui\<lparr>b_timing_info_present := 1, i_num_units_in_tick := 1001, i_time_scale := 120000\<rparr>"

lemma demo_timing: "vui_ok demo_timing" "b_nal_hrd_parameters_present demo_timing = 0"
  "b_vcl_hrd_parameters_present demo_timing = 0" "b_timing_info_present demo_timing = 1"
  "i_time_scale demo_timing = 120000" "i_num_units_in_tick demo_timing = 1001"
  by (simp_all add: demo_timing_def demo_vui_def vui_ok_def field_oks u_ok_def ue_ok_def)

theorem read_VUI_timing_witness:
  "\<exists>c d c'. rem_bits c = vui_bits demo_timing @ trailing_bits (length (vui_bits demo_timing))
     \<and> read_VUI zero_vui c = (MPP_OK, d, c') \<and> vui_num_units_in_tick d = 1001 \<and> vui_time_scale d = 54464"
proof -
  have "length (vui_bits demo_timing) \<le> 1600" using length_vui_bits [OF demo_timing(1,2)] by simp
  then obtain b where b: "br_wf b" "rem_bits b = vui_bits demo_timing @ trailing_bits (length (vui_bits demo_timing))"
    using payload_reader by blast
  from read_VUI_timing [OF demo_timing(1-4) b, of zero_vui] obtain d c' where
    "read_VUI zero_vui b = (MPP_OK, d, c')" "vui_num_units_in_tick d = take_bit 16 1001"
    "vui_time_scale d = take_bit 16 120000" unfolding demo_timing(5,6) by blast
  moreover have "take_bit 16 (1001 :: u32) = 1001" "take_bit 16 (120000 :: u32) = 54464" by code_simp+
  ultimately show ?thesis using b(2) by metis
qed

section \<open>The size of the picture buffer\<close>

text \<open>
  C26: \<open>get_max_dec_frame_buf_size\<close> returns the error for a level it does not know, without touching
  the SPS; for a known level it divides by zero exactly when the 32 bit product of the picture dimensions
  wraps to 0, and otherwise sets a size of at most 16 frames and nothing else.
\<close>

theorem dec_frame_buf_size_cases:
  "if \<not> level_known (s_level_idc s) then get_max_dec_frame_buf_size s = Some (MPP_NOK, s)
   else if wrap32 ((s_pic_width_in_mbs_minus1 s + 1) * (s_pic_height_in_map_units_minus1 s + 1)
     * (if s_frame_mbs_only_flag s \<noteq> 0 then 1 else 2) * 384) = 0 then get_max_dec_frame_buf_size s = None
   else \<exists>n \<le> 16. get_max_dec_frame_buf_size s = Some (MPP_OK, s\<lparr>s_max_dec_frame_buffering := n\<rparr>)"
proof (cases "level_buf_size s")
  case None
  then have "\<not> level_known (s_level_idc s)" using level_buf_size_known(1) [of s] by simp
  then show ?thesis by (simp add: get_max_dec_frame_buf_size_def None)
next
  case (Some n)
  then have "level_known (s_level_idc s)" using level_buf_size_known(1) [of s] by simp
  then show ?thesis
    by (auto simp: get_max_dec_frame_buf_size_def Some Let_def intro!: exI [of _ "min _ 16"])
qed

text \<open>
  C28: a well-formed SPS can stop the decoder. For the SPS of a frame picture of 8192 by 4096
  macroblocks at a known level, which the parser accepts, the product wraps and \<open>process_sps\<close>
  divides by zero.
\<close>

theorem oversized_sps_divides_by_zero:
  assumes "sps_ok e" and "sps_dec e" and "i_mb_width e = 8192" and "i_mb_height e = 4096"
    and "b_frame_mbs_only e = 1" and "level_known (i_level_idc e)"
    and "br_wf (bitctx c)" and "rem_bits (bitctx c) = sps_bits e @ rest"
  shows "process_sps c = None"
proof -
  let ?d = "dec_sps e (reset_cur_sps_data (pc_sps c))"
  let ?s = "\<lparr>cur_sps = reset_cur_sps_data (pc_sps c), un_spt_flag = un_spt c\<rparr>"
  have cf: "i_chroma_format_idc e = 1" using assms(2) by (simp add: sps_dec_def)
  note sets = dec_sps_sets(2,10-12) [OF cf, of "reset_cur_sps_data (pc_sps c)"]
  obtain n where "level_buf_size ?d = Some n" using assms(6) level_buf_size_known(1) [of ?d] by (auto simp: sets)
  moreover have "wrap32 (8192 * 4096 * 384) = 0" by code_simp
  ultimately have g: "get_max_dec_frame_buf_size ?d = None"
    by (simp add: get_max_dec_frame_buf_size_def sets assms(3-5) Let_def)
  from decodes_parses [OF parser_sps_decodes [OF assms(1,2)] refl, of rest ?s] assms(7,8)
  obtain b where "parser_sps ?s (bitctx c) = (MPP_OK, in_sps (dec_sps e) ?s, b)" by (rule parsesE)
  then show ?thesis using g by (simp add: process_sps_def Let_def)
qed

definition big_sps :: h264e_sps where
  "big_sps = demo_sps\<lparr>i_profile_idc := 77, i_level_idc := 51, i_mb_width := 8192, i_mb_height := 4096,
     b_frame_mbs_only := 1, i_chroma_format_idc := 1, i_log2_max_frame_num := 4, i_log2_max_poc_lsb := 4\<rparr>"

lemma big_sps: "sps_ok big_sps" "sps_dec big_sps" "i_mb_width big_sps = 8192" "i_mb_height big_sps = 4096"
  "b_frame_mbs_only big_sps = 1" "level_known (i_level_idc big_sps)"
  "b_nal_hrd_parameters_present (sps_vui big_sps) = 0"
  by (simp_all add: big_sps_def demo_sps_def demo_vui_def sps_ok_def sps_dec_def field_oks u_ok_def ue_ok_def
      sps_profile_accepted_def level_known_def)

theorem oversized_sps_divides_by_zero_witness:
  "\<exists>b. rem_bits b = sps_bits big_sps @ trailing_bits (length (sps_bits big_sps)) \<and> process_sps (new_slice b) = None"
proof -
  have "length (sps_bits big_sps) \<le> 1600" by (rule length_sps_bits [OF big_sps(1,7)])
  then obtain b where b: "br_wf b" "rem_bits b = sps_bits big_sps @ trailing_bits (length (sps_bits big_sps))"
    using payload_reader by blast
  have "bitctx (new_slice b) = b" by (simp add: new_slice_def)
  with oversized_sps_divides_by_zero [OF big_sps(1-6), of "new_slice b"] b show ?thesis by auto
qed

section \<open>Errors\<close>

text \<open>
  C29: a parameter set that is refused, for whatever reason, is not stored: when \<open>process_sps\<close>,
  \<open>process_subsps\<close> or \<open>process_pps\<close> return an error, the video context with all its
  parameter sets is as before, and the subset SPS that was being parsed is marked invalid.
\<close>

theorem refused_sets_not_stored:
  "(\<forall>ret c'. process_sps c = Some (ret, c') \<longrightarrow> ret \<noteq> MPP_OK \<longrightarrow> p_Vid c' = p_Vid c)
   \<and> (\<forall>ret c'. process_subsps c = Some (ret, c') \<longrightarrow> ret \<noteq> MPP_OK \<longrightarrow> p_Vid c' = p_Vid c \<and> ss_Valid (pc_subsps c') = 0)
   \<and> (\<forall>ret c'. process_pps c = (ret, c') \<longrightarrow> ret \<noteq> MPP_OK \<longrightarrow> p_Vid c' = p_Vid c)"
  by (auto simp: process_sps_def process_subsps_def process_pps_def recycle_subsps_def Let_def
      split: prod.splits option.splits if_splits)

theorem refused_sets_not_stored_witness:
  "\<exists>ret c'. process_sps (new_slice (mpp_set_bitread_ctx [0x4d] 1)) = Some (ret, c') \<and> ret \<noteq> MPP_OK \<and> p_Vid c' = zero_video"
proof -
  let ?c = "new_slice (mpp_set_bitread_ctx [0x4d] 1)"
  have "map_option fst (process_sps ?c) \<noteq> Some MPP_OK \<and> process_sps ?c \<noteq> None" by code_simp
  then obtain ret c' where p: "process_sps ?c = Some (ret, c')" "ret \<noteq> MPP_OK" by (cases "process_sps ?c") auto
  moreover have "p_Vid ?c = zero_video" by (simp add: new_slice_def)
  ultimately show ?thesis using refused_sets_not_stored [of ?c] by auto
qed

section \<open>Scaling matrices\<close>

text \<open>
  The fall-back rules of the standard as recursions on the index of the list: rule A for the SPS,
  rule B for the PPS when the SPS has lists of its own.
\<close>

definition default_list :: "nat \<Rightarrow> int list" where
  "default_list i = (if i < 3 then Default4x4Intra else if i < 6 then Default4x4Inter
     else if even i then Default8x8Intra else Default8x8Inter)"

fun sps_list :: "h264_sps \<Rightarrow> nat \<Rightarrow> int list" where
  "sps_list sps i =
    (if s_seq_scaling_list_present_flag sps ! i = 0 then
       (if i \<in> {0, 3, 6, 7} then default_list i
        else sps_list sps (if i < 6 then i - 1 else i - 2))
     else if i < 6 then
       (if s_UseDefaultScalingMatrix4x4Flag sps ! i \<noteq> 0 then default_list i else s_ScalingList4x4 sps ! i)
     else
       (if s_UseDefaultScalingMatrix8x8Flag sps ! (i - 6) \<noteq> 0 then default_list i else s_ScalingList8x8 sps ! (i - 6)))"

fun pps_list :: "h264_sps \<Rightarrow> h264_pps \<Rightarrow> nat \<Rightarrow> int list" where
  "pps_list sps pps i =
    (if p_pic_scaling_list_present_flag pps ! i = 0 then
       (if i \<in> {0, 3, 6, 7} then
          (if s_seq_scaling_matrix_present_flag sps = 0 then default_list i else sps_list sps i)
        else pps_list sps pps (if i < 6 then i - 1 else i - 2))
     else if i < 6 then
       (if p_UseDefaultScalingMatrix4x4Flag pps ! i \<noteq> 0 then default_list i else p_ScalingList4x4 pps ! i)
     else
       (if p_UseDefaultScalingMatrix8x8Flag pps ! (i - 6) \<noteq> 0 then default_list i else p_ScalingList8x8 pps ! (i - 6)))"

declare sps_list.simps [simp del] pps_list.simps [simp del]

lemma fold_upt_inv:
  assumes "\<And>i q. m \<le> i \<Longrightarrow> i < n \<Longrightarrow> P i q \<Longrightarrow> P (Suc i) (f i q)" and "P m q" and "m \<le> n"
  shows "P n (fold f [m..<n] q)"
  using assms(3,1,2)
proof (induction n rule: dec_induct)
  case (step n)
  then show ?case by (simp add: less_Suc_eq)
qed simp

text \<open>The array holds the lists below \<open>n\<close> of \<open>f\<close> and is as before from \<open>n\<close> on.\<close>

definition filled :: "(nat \<Rightarrow> int list) \<Rightarrow> int list list \<Rightarrow> nat \<Rightarrow> int list list \<Rightarrow> bool" where
  "filled f q0 n q \<longleftrightarrow> length q = 12 \<and> (\<forall>j < n. q ! j = f j) \<and> (\<forall>j < 12. n \<le> j \<longrightarrow> q ! j = q0 ! j)"

lemma filled_update: "filled f q0 n q \<Longrightarrow> n < 12 \<Longrightarrow> x = f n \<Longrightarrow> filled f q0 (Suc n) (q[n := x])"
  by (auto simp: filled_def nth_list_update less_Suc_eq)

lemma filled_keep: "filled f q0 n q \<Longrightarrow> n < 12 \<Longrightarrow> q0 ! n = f n \<Longrightarrow> filled f q0 (Suc n) q"
  by (auto simp: filled_def less_Suc_eq)

lemma filled_nth: "filled f q0 n q \<Longrightarrow> j < n \<Longrightarrow> q ! j = f j"
  by (simp add: filled_def)

lemma default_list_8x8:
  assumes "6 \<le> i" and "i < 12"
  shows "default_list i = (if i = 6 \<or> i = 8 \<or> i = 10 then Default8x8Intra else Default8x8Inter)"
proof -
  have "even i \<longleftrightarrow> i = 6 \<or> i = 8 \<or> i = 10" using assms by presburger
  then show ?thesis using assms(1) by (simp add: default_list_def)
qed

lemma default_list_firsts:
  "default_list 0 = Default4x4Intra" "default_list 3 = Default4x4Inter"
  "default_list 6 = Default8x8Intra" "default_list 7 = Default8x8Inter"
  by (simp_all add: default_list_def)

lemma default_list_4x4: "i < 6 \<Longrightarrow> default_list i = (if i < 3 then Default4x4Intra else Default4x4Inter)"
  by (simp add: default_list_def)

lemma sps_step:
  assumes "filled (sps_list sps) q0 i q" and "i < 12"
  shows "filled (sps_list sps) q0 (Suc i) (sps_qmatrix_step sps i q)"
proof -
  have u: "filled (sps_list sps) q0 (Suc i) (q[i := x])" if "x = sps_list sps i" for x
    using filled_update [OF assms that] .
  have prev: "0 < i \<Longrightarrow> q ! (i - 1) = sps_list sps (i - 1)" "\<not> i < 6 \<Longrightarrow> q ! (i - 2) = sps_list sps (i - 2)"
    using filled_nth [OF assms(1)] by simp_all
  have "sps_qmatrix_step sps i q = q[i := sps_list sps i]"
  proof (cases "i < 6")
    case True
    then show ?thesis using prev(1)
      by (simp add: sps_qmatrix_step_def sps_list.simps [of sps i] default_list_4x4 default_list_firsts)
  next
    case False
    then show ?thesis using prev(2) assms(2)
      by (simp add: sps_qmatrix_step_def sps_list.simps [of sps i] default_list_8x8)
  qed
  with u show ?thesis by simp
qed

lemma pps_step:
  assumes "filled (pps_list sps pps) q0 i q" and "i < 12"
    and "i \<in> {0, 3, 6, 7} \<Longrightarrow> s_seq_scaling_matrix_present_flag sps \<noteq> 0 \<Longrightarrow> q0 ! i = sps_list sps i"
  shows "filled (pps_list sps pps) q0 (Suc i) (pps_qmatrix_step sps pps i q)"
proof (cases "p_pic_scaling_list_present_flag pps ! i = 0 \<and> i \<in> {0, 3, 6, 7} \<and> s_seq_scaling_matrix_present_flag sps \<noteq> 0")
  case True
  then have "q0 ! i = pps_list sps pps i" using assms(3) by (simp add: pps_list.simps [of sps pps i])
  moreover have "pps_qmatrix_step sps pps i q = q" using True by (auto simp: pps_qmatrix_step_def)
  ultimately show ?thesis using filled_keep [OF assms(1,2)] by simp
next
  case False
  have prev: "0 < i \<Longrightarrow> q ! (i - 1) = pps_list sps pps (i - 1)" "\<not> i < 6 \<Longrightarrow> q ! (i - 2) = pps_list sps pps (i - 2)"
    using filled_nth [OF assms(1)] by simp_all
  have "pps_qmatrix_step sps pps i q = q[i := pps_list sps pps i]"
  proof (cases "i < 6")
    case True
    then show ?thesis using prev(1) False
      by (auto simp: pps_qmatrix_step_def pps_list.simps [of sps pps i] default_list_4x4 default_list_firsts)
  next
    case False
    then show ?thesis using prev(2) assms(2) \<open>\<not> (_ \<and> _ \<and> _)\<close>
      by (auto simp: pps_qmatrix_step_def pps_list.simps [of sps pps i] default_list_8x8)
  qed
  with filled_update [OF assms(1,2)] show ?thesis by simp
qed

lemma set_matrix_filled:
  assumes "\<And>i q. i < 12 \<Longrightarrow> filled f q0 i q \<Longrightarrow> filled f q0 (Suc i) (g i q)" and "length q0 = 12" and "6 \<le> n" and "n \<le> 12"
  shows "filled f q0 n (fold g [6..<n] (fold g [0..<6] q0))"
proof (rule fold_upt_inv [where P = "filled f q0"])
  have "filled f q0 0 q0" using assms(2) by (simp add: filled_def)
  then show "filled f q0 6 (fold g [0..<6] q0)"
    by (intro fold_upt_inv [where P = "filled f q0"]) (simp_all add: assms(1))
  show "filled f q0 (Suc i) (g i q)" if "6 \<le> i" "i < n" "filled f q0 i q" for i q
    using that assms(1,4) by simp
qed (rule assms(3))

text \<open>
  C22: \<open>prepare_init_scanlist\<close> implements the fall-back rules of the standard: the matrices are flat when
  neither parameter set has any, else every list of the chroma format (8, or 12 for 4:4:4) is the one the
  rules give, from the PPS when it has a matrix, inheriting from the SPS, or else from the SPS.
\<close>

theorem scanlist_fallback_rules:
  assumes "length (vd_qmatrix v) = 12" and "i < (if s_chroma_format_idc sps \<noteq> 3 then 8 else 12)"
  shows "vd_qmatrix (prepare_init_scanlist sps pps v) ! i =
    (if p_pic_scaling_matrix_present_flag pps \<noteq> 0 then pps_list sps pps i
     else if s_seq_scaling_matrix_present_flag sps \<noteq> 0 then sps_list sps i
     else if i < 6 then Default4x4 else Default8x8)"
proof -
  define n :: nat where "n = (if s_chroma_format_idc sps \<noteq> 3 then 8 else 12)"
  have n: "6 \<le> n" "n \<le> 12" "8 \<le> n" and i: "i < n" using assms(2) by (simp_all add: n_def)
  let ?q = "vd_qmatrix v"
  have s: "filled (sps_list sps) ?q n (set_sps_scanlist_matrix sps ?q)"
    unfolding set_sps_scanlist_matrix_def n_def [symmetric]
    by (rule set_matrix_filled) (simp_all add: sps_step assms(1) n)
  have p: "filled (pps_list sps pps) q n (set_pps_scanlist_matrix sps pps q)"
    if "length q = 12" "\<And>j. j \<in> {0, 3, 6, 7} \<Longrightarrow> s_seq_scaling_matrix_present_flag sps \<noteq> 0 \<Longrightarrow> q ! j = sps_list sps j" for q
    unfolding set_pps_scanlist_matrix_def n_def [symmetric]
    by (rule set_matrix_filled [OF _ that(1) n(1,2)]) (rule pps_step [OF _ _ that(2)])
  have flat: "filled (\<lambda>i. if i < 6 then Default4x4 else Default8x8) ?q 12
      (fold (\<lambda>i q. q[i := (if i < 6 then Default4x4 else Default8x8)]) [0..<12] ?q)"
  proof (rule fold_upt_inv [where P = "filled (\<lambda>i. if i < 6 then Default4x4 else Default8x8) ?q"])
    show "filled (\<lambda>i. if i < 6 then Default4x4 else Default8x8) ?q 0 ?q" using assms(1) by (simp add: filled_def)
  qed (simp_all add: filled_update)
  show ?thesis
  proof (cases "p_pic_scaling_matrix_present_flag pps = 0")
    case True
    then show ?thesis using filled_nth [OF s i] filled_nth [OF flat, of i] i n
      by (simp add: prepare_init_scanlist_def Let_def)
  next
    case False
    let ?r = "if s_seq_scaling_matrix_present_flag sps \<noteq> 0 then set_sps_scanlist_matrix sps ?q else ?q"
    have "filled (pps_list sps pps) ?r n (set_pps_scanlist_matrix sps pps ?r)"
      using s assms(1) n filled_nth [OF s] by (intro p) (auto simp: filled_def)
    with False show ?thesis using filled_nth i by (simp add: prepare_init_scanlist_def Let_def)
  qed
qed

theorem scanlist_fallback_rules_witness:
  "vd_qmatrix (prepare_init_scanlist (zero_sps\<lparr>s_seq_scaling_matrix_present_flag := 1, s_chroma_format_idc := 1\<rparr>)
     zero_pps zero_video) ! 4 = Default4x4Inter"
  using scanlist_fallback_rules [of zero_video 4 "zero_sps\<lparr>s_seq_scaling_matrix_present_flag := 1, s_chroma_format_idc := 1\<rparr>"
    zero_pps]
  by (simp add: zero_video_def zero_sps_def zero_pps_def sps_list.simps default_list_def)

end
