(* ===== verification/VepuHeader.thy ===== *)
theory VepuHeader
  imports RkvExtra
begin

text \<open>
  Header generation of the VEPU encoder, mpp/hal/vpu/h264e/hal_h264e_header.c: the byte oriented
  stream writer with its own emulation prevention, the SPS, PPS and SEI writers, and the extra
  info. \<open>vpu_stream\<close> is \<open>H264eVpuStream\<close>: the pointer \<open>stream\<close> is an offset into the buffer,
  counters that are never negative are \<open>nat\<close>; \<open>bit_cnt\<close> is never used. \<open>mpp_assert\<close> logs, and
  aborts only under a debugging flag.
\<close>

section \<open>The stream\<close>

record vpu_stream =
  vs_buffer :: "u8 list"
  vs_stream :: nat
  vs_size :: nat
  vs_byte_cnt :: nat
  vs_byte_buffer :: u32
  vs_buffered_bits :: nat
  vs_zero_bytes :: nat
  vs_overflow :: int
  vs_emul_cnt :: nat

definition vpu_stream_buffer_status :: "vpu_stream \<Rightarrow> mpp_ret \<times> vpu_stream" where
  "vpu_stream_buffer_status s =
    (if vs_byte_cnt s + 5 > vs_size s then (MPP_NOK, s\<lparr>vs_overflow := 1\<rparr>) else (MPP_OK, s))"

definition vpu_stream_buffer_reset :: "vpu_stream \<Rightarrow> vpu_stream" where
  "vpu_stream_buffer_reset s = s\<lparr>vs_stream := 0, vs_byte_cnt := 0, vs_overflow := 0, vs_byte_buffer := 0,
     vs_buffered_bits := 0, vs_zero_bytes := 0, vs_emul_cnt := 0\<rparr>"

definition vpu_stream_buffer_init :: "nat \<Rightarrow> mpp_ret \<times> vpu_stream" where
  "vpu_stream_buffer_init sz =
    (case vpu_stream_buffer_status
        \<lparr>vs_buffer = replicate sz 0, vs_stream = 0, vs_size = sz, vs_byte_cnt = 0, vs_byte_buffer = 0,
         vs_buffered_bits = 0, vs_zero_bytes = 0, vs_overflow = 0, vs_emul_cnt = 0\<rparr> of
       (ret, s) \<Rightarrow> (if ret \<noteq> MPP_OK then MPP_NOK else MPP_OK, s))"

text \<open>The loop that writes out the full bytes; without and with the detection of start codes.\<close>

function put_bytes :: "nat \<Rightarrow> u32 \<Rightarrow> vpu_stream \<Rightarrow> nat \<times> u32 \<times> vpu_stream" where
  "put_bytes bits byte_buffer s =
    (if bits > 7
     then put_bytes (bits - 8) (push_bit 8 byte_buffer)
            (s\<lparr>vs_buffer := (vs_buffer s)[vs_stream s := ucast (drop_bit 24 byte_buffer)],
               vs_stream := vs_stream s + 1, vs_byte_cnt := vs_byte_cnt s + 1\<rparr>)
     else (bits, byte_buffer, s))"
  by pat_completeness auto
termination by (relation "measure fst") auto

definition vpu_stream_put_bits :: "nat \<Rightarrow> u32 \<Rightarrow> vpu_stream \<Rightarrow> vpu_stream" where
  "vpu_stream_put_bits number v s =
    (case vpu_stream_buffer_status s of (ret, s) \<Rightarrow>
       if ret \<noteq> MPP_OK then s
       else case put_bytes (number + vs_buffered_bits s)
              (vs_byte_buffer s OR push_bit (32 - (number + vs_buffered_bits s)) v) s of
         (bits, byte_buffer, s) \<Rightarrow> s\<lparr>vs_byte_buffer := byte_buffer, vs_buffered_bits := bits\<rparr>)"

definition put_byte_with_detect :: "u8 \<Rightarrow> vpu_stream \<Rightarrow> vpu_stream" where
  "put_byte_with_detect b s =
    (let p = vs_stream s; buf = (vs_buffer s)[p := b]; byteCnt = vs_byte_cnt s + 1;
         (p, buf, byteCnt, zeroBytes, emul) =
           (if vs_zero_bytes s = 2 \<and> b < 4
            then (p + 1, buf[p := 3, p + 1 := b], byteCnt + 1, 0, vs_emul_cnt s + 1)
            else (p, buf, byteCnt, vs_zero_bytes s, vs_emul_cnt s))
     in s\<lparr>vs_buffer := buf, vs_stream := p + 1, vs_byte_cnt := byteCnt, vs_emul_cnt := emul,
          vs_zero_bytes := (if b = 0 then zeroBytes + 1 else 0)\<rparr>)"

text \<open>A full buffer ends the function at once; the last two assignments are then skipped.\<close>

function put_bytes_with_detect :: "nat \<Rightarrow> u32 \<Rightarrow> vpu_stream \<Rightarrow> vpu_stream" where
  "put_bytes_with_detect bits byte_buffer s =
    (if bits > 7 then
       (case vpu_stream_buffer_status s of (ret, s) \<Rightarrow>
          if ret \<noteq> MPP_OK then s
          else put_bytes_with_detect (bits - 8) (push_bit 8 byte_buffer)
                 (put_byte_with_detect (ucast (drop_bit 24 byte_buffer)) s))
     else s\<lparr>vs_buffered_bits := bits, vs_byte_buffer := byte_buffer\<rparr>)"
  by pat_completeness auto
termination by (relation "measure fst") auto

declare put_bytes.simps [simp del] put_bytes_with_detect.simps [simp del]

definition vpu_stream_put_bits_with_detect :: "nat \<Rightarrow> u32 \<Rightarrow> vpu_stream \<Rightarrow> vpu_stream" where
  "vpu_stream_put_bits_with_detect number v s =
    put_bytes_with_detect (number + vs_buffered_bits s)
      (vs_byte_buffer s OR push_bit (32 - (number + vs_buffered_bits s)) v) s"

definition vpu_rbsp_trailing_bits :: "vpu_stream \<Rightarrow> vpu_stream" where
  "vpu_rbsp_trailing_bits s =
    (let s = vpu_stream_put_bits_with_detect 1 1 s
     in if vs_buffered_bits s > 0 then vpu_stream_put_bits_with_detect (8 - vs_buffered_bits s) 0 s else s)"

section \<open>Exp-Golomb codes\<close>

text \<open>
  \<open>while (val >> ++num_bits)\<close>: the first count from 1 on that shifts everything out. For a value of
  \<open>2 ^ 31\<close> or more the source comes to \<open>val >> 32\<close>, which C leaves undefined; here it is taken as 0, so that
  what is defined for these values holds only for a compiler that does the same. No property relies on it:
  they speak of values below \<open>2 ^ 31 - 1\<close>.
\<close>

definition count_bits :: "u32 \<Rightarrow> nat" where
  "count_bits v = max 1 (bit_len (unat v))"

definition vpu_write_ue :: "u32 \<Rightarrow> vpu_stream \<Rightarrow> vpu_stream" where
  "vpu_write_ue v s =
    (let v = v + 1; num_bits = count_bits v in
     if num_bits > 12 then
       let tmp = num_bits - 1;
           (tmp, s) = (if tmp > 24 then (tmp - 24, vpu_stream_put_bits_with_detect 24 0 s) else (tmp, s));
           s = vpu_stream_put_bits_with_detect tmp 0 s;
           (num_bits, v, s) =
             (if num_bits > 24
              then let num_bits = num_bits - 24
                   in (num_bits, drop_bit num_bits v,
                       vpu_stream_put_bits_with_detect 24 (drop_bit num_bits v) s)
              else (num_bits, v, s))
       in vpu_stream_put_bits_with_detect num_bits v s
     else vpu_stream_put_bits_with_detect (2 * num_bits - 1) v s)"

definition vpu_write_se :: "int \<Rightarrow> vpu_stream \<Rightarrow> vpu_stream" where
  "vpu_write_se v = vpu_write_ue (word_of_int (if v > 0 then 2 * v - 1 else - 2 * v))"

section \<open>NAL units\<close>

definition h264e_vpu_nal_start :: "int \<Rightarrow> int \<Rightarrow> vpu_stream \<Rightarrow> vpu_stream" where
  "h264e_vpu_nal_start nalRefIdc nalUnitType = run [
    vpu_stream_put_bits 8 0,
    vpu_stream_put_bits 8 0,
    vpu_stream_put_bits 8 0,
    vpu_stream_put_bits 8 1,
    vpu_stream_put_bits 1 0,
    vpu_stream_put_bits 2 (word_of_int nalRefIdc),
    vpu_stream_put_bits 5 (word_of_int nalUnitType),
    \<lambda>s. s\<lparr>vs_zero_bytes := 0\<rparr>]"

text \<open>The writer calls with the conversion of their signed arguments.\<close>

definition vput :: "nat \<Rightarrow> int \<Rightarrow> vpu_stream \<Rightarrow> vpu_stream" where
  "vput n x = vpu_stream_put_bits_with_detect n (word_of_int x)"
definition vue :: "int \<Rightarrow> vpu_stream \<Rightarrow> vpu_stream" where
  "vue x = vpu_write_ue (word_of_int x)"

definition vpu_vui_elements :: "h264e_vui \<Rightarrow> vpu_stream \<Rightarrow> vpu_stream" where
  "vpu_vui_elements v = run [
    vput 1 (b_aspect_ratio_info_present v),
    vput 1 (b_overscan_info_present v),
    vput 1 (b_signal_type_present v),
    vput 1 (b_chroma_loc_info_present v),
    vput 1 (b_timing_info_present v),
    vpu_stream_put_bits_with_detect 16 (drop_bit 16 (i_num_units_in_tick v)),
    vpu_stream_put_bits_with_detect 16 (i_num_units_in_tick v AND 0xffff),
    vpu_stream_put_bits_with_detect 16 (drop_bit 16 (i_time_scale v)),
    vpu_stream_put_bits_with_detect 16 (i_time_scale v AND 0xffff),
    vput 1 (b_fixed_frame_rate v),
    vput 1 (b_nal_hrd_parameters_present v),
    vput 1 (b_vcl_hrd_parameters_present v),
    vput 1 (b_pic_struct_present v),
    vput 1 (b_bitstream_restriction v),
    run_if (b_bitstream_restriction v \<noteq> 0)
      [vput 1 (b_motion_vectors_over_pic_boundaries v),
       vue (i_max_bytes_per_pic_denom v),
       vue (i_max_bits_per_mb_denom v),
       vue (i_log2_max_mv_length_horizontal v),
       vue (i_log2_max_mv_length_vertical v),
       vue (i_num_reorder_frames v),
       vue (i_max_dec_frame_buffering v)]]"

definition vpu_sps_elements :: "h264e_sps \<Rightarrow> vpu_stream \<Rightarrow> vpu_stream" where
  "vpu_sps_elements sps = run [
    vput 8 (i_profile_idc sps),
    vput 1 (b_constraint_set0 sps),
    vput 1 (b_constraint_set1 sps),
    vput 1 (b_constraint_set2 sps),
    vput 1 (b_constraint_set3 sps),
    vput 4 0,
    vput 8 (i_level_idc sps),
    vue (sps_id sps),
    run_if (i_profile_idc sps \<ge> 100)
      [vue (i_chroma_format_idc sps),
       vue (8 - 8),
       vue (8 - 8),
       vput 1 (b_qpprime_y_zero_transform_bypass sps),
       vput 1 0],
    vue (i_log2_max_frame_num sps - 4),
    vue (i_poc_type sps),
    vue (i_num_ref_frames sps),
    vput 1 (b_gaps_in_frame_num_value_allowed sps),
    vue (i_mb_width sps - 1),
    vue (i_mb_height sps - 1),
    vput 1 (b_frame_mbs_only sps),
    vput 1 (b_direct8x8_inference sps),
    vput 1 (b_crop sps),
    run_if (b_crop sps \<noteq> 0)
      [vue (crop_left (sps_crop sps) sdiv 2),
       vue (crop_right (sps_crop sps) sdiv 2),
       vue (crop_top (sps_crop sps) sdiv 2),
       vue (crop_bottom (sps_crop sps) sdiv 2)],
    vput 1 (b_vui (sps_vui sps)),
    run_if (b_vui (sps_vui sps) \<noteq> 0) [vpu_vui_elements (sps_vui sps)]]"


definition hal_h264e_vpu_write_sps :: "h264e_sps \<Rightarrow> vpu_stream \<Rightarrow> vpu_stream" where
  "hal_h264e_vpu_write_sps sps = run [
    h264e_vpu_nal_start 1 H264E_NAL_SPS,
    vpu_sps_elements sps,
    vpu_rbsp_trailing_bits]"

definition vpu_pps_elements :: "h264e_pps \<Rightarrow> vpu_stream \<Rightarrow> vpu_stream" where
  "vpu_pps_elements pps = run [
    vue (pps_id pps),
    vue (pps_sps_id pps),
    vput 1 (b_cabac pps),
    vput 1 (b_pic_order pps),
    vue (i_num_slice_groups pps - 1),
    vue (i_num_ref_idx_l0_default_active pps - 1),
    vue (i_num_ref_idx_l1_default_active pps - 1),
    vput 1 (b_weighted_pred pps),
    vput 2 (i_weighted_bipred_idc pps),
    vpu_write_se (i_pic_init_qp pps - 26),
    vpu_write_se (i_pic_init_qs pps - 26),
    vpu_write_se (i_chroma_qp_index_offset pps),
    vput 1 (b_deblocking_filter_control pps),
    vput 1 (b_constrained_intra_pred pps),
    vput 1 (b_redundant_pic_cnt pps),
    run_if (b_transform_8x8_mode pps \<noteq> 0)
      [vput 1 (b_transform_8x8_mode pps),
       vput 1 (b_cqm_preset pps),
       vpu_write_se (i_chroma_qp_index_offset pps)]]"

definition hal_h264e_vpu_write_pps :: "h264e_pps \<Rightarrow> vpu_stream \<Rightarrow> vpu_stream" where
  "hal_h264e_vpu_write_pps pps = run [
    h264e_vpu_nal_start 1 H264E_NAL_PPS,
    vpu_pps_elements pps,
    vpu_rbsp_trailing_bits]"

section \<open>SEI and extra info\<close>

function vpu_sei_ff_loop :: "nat \<Rightarrow> nat \<Rightarrow> vpu_stream \<Rightarrow> nat \<times> vpu_stream" where
  "vpu_sei_ff_loop i n s = (if i + 255 \<le> n then vpu_sei_ff_loop (i + 255) n (vput 8 0xff s) else (i, s))"
  by pat_completeness auto
termination by (relation "measure (\<lambda>(i, n, _). n - i)") auto

declare vpu_sei_ff_loop.simps [simp del]

definition hal_h264e_vpu_write_sei :: "u8 list \<Rightarrow> nat \<Rightarrow> nat \<Rightarrow> vpu_stream \<Rightarrow> vpu_stream" where
  "hal_h264e_vpu_write_sei payload payload_size payload_type s =
    (let s = h264e_vpu_nal_start 0 H264E_NAL_SEI s;
         (i, s) = vpu_sei_ff_loop 0 payload_type s;
         s = vput 8 (int payload_type - int i) s;
         (i, s) = vpu_sei_ff_loop 0 payload_size s;
         s = vput 8 (int payload_size - int i) s;
         s = run (map (\<lambda>i. vput 8 (uint (payload ! i))) [0..<payload_size]) s
     in vpu_rbsp_trailing_bits s)"

record vpu_extra_info =
  vx_sps_stream :: vpu_stream
  vx_pps_stream :: vpu_stream
  vx_sei_stream :: vpu_stream
  vx_sps :: h264e_sps
  vx_pps :: h264e_pps
  vx_sei_buf :: "u8 list"
  vx_sei_change_flg :: u32

text \<open>The UUID; \<open>text\<close> is what \<open>h264e_sei_pack2str\<close> prints behind it, \<open>strlen\<close> stops at its zero.\<close>

definition vpu_sei_uuid :: "u8 list" where
  "vpu_sei_uuid = [
    0x63, 0xfc, 0x6a, 0x3c, 0xd8, 0x5c, 0x44, 0x1e,
    0x87, 0xfb, 0x3f, 0xab, 0xec, 0xb3, 0xb6, 0x77]"

definition h264e_vpu_sei_encode :: "u8 list \<Rightarrow> vpu_extra_info \<Rightarrow> mpp_ret \<times> vpu_extra_info" where
  "h264e_vpu_sei_encode text info =
    (let str = store (vx_sei_buf info) 16 (text @ [0]);
         info = info\<lparr>vx_sei_buf := str\<rparr>;
         str_len = strlen str + 1
     in if str_len > H264E_SEI_BUF_SIZE then (MPP_NOK, info)
        else (MPP_OK, info\<lparr>vx_sei_stream := hal_h264e_vpu_write_sei str str_len 5 (vx_sei_stream info)\<rparr>))"

definition h264e_vpu_init_extra_info :: "vpu_extra_info \<Rightarrow> mpp_ret \<times> vpu_extra_info" where
  "h264e_vpu_init_extra_info info =
    (case vpu_stream_buffer_init 128 of (ret, s) \<Rightarrow>
       let info = info\<lparr>vx_sps_stream := s\<rparr> in
       if ret \<noteq> MPP_OK then (MPP_NOK, info)
       else case vpu_stream_buffer_init 128 of (ret, s) \<Rightarrow>
         let info = info\<lparr>vx_pps_stream := s\<rparr> in
         if ret \<noteq> MPP_OK then (MPP_NOK, info)
         else case vpu_stream_buffer_init H264E_SEI_BUF_SIZE of (ret, s) \<Rightarrow>
           let info = info\<lparr>vx_sei_stream := s\<rparr> in
           if ret \<noteq> MPP_OK then (MPP_NOK, info)
           else (MPP_OK, info\<lparr>vx_sei_buf := store (replicate H264E_SEI_BUF_SIZE 0) 0 vpu_sei_uuid\<rparr>))"

definition h264e_vpu_deinit_extra_info :: "vpu_extra_info \<Rightarrow> vpu_extra_info" where
  "h264e_vpu_deinit_extra_info info = info\<lparr>vx_sps_stream := (vx_sps_stream info)\<lparr>vs_buffer := []\<rparr>,
     vx_pps_stream := (vx_pps_stream info)\<lparr>vs_buffer := []\<rparr>,
     vx_sei_stream := (vx_sei_stream info)\<lparr>vs_buffer := []\<rparr>, vx_sei_buf := []\<rparr>"

datatype sei_mode = MPP_ENC_SEI_MODE_DISABLE | MPP_ENC_SEI_MODE_ONE_SEQ | MPP_ENC_SEI_MODE_ONE_FRAME

definition H264E_SEI_CHG_SPSPPS :: u32 where "H264E_SEI_CHG_SPSPPS = 1"

definition h264e_vpu_set_extra_info ::
  "mpp_enc_cfg \<Rightarrow> sei_mode \<Rightarrow> u8 list \<Rightarrow> h264e_hw_cfg \<Rightarrow> vpu_extra_info \<Rightarrow> (vpu_extra_info \<times> h264e_hw_cfg) option" where
  "h264e_vpu_set_extra_info cfg mode text hw info =
    (let info = info\<lparr>vx_sps_stream := vpu_stream_buffer_reset (vx_sps_stream info),
                     vx_pps_stream := vpu_stream_buffer_reset (vx_pps_stream info)\<rparr>
     in case h264e_set_sps cfg hw (vx_sps info) of None \<Rightarrow> None | Some (_, sps, hw) \<Rightarrow>
        case h264e_set_pps cfg sps (vx_pps info) of (_, pps) \<Rightarrow>
          let info = info\<lparr>vx_sps := sps, vx_pps := pps\<rparr>;
              info = info\<lparr>vx_sps_stream := hal_h264e_vpu_write_sps sps (vx_sps_stream info),
                          vx_pps_stream := hal_h264e_vpu_write_pps pps (vx_pps_stream info)\<rparr>;
              info = (if mode = MPP_ENC_SEI_MODE_ONE_SEQ \<or> mode = MPP_ENC_SEI_MODE_ONE_FRAME
                      then snd (h264e_vpu_sei_encode text
                             (info\<lparr>vx_sei_change_flg := vx_sei_change_flg info OR H264E_SEI_CHG_SPSPPS\<rparr>))
                      else info)
          in Some (info, hw))"

end
