(* ===== verification/VepuSink.thy ===== *)
theory VepuSink
  imports VepuHeader RkvSpec
begin

text \<open>
  The VEPU stream writer as a bit sink: with the escape of its emulation prevention taken away the
  bytes behind the header byte, and the bits still in the byte buffer, are exactly what was put.
\<close>

section \<open>What has been written\<close>

definition vs_raw :: "vpu_stream \<Rightarrow> u8 list" where
  "vs_raw s = unescape True 0xffff (seg (vs_buffer s) 5 (vs_byte_cnt s))"

definition vs_pending :: "vpu_stream \<Rightarrow> bool list" where
  "vs_pending s = msb_bits (vs_buffered_bits s) (drop_bit (32 - vs_buffered_bits s) (vs_byte_buffer s))"

definition vs_bits :: "vpu_stream \<Rightarrow> bool list" where
  "vs_bits s = bytes_bits (vs_raw s) @ vs_pending s"

definition vs_bytes_ok :: "vpu_stream \<Rightarrow> u8 list \<Rightarrow> bool" where
  "vs_bytes_ok s raw \<longleftrightarrow> vs_stream s = vs_byte_cnt s \<and> 5 \<le> vs_byte_cnt s \<and> vs_byte_cnt s + 3 \<le> vs_size s
     \<and> length (vs_buffer s) = vs_size s \<and> seg (vs_buffer s) 5 (vs_byte_cnt s) = escape 0 raw
     \<and> vs_zero_bytes s = zeros_after 0 raw \<and> vs_overflow s = 0"

definition vs_ok :: "vpu_stream \<Rightarrow> bool" where
  "vs_ok s \<longleftrightarrow> vs_bytes_ok s (vs_raw s) \<and> vs_buffered_bits s \<le> 7
     \<and> (\<forall>i < 32 - vs_buffered_bits s. \<not> bit (vs_byte_buffer s) i)"

text \<open>Every byte may take two, and the writer stops 5 bytes before the end.\<close>

definition vs_room :: "vpu_stream \<Rightarrow> nat" where
  "vs_room s = 8 * ((vs_size s - 3 - vs_byte_cnt s) div 2) - vs_buffered_bits s"

lemma vs_raw_unique: "vs_bytes_ok s raw \<Longrightarrow> vs_raw s = raw"
  using unescape_escape [OF hist_start] by (simp add: vs_raw_def vs_bytes_ok_def)

section \<open>One byte\<close>

lemma list_update_store: "p < length m \<Longrightarrow> m[p := b] = store m p [b]"
  "p + 1 < length m \<Longrightarrow> m[p := c, p := 3, p + 1 := b] = store m p [3, b]"
  by simp_all

lemma u8_less_4: "(b :: u8) < 4 \<longleftrightarrow> b \<le> 3"
  by (simp add: word_less_nat_alt word_le_nat_alt) arith

lemma put_byte_ok:
  assumes "vs_bytes_ok s raw" and "vs_byte_cnt s + 5 \<le> vs_size s"
  shows "vs_bytes_ok (put_byte_with_detect b s) (raw @ [b])"
    and "vs_byte_cnt (put_byte_with_detect b s) \<le> vs_byte_cnt s + 2"
    and "vs_size (put_byte_with_detect b s) = vs_size s"
    and "take 5 (vs_buffer (put_byte_with_detect b s)) = take 5 (vs_buffer s)"
proof -
  let ?p = "vs_byte_cnt s" and ?m = "vs_buffer s"
  note ok = assms [unfolded vs_bytes_ok_def]
  have two: "?m[?p := b, ?p := 3, Suc ?p := b] = store ?m ?p [3, b]" by simp
  have one: "?m[?p := b] = store ?m ?p [b]" by simp
  have seg1: "seg (store ?m ?p [b]) 5 (Suc ?p) = escape 0 raw @ [b]"
    using seg_store_end [of 5 ?p "[b]" ?m] ok by simp
  have seg2: "seg (store ?m ?p [3, b]) 5 (Suc (Suc ?p)) = escape 0 raw @ [3, b]"
    using seg_store_end [of 5 ?p "[3, b]" ?m] ok by (simp add: numeral_2_eq_2)
  have tk: "take 5 (store ?m ?p bs) = take 5 ?m" for bs using ok by (simp add: take_store)
  show "vs_bytes_ok (put_byte_with_detect b s) (raw @ [b])"
    "vs_byte_cnt (put_byte_with_detect b s) \<le> vs_byte_cnt s + 2"
    "vs_size (put_byte_with_detect b s) = vs_size s"
    "take 5 (vs_buffer (put_byte_with_detect b s)) = take 5 (vs_buffer s)"
    using ok seg1 seg2 tk [of "[b]"] tk [of "[3, b]"] zeros_after_le [of 0 raw]
    by (auto simp: put_byte_with_detect_def Let_def vs_bytes_ok_def u8_less_4 escape_append zeros_after_append)
qed

section \<open>The loop\<close>

lemma msb_bits_head:
  assumes "8 \<le> n" and "n \<le> 32"
  shows "msb_bits n (drop_bit (32 - n) (w :: u32)) = byte_bits (ucast (drop_bit 24 w))
    @ msb_bits (n - 8) (drop_bit (32 - (n - 8)) (push_bit 8 w))"
proof -
  have "n = 8 + (n - 8)" using assms(1) by simp
  then have "msb_bits n (drop_bit (32 - n) w) = msb_bits 8 (drop_bit (n - 8) (drop_bit (32 - n) w))
      @ msb_bits (n - 8) (drop_bit (32 - n) w)"
    using msb_bits_add [of 8 "n - 8" "drop_bit (32 - n) w"] by simp
  moreover have "drop_bit (n - 8) (drop_bit (32 - n) w) = drop_bit 24 w" using assms by simp
  moreover have "msb_bits (n - 8) (drop_bit (32 - n) w) = msb_bits (n - 8) (drop_bit (32 - (n - 8)) (push_bit 8 w))"
    by (rule msb_bits_cong) (use assms in \<open>auto simp: bit_simps\<close>)
  ultimately show ?thesis using byte_bits_ucast [of 24 w] by simp
qed

lemma put_bytes_ok:
  assumes "vs_bytes_ok s raw" and "bits \<le> 32" and "\<forall>i < 32 - bits. \<not> bit bb i"
    and "2 * (bits div 8) + 3 \<le> vs_size s - vs_byte_cnt s"
  shows "vs_ok (put_bytes_with_detect bits bb s)
    \<and> vs_bits (put_bytes_with_detect bits bb s) = bytes_bits raw @ msb_bits bits (drop_bit (32 - bits) bb)
    \<and> vs_byte_cnt (put_bytes_with_detect bits bb s) \<le> vs_byte_cnt s + 2 * (bits div 8)
    \<and> vs_buffered_bits (put_bytes_with_detect bits bb s) = bits mod 8
    \<and> vs_size (put_bytes_with_detect bits bb s) = vs_size s
    \<and> take 5 (vs_buffer (put_bytes_with_detect bits bb s)) = take 5 (vs_buffer s)"
  using assms
proof (induction bits bb s arbitrary: raw rule: put_bytes_with_detect.induct)
  case (1 bits bb s)
  show ?case
  proof (cases "bits > 7")
    case False
    let ?t = "s\<lparr>vs_buffered_bits := bits, vs_byte_buffer := bb\<rparr>"
    have e: "put_bytes_with_detect bits bb s = ?t" using False by (simp add: put_bytes_with_detect.simps)
    have b: "vs_bytes_ok ?t raw" using "1.prems"(1) by (simp add: vs_bytes_ok_def)
    show ?thesis unfolding e using False "1.prems" b vs_raw_unique [OF b]
      by (simp add: vs_ok_def vs_bits_def vs_pending_def)
  next
    case True
    let ?b = "ucast (drop_bit 24 bb) :: u8" and ?bb = "push_bit 8 bb"
    let ?t = "put_byte_with_detect ?b s"
    have d: "bits div 8 = Suc ((bits - 8) div 8)" "(bits - 8) mod 8 = bits mod 8" using True by (simp_all add: le_div_geq le_mod_geq)
    have room: "vs_byte_cnt s + 5 \<le> vs_size s" using "1.prems"(4) d(1) by simp
    note p = put_byte_ok [OF "1.prems"(1) room, of ?b]
    have st: "vpu_stream_buffer_status s = (MPP_OK, s)" using room by (simp add: vpu_stream_buffer_status_def)
    have e: "put_bytes_with_detect bits bb s = put_bytes_with_detect (bits - 8) ?bb ?t"
      using True st by (simp add: put_bytes_with_detect.simps [of bits])
    have low: "\<forall>i < 32 - (bits - 8). \<not> bit ?bb i" using "1.prems"(2,3) True by (auto simp: bit_simps)
    have r: "2 * ((bits - 8) div 8) + 3 \<le> vs_size ?t - vs_byte_cnt ?t" using "1.prems"(4) d(1) p(2,3) by linarith
    have IH: "vs_ok (put_bytes_with_detect (bits - 8) ?bb ?t)
    \<and> vs_bits (put_bytes_with_detect (bits - 8) ?bb ?t)
        = bytes_bits (raw @ [?b]) @ msb_bits (bits - 8) (drop_bit (32 - (bits - 8)) ?bb)
    \<and> vs_byte_cnt (put_bytes_with_detect (bits - 8) ?bb ?t) \<le> vs_byte_cnt ?t + 2 * ((bits - 8) div 8)
    \<and> vs_buffered_bits (put_bytes_with_detect (bits - 8) ?bb ?t) = (bits - 8) mod 8
    \<and> vs_size (put_bytes_with_detect (bits - 8) ?bb ?t) = vs_size ?t
    \<and> take 5 (vs_buffer (put_bytes_with_detect (bits - 8) ?bb ?t)) = take 5 (vs_buffer ?t)"
      by (rule "1.IH" [OF True st [symmetric] _ p(1) _ low r]) (use "1.prems"(2) in simp_all)
    show ?thesis unfolding e using IH p(2-4) d msb_bits_head [of bits bb] True "1.prems"(2)
      by (simp add: bytes_bits_simps)
  qed
qed

section \<open>The sink\<close>

lemma vpu_put:
  assumes "vs_ok s" and "n \<le> 24" and "unat v < 2 ^ n" and "n \<le> vs_room s"
  defines "t \<equiv> vpu_stream_put_bits_with_detect n v s"
  shows "vs_ok t \<and> vs_bits t = vs_bits s @ msb_bits n v \<and> vs_room s \<le> vs_room t + n"
    and "take 5 (vs_buffer t) = take 5 (vs_buffer s)" and "vs_size t = vs_size s"
proof -
  let ?k = "vs_buffered_bits s" and ?bb = "vs_byte_buffer s" and ?R = "vs_size s - vs_byte_cnt s"
  let ?w = "?bb OR push_bit (32 - (n + ?k)) v"
  have ok: "vs_bytes_ok s (vs_raw s)" "?k \<le> 7" "\<forall>i < 32 - ?k. \<not> bit ?bb i" using assms(1) by (simp_all add: vs_ok_def)
  have v: "\<not> bit v i" if "n \<le> i" for i using not_bit_above [OF assms(3), of "i - n"] that by simp
  have low: "\<forall>i < 32 - (n + ?k). \<not> bit ?w i" using ok(3) assms(2) by (auto simp: bit_simps)
  have r: "2 * ((n + ?k) div 8) + 3 \<le> ?R"
  proof (cases "n + ?k \<ge> 8")
    case False
    moreover have "vs_byte_cnt s + 3 \<le> vs_size s" using ok(1) by (simp add: vs_bytes_ok_def)
    ultimately show ?thesis by (simp add: le_diff_conv2)
  next
    case that: True
    have "?R - 3 = vs_size s - 3 - vs_byte_cnt s" by simp
    then have "n + ?k \<le> 8 * ((?R - 3) div 2)" using assms(4) that ok(2) unfolding vs_room_def by simp
    then show ?thesis using that by (simp add: algebra_simps)
  qed
  have ww: "msb_bits (n + ?k) (drop_bit (32 - (n + ?k)) ?w) = vs_pending s @ msb_bits n v"
  proof -
    have "msb_bits (?k + n) (drop_bit (32 - (n + ?k)) ?w) =
        msb_bits ?k (drop_bit n (drop_bit (32 - (n + ?k)) ?w)) @ msb_bits n (drop_bit (32 - (n + ?k)) ?w)"
      by (rule msb_bits_add)
    moreover have "msb_bits ?k (drop_bit n (drop_bit (32 - (n + ?k)) ?w)) = vs_pending s"
      unfolding vs_pending_def by (rule msb_bits_cong) (use v ok(2) assms(2) in \<open>auto simp: bit_simps\<close>)
    moreover have "msb_bits n (drop_bit (32 - (n + ?k)) ?w) = msb_bits n v"
      by (rule msb_bits_cong) (use ok(2,3) assms(2) in \<open>auto simp: bit_simps\<close>)
    ultimately show ?thesis by (simp add: add.commute)
  qed
  define q r' where "q = (n + ?k) div 8" and "r' = (n + ?k) mod 8"
  have n: "n + ?k = 8 * q + r'" "r' \<le> 7" by (simp_all add: q_def r'_def)
  have "n + ?k \<le> 32" using ok(2) assms(2) by simp
  note p = put_bytes_ok [OF ok(1) this low r, folded q_def r'_def]
  have t: "t = put_bytes_with_detect (n + ?k) ?w s" by (simp add: t_def vpu_stream_put_bits_with_detect_def)
  define A B where "A = (vs_size s - 3 - vs_byte_cnt s) div 2" and "B = (vs_size s - 3 - vs_byte_cnt t) div 2"
  have "vs_byte_cnt t \<le> vs_byte_cnt s + 2 * q" using p t by simp
  then have "vs_size s - 3 - vs_byte_cnt s \<le> vs_size s - 3 - vs_byte_cnt t + 2 * q" by simp
  then have AB: "A \<le> B + q" using div_le_mono [of _ _ 2] unfolding A_def B_def by fastforce
  have "vs_room s = 8 * A - ?k" "vs_room t = 8 * B - r'" using p t by (simp_all add: vs_room_def A_def B_def)
  moreover have "8 * A - ?k \<le> 8 * B - r' + n" using AB n by linarith
  ultimately show "vs_ok t \<and> vs_bits t = vs_bits s @ msb_bits n v \<and> vs_room s \<le> vs_room t + n"
    using p t ww by (simp add: vs_bits_def)
  show "take 5 (vs_buffer t) = take 5 (vs_buffer s)" "vs_size t = vs_size s" using p t by simp_all
qed

interpretation vpu: bit_sink vpu_stream_put_bits_with_detect vs_bits vs_ok vs_room 24
  by unfold_locales (use vpu_put(1) in auto)

section \<open>Exp-Golomb codes\<close>

lemma vput: "u_ok n x \<Longrightarrow> n \<le> 24 \<Longrightarrow> vpu.emits (vput n x) (msb_bits n x)"
  using vpu.emits_put_int [of n x] by (simp add: u_ok_def vput_def)

lemma vput_flag: "flag_ok x \<Longrightarrow> vpu.emits (vput 1 x) (flag x)"
  using vput [of 1 x] by (auto simp: flag_ok_def u_ok_def)

lemma emits_vpu_ue:
  assumes "x < 2 ^ 24 - 1"
  shows "vpu.emits (vpu_write_ue (of_nat x)) (ue_bits x)"
proof -
  define L where "L = bit_len (x + 1)"
  have x: "x + 1 < 2 ^ 24" using assms by simp
  have L: "L \<le> 24" "0 < L" using bit_len_le [OF x] bit_len_gt0 [of "x + 1"] by (simp_all add: L_def)
  have u: "unat (of_nat x + 1 :: u32) = x + 1" "(of_nat x + 1 :: u32) = of_nat (x + 1)"
    using unat_of_nat_u32 [of "x + 1"] x by (simp_all add: add.commute)
  have c: "count_bits (of_nat x + 1) = L" using L by (simp add: count_bits_def u(1) L_def)
  have val: "unat (of_nat x + 1 :: u32) < 2 ^ L" using bit_len_upper [of "x + 1"] by (simp add: u(1) L_def)
  have bits: "msb_bits m (of_nat x + 1 :: u32) = msb_bits m (x + 1)" if "m \<le> 32" for m
    unfolding u(2) using that by (intro msb_bits_cong) (simp add: bit_of_nat_iff del: of_nat_add of_nat_Suc)
  show ?thesis
  proof (cases "L > 12")
    case True
    then have w: "vpu_write_ue (of_nat x) = (\<lambda>s. vpu_stream_put_bits_with_detect L (of_nat x + 1)
        (vpu_stream_put_bits_with_detect (L - 1) 0 s))"
      using L by (simp add: vpu_write_ue_def c Let_def fun_eq_iff)
    show ?thesis unfolding w
      using vpu.emits_comp [OF vpu.emits_zeros [of "L - 1"] vpu.emits_put [OF _ val]] L bits [of L]
      by (simp add: ue_bits_eq L_def)
  next
    case False
    then have w: "vpu_write_ue (of_nat x) = vpu_stream_put_bits_with_detect (2 * L - 1) (of_nat x + 1)"
      by (simp add: vpu_write_ue_def c Let_def fun_eq_iff)
    have "(2::nat) ^ L \<le> 2 ^ (2 * L - 1)" using L by (intro power_increasing) auto
    then have fit: "unat (of_nat x + 1 :: u32) < 2 ^ (2 * L - 1)" using val by linarith
    have "2 * L - 1 = (L - 1) + L" using L by simp
    then have "msb_bits (2 * L - 1) (x + 1) = replicate (L - 1) False @ msb_bits L (x + 1)"
      using msb_bits_pad [of "x + 1" L "L - 1"] bit_len_upper [of "x + 1"] by (simp only: L_def)
    then show ?thesis unfolding w
      using vpu.emits_put [OF _ fit] False L bits [of "2 * L - 1"] by (simp add: ue_bits_eq L_def)
  qed
qed

text \<open>The values of the parameter sets.\<close>

definition vue_ok :: "int \<Rightarrow> bool" where "vue_ok x \<longleftrightarrow> 0 \<le> x \<and> x < 2 ^ 24 - 1"

lemma emits_vue: "vue_ok x \<Longrightarrow> vpu.emits (vue x) (ue x)"
  using emits_vpu_ue [of "nat x"] by (simp add: vue_ok_def nat_less_iff vue_def)

lemma emits_vse: "se_ok x \<Longrightarrow> vpu.emits (vpu_write_se x) (se_bits x)"
proof -
  assume "se_ok x"
  then have "ue_of_se x < 2 ^ 24 - 1" by (auto simp: se_ok_def ue_of_se_def)
  moreover have "(if x > 0 then 2 * x - 1 else - 2 * x) = int (ue_of_se x)" by (auto simp: ue_of_se_def)
  ultimately show ?thesis using emits_vpu_ue [of "ue_of_se x"] by (simp add: vpu_write_se_def se_bits_def)
qed

lemmas vpu_emits_ops = emits_vue emits_vse vput_flag vput

section \<open>NAL units\<close>

text \<open>An empty stream, and a stream behind the start code and the header byte of a unit.\<close>

definition vs_empty :: "vpu_stream \<Rightarrow> bool" where
  "vs_empty s \<longleftrightarrow> vs_stream s = 0 \<and> vs_byte_cnt s = 0 \<and> vs_byte_buffer s = 0 \<and> vs_buffered_bits s = 0
     \<and> vs_overflow s = 0 \<and> length (vs_buffer s) = vs_size s \<and> 16 \<le> vs_size s"

definition vs_started :: "u8 \<Rightarrow> vpu_stream \<Rightarrow> bool" where
  "vs_started h s \<longleftrightarrow> vs_ok s \<and> vs_bits s = [] \<and> vs_byte_cnt s = 5 \<and> vs_buffered_bits s = 0
     \<and> take 5 (vs_buffer s) = [0, 0, 0, 1, h]"

lemma put_8:
  assumes "vs_buffered_bits s = 0" and "vs_byte_buffer s = 0" and "vs_byte_cnt s + 5 \<le> vs_size s" and "unat v < 256"
  shows "vpu_stream_put_bits 8 v s = s\<lparr>vs_buffer := (vs_buffer s)[vs_stream s := ucast v],
    vs_stream := Suc (vs_stream s), vs_byte_cnt := Suc (vs_byte_cnt s), vs_byte_buffer := 0, vs_buffered_bits := 0\<rparr>"
proof -
  have v: "\<not> bit v (8 + i)" for i using not_bit_above [of v 8 i] assms(4) by simp
  have "ucast (drop_bit 24 (push_bit 24 v)) = (ucast v :: u8)"
    by (rule bit_word_eqI) (auto simp: bit_simps)
  moreover have "push_bit 8 (push_bit 24 v) = 0"
    by (rule bit_word_eqI) (use v in \<open>auto simp: bit_simps\<close>)
  ultimately show ?thesis using assms
    by (simp add: vpu_stream_put_bits_def vpu_stream_buffer_status_def put_bytes.simps)
qed

lemma put_part:
  assumes "n + vs_buffered_bits s < 8" and "vs_byte_cnt s + 5 \<le> vs_size s"
  shows "vpu_stream_put_bits n v s = s\<lparr>vs_byte_buffer := vs_byte_buffer s OR push_bit (32 - (n + vs_buffered_bits s)) v,
    vs_buffered_bits := n + vs_buffered_bits s\<rparr>"
  using assms by (simp add: vpu_stream_put_bits_def vpu_stream_buffer_status_def put_bytes.simps)

lemma put_fill:
  assumes "n + vs_buffered_bits s = 8" and "vs_byte_cnt s + 5 \<le> vs_size s"
  shows "vpu_stream_put_bits n v s = s\<lparr>vs_buffer := (vs_buffer s)[vs_stream s := ucast (drop_bit 24 (vs_byte_buffer s OR push_bit 24 v))],
    vs_stream := Suc (vs_stream s), vs_byte_cnt := Suc (vs_byte_cnt s),
    vs_byte_buffer := push_bit 8 (vs_byte_buffer s OR push_bit 24 v), vs_buffered_bits := 0\<rparr>"
  using assms by (simp add: vpu_stream_put_bits_def vpu_stream_buffer_status_def put_bytes.simps)

definition nal_header :: "int \<Rightarrow> int \<Rightarrow> u8 \<Rightarrow> bool" where
  "nal_header r t h \<longleftrightarrow>
     ucast (drop_bit 24 (push_bit 29 (word_of_int r) OR push_bit 24 (word_of_int t :: u32))) = h
     \<and> push_bit 8 (push_bit 29 (word_of_int r) OR push_bit 24 (word_of_int t :: u32)) = 0"

lemma nal_headers: "nal_header 1 7 0x27" "nal_header 1 8 0x28" "nal_header 0 6 0x06"
  by (simp_all add: nal_header_def)

lemma nal_start:
  assumes "vs_empty s" and "nal_header r t h"
  shows "vs_started h (h264e_vpu_nal_start r t s)" and "vs_size (h264e_vpu_nal_start r t s) = vs_size s"
proof -
  note e = assms(1) [unfolded vs_empty_def]
  let ?m = "vs_buffer s"
  let ?w = "push_bit 29 (word_of_int r) :: u32"
  define s4 where "s4 = s\<lparr>vs_buffer := ?m[0 := 0, 1 := 0, 2 := 0, 3 := 1], vs_stream := 4, vs_byte_cnt := 4\<rparr>"
  have 4: "vpu_stream_put_bits 8 1 (vpu_stream_put_bits 8 0 (vpu_stream_put_bits 8 0 (vpu_stream_put_bits 8 0 s))) = s4"
    using e by (simp add: put_8 s4_def) (simp add: eval_nat_numeral)
  have 5: "vpu_stream_put_bits 1 0 s4 = s4\<lparr>vs_buffered_bits := 1\<rparr>"
    using e by (simp add: put_part s4_def)
  have 6: "vpu_stream_put_bits 2 (word_of_int r) (s4\<lparr>vs_buffered_bits := 1\<rparr>)
      = s4\<lparr>vs_byte_buffer := ?w, vs_buffered_bits := 3\<rparr>"
    using e by (simp add: put_part s4_def)
  have 7: "vpu_stream_put_bits 5 (word_of_int t) (s4\<lparr>vs_byte_buffer := ?w, vs_buffered_bits := 3\<rparr>)
      = s4\<lparr>vs_buffer := (vs_buffer s4)[4 := h], vs_stream := 5, vs_byte_cnt := 5, vs_byte_buffer := 0, vs_buffered_bits := 0\<rparr>"
    by (subst put_fill) (use e assms(2) in \<open>simp_all only: nal_header_def, simp_all add: s4_def\<close>)
  have f: "h264e_vpu_nal_start r t s = s\<lparr>vs_buffer := ?m[0 := 0, 1 := 0, 2 := 0, 3 := 1, 4 := h],
      vs_stream := 5, vs_byte_cnt := 5, vs_byte_buffer := 0, vs_buffered_bits := 0, vs_zero_bytes := 0\<rparr>"
    unfolding h264e_vpu_nal_start_def run_simps 4 5 6 7 by (simp add: s4_def)
  have "?m[0 := 0, 1 := 0, 2 := 0, 3 := 1, 4 := h] = store ?m 0 [0, 0, 0, 1, h]" by (simp add: eval_nat_numeral)
  then have "take 5 (?m[0 := 0, 1 := 0, 2 := 0, 3 := 1, 4 := h]) = [0, 0, 0, 1, h]"
    using e store_conv [of 0 "[0, 0, 0, 1, h]" ?m] by simp
  moreover have ok: "vs_bytes_ok (h264e_vpu_nal_start r t s) []" using e by (simp add: f vs_bytes_ok_def)
  ultimately show "vs_started h (h264e_vpu_nal_start r t s)"
    using vs_raw_unique [OF ok] by (simp add: vs_started_def vs_ok_def vs_bits_def vs_pending_def) (simp add: f)
  show "vs_size (h264e_vpu_nal_start r t s) = vs_size s" by (simp add: f)
qed

text \<open>The bytes of a finished unit.\<close>

definition vpu_unit :: "u8 \<Rightarrow> bool list \<Rightarrow> u8 list" where
  "vpu_unit h bs = [0, 0, 0, 1, h] @ escape 0 (rbsp bs)"

definition vs_content :: "vpu_stream \<Rightarrow> u8 list" where
  "vs_content s = take (vs_byte_cnt s) (vs_buffer s)"

lemma length_vs_bits: "length (vs_bits s) = 8 * length (vs_raw s) + vs_buffered_bits s"
  by (simp add: vs_bits_def vs_pending_def)

lemma carry:
  fixes a b k y :: nat
  assumes "8 * a + y = 8 * b + k + 1" and "k \<le> 7" and "y \<le> 7"
  shows "y = (if k = 7 then 0 else k + 1)"
proof -
  have "(8 * a + y) mod 8 = (8 * b + (k + 1)) mod 8" using assms(1) by simp
  then have "y mod 8 = (k + 1) mod 8" by simp
  then show ?thesis using assms(2,3) by (cases "k = 7") simp_all
qed

lemma trailing_bits_emitted:
  assumes "vs_ok s" and "8 \<le> vs_room s"
  shows "vs_ok (vpu_rbsp_trailing_bits s)"
    and "vs_bits (vpu_rbsp_trailing_bits s) = vs_bits s @ trailing_bits (length (vs_bits s))"
    and "take 5 (vs_buffer (vpu_rbsp_trailing_bits s)) = take 5 (vs_buffer s)"
proof -
  let ?t = "vpu_stream_put_bits_with_detect 1 1 s" and ?k = "vs_buffered_bits s"
  have k: "?k \<le> 7" "length (vs_bits s) mod 8 = ?k" using assms(1) by (simp_all add: vs_ok_def length_vs_bits)
  have 1: "vs_ok ?t" "vs_bits ?t = vs_bits s @ [True]" "7 \<le> vs_room ?t" "take 5 (vs_buffer ?t) = take 5 (vs_buffer s)"
    using vpu_put [OF assms(1), of 1 1] assms(2) by simp_all
  have k': "vs_buffered_bits ?t \<le> 7" using 1(1) by (simp add: vs_ok_def)
  have "8 * length (vs_raw ?t) + vs_buffered_bits ?t = 8 * length (vs_raw s) + ?k + 1"
    using length_vs_bits [of ?t] length_vs_bits [of s] 1(2) by simp
  from carry [OF this k(1) k']
 have kk: "vs_buffered_bits ?t = (if ?k = 7 then 0 else ?k + 1)" .
  let ?u = "vpu_stream_put_bits_with_detect (7 - ?k) 0 ?t"
  have u: "vs_ok ?u" "vs_bits ?u = vs_bits ?t @ replicate (7 - ?k) False" "take 5 (vs_buffer ?u) = take 5 (vs_buffer ?t)"
    using vpu_put [OF 1(1), of "7 - ?k" 0] 1(3) by simp_all
  have e: "vpu_rbsp_trailing_bits s = (if ?k = 7 then ?t else ?u)"
    using kk by (simp add: vpu_rbsp_trailing_bits_def Let_def)
  have tb: "trailing_bits (length (vs_bits s)) = True # replicate (7 - ?k) False" by (simp add: trailing_bits_def k(2))
  show "vs_ok (vpu_rbsp_trailing_bits s)" unfolding e using 1(1) u(1) by simp
  show "vs_bits (vpu_rbsp_trailing_bits s) = vs_bits s @ trailing_bits (length (vs_bits s))"
    unfolding e tb using 1(2) u(2) by simp
  show "take 5 (vs_buffer (vpu_rbsp_trailing_bits s)) = take 5 (vs_buffer s)" unfolding e using 1(4) u(3) by simp
qed

text \<open>The header bytes survive every operation that only appends.\<close>

definition keeps_head :: "(vpu_stream \<Rightarrow> vpu_stream) \<Rightarrow> bool" where
  "keeps_head f \<longleftrightarrow> (\<forall>s. 5 \<le> vs_stream s \<longrightarrow> 5 \<le> vs_stream (f s) \<and> take 5 (vs_buffer (f s)) = take 5 (vs_buffer s))"

lemma keeps_head_run: "list_all keeps_head fs \<Longrightarrow> keeps_head (run fs)"
  by (induction fs) (auto simp: keeps_head_def)

lemma keeps_head_run_if: "list_all keeps_head fs \<Longrightarrow> keeps_head (run_if b fs)"
  using keeps_head_run by (simp add: run_if_def keeps_head_def)

lemma keeps_head_bytes:
  "5 \<le> vs_stream s \<Longrightarrow> 5 \<le> vs_stream (put_bytes_with_detect bits bb s)
     \<and> take 5 (vs_buffer (put_bytes_with_detect bits bb s)) = take 5 (vs_buffer s)"
proof (induction bits bb s rule: put_bytes_with_detect.induct)
  case (1 bits bb s)
  have st: "vpu_stream_buffer_status s = (MPP_OK, s) \<or> fst (vpu_stream_buffer_status s) = MPP_NOK
      \<and> vs_stream (snd (vpu_stream_buffer_status s)) = vs_stream s \<and> vs_buffer (snd (vpu_stream_buffer_status s)) = vs_buffer s"
    by (simp add: vpu_stream_buffer_status_def)
  have b: "5 \<le> vs_stream (put_byte_with_detect b s) \<and> take 5 (vs_buffer (put_byte_with_detect b s)) = take 5 (vs_buffer s)" for b
    using 1(2) by (simp add: put_byte_with_detect_def Let_def take_update_cancel)
  show ?case
  proof (cases "bits > 7 \<and> vpu_stream_buffer_status s = (MPP_OK, s)")
    case True
    then show ?thesis using 1(1) [of MPP_OK s] b by (simp add: put_bytes_with_detect.simps [of bits])
  next
    case False
    then show ?thesis using st 1(2) by (auto simp: put_bytes_with_detect.simps [of bits] split: prod.split)
  qed
qed

lemma keeps_head_put: "keeps_head (vpu_stream_put_bits_with_detect n v)"
  by (simp add: keeps_head_def vpu_stream_put_bits_with_detect_def keeps_head_bytes)

lemma keeps_head_comp: "keeps_head f \<Longrightarrow> keeps_head g \<Longrightarrow> keeps_head (\<lambda>s. g (f s))"
  by (simp add: keeps_head_def)

lemma keeps_head_ue: "keeps_head (vpu_write_ue v)"
  unfolding keeps_head_def vpu_write_ue_def Let_def
  using keeps_head_put by (auto simp: keeps_head_def split: prod.split)

lemmas keeps_head_ops = keeps_head_put keeps_head_ue keeps_head_run keeps_head_run_if

lemma vpu_unit_content:
  assumes s: "vs_empty s" and h: "nal_header r t h" and f: "vpu.emits f bs" "keeps_head f"
    and room: "length bs + 8 \<le> 8 * ((vs_size s - 8) div 2)"
  shows "vs_content (vpu_rbsp_trailing_bits (f (h264e_vpu_nal_start r t s))) = vpu_unit h bs"
proof -
  let ?a = "h264e_vpu_nal_start r t s"
  let ?b = "f ?a"
  let ?c = "vpu_rbsp_trailing_bits ?b"
  have a: "vs_ok ?a" "vs_bits ?a = []" "vs_byte_cnt ?a = 5" "take 5 (vs_buffer ?a) = [0, 0, 0, 1, h]"
    "vs_room ?a = 8 * ((vs_size s - 8) div 2)" "vs_stream ?a = 5"
  proof -
    note n = nal_start [OF s h]
    show "vs_ok ?a" "vs_bits ?a = []" "vs_byte_cnt ?a = 5" "take 5 (vs_buffer ?a) = [0, 0, 0, 1, h]"
      "vs_room ?a = 8 * ((vs_size s - 8) div 2)"
      using n by (simp_all add: vs_started_def vs_room_def)
    then show "vs_stream ?a = 5" unfolding vs_ok_def vs_bytes_ok_def by metis
  qed
  from a have b: "vs_ok ?b" "vs_bits ?b = bs" "8 \<le> vs_room ?b"
    using vpu.emitsD [OF f(1) a(1)] room by simp_all
  note c = trailing_bits_emitted [OF b(1,3)]
  have tb: "take 5 (vs_buffer ?c) = [0, 0, 0, 1, h]"
    using c(3) f(2) a(4,6) by (simp add: keeps_head_def)
  have "vs_bits ?c = bytes_bits (rbsp bs)" using c(2) b(2) by (simp add: bytes_bits_rbsp)
  then have "length (vs_bits ?c) = 8 * length (rbsp bs)" by simp
  then have "(8 * length (rbsp bs)) mod 8 = (8 * length (vs_raw ?c) + vs_buffered_bits ?c) mod 8"
    using length_vs_bits [of ?c] by simp
  moreover have "vs_buffered_bits ?c \<le> 7" using c(1) by (simp add: vs_ok_def)
  ultimately have "vs_buffered_bits ?c = 0" by simp
  then have "bytes_bits (vs_raw ?c) = bytes_bits (rbsp bs)"
    using \<open>vs_bits ?c = bytes_bits (rbsp bs)\<close> by (simp add: vs_bits_def vs_pending_def)
  then have "vs_raw ?c = rbsp bs" by (simp add: bytes_bits_inj)
  then have ok: "vs_bytes_ok ?c (rbsp bs)" using c(1) by (simp add: vs_ok_def)
  have "vs_content ?c = take 5 (vs_buffer ?c) @ seg (vs_buffer ?c) 5 (vs_byte_cnt ?c)"
    using ok take_add [of 5 "vs_byte_cnt ?c - 5" "vs_buffer ?c"] by (simp add: vs_content_def seg_def vs_bytes_ok_def)
  then show ?thesis using ok tb by (simp add: vpu_unit_def vs_bytes_ok_def)
qed

section \<open>The bits of the parameter sets\<close>

definition vpu_vui_bits :: "h264e_vui \<Rightarrow> bool list" where
  "vpu_vui_bits v = concat
    [flag (b_aspect_ratio_info_present v), flag (b_overscan_info_present v), flag (b_signal_type_present v),
     flag (b_chroma_loc_info_present v), flag (b_timing_info_present v),
     msb_bits 16 (drop_bit 16 (i_num_units_in_tick v)), msb_bits 16 (i_num_units_in_tick v AND 0xffff),
     msb_bits 16 (drop_bit 16 (i_time_scale v)), msb_bits 16 (i_time_scale v AND 0xffff),
     flag (b_fixed_frame_rate v), flag (b_nal_hrd_parameters_present v), flag (b_vcl_hrd_parameters_present v),
     flag (b_pic_struct_present v), flag (b_bitstream_restriction v),
     bits_if (b_bitstream_restriction v \<noteq> 0)
       [flag (b_motion_vectors_over_pic_boundaries v), ue (i_max_bytes_per_pic_denom v),
        ue (i_max_bits_per_mb_denom v), ue (i_log2_max_mv_length_horizontal v),
        ue (i_log2_max_mv_length_vertical v), ue (i_num_reorder_frames v),
        ue (i_max_dec_frame_buffering v)]]"

definition vpu_sps_bits :: "h264e_sps \<Rightarrow> bool list" where
  "vpu_sps_bits sps = concat
    [msb_bits 8 (i_profile_idc sps),
     flag (b_constraint_set0 sps), flag (b_constraint_set1 sps),
     flag (b_constraint_set2 sps), flag (b_constraint_set3 sps),
     msb_bits 4 (0 :: int),
     msb_bits 8 (i_level_idc sps),
     ue (sps_id sps),
     bits_if (i_profile_idc sps \<ge> 100)
       [ue (i_chroma_format_idc sps), ue 0, ue 0, flag (b_qpprime_y_zero_transform_bypass sps), flag 0],
     ue (i_log2_max_frame_num sps - 4),
     ue (i_poc_type sps),
     ue (i_num_ref_frames sps),
     flag (b_gaps_in_frame_num_value_allowed sps),
     ue (i_mb_width sps - 1),
     ue (i_mb_height sps - 1),
     flag (b_frame_mbs_only sps),
     flag (b_direct8x8_inference sps),
     flag (b_crop sps),
     bits_if (b_crop sps \<noteq> 0)
       [ue (crop_left (sps_crop sps) sdiv 2), ue (crop_right (sps_crop sps) sdiv 2),
        ue (crop_top (sps_crop sps) sdiv 2), ue (crop_bottom (sps_crop sps) sdiv 2)],
     flag (b_vui (sps_vui sps)),
     bits_if (b_vui (sps_vui sps) \<noteq> 0) [vpu_vui_bits (sps_vui sps)]]"

definition vpu_pps_bits :: "h264e_pps \<Rightarrow> bool list" where
  "vpu_pps_bits pps = concat
    [ue (pps_id pps), ue (pps_sps_id pps), flag (b_cabac pps), flag (b_pic_order pps),
     ue (i_num_slice_groups pps - 1), ue (i_num_ref_idx_l0_default_active pps - 1),
     ue (i_num_ref_idx_l1_default_active pps - 1), flag (b_weighted_pred pps),
     msb_bits 2 (i_weighted_bipred_idc pps), se_bits (i_pic_init_qp pps - 26),
     se_bits (i_pic_init_qs pps - 26), se_bits (i_chroma_qp_index_offset pps),
     flag (b_deblocking_filter_control pps), flag (b_constrained_intra_pred pps),
     flag (b_redundant_pic_cnt pps),
     bits_if (b_transform_8x8_mode pps \<noteq> 0)
       [flag (b_transform_8x8_mode pps), flag (b_cqm_preset pps), se_bits (i_chroma_qp_index_offset pps)]]"

text \<open>The ranges of the VEPU writer: its \<open>ue\<close> codes are right below \<open>2 ^ 24 - 1\<close>.\<close>

definition vpu_vui_ok :: "h264e_vui \<Rightarrow> bool" where
  "vpu_vui_ok v \<longleftrightarrow> vui_ok v \<and> (b_bitstream_restriction v \<noteq> 0 \<longrightarrow>
     vue_ok (i_max_bytes_per_pic_denom v) \<and> vue_ok (i_max_bits_per_mb_denom v)
     \<and> vue_ok (i_log2_max_mv_length_horizontal v) \<and> vue_ok (i_log2_max_mv_length_vertical v)
     \<and> vue_ok (i_num_reorder_frames v) \<and> vue_ok (i_max_dec_frame_buffering v))"

definition vpu_sps_ok :: "h264e_sps \<Rightarrow> bool" where
  "vpu_sps_ok s \<longleftrightarrow> sps_ok s \<and> vue_ok (sps_id s) \<and> vue_ok (i_chroma_format_idc s)
     \<and> vue_ok (i_log2_max_frame_num s - 4) \<and> vue_ok (i_poc_type s) \<and> vue_ok (i_num_ref_frames s)
     \<and> vue_ok (i_mb_width s - 1) \<and> vue_ok (i_mb_height s - 1)
     \<and> (b_crop s \<noteq> 0 \<longrightarrow> vue_ok (crop_left (sps_crop s) sdiv 2) \<and> vue_ok (crop_right (sps_crop s) sdiv 2)
          \<and> vue_ok (crop_top (sps_crop s) sdiv 2) \<and> vue_ok (crop_bottom (sps_crop s) sdiv 2))
     \<and> vpu_vui_ok (sps_vui s)"

definition vpu_pps_ok :: "h264e_pps \<Rightarrow> bool" where
  "vpu_pps_ok p \<longleftrightarrow> pps_ok p \<and> vue_ok (pps_id p) \<and> vue_ok (pps_sps_id p) \<and> vue_ok (i_num_slice_groups p - 1)
     \<and> vue_ok (i_num_ref_idx_l0_default_active p - 1) \<and> vue_ok (i_num_ref_idx_l1_default_active p - 1)
     \<and> flag_ok (b_cqm_preset p)"

lemma emits_half:
  "vpu.emits (vpu_stream_put_bits_with_detect 16 (drop_bit 16 w)) (msb_bits 16 (drop_bit 16 w))"
  "vpu.emits (vpu_stream_put_bits_with_detect 16 (w AND 0xffff)) (msb_bits 16 (w AND 0xffff))"
proof -
  have "unat w < 2 ^ LENGTH(32)" by (rule unsigned_less)
  then have "unat (drop_bit 16 w) < 2 ^ 16" by (simp add: unat_drop_bit_eq drop_bit_eq_div unat_div)
  then show "vpu.emits (vpu_stream_put_bits_with_detect 16 (drop_bit 16 w)) (msb_bits 16 (drop_bit 16 w))"
    by (intro vpu.emits_put) simp_all
  have "w AND 0xffff = take_bit 16 w" by (simp add: take_bit_eq_mask mask_eq_exp_minus_1)
  then have "unat (w AND 0xffff) < 2 ^ 16"
    using take_bit_nat_less_exp [of 16 "unat w"] by (simp add: unsigned_take_bit_eq)
  then show "vpu.emits (vpu_stream_put_bits_with_detect 16 (w AND 0xffff)) (msb_bits 16 (w AND 0xffff))"
    by (intro vpu.emits_put) simp_all
qed

lemma vpu_vui_emits: "vpu_vui_ok v \<Longrightarrow> vpu.emits (vpu_vui_elements v) (vpu_vui_bits v)"
  unfolding vpu_vui_elements_def vpu_vui_bits_def
  by (rule vpu.emits_run) (simp add: vpu_emits_ops emits_half vpu_vui_ok_def vui_ok_def vpu.emits_run_if del: One_nat_def)

lemma vue_0: "vue_ok 0" by (simp add: vue_ok_def)

lemma u_ok_1: "u_ok 4 0" by (simp add: u_ok_def)

lemma vue_zero: "vpu.emits (vue 0) (ue_bits 0)"
  using emits_vue [OF vue_0] by simp

lemma vput_false: "vpu.emits (vput 1 0) [False]"
  using vput_flag [of 0] by (simp add: flag_ok_def)

lemma vpu_sps_emits: "vpu_sps_ok s \<Longrightarrow> vpu.emits (vpu_sps_elements s) (vpu_sps_bits s)"
  unfolding vpu_sps_elements_def vpu_sps_bits_def
  by (rule vpu.emits_run)
    (simp add: vpu_emits_ops vpu_vui_emits vpu_sps_ok_def sps_ok_def vpu.emits_run_if vue_0 u_ok_1 field_oks vput_false vue_zero
      del: One_nat_def msb_bits_zero)

lemma vpu_pps_emits: "vpu_pps_ok p \<Longrightarrow> vpu.emits (vpu_pps_elements p) (vpu_pps_bits p)"
  unfolding vpu_pps_elements_def vpu_pps_bits_def
  by (rule vpu.emits_run)
    (simp add: vpu_emits_ops vpu_pps_ok_def pps_ok_def vpu.emits_run_if del: One_nat_def)

lemma vpu_elements_keep:
  "keeps_head (vpu_sps_elements e)" "keeps_head (vpu_pps_elements p)"
  unfolding vpu_sps_elements_def vpu_pps_elements_def
  by (rule keeps_head_run, simp add: keeps_head_ops vput_def vue_def vpu_write_se_def vpu_vui_elements_def)+

section \<open>The two writers of the repository compared\<close>

text \<open>
  A VUI without the parts the VEPU writer does not know (it writes their flags but not their
  contents, and the timing whether present or not).
\<close>

definition vui_plain :: "h264e_vui \<Rightarrow> bool" where
  "vui_plain v \<longleftrightarrow> b_aspect_ratio_info_present v = 0 \<and> b_overscan_info_present v = 0 \<and> b_signal_type_present v = 0
     \<and> b_chroma_loc_info_present v = 0 \<and> b_timing_info_present v = 1
     \<and> b_nal_hrd_parameters_present v = 0 \<and> b_vcl_hrd_parameters_present v = 0"

lemma msb_bits_and_ffff: "msb_bits 16 (w AND 0xffff :: u32) = msb_bits 16 w"
proof -
  have "w AND 0xffff = take_bit 16 w" by (simp add: take_bit_eq_mask mask_eq_exp_minus_1)
  then show ?thesis by simp
qed

lemma msb_bits_word: "msb_bits 32 (w :: u32) = msb_bits 16 (drop_bit 16 w) @ msb_bits 16 w"
  using msb_bits_add [of 16 16 w] by simp

lemma vpu_vui_bits_plain: "vui_plain v \<Longrightarrow> vpu_vui_bits v = vui_bits v"
  by (simp add: vpu_vui_bits_def vui_bits_def vui_plain_def bits_if_def msb_bits_and_ffff msb_bits_word)

lemma sdiv_2: "0 \<le> x \<Longrightarrow> x sdiv 2 = drop_bit 1 (x :: int)"
  by (simp add: signed_divide_int_def sgn_if drop_bit_eq_div)

lemma vpu_sps_bits_plain:
  assumes "b_vui (sps_vui e) \<noteq> 0 \<Longrightarrow> vui_plain (sps_vui e)" and "i_chroma_format_idc e = 1"
    and "i_poc_type e \<noteq> 0" and "b_frame_mbs_only e = 1"
    and "0 \<le> crop_left (sps_crop e)" "0 \<le> crop_right (sps_crop e)" "0 \<le> crop_top (sps_crop e)" "0 \<le> crop_bottom (sps_crop e)"
  shows "vpu_sps_bits e = sps_bits e"
proof -
  have "bits_if (b_vui (sps_vui e) \<noteq> 0) [vpu_vui_bits (sps_vui e)] = bits_if (b_vui (sps_vui e) \<noteq> 0) [vui_bits (sps_vui e)]"
    using assms(1) vpu_vui_bits_plain by (simp add: bits_if_def)
  with assms(2-8) show ?thesis by (simp add: vpu_sps_bits_def sps_bits_def Let_def sdiv_2) (simp add: bits_if_def)
qed

lemma vpu_pps_bits_eq:
  assumes "b_cqm_preset p = 0"
  shows "vpu_pps_bits p = pps_bits (p\<lparr>i_second_chroma_qp_index_offset := i_chroma_qp_index_offset p\<rparr>) sps"
  using assms by (simp add: vpu_pps_bits_def pps_bits_def Let_def bits_if_def)

text \<open>The configurations that lead to such a VUI.\<close>

definition plain_cfg :: "mpp_enc_cfg \<Rightarrow> h264e_hw_cfg \<Rightarrow> bool" where
  "plain_cfg cfg hw \<longleftrightarrow> codec_vui_fullrange cfg = 0 \<and> (codec_vui_sar_width cfg \<le> 0 \<or> codec_vui_sar_height cfg \<le> 0)
     \<and> fst (h264e_set_format (prep_format cfg) hw) < H264E_CSP2_BGR
     \<and> fps_defined cfg \<and> 0 < rc_fps_out_num cfg sdiv rc_fps_out_denorm cfg"

lemma vui_plain_cfg:
  fixes chroma interval :: int and v
  assumes "codec_vui_fullrange cfg = 0" and "codec_vui_sar_width cfg \<le> 0 \<or> codec_vui_sar_height cfg \<le> 0"
    and "csp < H264E_CSP2_BGR" and "0 < den"
  defines "w \<equiv> h264e_set_sps_vui cfg csp den chroma interval v"
  shows "vui_plain w"
    and "b_bitstream_restriction w \<noteq> 0 \<Longrightarrow> i_max_bytes_per_pic_denom w = 0 \<and> i_max_bits_per_mb_denom w = 0
      \<and> i_log2_max_mv_length_horizontal w = 9 \<and> i_log2_max_mv_length_vertical w = 9
      \<and> i_num_reorder_frames w = i_num_reorder_frames v \<and> i_max_dec_frame_buffering w = i_max_dec_frame_buffering v"
proof -
  have sar: "\<not> (0 < codec_vui_sar_width cfg \<and> 0 < codec_vui_sar_height cfg)" using assms(2) by auto
  show "vui_plain w" unfolding w_def h264e_set_sps_vui_def Let_def using assms(1,3,4) sar
    by (simp add: vui_plain_def)
  show "b_bitstream_restriction w \<noteq> 0 \<Longrightarrow> i_max_bytes_per_pic_denom w = 0 \<and> i_max_bits_per_mb_denom w = 0
      \<and> i_log2_max_mv_length_horizontal w = 9 \<and> i_log2_max_mv_length_vertical w = 9
      \<and> i_num_reorder_frames w = i_num_reorder_frames v \<and> i_max_dec_frame_buffering w = i_max_dec_frame_buffering v"
    unfolding w_def h264e_set_sps_vui_def Let_def using assms(1,3,4) sar
    by (simp add: mv_len split: if_splits)
qed

lemma set_sps_vui_value:
  assumes "enc_cfg_ok cfg" and "h264e_set_sps cfg hw sps0 = Some (MPP_OK, s, hw')"
  shows "\<exists>chroma interval v. sps_vui s = h264e_set_sps_vui cfg (fst (h264e_set_format (prep_format cfg) hw))
      (rc_fps_out_num cfg sdiv rc_fps_out_denorm cfg) chroma interval v
    \<and> i_num_reorder_frames v = 0 \<and> 0 \<le> i_max_dec_frame_buffering v \<and> i_max_dec_frame_buffering v \<le> 16"
proof -
  obtain csp hw2 where f: "h264e_set_format (prep_format cfg) hw = (csp, hw2)" by fastforce
  define s1 where "s1 = set_sps_crop cfg (set_sps_frames cfg hw2 (set_sps_picture cfg sps0))"
  have "s = s1\<lparr>sps_vui := h264e_set_sps_vui cfg csp (rc_fps_out_num cfg sdiv rc_fps_out_denorm cfg)
      (i_chroma_format_idc s1) (keyframe_max_interval s1) (sps_vui s1)\<rparr>"
    using assms(2) by (auto simp: h264e_set_sps_def f Let_def s1_def split: if_splits)
  moreover have "i_num_reorder_frames (sps_vui s1) = 0 \<and> 0 \<le> i_max_dec_frame_buffering (sps_vui s1)
      \<and> i_max_dec_frame_buffering (sps_vui s1) \<le> 16"
    by (simp add: s1_def set_sps_crop_fields set_sps_frames_fields set_sps_picture_fields [OF assms(1)] Let_def le_max_iff_disj)
  ultimately show ?thesis unfolding f by auto
qed

lemma vue_ok_small: "0 \<le> x \<Longrightarrow> x < 2 ^ 20 \<Longrightarrow> vue_ok x"
  by (simp add: vue_ok_def)

lemma length_ue_lt:
  assumes "0 \<le> x" and "x + 1 < 2 ^ k"
  shows "length (ue x) \<le> 2 * k - 1"
proof -
  have "nat (x + 1) < 2 ^ k" using assms by (simp add: nat_less_iff)
  then have "nat x + 1 < 2 ^ k" using assms(1) by (simp add: nat_add_distrib)
  then have "bit_len (nat x + 1) \<le> k" by (rule bit_len_le)
  then show ?thesis by (simp add: length_ue_bits)
qed

text \<open>What the configuration gives is in range, plain, and short.\<close>

lemma plain_sps_vui:
  assumes cfg: "enc_cfg_ok cfg" and plain: "plain_cfg cfg hw" and set: "h264e_set_sps cfg hw sps0 = Some (MPP_OK, s, hw')"
    and ok: "sps_ok s" and "b_vui (sps_vui s) = 1"
  shows "vui_plain (sps_vui s)" and "vpu_vui_ok (sps_vui s)" and "length (vui_bits (sps_vui s)) \<le> 200"
proof -
  obtain chroma interval v where v: "sps_vui s = h264e_set_sps_vui cfg (fst (h264e_set_format (prep_format cfg) hw))
      (rc_fps_out_num cfg sdiv rc_fps_out_denorm cfg) chroma interval v" "i_num_reorder_frames v = 0"
      "0 \<le> i_max_dec_frame_buffering v" "i_max_dec_frame_buffering v \<le> 16"
    using set_sps_vui_value [OF cfg set] by blast
  let ?w = "sps_vui s"
  note p = vui_plain_cfg [of cfg, OF _ _ _ _, of "fst (h264e_set_format (prep_format cfg) hw)"
      "rc_fps_out_num cfg sdiv rc_fps_out_denorm cfg" chroma interval v, folded v(1)]
  have pl: "vui_plain ?w" using p(1) plain by (simp add: plain_cfg_def)
  have r: "b_bitstream_restriction ?w \<noteq> 0 \<Longrightarrow> i_max_bytes_per_pic_denom ?w = 0 \<and> i_max_bits_per_mb_denom ?w = 0
      \<and> i_log2_max_mv_length_horizontal ?w = 9 \<and> i_log2_max_mv_length_vertical ?w = 9
      \<and> i_num_reorder_frames ?w = 0 \<and> 0 \<le> i_max_dec_frame_buffering ?w \<and> i_max_dec_frame_buffering ?w \<le> 16"
    using p(2) plain v(2-4) by (auto simp: plain_cfg_def)
  have vo: "vui_ok ?w" using ok assms(5) by (simp add: sps_ok_def)
  show "vui_plain ?w" by (rule pl)
  show "vpu_vui_ok ?w" using vo r by (auto simp: vpu_vui_ok_def vue_ok_small)
  have len: "length (ue (i_max_dec_frame_buffering ?w)) \<le> 108" if "b_bitstream_restriction ?w \<noteq> 0"
    using r [OF that] length_ue_lt [of "i_max_dec_frame_buffering ?w" 5] by simp
  have "length (ue_bits 9) = 7" "length (ue_bits 0) = 1" by code_simp+
  then show "length (vui_bits ?w) \<le> 200"
    using pl r len by (simp add: vui_bits_def vui_plain_def bits_if_def)
qed

lemma plain_sps:
  assumes cfg: "enc_cfg_ok cfg" and plain: "plain_cfg cfg hw" and hw: "hw_type hw' \<noteq> H264E_RKV"
    and set: "h264e_set_sps cfg hw sps0 = Some (MPP_OK, s, hw')" and ok: "sps_ok s" and r: "sps_result cfg hw' s"
  shows "vpu_sps_ok s" and "vpu_sps_bits s = sps_bits s" and "length (sps_bits s) \<le> 450"
proof -
  note res = r [unfolded sps_result_def]
  have bv: "b_vui (sps_vui s) = 1" using res by simp
  note v = plain_sps_vui [OF cfg plain set ok bv]
  have wh: "1 \<le> prep_width cfg" "prep_width cfg < 2 ^ 16" "1 \<le> prep_height cfg" "prep_height cfg < 2 ^ 16"
    using cfg by (simp_all add: enc_cfg_ok_def)
  have mb: "i_mb_width s = (prep_width cfg + 15) div 16" "i_mb_height s = (prep_height cfg + 15) div 16"
    using res by simp_all
  note m = mb_crop [OF wh(1,2), folded mb(1)] mb_crop [OF wh(3,4), folded mb(2)]
  have crop: "crop_left (sps_crop s) = 0" "0 \<le> crop_right (sps_crop s)" "crop_right (sps_crop s) < 16"
    "crop_top (sps_crop s) = 0" "0 \<le> crop_bottom (sps_crop s)" "crop_bottom (sps_crop s) < 16"
    using res m by simp_all
  have half: "x sdiv 2 = x div 2" "drop_bit 1 x = x div 2" if "0 \<le> x" for x :: int
    using that by (simp_all add: sdiv_2 drop_bit_eq_div)
  have f: "sps_id s = 0" "i_chroma_format_idc s = 1" "i_log2_max_frame_num s = 16" "i_poc_type s = 2"
      "b_frame_mbs_only s = 1" "0 \<le> i_num_ref_frames s" "i_num_ref_frames s \<le> 16"
    using res hw by simp_all
  show "vpu_sps_ok s" unfolding vpu_sps_ok_def
    using ok v(2) f crop m by (simp add: vue_ok_small half)
  show "vpu_sps_bits s = sps_bits s"
    by (rule vpu_sps_bits_plain) (use v(1) f crop in simp_all)
  have len: "length (ue (i_num_ref_frames s)) \<le> 9" "length (ue (i_mb_width s - 1)) \<le> 25"
      "length (ue (i_mb_height s - 1)) \<le> 25" "length (ue (crop_right (sps_crop s) div 2)) \<le> 7"
      "length (ue (crop_bottom (sps_crop s) div 2)) \<le> 7"
    using length_ue_lt [of "i_num_ref_frames s" 5] length_ue_lt [of "i_mb_width s - 1" 13]
      length_ue_lt [of "i_mb_height s - 1" 13] length_ue_lt [of "crop_right (sps_crop s) div 2" 4]
      length_ue_lt [of "crop_bottom (sps_crop s) div 2" 4] f m crop by simp_all
  have lc: "length (ue (drop_bit (Suc 0) (crop_right (sps_crop s)))) + length (ue (drop_bit (Suc 0) (crop_bottom (sps_crop s)))) \<le> 14"
    using len(4,5) by (simp add: drop_bit_eq_div)
  have c: "length (ue_bits 0) = 1" "length (ue_bits (Suc 0)) = 3" "length (ue_bits 12) = 7" "length (ue_bits 2) = 3" by code_simp+
  have "length (sps_bits s) \<le> sum_list [8, 1, 1, 1, 1, 4, 8, 1, 7, 7, 3, 0, 9, 1, 25, 25, 1, 0, 1, 1, 16, 1, 200]"
    unfolding sps_bits_def Let_def
    by (rule length_concat_le, intro list.rel_intros)
      (use f c len(1-3) lc v(3) crop(1,4) in \<open>simp_all add: bits_if_def\<close>)
  then show "length (sps_bits s) \<le> 450" by simp
qed

end
