(* ===== verification/VepuSpec.thy ===== *)
theory VepuSpec
  imports VepuSink
begin

text \<open>
  Properties of the VEPU header path: its stream writer, the range of its Exp-Golomb writer, the
  header units of a configuration compared with those of the RKVENC path, and overflow.
\<close>

section \<open>The stream writer\<close>

definition demo_vpu :: vpu_stream where
  "demo_vpu = h264e_vpu_nal_start 1 7 (snd (vpu_stream_buffer_init 128))"

lemma init_empty: "16 \<le> n \<Longrightarrow> fst (vpu_stream_buffer_init n) = MPP_OK \<and> vs_empty (snd (vpu_stream_buffer_init n))
    \<and> vs_size (snd (vpu_stream_buffer_init n)) = n"
  by (simp add: vpu_stream_buffer_init_def vpu_stream_buffer_status_def vs_empty_def)

lemma demo_vpu: "vs_ok demo_vpu" "vs_bits demo_vpu = []" "vs_room demo_vpu = 480"
proof -
  have i: "vs_empty (snd (vpu_stream_buffer_init 128))" "vs_size (snd (vpu_stream_buffer_init 128)) = 128"
    using init_empty [of 128] by simp_all
  from nal_start [OF i(1) nal_headers(1)] i(2) show "vs_ok demo_vpu" "vs_bits demo_vpu = []" "vs_room demo_vpu = 480"
    by (simp_all add: demo_vpu_def vs_started_def vs_room_def)
qed

lemma bit_len_eq: "2 ^ k \<le> n \<Longrightarrow> n < 2 ^ Suc k \<Longrightarrow> bit_len n = Suc k"
proof -
  assume n: "2 ^ k \<le> n" "n < 2 ^ Suc k"
  have "(2 :: nat) ^ k < 2 ^ bit_len n" using n(1) bit_len_upper [of n] by linarith
  then have "k < bit_len n" by simp
  with bit_len_le [OF n(2)] show ?thesis by simp
qed

lemma msb_bits_exp_word: "k < 32 \<Longrightarrow> msb_bits (Suc k) (2 ^ k :: u32) = True # replicate k False"
  by (rule nth_equalityI) (auto simp: nth_msb_bits nth_Cons' bit_exp_iff)

lemma msb_bits_exp_nat: "msb_bits (Suc k) (2 ^ k :: nat) = True # replicate k False"
  by (rule nth_equalityI) (auto simp: nth_msb_bits nth_Cons' bit_exp_iff)

lemma put_bit_lost:
  "vs_buffered_bits t = 0 \<Longrightarrow> vpu_stream_put_bits_with_detect 1 0x800000 t = vpu_stream_put_bits_with_detect 1 0 t"
proof -
  have "push_bit (32 - (1 + 0)) (0x800000 :: u32) = push_bit (32 - (1 + 0)) 0" by code_simp
  moreover assume "vs_buffered_bits t = 0"
  ultimately show ?thesis by (simp only: vpu_stream_put_bits_with_detect_def)
qed

text \<open>
  C20: \<open>hal_h264e_vpu_stream_put_bits_with_detect\<close> with a width of at most 24 and a value that fits
  appends exactly the bits of the value to what the bytes written so far mean to a decoder, that is
  with the emulation prevention bytes taken away; the invariant of the stream is kept.
\<close>

theorem vpu_put_bits_appends:
  assumes "vs_ok s" and "n \<le> 24" and "unat v < 2 ^ n" and "n \<le> vs_room s"
  shows "vs_ok (vpu_stream_put_bits_with_detect n v s)
    \<and> vs_bits (vpu_stream_put_bits_with_detect n v s) = vs_bits s @ msb_bits n v
    \<and> vs_overflow (vpu_stream_put_bits_with_detect n v s) = 0"
  using vpu_put(1) [OF assms] by (simp add: vs_ok_def vs_bytes_ok_def)

theorem vpu_put_bits_appends_witness:
  "vs_bits (vpu_stream_put_bits_with_detect 24 1 demo_vpu) = replicate 23 False @ [True]"
proof -
  have "msb_bits 24 (1 :: u32) = replicate 23 False @ [True]" by code_simp
  then show ?thesis using vpu_put_bits_appends [of demo_vpu 24 1] by (simp add: demo_vpu)
qed

text \<open>
  C34: the unsigned Exp-Golomb writer appends the ue code of every value below \<open>2 ^ 24 - 1\<close>, across
  its split into two writes for long codes.
\<close>

theorem vpu_write_ue_code:
  assumes "vs_ok s" and "x < 2 ^ 24 - 1" and "length (ue_bits x) \<le> vs_room s"
  shows "vs_ok (vpu_write_ue (of_nat x) s) \<and> vs_bits (vpu_write_ue (of_nat x) s) = vs_bits s @ ue_bits x"
  using vpu.emitsD [OF emits_vpu_ue [OF assms(2)] assms(1,3)] by simp

theorem vpu_write_ue_code_witness:
  "vs_bits (vpu_write_ue 5000 demo_vpu) = ue_bits 5000"
proof -
  have "length (ue_bits 5000) = 25" using bit_len_eq [of 12 5001] by (simp add: length_ue_bits)
  then show ?thesis using vpu_write_ue_code [of demo_vpu 5000] by (simp add: demo_vpu)
qed

text \<open>
  C35: beyond that range the writer is wrong. For the value \<open>2 ^ 24\<close>, on a stream at a byte boundary, it
  splits the 25 bit code number after 24 bits and then writes the upper part again where the last
  bit should be, so that the code it writes is that of \<open>2 ^ 24 - 1\<close>.
\<close>

theorem vpu_write_ue_too_large:
  assumes "vs_ok s" and "vs_buffered_bits s = 0" and "49 \<le> vs_room s"
  shows "vs_bits (vpu_write_ue (of_nat (2 ^ 24)) s) = vs_bits s @ ue_bits (2 ^ 24 - 1)
    \<and> ue_bits (2 ^ 24 - 1) \<noteq> ue_bits (2 ^ 24)"
proof -
  let ?a = "vpu_stream_put_bits_with_detect 24 0 s"
  let ?b = "vpu_stream_put_bits_with_detect 24 0x800000 ?a"
  have w: "vpu_write_ue (of_nat (2 ^ 24)) s = vpu_stream_put_bits_with_detect 1 0x800000 ?b"
  proof -
    have "count_bits 0x1000001 = 25" using bit_len_eq [of 24 "0x1000001"] by (simp add: count_bits_def)
    moreover have "drop_bit 1 (0x1000001 :: u32) = 0x800000" by code_simp
    ultimately show ?thesis by (simp add: vpu_write_ue_def Let_def)
  qed
  have a: "vs_ok ?a" "vs_bits ?a = vs_bits s @ replicate 24 False" "25 \<le> vs_room ?a"
    using vpu_put [OF assms(1), of 24 0] assms(3) by simp_all
  have b: "vs_ok ?b" "vs_bits ?b = vs_bits s @ replicate 24 False @ msb_bits 24 (0x800000 :: u32)" "1 \<le> vs_room ?b"
    using vpu_put [OF a(1), of 24 "0x800000"] a by simp_all
  have "vs_buffered_bits ?b = 0"
  proof -
    have "(8 * length (vs_raw s) + 48) mod 8 = (8 * length (vs_raw ?b) + vs_buffered_bits ?b) mod 8"
      using length_vs_bits [of ?b] length_vs_bits [of s] b(2) assms(2) by simp
    moreover have "vs_buffered_bits ?b \<le> 7" using b(1) by (simp add: vs_ok_def)
    ultimately show ?thesis by simp
  qed
  then have "vpu_stream_put_bits_with_detect 1 0x800000 ?b = vpu_stream_put_bits_with_detect 1 0 ?b"
    by (rule put_bit_lost)
  then have "vs_bits (vpu_write_ue (of_nat (2 ^ 24)) s)
      = vs_bits s @ replicate 24 False @ msb_bits 24 (0x800000 :: u32) @ [False]"
    unfolding w using vpu_put(1) [OF b(1), of 1 0] b(2,3) by simp
  moreover have ue: "ue_bits (2 ^ 24 - 1) = replicate 24 False @ True # replicate 24 False"
    using bit_len_eq [of 24 "2 ^ 24"] msb_bits_exp_nat [of 24] by (simp add: ue_bits_eq)
  moreover have "msb_bits 24 (0x800000 :: u32) = True # replicate 23 False" using msb_bits_exp_word [of 23] by simp
  ultimately have bits: "vs_bits (vpu_write_ue (of_nat (2 ^ 24)) s) = vs_bits s @ ue_bits (2 ^ 24 - 1)"
    by (simp add: replicate_append_same flip: replicate_Suc)
  have "ue_bits (2 ^ 24) \<noteq> ue_bits (2 ^ 24 - 1)" using ue_bits_prefix_free [of "2 ^ 24" "[]" "2 ^ 24 - 1" "[]"] by simp
  with bits show ?thesis by simp
qed

theorem vpu_write_ue_too_large_witness:
  "vs_bits (vpu_write_ue 0x1000000 demo_vpu) \<noteq> ue_bits (2 ^ 24)"
proof -
  have "vs_buffered_bits demo_vpu = 0"
    using length_vs_bits [of demo_vpu] by (simp add: demo_vpu(2))
  with vpu_write_ue_too_large [OF demo_vpu(1)] show ?thesis by (simp add: demo_vpu(2,3))
qed

section \<open>The headers of a configuration\<close>

lemma set_format_hw_type: "hw_type (snd (h264e_set_format f hw)) = hw_type hw"
proof -
  have "hw_type (h264e_rkv_set_format f hw) = hw_type hw" unfolding h264e_rkv_set_format_def
    by (cases f, simp_all only: mpp_frame_format.case) simp_all
  moreover have "hw_type (h264e_vpu_set_format f hw) = hw_type hw"
    unfolding h264e_vpu_set_format_def Let_def by (cases f, simp_all only: mpp_frame_format.case) simp_all
  ultimately show ?thesis by (simp add: h264e_set_format_def Let_def)
qed

lemma reset_empty:
  assumes "length (vs_buffer s) = vs_size s" and "16 \<le> vs_size s"
  shows "vs_empty (vpu_stream_buffer_reset s)" and "vs_size (vpu_stream_buffer_reset s) = vs_size s"
  using assms by (simp_all add: vpu_stream_buffer_reset_def vs_empty_def)

lemma set_sps_hw_type: "h264e_set_sps cfg hw sps = Some (ret, s, hw') \<Longrightarrow> hw_type hw' = hw_type hw"
  using set_format_hw_type [of "prep_format cfg" hw]
  by (auto simp: h264e_set_sps_def Let_def split: prod.splits if_splits)

text \<open>The PPS of a configuration is in range for the VEPU writer and short.\<close>

lemma vpu_pps_result:
  assumes "enc_cfg_ok cfg" and "sps_id sps = 0"
  shows "\<exists>p. h264e_set_pps cfg sps pps0 = (MPP_OK, p) \<and> vpu_pps_ok p \<and> b_cqm_preset p = 0
    \<and> length (vpu_pps_bits p) \<le> 300"
proof -
  have "ue_ok (sps_id sps)" using assms(2) by (simp add: field_oks)
  from set_pps_ok [OF assms(1) this, of pps0] assms(2) obtain p where
    p: "h264e_set_pps cfg sps pps0 = (MPP_OK, p)" "pps_ok p" "pps_id p = 0" "pps_sps_id p = 0" "b_cqm_preset p = 0"
      "i_num_slice_groups p = 1" "i_num_ref_idx_l0_default_active p = 1" "i_num_ref_idx_l1_default_active p = 1"
    by auto
  have "vpu_pps_ok p" using p by (simp add: vpu_pps_ok_def vue_0 flag_ok_def)
  moreover have "length (vpu_pps_bits p) \<le> sum_list [1, 1, 1, 1, 1, 1, 1, 1, 2, 33, 33, 33, 1, 1, 1, 35]"
    unfolding vpu_pps_bits_def
    by (rule length_concat_le, intro list.rel_intros)
      (use p(2) length_se_le in \<open>auto simp: p(3-8) pps_ok_def bits_if_def length_ue_small intro: le_SucI\<close>)
  ultimately show ?thesis using p(1,5) by auto
qed

text \<open>The two streams of the extra info, ready for a unit each.\<close>

definition vpu_extra_ok :: "vpu_extra_info \<Rightarrow> bool" where
  "vpu_extra_ok info \<longleftrightarrow> length (vs_buffer (vx_sps_stream info)) = vs_size (vx_sps_stream info)
     \<and> vs_size (vx_sps_stream info) = 128 \<and> length (vs_buffer (vx_pps_stream info)) = vs_size (vx_pps_stream info)
     \<and> vs_size (vx_pps_stream info) = 128"

lemma init_extra_ok_vpu:
  "\<exists>info. h264e_vpu_init_extra_info info0 = (MPP_OK, info) \<and> vpu_extra_ok info \<and> vx_sps info = vx_sps info0
     \<and> vx_pps info = vx_pps info0"
  by (simp add: h264e_vpu_init_extra_info_def vpu_stream_buffer_init_def vpu_stream_buffer_status_def Let_def
      vpu_extra_ok_def)

lemma write_units:
  assumes "vs_empty s" and "vs_size s = 128"
  shows "vpu_sps_ok e \<Longrightarrow> length (vpu_sps_bits e) \<le> 450 \<Longrightarrow>
      vs_content (hal_h264e_vpu_write_sps e s) = vpu_unit 0x27 (vpu_sps_bits e)"
    and "vpu_pps_ok p \<Longrightarrow> length (vpu_pps_bits p) \<le> 450 \<Longrightarrow>
      vs_content (hal_h264e_vpu_write_pps p s) = vpu_unit 0x28 (vpu_pps_bits p)"
  using vpu_unit_content [OF assms(1) nal_headers(1) vpu_sps_emits vpu_elements_keep(1)]
    vpu_unit_content [OF assms(1) nal_headers(2) vpu_pps_emits vpu_elements_keep(2)] assms(2)
  by (simp_all add: hal_h264e_vpu_write_sps_def hal_h264e_vpu_write_pps_def)

lemma se_bits_inj [simp]: "se_bits x = se_bits y \<longleftrightarrow> x = y"
proof
  assume "se_bits x = se_bits y"
  then have "ue_of_se x = ue_of_se y"
    using ue_bits_prefix_free [of "ue_of_se x" "[]" "ue_of_se y" "[]"] by (simp add: se_bits_def)
  then show "x = y" using se_of_ue_of_se by metis
qed simp

lemma second_offset_bits:
  assumes "b_cqm_preset p = 0"
  shows "pps_bits (p\<lparr>i_second_chroma_qp_index_offset := q\<rparr>) sps = pps_bits p sps \<longleftrightarrow>
    b_transform_8x8_mode p = 0 \<or> q = i_second_chroma_qp_index_offset p"
  using assms by (simp add: pps_bits_def Let_def bits_if_def)


definition demo_vpu_extra :: vpu_extra_info where
  "demo_vpu_extra = \<lparr>vx_sps_stream = snd (vpu_stream_buffer_init 128), vx_pps_stream = snd (vpu_stream_buffer_init 128),
     vx_sei_stream = snd (vpu_stream_buffer_init 1024), vx_sps = demo_sps, vx_pps = demo_pps, vx_sei_buf = [],
     vx_sei_change_flg = 0\<rparr>"

definition demo_vpu_hw :: h264e_hw_cfg where
  "demo_vpu_hw = demo_hw\<lparr>hw_type := H264E_VPU\<rparr>"


text \<open>The bits of the VUI the VEPU writes, against those of the syntax.\<close>

lemma vpu_vui_bits_cases:
  assumes "b_timing_info_present v = 1"
  shows "if vui_plain v then vpu_vui_bits v = vui_bits v else length (vpu_vui_bits v) < length (vui_bits v)"
proof (cases "vui_plain v")
  case False
  define rest where "rest = bits_if (b_bitstream_restriction v \<noteq> 0)
       [flag (b_motion_vectors_over_pic_boundaries v), ue (i_max_bytes_per_pic_denom v),
        ue (i_max_bits_per_mb_denom v), ue (i_log2_max_mv_length_horizontal v),
        ue (i_log2_max_mv_length_vertical v), ue (i_num_reorder_frames v),
        ue (i_max_dec_frame_buffering v)]"
  have "length (vpu_vui_bits v) = 74 + length rest"
    by (simp add: vpu_vui_bits_def rest_def [symmetric])
  moreover have "74 + length rest < length (vui_bits v)"
  proof -
    define a o' g c h l where "a = length (bits_if (b_aspect_ratio_info_present v \<noteq> 0)
       [msb_bits 8 (find_sar sar_table (i_sar_width v) (i_sar_height v)),
        bits_if (find_sar sar_table (i_sar_width v) (i_sar_height v) = 255)
          [msb_bits 16 (i_sar_width v), msb_bits 16 (i_sar_height v)]])"
      and "o' = length (bits_if (b_overscan_info_present v \<noteq> 0) [flag (b_overscan_info v)])"
      and "g = length (bits_if (b_signal_type_present v \<noteq> 0)
       [msb_bits 3 (i_vidformat v), flag (b_fullrange v), flag (b_color_description_present v),
        bits_if (b_color_description_present v \<noteq> 0)
          [msb_bits 8 (i_colorprim v), msb_bits 8 (i_transfer v), msb_bits 8 (i_colmatrix v)]])"
      and "c = length (bits_if (b_chroma_loc_info_present v \<noteq> 0) [ue (i_chroma_loc_top v), ue (i_chroma_loc_bottom v)])"
      and "h = length (bits_if (b_nal_hrd_parameters_present v \<noteq> 0) [hrd_bits (vui_hrd_params v)])"
      and "l = length (bits_if (b_nal_hrd_parameters_present v \<noteq> 0 \<or> b_vcl_hrd_parameters_present v \<noteq> 0) [[False]])"
    have "length (vui_bits v) = 74 + length rest + a + o' + g + c + h + l"
      unfolding vui_bits_def rest_def [symmetric] concat.simps length_append
        a_def [symmetric] o'_def [symmetric] g_def [symmetric] c_def [symmetric] h_def [symmetric] l_def [symmetric]
      using assms by (simp add: bits_if_def)
    moreover have "b_aspect_ratio_info_present v \<noteq> 0 \<Longrightarrow> 0 < a" "b_overscan_info_present v \<noteq> 0 \<Longrightarrow> 0 < o'"
        "b_signal_type_present v \<noteq> 0 \<Longrightarrow> 0 < g" "b_chroma_loc_info_present v \<noteq> 0 \<Longrightarrow> 0 < c"
        "b_nal_hrd_parameters_present v \<noteq> 0 \<Longrightarrow> 0 < l" "b_vcl_hrd_parameters_present v \<noteq> 0 \<Longrightarrow> 0 < l"
      using bit_len_gt0 [of "nat (i_chroma_loc_top v) + 1"]
      by (simp_all add: a_def o'_def g_def c_def l_def bits_if_def length_ue_bits)
    ultimately show ?thesis using False assms unfolding vui_plain_def by linarith
  qed
  ultimately show ?thesis using False by simp
qed (simp add: vpu_vui_bits_plain)

text \<open>
  C30: the VEPU writer writes the flags of a VUI but not what most of them announce. For a VUI whose timing
  information is present the bits are those of the syntax when no aspect ratio, overscan, signal type, chroma
  location or HRD part is flagged, and fewer otherwise. (Without timing information the writer still writes
  its 64 bits, so that neither holds; such a VUI is not covered.)
\<close>

theorem vpu_vui_flags_without_contents:
  assumes "vs_ok s" and "vpu_vui_ok v" and "b_timing_info_present v = 1" and "length (vui_bits v) \<le> vs_room s"
  shows "if vui_plain v then vs_bits (vpu_vui_elements v s) = vs_bits s @ vui_bits v
    else length (vs_bits (vpu_vui_elements v s)) < length (vs_bits s @ vui_bits v)"
proof -
  have l: "if vui_plain v then vpu_vui_bits v = vui_bits v else length (vpu_vui_bits v) < length (vui_bits v)"
    by (rule vpu_vui_bits_cases [OF assms(3)])
  then have "length (vpu_vui_bits v) \<le> vs_room s" using assms(4) by (auto split: if_splits)
  from vpu.emitsD(2) [OF vpu_vui_emits [OF assms(2)] assms(1) this] l show ?thesis by (auto split: if_splits)
qed

definition wide_vui :: h264e_vui where
  "wide_vui = demo_vui\<lparr>b_timing_info_present := 1, b_aspect_ratio_info_present := 1, i_sar_width := 16, i_sar_height := 11\<rparr>"

theorem vpu_vui_flags_without_contents_witness:
  "length (vs_bits (vpu_vui_elements wide_vui demo_vpu)) < length (vui_bits wide_vui)"
proof -
  have "\<not> vui_plain wide_vui" "b_timing_info_present wide_vui = 1" by (simp_all add: wide_vui_def vui_plain_def)
  moreover have "vpu_vui_ok wide_vui"
    using demo_ok(2) by (simp add: wide_vui_def vpu_vui_ok_def vui_ok_def flag_ok_def u_ok_def demo_vui_def)
  moreover have "length (vui_bits wide_vui) \<le> 480"
    by (simp add: vui_bits_def bits_if_def wide_vui_def demo_vui_def)
  ultimately show ?thesis using vpu_vui_flags_without_contents [of demo_vpu wide_vui] by (simp add: demo_vpu)
qed

section \<open>A full buffer\<close>

text \<open>
  The pointer stands behind the bytes counted, three bytes before the end at most, and less than a
  byte is pending. The byte writers store at the pointer and the byte behind it.
\<close>

definition vs_safe :: "vpu_stream \<Rightarrow> bool" where
  "vs_safe s \<longleftrightarrow> vs_stream s = vs_byte_cnt s \<and> vs_byte_cnt s + 3 \<le> vs_size s \<and> length (vs_buffer s) = vs_size s
     \<and> vs_buffered_bits s \<le> 7"

definition keeps_safe :: "(vpu_stream \<Rightarrow> vpu_stream) \<Rightarrow> bool" where
  "keeps_safe f \<longleftrightarrow> (\<forall>s. vs_safe s \<longrightarrow> vs_safe (f s) \<and> vs_size (f s) = vs_size s)"

lemma keeps_safe_run: "list_all keeps_safe fs \<Longrightarrow> keeps_safe (run fs)"
  by (induction fs) (auto simp: keeps_safe_def)

lemma keeps_safe_run_if: "list_all keeps_safe fs \<Longrightarrow> keeps_safe (run_if b fs)"
  using keeps_safe_run by (simp add: run_if_def keeps_safe_def)

lemma keeps_safe_bytes:
  "vs_safe s \<Longrightarrow> vs_safe (put_bytes_with_detect bits bb s) \<and> vs_size (put_bytes_with_detect bits bb s) = vs_size s"
proof (induction bits bb s rule: put_bytes_with_detect.induct)
  case (1 bits bb s)
  show ?case
  proof (cases "bits > 7 \<and> vs_byte_cnt s + 5 \<le> vs_size s")
    case True
    have b: "vs_safe (put_byte_with_detect b s) \<and> vs_size (put_byte_with_detect b s) = vs_size s" for b
      using 1(2) True by (simp add: put_byte_with_detect_def Let_def vs_safe_def)
    have "vpu_stream_buffer_status s = (MPP_OK, s)" using True by (simp add: vpu_stream_buffer_status_def)
    then show ?thesis using 1(1) [of MPP_OK s] b True by (simp add: put_bytes_with_detect.simps [of bits])
  next
    case False
    then show ?thesis using 1(2)
      by (auto simp: put_bytes_with_detect.simps [of bits] vpu_stream_buffer_status_def vs_safe_def)
  qed
qed

lemma keeps_safe_put: "keeps_safe (vpu_stream_put_bits_with_detect n v)"
  by (simp add: keeps_safe_def vpu_stream_put_bits_with_detect_def keeps_safe_bytes)

lemma keeps_safe_put_raw: "n \<le> 8 \<Longrightarrow> keeps_safe (vpu_stream_put_bits n v)"
  unfolding keeps_safe_def vpu_stream_put_bits_def
  by (auto simp: vs_safe_def vpu_stream_buffer_status_def put_bytes.simps split: prod.split)

lemma keeps_safe_ue: "keeps_safe (vpu_write_ue v)"
  unfolding keeps_safe_def vpu_write_ue_def Let_def
  using keeps_safe_put by (auto simp: keeps_safe_def split: prod.split)

lemma keeps_safe_start: "keeps_safe (h264e_vpu_nal_start r t)"
  unfolding h264e_vpu_nal_start_def
  by (rule keeps_safe_run) (simp add: keeps_safe_put_raw, simp add: keeps_safe_def vs_safe_def)

lemma keeps_safe_trailing: "keeps_safe vpu_rbsp_trailing_bits"
  unfolding keeps_safe_def vpu_rbsp_trailing_bits_def Let_def using keeps_safe_put by (auto simp: keeps_safe_def)

lemma keeps_safe_ff: "vs_safe s \<Longrightarrow> vs_safe (snd (vpu_sei_ff_loop i n s)) \<and> vs_size (snd (vpu_sei_ff_loop i n s)) = vs_size s"
proof (induction i n s rule: vpu_sei_ff_loop.induct)
  case (1 i n s)
  have "vs_safe (vput 8 255 s) \<and> vs_size (vput 8 255 s) = vs_size s"
    using keeps_safe_put 1(2) by (simp add: keeps_safe_def vput_def)
  then show ?case using 1 by (subst (1 2) vpu_sei_ff_loop.simps) simp
qed

lemmas keeps_safe_ops = keeps_safe_put keeps_safe_ue keeps_safe_run keeps_safe_run_if

text \<open>
  C10: whatever the parameter sets, the payload and the fill of the buffer are, the header writers
  keep to the buffer: from a stream whose pointer is in place, every write the SPS, PPS and SEI
  writers do lies inside the buffer, and the pointer stays in place.
\<close>

theorem vpu_writers_stay_inside:
  assumes "vs_safe s"
  shows "vs_safe (hal_h264e_vpu_write_sps sps s) \<and> vs_safe (hal_h264e_vpu_write_pps pps s)
    \<and> vs_safe (hal_h264e_vpu_write_sei payload n ty s)"
proof -
  have "keeps_safe (hal_h264e_vpu_write_sps sps)" "keeps_safe (hal_h264e_vpu_write_pps pps)"
    unfolding hal_h264e_vpu_write_sps_def hal_h264e_vpu_write_pps_def vpu_sps_elements_def vpu_pps_elements_def
      vpu_vui_elements_def vput_def vue_def vpu_write_se_def
    by (rule keeps_safe_run, simp add: keeps_safe_ops keeps_safe_start keeps_safe_trailing)+
  moreover have "vs_safe (hal_h264e_vpu_write_sei payload n ty s)"
  proof -
    have p: "vs_safe (vput m x s)" if "vs_safe s" for m x s
      using that keeps_safe_put by (simp add: keeps_safe_def vput_def)
    have "keeps_safe (run (map (\<lambda>i. vput 8 (uint (payload ! i))) [0..<n]))"
      by (rule keeps_safe_run) (simp add: list_all_iff vput_def keeps_safe_put)
    then have r: "vs_safe (run (map (\<lambda>i. vput 8 (uint (payload ! i))) [0..<n]) s)" if "vs_safe s" for s
      using that by (simp add: keeps_safe_def)
    obtain i1 s1 where 1: "vpu_sei_ff_loop 0 ty (h264e_vpu_nal_start 0 6 s) = (i1, s1)" by fastforce
    have "vs_safe s1" using keeps_safe_ff [of "h264e_vpu_nal_start 0 6 s" 0 ty] keeps_safe_start assms 1
      by (simp add: keeps_safe_def)
    then have s2: "vs_safe (vput 8 (int ty - int i1) s1)" by (rule p)
    obtain i3 s3 where 3: "vpu_sei_ff_loop 0 n (vput 8 (int ty - int i1) s1) = (i3, s3)" by fastforce
    have "vs_safe s3" using keeps_safe_ff [OF s2, of 0 n] 3 by simp
    from r [OF p [OF this]] keeps_safe_trailing show ?thesis
      by (simp add: hal_h264e_vpu_write_sei_def Let_def 1 3 keeps_safe_def del: run_simps)
  qed
  ultimately show ?thesis using assms by (simp add: keeps_safe_def)
qed

theorem vpu_writers_stay_inside_witness:
  "vs_byte_cnt (hal_h264e_vpu_write_sei (replicate 1000 1) 1000 5 (snd (vpu_stream_buffer_init 128))) + 3
    \<le> vs_size (hal_h264e_vpu_write_sei (replicate 1000 1) 1000 5 (snd (vpu_stream_buffer_init 128)))"
proof -
  have "vs_safe (snd (vpu_stream_buffer_init 128))"
    by (simp add: vs_safe_def vpu_stream_buffer_init_def vpu_stream_buffer_status_def)
  from vpu_writers_stay_inside [OF this] show ?thesis by (simp add: vs_safe_def)
qed

end
