(* ===== verification/RkvDpb.thy ===== *)
theory RkvDpb
  imports RkvNal "HOL-Library.Monad_Syntax" "HOL-Library.Multiset"
begin

text \<open>
  Reference management of the RKVENC encoder, mpp/hal/rkenc/h264e/hal_h264e_rkv_dpb.c, with the
  initialisation and the calls around it in hal_h264e_rkv.c. A \<open>H264eRkvFrame *\<close> is the index of a
  frame in \<open>frame_buf\<close>, or \<open>None\<close> for NULL. An operation that dereferences NULL, divides by zero or
  leaves an array has the result \<open>None\<close>; \<open>mpp_assert\<close> only logs and is no branch. The time stamps of a frame
  play no part; its buffer handle is kept beside the state (\<open>allocate_rec_bufs\<close>).
\<close>

section \<open>Data\<close>

record rkv_frame =
  hw_buf_used :: int
  fr_frame_cnt :: int
  fr_frame_num :: int
  long_term_flag :: int
  reorder_longterm_flag :: int
  fr_poc :: int
  fr_frame_type :: int
  b_kept_as_ref :: int
  b_keyframe :: int
  b_corrupt :: int
  i_reference_count :: int

record rkv_mmco =
  i_difference_of_pic_nums :: int
  mmco_poc :: int
  memory_management_control_operation :: int

record rkv_dpb =
  fdec :: "nat option"
  fref0 :: "nat option list"
  fref1 :: "nat option list"
  fref_nearest0 :: "nat option"
  unused :: "nat option list"
  reference :: "nat option list"
  i_last_keyframe :: int
  i_last_idr :: int
  frame_buf :: "rkv_frame list"
  i_ref0 :: nat
  i_ref1 :: nat
  i_nal_type :: nat
  i_nal_ref_idc :: nat
  i_frame_cnt :: int
  i_frame_num :: int
  i_slice_type :: nat
  i_idr_pic_id :: int
  i_tmp_idr_pic_id :: int
  i_max_ref0 :: int
  i_max_ref1 :: int
  reordering0 :: int
  reordering1 :: int
  ref_pic_list_order0 :: "(int \<times> int) list"
  ref_pic_list_order1 :: "(int \<times> int) list"
  i_mmco_remove_from_end :: nat
  i_mmco_command_count :: nat
  mmco :: "rkv_mmco list"
  i_long_term_reference_flag :: int

record h264e_ref_param =
  i_frame_reference :: int
  i_ref_pos :: int
  i_long_term_en :: int
  i_long_term_internal :: int
  hw_longterm_mode :: int
  i_dpb_size :: int
  i_frame_packing :: int

abbreviation (input) RKV_H264E_REF_MAX :: nat where "RKV_H264E_REF_MAX \<equiv> 16"
abbreviation (input) RKVENC_CODING_TYPE_IDR :: int where "RKVENC_CODING_TYPE_IDR \<equiv> 1"
abbreviation (input) RKVENC_CODING_TYPE_I :: int where "RKVENC_CODING_TYPE_I \<equiv> 2"
abbreviation (input) RKVENC_CODING_TYPE_P :: int where "RKVENC_CODING_TYPE_P \<equiv> 3"
abbreviation (input) RKVENC_CODING_TYPE_BREF :: int where "RKVENC_CODING_TYPE_BREF \<equiv> 4"
abbreviation (input) H264E_HAL_SLICE_TYPE_P :: nat where "H264E_HAL_SLICE_TYPE_P \<equiv> 0"
abbreviation (input) H264E_HAL_SLICE_TYPE_B :: nat where "H264E_HAL_SLICE_TYPE_B \<equiv> 1"
abbreviation (input) H264E_HAL_SLICE_TYPE_I :: nat where "H264E_HAL_SLICE_TYPE_I \<equiv> 2"
abbreviation (input) H264E_NAL_SLICE :: nat where "H264E_NAL_SLICE \<equiv> 1"
abbreviation (input) H264E_NAL_SLICE_IDR :: nat where "H264E_NAL_SLICE_IDR \<equiv> 5"

definition RKVENC_IS_TYPE_I :: "int \<Rightarrow> bool" where
  "RKVENC_IS_TYPE_I x \<longleftrightarrow> x = RKVENC_CODING_TYPE_I \<or> x = RKVENC_CODING_TYPE_IDR"

section \<open>Access\<close>

definition rd :: "'a list \<Rightarrow> nat \<Rightarrow> 'a option" where
  "rd xs i = (if i < length xs then Some (xs ! i) else None)"

definition wr :: "'a list \<Rightarrow> nat \<Rightarrow> 'a \<Rightarrow> 'a list option" where
  "wr xs i x = (if i < length xs then Some (xs[i := x]) else None)"

text \<open>The frame a pointer stands for, and an assignment through it.\<close>

definition deref :: "rkv_dpb \<Rightarrow> nat option \<Rightarrow> rkv_frame option" where
  "deref d p = do { k \<leftarrow> p; rd (frame_buf d) k }"

definition set_frame :: "nat option \<Rightarrow> (rkv_frame \<Rightarrow> rkv_frame) \<Rightarrow> rkv_dpb \<Rightarrow> rkv_dpb option" where
  "set_frame p f d = do {
     k \<leftarrow> p; x \<leftarrow> rd (frame_buf d) k;
     Some (d\<lparr>frame_buf := (frame_buf d)[k := f x]\<rparr>) }"

section \<open>Lists of frames that end in NULL\<close>

text \<open>Each operation walks an array from the pointer it is given; at its end it leaves the array.\<close>

fun h264e_rkv_frame_push :: "'a option list \<Rightarrow> 'a option \<Rightarrow> 'a option list option" where
  "h264e_rkv_frame_push [] frame = None"
| "h264e_rkv_frame_push (None # list) frame = Some (frame # list)"
| "h264e_rkv_frame_push (Some x # list) frame = do { l \<leftarrow> h264e_rkv_frame_push list frame; Some (Some x # l) }"

fun h264e_rkv_frame_pop :: "'a option list \<Rightarrow> ('a option \<times> 'a option list) option" where
  "h264e_rkv_frame_pop (x # None # list) = Some (x, None # None # list)"
| "h264e_rkv_frame_pop (x # Some y # list) =
    do { (frame, l) \<leftarrow> h264e_rkv_frame_pop (Some y # list); Some (frame, x # l) }"
| "h264e_rkv_frame_pop list = None"

fun shift_loop :: "'a option list \<Rightarrow> 'a option list option" where
  "shift_loop (None # list) = Some (None # list)"
| "shift_loop (Some x # y # list) = do { l \<leftarrow> shift_loop (y # list); Some (y # l) }"
| "shift_loop list = None"

definition h264e_rkv_frame_shift :: "'a option list \<Rightarrow> ('a option \<times> 'a option list) option" where
  "h264e_rkv_frame_shift list = do { frame \<leftarrow> rd list 0; l \<leftarrow> shift_loop list; Some (frame, l) }"

section \<open>The pool\<close>

definition h264e_rkv_frame_new :: "rkv_dpb \<Rightarrow> nat option \<times> rkv_dpb" where
  "h264e_rkv_frame_new d =
    (case find (\<lambda>k. hw_buf_used (frame_buf d ! k) = 0) [0..<length (frame_buf d)] of
       Some k \<Rightarrow> (Some k, d\<lparr>frame_buf := (frame_buf d)[k := (frame_buf d ! k)\<lparr>hw_buf_used := 1\<rparr>]\<rparr>)
     | None \<Rightarrow> (None, d))"

definition h264e_rkv_frame_push_unused :: "nat option \<Rightarrow> rkv_dpb \<Rightarrow> rkv_dpb option" where
  "h264e_rkv_frame_push_unused frame d = do {
     f \<leftarrow> deref d frame;
     d \<leftarrow> set_frame frame (\<lambda>f. f\<lparr>i_reference_count := i_reference_count f - 1\<rparr>) d;
     if i_reference_count f - 1 = 0
     then do { u \<leftarrow> h264e_rkv_frame_push (unused d) frame; Some (d\<lparr>unused := u\<rparr>) }
     else Some d }"

definition h264e_rkv_frame_pop_unused :: "rkv_dpb \<Rightarrow> (nat option \<times> rkv_dpb) option" where
  "h264e_rkv_frame_pop_unused d = do {
     first \<leftarrow> rd (unused d) 0;
     (frame, d) \<leftarrow> (if first \<noteq> None
       then do { (frame, u) \<leftarrow> h264e_rkv_frame_pop (unused d); Some (frame, d\<lparr>unused := u\<rparr>) }
       else Some (h264e_rkv_frame_new d));
     if frame = None then Some (None, d)
     else do {
       d \<leftarrow> set_frame frame (\<lambda>f. f\<lparr>i_reference_count := 1, b_keyframe := 0, b_corrupt := 0,
              long_term_flag := 0, reorder_longterm_flag := 0\<rparr>) d;
       Some (frame, d) } }"

section \<open>Marking\<close>

text \<open>\<open>h264e_rkv_frame_push_unused(dpb_ctx, h264e_rkv_frame_shift(&reference[j]))\<close>\<close>

definition release_at :: "nat \<Rightarrow> rkv_dpb \<Rightarrow> rkv_dpb option" where
  "release_at j d = do {
     (frame, l) \<leftarrow> h264e_rkv_frame_shift (drop j (reference d));
     h264e_rkv_frame_push_unused frame (d\<lparr>reference := take j (reference d) @ l\<rparr>) }"

text \<open>The loop over the references for one command; the first argument counts down the elements of
  the array from \<open>j\<close> on, so that it is 0 where the loop would leave the array.\<close>

fun mmco_scan :: "nat \<Rightarrow> nat \<Rightarrow> rkv_mmco \<Rightarrow> rkv_dpb \<Rightarrow> rkv_dpb option" where
  "mmco_scan 0 j m d = None"
| "mmco_scan (Suc n) j m d = do {
     p \<leftarrow> rd (reference d) j;
     if p = None then Some d
     else do {
       f \<leftarrow> deref d p;
       d \<leftarrow> (if fr_poc f = mmco_poc m
             \<and> (memory_management_control_operation m = 1 \<or> memory_management_control_operation m = 2)
           then release_at j d else Some d);
       mmco_scan n (j + 1) m d } }"

fun mmco_loop :: "nat \<Rightarrow> nat \<Rightarrow> rkv_dpb \<Rightarrow> rkv_dpb option" where
  "mmco_loop 0 i d = Some d"
| "mmco_loop (Suc n) i d = do {
     m \<leftarrow> rd (mmco d) i;
     d \<leftarrow> mmco_scan (RKV_H264E_REF_MAX + 1) 0 m d;
     mmco_loop n (i + 1) d }"

text \<open>\<open>for (i = 0; i < 17; i++)\<close>: the first short term reference is released.\<close>

fun release_short_term :: "nat list \<Rightarrow> rkv_dpb \<Rightarrow> rkv_dpb option" where
  "release_short_term [] d = Some d"
| "release_short_term (i # is) d = do {
     p \<leftarrow> rd (reference d) i;
     f \<leftarrow> deref d p;
     if long_term_flag f = 0 then release_at i d else release_short_term is d }"

definition h264e_rkv_reference_update :: "h264e_ref_param \<Rightarrow> h264e_sps \<Rightarrow> rkv_dpb \<Rightarrow> (mpp_ret \<times> rkv_dpb) option" where
  "h264e_rkv_reference_update ref_cfg sps d = do {
     f \<leftarrow> deref d (fdec d);
     if b_kept_as_ref f = 0 then Some (MPP_OK, d)
     else do {
       d \<leftarrow> mmco_loop (i_mmco_command_count d) 0 d;
       r \<leftarrow> h264e_rkv_frame_push (reference d) (fdec d);
       let d = d\<lparr>reference := r\<rparr>;
       extra \<leftarrow> rd (reference d) (nat (i_num_ref_frames sps));
       d \<leftarrow> (if i_long_term_en ref_cfg \<noteq> 0
             then if extra \<noteq> None then release_short_term [0..<17] d else Some d
             else if extra \<noteq> None then release_at 0 d else Some d);
       Some (MPP_OK, d) } }"

definition h264e_rkv_reference_frame_update ::
  "h264e_ref_param \<Rightarrow> h264e_sps \<Rightarrow> rkv_dpb \<Rightarrow> (mpp_ret \<times> rkv_dpb) option" where
  "h264e_rkv_reference_frame_update ref_cfg sps d = do {
     (ret, d) \<leftarrow> h264e_rkv_reference_update ref_cfg sps d;
     Some (if ret \<noteq> MPP_OK then MPP_NOK else MPP_OK, d) }"

lemma pop_fewer:
  "h264e_rkv_frame_pop l = Some (x, l') \<Longrightarrow> l \<noteq> [] \<Longrightarrow> hd l \<noteq> None \<Longrightarrow>
    length (filter (\<lambda>p. p \<noteq> None) l') < length (filter (\<lambda>p. p \<noteq> None) l)"
  by (induction l arbitrary: x l' rule: h264e_rkv_frame_pop.induct) (auto split: bind_splits)

lemma push_unused_keeps_reference: "h264e_rkv_frame_push_unused f d = Some d' \<Longrightarrow> reference d' = reference d"
  by (auto simp: h264e_rkv_frame_push_unused_def set_frame_def split: bind_splits if_splits)

function reset_loop :: "rkv_dpb \<Rightarrow> rkv_dpb option" where
  "reset_loop d = do {
     p \<leftarrow> rd (reference d) 0;
     if p = None then Some d
     else do {
       (frame, l) \<leftarrow> h264e_rkv_frame_pop (reference d);
       d \<leftarrow> h264e_rkv_frame_push_unused frame (d\<lparr>reference := l\<rparr>);
       reset_loop d } }"
  by pat_completeness auto
termination
proof (relation "measure (\<lambda>d. length (filter (\<lambda>p. p \<noteq> None) (reference d)))", simp)
  fix d p x frame l d'
  assume p: "rd (reference d) 0 = Some p" "p \<noteq> None" and l: "h264e_rkv_frame_pop (reference d) = Some x" "(frame, l) = x"
    and d': "h264e_rkv_frame_push_unused frame (d\<lparr>reference := l\<rparr>) = Some d'"
  have "reference d \<noteq> []" "hd (reference d) = p" using p(1) by (auto simp: rd_def hd_conv_nth split: if_splits)
  then show "(d', d) \<in> measure (\<lambda>d. length (filter (\<lambda>p. p \<noteq> None) (reference d)))"
    using pop_fewer [of "reference d" frame l] l p(2) push_unused_keeps_reference [OF d'] by simp
qed

declare reset_loop.simps [simp del]

definition h264e_rkv_reference_reset :: "rkv_dpb \<Rightarrow> rkv_dpb option" where
  "h264e_rkv_reference_reset d = do {
     d \<leftarrow> reset_loop d;
     set_frame (fdec d) (\<lambda>f. f\<lparr>fr_poc := 0\<rparr>) d }"

section \<open>The reference lists\<close>

definition h264e_rkv_reference_distance :: "h264e_ref_param \<Rightarrow> rkv_frame \<Rightarrow> rkv_frame \<Rightarrow> int" where
  "h264e_rkv_reference_distance ref_cfg cur frame =
    (if i_frame_packing ref_cfg = 5
     then \<bar>(fr_frame_cnt cur AND NOT 1) - (fr_frame_cnt frame AND NOT 1)\<bar>
        + of_bool ((fr_frame_cnt cur AND 1) \<noteq> (fr_frame_cnt frame AND 1))
     else \<bar>fr_frame_cnt cur - fr_frame_cnt frame\<bar>)"

text \<open>The loop that deals the references out to the two lists.\<close>

fun split_refs :: "nat \<Rightarrow> nat \<Rightarrow> int \<Rightarrow> rkv_dpb \<Rightarrow> rkv_dpb option" where
  "split_refs 0 i poc d = None"
| "split_refs (Suc n) i poc d = do {
     p \<leftarrow> rd (reference d) i;
     if p = None then Some d
     else do {
       f \<leftarrow> deref d p;
       d \<leftarrow> (if b_corrupt f \<noteq> 0 then Some d
          else if fr_poc f < poc then do {
            l \<leftarrow> wr (fref0 d) (i_ref0 d) p; Some (d\<lparr>fref0 := l, i_ref0 := i_ref0 d + 1\<rparr>) }
          else if fr_poc f > poc then do {
            l \<leftarrow> wr (fref1 d) (i_ref1 d) p; Some (d\<lparr>fref1 := l, i_ref1 := i_ref1 d + 1\<rparr>) }
          else Some d);
       split_refs n (i + 1) poc d } }"

text \<open>
  One pass of the ordering: the first two neighbours in the wrong order are exchanged, which ends the
  pass; on the way \<open>fref_nearest\<close> follows the picture order counts. The passes end when one finds
  the list in order.
\<close>

fun order_pass :: "('a \<Rightarrow> int) \<Rightarrow> ('a \<Rightarrow> int) \<Rightarrow> 'a \<Rightarrow> 'a list \<Rightarrow> 'a \<times> 'a list \<times> bool" where
  "order_pass dist poc near (a # b # xs) =
    (let near = (if poc b > poc near then b else near)
     in if dist a > dist b then (near, b # a # xs, False)
        else case order_pass dist poc near (b # xs) of (near, ys, ok) \<Rightarrow> (near, a # ys, ok))"
| "order_pass dist poc near xs = (near, xs, True)"

fun inversions :: "('a \<Rightarrow> int) \<Rightarrow> 'a list \<Rightarrow> nat" where
  "inversions dist [] = 0"
| "inversions dist (x # xs) = length (filter (\<lambda>y. dist x > dist y) xs) + inversions dist xs"

lemma order_pass_mset: "order_pass dist poc near xs = (near', ys, ok) \<Longrightarrow> mset ys = mset xs"
  by (induction dist poc near xs arbitrary: near' ys ok rule: order_pass.induct)
    (auto simp: Let_def split: if_splits prod.splits)

lemma length_filter_mset: "mset ys = mset xs \<Longrightarrow> length (filter P ys) = length (filter P xs)"
  by (metis mset_filter size_mset)

lemma order_pass_inversions: "order_pass dist poc near xs = (near', ys, False) \<Longrightarrow> inversions dist ys < inversions dist xs"
proof (induction dist poc near xs arbitrary: near' ys rule: order_pass.induct)
  case (1 dist poc near a b xs)
  show ?case
  proof (cases "dist a > dist b")
    case True
    then have "ys = b # a # xs" using 1(2) by (simp add: Let_def)
    then show ?thesis using True by simp
  next
    case False
    then obtain zs where z: "order_pass dist poc (if poc b > poc near then b else near) (b # xs) = (near', zs, False)" "ys = a # zs"
      using 1(2) by (auto simp: Let_def split: prod.splits)
    have "inversions dist zs < inversions dist (b # xs)" using 1(1) [OF refl False] z(1) by simp
    moreover have "length (filter (\<lambda>y. dist a > dist y) zs) = length (filter (\<lambda>y. dist a > dist y) (b # xs))"
      by (rule length_filter_mset) (rule order_pass_mset [OF z(1)])
    ultimately show ?thesis unfolding z(2) by simp
  qed
qed simp_all

function order_refs :: "('a \<Rightarrow> int) \<Rightarrow> ('a \<Rightarrow> int) \<Rightarrow> 'a \<Rightarrow> 'a list \<Rightarrow> 'a \<times> 'a list" where
  "order_refs dist poc near xs =
    (case order_pass dist poc near xs of (near, ys, ok) \<Rightarrow> if ok then (near, ys) else order_refs dist poc near ys)"
  by pat_completeness auto
termination
  by (relation "measure (\<lambda>(dist, _, _, xs). inversions dist xs)") (auto dest: sym intro: order_pass_inversions)

declare order_refs.simps [simp del]

text \<open>\<open>MPP_SWAP\<close> on two elements of a list.\<close>

definition swap :: "'a list \<Rightarrow> nat \<Rightarrow> nat \<Rightarrow> 'a list" where
  "swap xs i j = xs[i := xs ! j, j := xs ! i]"

definition put_mmco :: "(rkv_mmco \<Rightarrow> rkv_mmco) \<Rightarrow> rkv_dpb \<Rightarrow> rkv_dpb option" where
  "put_mmco f d = do {
     m \<leftarrow> rd (mmco d) (i_mmco_command_count d);
     Some (d\<lparr>mmco := (mmco d)[i_mmco_command_count d := f m],
             i_mmco_command_count := i_mmco_command_count d + 1\<rparr>) }"

text \<open>\<open>fdec->i_frame_cnt % i_long_term_internal == 0\<close>\<close>

definition long_term_hit :: "h264e_ref_param \<Rightarrow> rkv_frame \<Rightarrow> bool option" where
  "long_term_hit ref_cfg cur =
    (if i_long_term_internal ref_cfg = 0 then None
     else Some (fr_frame_cnt cur smod i_long_term_internal ref_cfg = 0))"

fun from_end_loop :: "nat \<Rightarrow> int \<Rightarrow> rkv_frame \<Rightarrow> rkv_dpb \<Rightarrow> rkv_dpb option" where
  "from_end_loop 0 i cur d = Some d"
| "from_end_loop (Suc n) i cur d = do {
     p \<leftarrow> (if i < 0 then None else rd (fref0 d) (nat i));
     f \<leftarrow> deref d p;
     d \<leftarrow> put_mmco (\<lambda>m. m\<lparr>mmco_poc := fr_poc f, i_difference_of_pic_nums := fr_frame_num cur - fr_frame_num f\<rparr>) d;
     from_end_loop n (i - 1) cur d }"

text \<open>The pointers in the first \<open>n\<close> elements; none of them may be NULL where they are compared.\<close>

definition list_refs :: "nat \<Rightarrow> nat option list \<Rightarrow> nat list option" where
  "list_refs n l = (if length l < n \<or> None \<in> set (take n l) then None else Some (map the (take n l)))"

definition set_refs :: "nat list \<Rightarrow> nat option list \<Rightarrow> nat option list" where
  "set_refs ks l = map Some ks @ drop (length ks) l"

definition mmco_from_end :: "rkv_frame \<Rightarrow> rkv_dpb \<Rightarrow> rkv_dpb option" where
  "mmco_from_end cur d =
    (if i_mmco_remove_from_end d = 0 then Some d
     else do {
       d \<leftarrow> (if i_ref0 d \<le> 1 then Some d
          else do {
            ks \<leftarrow> list_refs (i_ref0 d) (fref0 d);
            Some (d\<lparr>fref0 := set_refs (snd (order_refs (\<lambda>k. - fr_frame_cnt (frame_buf d ! k)) (\<lambda>_. 0) 0 ks)) (fref0 d)\<rparr>) });
       from_end_loop (i_mmco_remove_from_end d) (int (i_ref0 d) - 1) cur d })"

definition order_by_distance :: "h264e_ref_param \<Rightarrow> rkv_frame \<Rightarrow> rkv_dpb \<Rightarrow> rkv_dpb option" where
  "order_by_distance ref_cfg cur d = do {
     first \<leftarrow> rd (fref0 d) 0;
     if i_ref0 d \<le> 1 then Some (d\<lparr>fref_nearest0 := first\<rparr>)
     else do {
       ks \<leftarrow> list_refs (i_ref0 d) (fref0 d);
       let (near, ks) = order_refs (\<lambda>k. h264e_rkv_reference_distance ref_cfg cur (frame_buf d ! k))
                          (\<lambda>k. fr_poc (frame_buf d ! k)) (hd ks) ks;
       Some (d\<lparr>fref_nearest0 := Some near, fref0 := set_refs ks (fref0 d)\<rparr>) } }"

text \<open>The first element of list 0 from \<open>is\<close> whose frame satisfies \<open>P\<close>.\<close>

fun find_ref :: "(nat \<Rightarrow> rkv_frame \<Rightarrow> bool) \<Rightarrow> nat list \<Rightarrow> rkv_dpb \<Rightarrow> nat option option" where
  "find_ref P [] d = Some None"
| "find_ref P (i # is) d = do {
     p \<leftarrow> rd (fref0 d) i;
     f \<leftarrow> deref d p;
     if P i f then Some (Some i) else find_ref P is d }"

definition long_term_last :: "h264e_ref_param \<Rightarrow> rkv_dpb \<Rightarrow> rkv_dpb option" where
  "long_term_last ref_cfg d =
    (if i_long_term_en ref_cfg = 0 then Some d
     else do {
       r \<leftarrow> find_ref (\<lambda>_ f. long_term_flag f = 1) [0..<i_ref0 d] d;
       case r of None \<Rightarrow> Some d
       | Some i \<Rightarrow> Some (d\<lparr>fref0 := fold (\<lambda>j l. swap l j (j + 1)) [i..<i_ref0 d - 1] (fref0 d)\<rparr>) })"

definition reorder_refs :: "h264e_ref_param \<Rightarrow> rkv_dpb \<Rightarrow> rkv_dpb option" where
  "reorder_refs ref_cfg d =
    (if i_frame_reference ref_cfg > 1 \<and> i_ref_pos ref_cfg \<noteq> 0 \<and> i_ref_pos ref_cfg < int (i_ref0 d)
     then do {
       p \<leftarrow> (if i_ref_pos ref_cfg < 0 then None else rd (fref0 d) (nat (i_ref_pos ref_cfg)));
       f \<leftarrow> deref d p;
       d \<leftarrow> (if long_term_flag f \<noteq> 0 then set_frame (fdec d) (\<lambda>f. f\<lparr>reorder_longterm_flag := 1\<rparr>) d else Some d);
       Some (d\<lparr>reordering0 := 1,
               fref0 := fold (\<lambda>i l. swap l i (i - 1)) (rev [1..<nat (i_ref_pos ref_cfg) + 1]) (fref0 d)\<rparr>) }
     else Some (d\<lparr>reordering0 := 0\<rparr>))"

definition mark_first_p :: "h264e_ref_param \<Rightarrow> rkv_frame \<Rightarrow> rkv_dpb \<Rightarrow> rkv_dpb option" where
  "mark_first_p ref_cfg cur d =
    (let d = d\<lparr>i_mmco_command_count := 0\<rparr>
     in if i_long_term_en ref_cfg \<noteq> 0 \<and> fr_frame_num cur = 1
        then put_mmco (\<lambda>m. m\<lparr>mmco_poc := 0, memory_management_control_operation := 4, i_difference_of_pic_nums := 2\<rparr>) d
        else Some d)"

text \<open>The loop that clears the long term flags; it counts them and keeps the index of the last.\<close>

fun clear_long_term :: "nat list \<Rightarrow> nat \<times> nat \<Rightarrow> rkv_dpb \<Rightarrow> ((nat \<times> nat) \<times> rkv_dpb) option" where
  "clear_long_term [] r d = Some (r, d)"
| "clear_long_term (i # is) r d = do {
     p \<leftarrow> rd (fref0 d) i;
     f \<leftarrow> deref d p;
     if long_term_flag f \<noteq> 0
     then do { d \<leftarrow> set_frame p (\<lambda>f. f\<lparr>long_term_flag := 0\<rparr>) d; clear_long_term is (fst r + 1, i) d }
     else clear_long_term is r d }"

definition mark_unused :: "h264e_sps \<Rightarrow> rkv_frame \<Rightarrow> nat option \<Rightarrow> nat \<times> nat \<Rightarrow> rkv_dpb \<Rightarrow> rkv_dpb option" where
  "mark_unused sps cur short_to_long longterm d =
    (if fst longterm = 1 then do {
       p \<leftarrow> rd (fref0 d) (snd longterm);
       f \<leftarrow> deref d p;
       put_mmco (\<lambda>m. m\<lparr>mmco_poc := fr_poc f, memory_management_control_operation := 2, i_difference_of_pic_nums := 1\<rparr>) d }
     else if int (i_ref0 d) \<ge> i_num_ref_frames sps \<and> i_ref0 d > 1 then do {
       p \<leftarrow> rd (fref0 d) (i_ref0 d - 1);
       l \<leftarrow> deref d p;
       let pos = of_bool (short_to_long = Some (i_ref0 d - 1) \<or> long_term_flag l \<noteq> 0) + 1;
       p \<leftarrow> rd (fref0 d) (i_ref0 d - pos);
       f \<leftarrow> deref d p;
       put_mmco (\<lambda>m. m\<lparr>mmco_poc := fr_poc f, memory_management_control_operation := 1,
                        i_difference_of_pic_nums := fr_frame_num cur - fr_frame_num f\<rparr>) d }
     else Some d)"

definition mark_long_term :: "h264e_ref_param \<Rightarrow> rkv_frame \<Rightarrow> nat option \<Rightarrow> rkv_dpb \<Rightarrow> rkv_dpb option" where
  "mark_long_term ref_cfg cur short_to_long d =
    (if hw_longterm_mode ref_cfg \<noteq> 0 \<and> fr_frame_num cur = 1 then do {
       d \<leftarrow> set_frame (fdec d) (\<lambda>f. f\<lparr>long_term_flag := 1\<rparr>) d;
       put_mmco (\<lambda>m. m\<lparr>mmco_poc := 0, memory_management_control_operation := 6, i_difference_of_pic_nums := 1\<rparr>) d }
     else case short_to_long of None \<Rightarrow> Some d
     | Some i \<Rightarrow> do {
       p \<leftarrow> rd (fref0 d) i;
       f \<leftarrow> deref d p;
       d \<leftarrow> set_frame p (\<lambda>f. f\<lparr>long_term_flag := 1\<rparr>) d;
       put_mmco (\<lambda>m. m\<lparr>mmco_poc := fr_poc f, memory_management_control_operation := 3,
                        i_difference_of_pic_nums := fr_frame_num cur - fr_frame_num f\<rparr>) d })"

definition long_term_marking :: "h264e_ref_param \<Rightarrow> h264e_sps \<Rightarrow> rkv_frame \<Rightarrow> rkv_dpb \<Rightarrow> rkv_dpb option" where
  "long_term_marking ref_cfg sps cur d = do {
     hit \<leftarrow> (if i_long_term_en ref_cfg \<noteq> 0 then long_term_hit ref_cfg cur else Some False);
     if hit then do {
       (short_to_long, longterm, d) \<leftarrow>
         (if hw_longterm_mode ref_cfg = 0 \<or> fr_frame_num cur = 1
          then do {
            s \<leftarrow> find_ref (\<lambda>i f. long_term_flag f = 0 \<and> i_ref_pos ref_cfg + 1 = int i) [0..<i_ref0 d] d;
            (l, d) \<leftarrow> clear_long_term [0..<i_ref0 d] (0, 0) d;
            Some (s, l, d) }
          else Some (None, (0, 0), d));
       d \<leftarrow> mark_unused sps cur short_to_long longterm d;
       mark_long_term ref_cfg cur short_to_long d }
     else if \<not> (i_long_term_en ref_cfg \<noteq> 0 \<and> fr_frame_num cur = 1) then Some (d\<lparr>i_mmco_command_count := 0\<rparr>)
     else Some d }"

definition limit_refs :: "h264e_ref_param \<Rightarrow> rkv_dpb \<Rightarrow> rkv_dpb" where
  "limit_refs ref_cfg d = d\<lparr>i_ref1 := nat (min (int (i_ref1 d)) (i_max_ref1 d)),
     i_ref0 := nat (min (min (int (i_ref0 d)) (i_max_ref0 d)) (i_frame_reference ref_cfg))\<rparr>"

definition h264e_rkv_reference_build_list ::
  "h264e_ref_param \<Rightarrow> h264e_sps \<Rightarrow> rkv_dpb \<Rightarrow> (h264e_ref_param \<times> rkv_dpb) option" where
  "h264e_rkv_reference_build_list ref_cfg sps d = do {
     cur \<leftarrow> deref d (fdec d);
     let d = d\<lparr>i_ref0 := 0, i_ref1 := 0\<rparr>;
     if i_slice_type d = H264E_HAL_SLICE_TYPE_I then do {
       let ref_cfg = (if i_long_term_en ref_cfg \<noteq> 0 \<and> i_frame_reference ref_cfg > 1
                      then ref_cfg\<lparr>hw_longterm_mode := hw_longterm_mode ref_cfg XOR 1\<rparr> else ref_cfg);
       hit \<leftarrow> (if i_long_term_en ref_cfg \<noteq> 0 \<and> hw_longterm_mode ref_cfg \<noteq> 0 then long_term_hit ref_cfg cur else Some False);
       d \<leftarrow> (if hit then set_frame (fdec d) (\<lambda>f. f\<lparr>long_term_flag := 1\<rparr>) d else Some d);
       Some (ref_cfg, d) }
     else do {
       d \<leftarrow> split_refs (RKV_H264E_REF_MAX + 1) 0 (fr_poc cur) d;
       d \<leftarrow> mmco_from_end cur d;
       d \<leftarrow> order_by_distance ref_cfg cur d;
       d \<leftarrow> long_term_last ref_cfg d;
       d \<leftarrow> reorder_refs ref_cfg d;
       d \<leftarrow> mark_first_p ref_cfg cur d;
       d \<leftarrow> long_term_marking ref_cfg sps cur d;
       Some (ref_cfg, limit_refs ref_cfg d) } }"

section \<open>Setting up a frame\<close>

text \<open>
  The frame the new picture is reconstructed in, its numbers, and the IDR bookkeeping. The numbers are integers
  here and \<open>RK_S32\<close> in the source: the two agree as long as no signed operation overflows, that is up to
  \<open>2 ^ 30\<close> pictures since the last IDR picture for the picture order count and \<open>2 ^ 31\<close> pictures for the counters.
\<close>

definition set_fdec :: "int \<Rightarrow> rkv_dpb \<Rightarrow> rkv_dpb option" where
  "set_fdec coding_type d = do {
     let d = (if coding_type = RKVENC_CODING_TYPE_IDR
              then d\<lparr>i_frame_num := 0, i_last_idr := i_frame_cnt d\<rparr> else d);
     set_frame (fdec d) (\<lambda>f. f\<lparr>fr_frame_cnt := i_frame_cnt d, fr_frame_num := i_frame_num d,
       fr_frame_type := coding_type, fr_poc := 2 * (i_frame_cnt d - max (i_last_idr d) 0)\<rparr>) d }"

text \<open>Whether a reference is left; the array is left when it holds no NULL.\<close>

fun valid_refs_left :: "nat \<Rightarrow> nat \<Rightarrow> rkv_dpb \<Rightarrow> nat option" where
  "valid_refs_left 0 k d = None"
| "valid_refs_left (Suc n) k d = do {
     p \<leftarrow> rd (reference d) k;
     if p = None then Some 0
     else do {
       f \<leftarrow> deref d p;
       v \<leftarrow> valid_refs_left n (k + 1) d;
       Some (of_bool (b_corrupt f = 0) + v) } }"

definition check_refs :: "rkv_dpb \<Rightarrow> rkv_dpb option" where
  "check_refs d = do {
     f \<leftarrow> deref d (fdec d);
     d \<leftarrow> (if RKVENC_IS_TYPE_I (fr_frame_type f) then Some d
        else do {
          v \<leftarrow> valid_refs_left (RKV_H264E_REF_MAX + 1) 0 d;
          if v = 0 then set_frame (fdec d) (\<lambda>f. f\<lparr>b_keyframe := 1, fr_frame_type := RKVENC_CODING_TYPE_IDR\<rparr>) d
          else Some d });
     f \<leftarrow> deref d (fdec d);
     Some (if b_keyframe f \<noteq> 0 then d\<lparr>i_last_keyframe := fr_frame_cnt f\<rparr> else d) }"

text \<open>NAL unit type, reference priority and slice type of a coding type; an IDR drops all references.\<close>

definition set_nal_type :: "int \<Rightarrow> h264e_sps \<Rightarrow> rkv_dpb \<Rightarrow> rkv_dpb option" where
  "set_nal_type coding_type sps d = do {
     (ty, idc, d) \<leftarrow>
       (if coding_type = RKVENC_CODING_TYPE_IDR
        then do { d \<leftarrow> h264e_rkv_reference_reset (d\<lparr>i_slice_type := H264E_HAL_SLICE_TYPE_I\<rparr>);
                  Some (H264E_NAL_SLICE_IDR, 3, d) }
        else if coding_type = RKVENC_CODING_TYPE_I
        then Some (H264E_NAL_SLICE, 2, d\<lparr>i_slice_type := H264E_HAL_SLICE_TYPE_I\<rparr>)
        else if coding_type = RKVENC_CODING_TYPE_P
        then Some (H264E_NAL_SLICE, 2, d\<lparr>i_slice_type := H264E_HAL_SLICE_TYPE_P\<rparr>)
        else if coding_type = RKVENC_CODING_TYPE_BREF
        then Some (H264E_NAL_SLICE, 2, d\<lparr>i_slice_type := H264E_HAL_SLICE_TYPE_B\<rparr>)
        else Some (H264E_NAL_SLICE, 0, d\<lparr>i_slice_type := H264E_HAL_SLICE_TYPE_B\<rparr>));
     d \<leftarrow> set_frame (fdec d) (\<lambda>f. f\<lparr>b_kept_as_ref := of_bool (idc \<noteq> (0 :: nat))\<rparr>) d;
     Some (d\<lparr>i_nal_ref_idc := (if keyframe_max_interval sps = 1 then 1 else idc), i_nal_type := ty\<rparr>) }"

text \<open>
  The reordering command of a list: only the first element is ever moved. \<open>x & ((1 << n) - 1)\<close> is
  \<open>x AND (2 ^ n - 1)\<close>.
\<close>

definition reorder_command :: "int \<Rightarrow> int \<Rightarrow> int \<Rightarrow> int \<times> int" where
  "reorder_command msk frame_num ref_frame_num =
    (let diff = (ref_frame_num AND msk) - (frame_num AND msk)
     in (of_bool (diff > 0), (\<bar>diff\<bar> - 1) AND msk))"

definition write_order :: "h264e_sps \<Rightarrow> nat \<Rightarrow> nat option list \<Rightarrow> (int \<times> int) list \<Rightarrow> rkv_dpb
    \<Rightarrow> ((int \<times> int) list \<times> rkv_dpb) option" where
  "write_order sps n fref order d =
    (if n = 0 then Some (order, d)
     else do {
       cur \<leftarrow> deref d (fdec d);
       if reorder_longterm_flag cur \<noteq> 0
       then do {
         d \<leftarrow> set_frame (fdec d) (\<lambda>f. f\<lparr>reorder_longterm_flag := 0\<rparr>) d;
         order \<leftarrow> wr order 0 (2, 0);
         Some (order, d) }
       else do {
         p \<leftarrow> rd fref 0;
         f \<leftarrow> deref d p;
         order \<leftarrow> wr order 0 (reorder_command (2 ^ nat (i_log2_max_frame_num sps) - 1) (fr_frame_num cur) (fr_frame_num f));
         Some (order, d) } })"

definition write_orders :: "h264e_sps \<Rightarrow> rkv_dpb \<Rightarrow> rkv_dpb option" where
  "write_orders sps d = do {
     d \<leftarrow> (if reordering0 d \<noteq> 0
        then do { (l, d) \<leftarrow> write_order sps (i_ref0 d) (fref0 d) (ref_pic_list_order0 d) d;
                  Some (d\<lparr>ref_pic_list_order0 := l\<rparr>) }
        else Some d);
     (if reordering1 d \<noteq> 0
      then do { (l, d) \<leftarrow> write_order sps (i_ref1 d) (fref1 d) (ref_pic_list_order1 d) d;
                Some (d\<lparr>ref_pic_list_order1 := l\<rparr>) }
      else Some d) }"

definition set_idr_id :: "h264e_ref_param \<Rightarrow> rkv_dpb \<Rightarrow> rkv_dpb option" where
  "set_idr_id ref_cfg d =
    (if i_nal_type d = H264E_NAL_SLICE_IDR then do {
       cur \<leftarrow> deref d (fdec d);
       hit \<leftarrow> (if i_long_term_en ref_cfg \<noteq> 0 \<and> hw_longterm_mode ref_cfg \<noteq> 0 then long_term_hit ref_cfg cur else Some False);
       let d = (if hit then d\<lparr>i_long_term_reference_flag := 1\<rparr> else d);
       Some (d\<lparr>i_idr_pic_id := i_tmp_idr_pic_id d, i_tmp_idr_pic_id := i_tmp_idr_pic_id d XOR 1\<rparr>) }
     else Some (d\<lparr>i_long_term_reference_flag := 0, i_idr_pic_id := -1\<rparr>))"

definition h264e_rkv_reference_frame_set ::
  "h264e_ref_param \<Rightarrow> h264e_sps \<Rightarrow> int \<Rightarrow> rkv_dpb \<Rightarrow> (mpp_ret \<times> h264e_ref_param \<times> rkv_dpb) option" where
  "h264e_rkv_reference_frame_set ref_cfg sps coding_type d = do {
     (frame, d) \<leftarrow> h264e_rkv_frame_pop_unused d;
     let d = d\<lparr>fdec := frame\<rparr>;
     if frame = None then Some (MPP_NOK, ref_cfg, d)
     else do {
       let d = d\<lparr>i_max_ref0 := i_frame_reference ref_cfg,
                 i_max_ref1 := min (i_num_reorder_frames (sps_vui sps)) (i_frame_reference ref_cfg)\<rparr>;
       d \<leftarrow> set_fdec coding_type d;
       d \<leftarrow> check_refs d;
       let d = d\<lparr>i_mmco_command_count := 0, i_mmco_remove_from_end := 0, reordering0 := 0, reordering1 := 0\<rparr>;
       d \<leftarrow> set_nal_type coding_type sps d;
       (ref_cfg, d) \<leftarrow> h264e_rkv_reference_build_list ref_cfg sps d;
       d \<leftarrow> write_orders sps d;
       d \<leftarrow> set_idr_id ref_cfg d;
       Some (MPP_OK, ref_cfg, d) } }"

section \<open>The encoder around it\<close>

definition rkv_frame_zero :: rkv_frame where
  "rkv_frame_zero = \<lparr>hw_buf_used = 0, fr_frame_cnt = 0, fr_frame_num = 0, long_term_flag = 0,
     reorder_longterm_flag = 0, fr_poc = 0, fr_frame_type = 0, b_kept_as_ref = 0, b_keyframe = 0,
     b_corrupt = 0, i_reference_count = 0\<rparr>"

definition h264e_rkv_reference_init :: "h264e_ref_param \<Rightarrow> rkv_dpb" where
  "h264e_rkv_reference_init ref_cfg =
    \<lparr>fdec = None, fref0 = replicate 17 None, fref1 = replicate 17 None, fref_nearest0 = None,
     unused = replicate 17 None, reference = replicate 17 None, i_last_keyframe = 0, i_last_idr = 0,
     frame_buf = replicate 17 rkv_frame_zero, i_ref0 = 0, i_ref1 = 0, i_nal_type = 0, i_nal_ref_idc = 0,
     i_frame_cnt = 0, i_frame_num = 0, i_slice_type = 0, i_idr_pic_id = 0, i_tmp_idr_pic_id = 0,
     i_max_ref0 = 0, i_max_ref1 = 0, reordering0 = 0, reordering1 = 0,
     ref_pic_list_order0 = replicate 16 (0, 0), ref_pic_list_order1 = replicate 16 (0, 0),
     i_mmco_remove_from_end = 0, i_mmco_command_count = 0,
     mmco = replicate 16 \<lparr>i_difference_of_pic_nums = 0, mmco_poc = 0, memory_management_control_operation = 0\<rparr>,
     i_long_term_reference_flag = i_long_term_en ref_cfg\<rparr>"

definition h264e_set_ref :: h264e_ref_param where
  "h264e_set_ref = \<lparr>i_frame_reference = 1, i_ref_pos = 1, i_long_term_en = 0, i_long_term_internal = 0,
     hw_longterm_mode = 0, i_dpb_size = 1, i_frame_packing = -1\<rparr>"

text \<open>
  The buffers of the frames, the member \<open>hw_buf\<close>, which only \<open>h264e_rkv_allocate_buffers\<close> sets and the register
  of the reconstructed picture reads: one for each of the \<open>H264E_NUM_REFS + 1\<close> entries of \<open>hw_rec_buf\<close>, where
  \<open>buf k\<close> is what the buffer group returns, and none for the other frames of the pool. They are kept beside the
  state, as \<open>bufs ! k\<close> for frame \<open>k\<close>; \<open>None\<close> is the NULL pointer.
\<close>

abbreviation (input) H264E_NUM_REFS :: nat where "H264E_NUM_REFS \<equiv> 1"

definition allocate_rec_bufs :: "(nat \<Rightarrow> 'b) \<Rightarrow> 'b option list" where
  "allocate_rec_bufs buf = fold (\<lambda>k hw. hw[k := Some (buf k)]) [0..<H264E_NUM_REFS + 1] (replicate 17 None)"

definition rfpw_buf :: "'b option list \<Rightarrow> rkv_dpb \<Rightarrow> 'b option" where
  "rfpw_buf bufs d = (case fdec d of None \<Rightarrow> None | Some k \<Rightarrow> bufs ! k)"

text \<open>
  What \<open>hal_h264e_rkv_gen_regs\<close> does with the state for one picture: the error of the first call is
  only logged, the registers read the buffers of \<open>fdec\<close> and of the first reference, and the frame is
  kept and counted.
\<close>

definition rkv_gen_frame ::
  "h264e_sps \<Rightarrow> int \<Rightarrow> h264e_ref_param \<times> rkv_dpb \<Rightarrow> (h264e_ref_param \<times> rkv_dpb) option" where
  "rkv_gen_frame sps coding_type = (\<lambda>(ref_cfg, d). do {
     (ret, ref_cfg, d) \<leftarrow> h264e_rkv_reference_frame_set ref_cfg sps coding_type d;
     rfpw \<leftarrow> deref d (fdec d);
     rfpr \<leftarrow> rd (fref0 d) 0;
     (ret, d) \<leftarrow> h264e_rkv_reference_frame_update ref_cfg sps d;
     let d = d\<lparr>i_frame_cnt := i_frame_cnt d + 1\<rparr>;
     Some (ref_cfg, if i_nal_ref_idc d \<noteq> 0 then d\<lparr>i_frame_num := i_frame_num d + 1\<rparr> else d) })"

end
