(* ===== verification/RkvDpbSpec.thy ===== *)
theory RkvDpbSpec
  imports RkvDpb RkvSpec
begin

text \<open>
  The reference management of the RKVENC encoder: its pointer arrays refine lists, every reachable
  state keeps an invariant and can code the next picture, and the references are a sliding window.
\<close>

section \<open>Lists of frames\<close>

text \<open>The interface the reference management relies on: a bounded sequence with both ends.\<close>

locale frame_list =
  fixes rep :: "'a list \<Rightarrow> 'l"
    and cap :: nat
    and push :: "'l \<Rightarrow> 'a option \<Rightarrow> 'l option"
    and pop :: "'l \<Rightarrow> ('a option \<times> 'l) option"
    and shift :: "'l \<Rightarrow> ('a option \<times> 'l) option"
  assumes push_law: "length xs < cap \<Longrightarrow> push (rep xs) (Some x) = Some (rep (xs @ [x]))"
    and pop_law: "xs \<noteq> [] \<Longrightarrow> length xs < cap \<Longrightarrow> pop (rep xs) = Some (Some (last xs), rep (butlast xs))"
    and shift_law: "xs \<noteq> [] \<Longrightarrow> length xs < cap \<Longrightarrow> shift (rep xs) = Some (Some (hd xs), rep (tl xs))"

text \<open>The array of \<open>n\<close> pointers, the rest NULL.\<close>

definition narr :: "nat \<Rightarrow> 'a list \<Rightarrow> 'a option list" where
  "narr n xs = map Some xs @ replicate (n - length xs) None"

lemma length_narr [simp]: "length xs \<le> n \<Longrightarrow> length (narr n xs) = n"
  by (simp add: narr_def)

lemma narr_Cons: "narr (Suc n) (x # xs) = Some x # narr n xs"
  by (simp add: narr_def)

lemma narr_Nil: "narr (Suc n) [] = None # narr n []"
  by (simp add: narr_def)

lemma push_narr: "length xs < n \<Longrightarrow> h264e_rkv_frame_push (narr n xs) (Some x) = Some (narr n (xs @ [x]))"
proof (induction xs arbitrary: n)
  case Nil
  then show ?case by (cases n) (simp_all add: narr_Nil narr_Cons)
next
  case (Cons a xs)
  then show ?case by (cases n) (simp_all add: narr_Cons)
qed

lemma pop_narr: "xs \<noteq> [] \<Longrightarrow> length xs < n \<Longrightarrow>
    h264e_rkv_frame_pop (narr n xs) = Some (Some (last xs), narr n (butlast xs))"
proof (induction xs arbitrary: n)
  case (Cons a xs)
  then obtain m where n: "n = Suc (Suc m)" by (cases n; cases "n - 1") auto
  show ?case
  proof (cases xs)
    case Nil
    then show ?thesis by (simp add: n narr_Cons narr_Nil)
  next
    case (Cons b ys)
    then show ?thesis using Cons.IH [of "Suc m"] Cons.prems by (simp add: n narr_Cons)
  qed
qed simp

lemma shift_loop_narr: "xs \<noteq> [] \<Longrightarrow> length xs < n \<Longrightarrow> shift_loop (narr n xs) = Some (narr n (tl xs))"
proof (induction xs arbitrary: n)
  case (Cons a xs)
  then obtain m where n: "n = Suc (Suc m)" by (cases n; cases "n - 1") auto
  show ?case
  proof (cases xs)
    case Nil
    then show ?thesis by (simp add: n narr_Cons narr_Nil)
  next
    case (Cons b ys)
    then show ?thesis using Cons.IH [of "Suc m"] Cons.prems by (simp add: n narr_Cons)
  qed
qed simp

lemma shift_narr: "xs \<noteq> [] \<Longrightarrow> length xs < n \<Longrightarrow>
    h264e_rkv_frame_shift (narr n xs) = Some (Some (hd xs), narr n (tl xs))"
  using shift_loop_narr [of xs n] by (cases xs) (auto simp: h264e_rkv_frame_shift_def rd_def narr_def)

interpretation fl: frame_list "narr 17" 17 h264e_rkv_frame_push h264e_rkv_frame_pop h264e_rkv_frame_shift
  by unfold_locales (simp_all add: push_narr pop_narr shift_narr)

lemma rd_narr: "length xs \<le> n \<Longrightarrow> i < n \<Longrightarrow> rd (narr n xs) i = Some (if i < length xs then Some (xs ! i) else None)"
  by (simp add: rd_def narr_def nth_append)

lemma full_overrun: "length xs = n \<Longrightarrow> 0 < n \<Longrightarrow> shift_loop (narr n xs) = None"
proof (induction xs arbitrary: n)
  case (Cons a xs)
  then obtain m where n: "n = Suc m" by (cases n) auto
  show ?case
  proof (cases xs)
    case Nil
    then show ?thesis using Cons.prems n by (simp add: narr_def)
  next
    case (Cons b ys)
    then show ?thesis using Cons.IH [of m] Cons.prems n by (cases m) (simp_all add: narr_Cons)
  qed
qed simp

section \<open>Ordering\<close>

lemma order_pass_ok: "order_pass dist poc near xs = (near', ys, True) \<Longrightarrow> ys = xs \<and> sorted (map dist xs)"
  by (induction dist poc near xs arbitrary: near' ys rule: order_pass.induct)
    (fastforce simp: Let_def split: if_splits prod.splits)+

lemma order_refs_result:
  "mset (snd (order_refs dist poc near xs)) = mset xs \<and> sorted (map dist (snd (order_refs dist poc near xs)))"
proof (induction dist poc near xs rule: order_refs.induct)
  case (1 dist poc near xs)
  obtain near' ys ok where p: "order_pass dist poc near xs = (near', ys, ok)" by (metis surj_pair)
  show ?case
  proof (cases ok)
    case True
    then show ?thesis using order_pass_ok [of dist poc near xs near' ys] p by (simp add: order_refs.simps [of _ _ _ xs])
  next
    case False
    then show ?thesis using 1 [OF p [symmetric] refl] order_pass_mset [OF p] p by (simp add: order_refs.simps [of _ _ _ xs])
  qed
qed

text \<open>Without ties there is only one such order.\<close>

lemma order_refs_unique:
  assumes "mset ys = mset xs" and "sorted (map dist ys)" and "distinct (map dist xs)"
  shows "snd (order_refs dist poc near xs) = ys"
proof (rule map_sorted_distinct_set_unique [of dist])
  note r = order_refs_result [of dist poc near xs]
  have s: "set (snd (order_refs dist poc near xs)) = set xs" "set ys = set xs"
    using r assms(1) by (metis set_mset_mset)+
  show "inj_on dist (set (snd (order_refs dist poc near xs)) \<union> set ys)" using assms(3) s by (simp add: distinct_map)
  show "sorted (map dist (snd (order_refs dist poc near xs)))" "sorted (map dist ys)" using r assms(2) by simp_all
  have "mset (map dist (snd (order_refs dist poc near xs))) = mset (map dist xs)" "mset (map dist ys) = mset (map dist xs)"
    using r assms(1) by simp_all
  then show "distinct (map dist (snd (order_refs dist poc near xs)))" "distinct (map dist ys)"
    using assms(3) by (metis distinct_count_atmost_1 set_mset_mset)+
  show "set (snd (order_refs dist poc near xs)) = set ys" using s by simp
qed

lemma swap_down: "p < length l \<Longrightarrow>
    fold (\<lambda>i l. swap l i (i - 1)) (rev [1..<p + 1]) l = l ! p # take p l @ drop (p + 1) l"
proof (induction p arbitrary: l)
  case 0
  then show ?case by (simp add: Cons_nth_drop_Suc)
next
  case (Suc p)
  let ?m = "swap l (Suc p) p"
  have "rev [1..<Suc p + 1] = Suc p # rev [1..<p + 1]" by simp
  then have "fold (\<lambda>i l. swap l i (i - 1)) (rev [1..<Suc p + 1]) l = fold (\<lambda>i l. swap l i (i - 1)) (rev [1..<p + 1]) ?m" by simp
  also have "\<dots> = ?m ! p # take p ?m @ drop (p + 1) ?m" by (rule Suc.IH) (use Suc.prems in \<open>simp add: swap_def\<close>)
  also have "?m ! p = l ! Suc p" using Suc.prems by (simp add: swap_def nth_list_update)
  also have "take p ?m @ drop (p + 1) ?m = take (Suc p) l @ drop (Suc p + 1) l"
    by (rule nth_equalityI) (use Suc.prems in \<open>auto simp: swap_def nth_append nth_list_update min_def less_Suc_eq\<close>)
  finally show ?case .
qed

section \<open>Frames of the pool\<close>

text \<open>An assignment to frame \<open>k\<close>.\<close>

definition upd :: "nat \<Rightarrow> (rkv_frame \<Rightarrow> rkv_frame) \<Rightarrow> rkv_dpb \<Rightarrow> rkv_dpb" where
  "upd k f d = d\<lparr>frame_buf := (frame_buf d)[k := f (frame_buf d ! k)]\<rparr>"

lemma deref_Some: "k < length (frame_buf d) \<Longrightarrow> deref d (Some k) = Some (frame_buf d ! k)"
  by (simp add: deref_def rd_def)

lemma set_frame_Some: "k < length (frame_buf d) \<Longrightarrow> set_frame (Some k) f d = Some (upd k f d)"
  by (simp add: set_frame_def rd_def upd_def)

lemma upd_simps [simp]:
  "fdec (upd k f d) = fdec d" "fref0 (upd k f d) = fref0 d" "fref1 (upd k f d) = fref1 d"
  "unused (upd k f d) = unused d" "reference (upd k f d) = reference d" "i_last_idr (upd k f d) = i_last_idr d"
  "i_frame_cnt (upd k f d) = i_frame_cnt d" "i_frame_num (upd k f d) = i_frame_num d"
  "i_ref0 (upd k f d) = i_ref0 d" "i_ref1 (upd k f d) = i_ref1 d" "i_slice_type (upd k f d) = i_slice_type d"
  "i_nal_type (upd k f d) = i_nal_type d" "i_nal_ref_idc (upd k f d) = i_nal_ref_idc d"
  "i_max_ref0 (upd k f d) = i_max_ref0 d" "reordering0 (upd k f d) = reordering0 d" "reordering1 (upd k f d) = reordering1 d"
  "ref_pic_list_order0 (upd k f d) = ref_pic_list_order0 d" "mmco (upd k f d) = mmco d"
  "i_mmco_command_count (upd k f d) = i_mmco_command_count d" "i_mmco_remove_from_end (upd k f d) = i_mmco_remove_from_end d"
  "length (frame_buf (upd k f d)) = length (frame_buf d)"
  by (simp_all add: upd_def)

lemma nth_upd: "i < length (frame_buf d) \<Longrightarrow> frame_buf (upd k f d) ! i = (if i = k then f (frame_buf d ! k) else frame_buf d ! i)"
  by (simp add: upd_def nth_list_update)

text \<open>Giving back the only reference to a frame.\<close>

definition unref :: "rkv_frame \<Rightarrow> rkv_frame" where
  "unref f = f\<lparr>i_reference_count := i_reference_count f - 1\<rparr>"

lemma push_unused:
  assumes "k < length (frame_buf d)" and "i_reference_count (frame_buf d ! k) = 1"
    and "unused d = narr 17 ys" and "length ys < 17"
  shows "h264e_rkv_frame_push_unused (Some k) d = Some (upd k unref (d\<lparr>unused := narr 17 (ys @ [k])\<rparr>))"
  using assms by (simp add: h264e_rkv_frame_push_unused_def deref_Some set_frame_Some fl.push_law)
    (simp add: upd_def unref_def)

text \<open>The frames are numbered in the order they were first used: \<open>m\<close> of them are in use, as reference,
  free again, or neither.\<close>

definition pool :: "nat \<Rightarrow> nat list \<Rightarrow> nat list \<Rightarrow> rkv_dpb \<Rightarrow> bool" where
  "pool m xs ys d \<longleftrightarrow> reference d = narr 17 xs \<and> unused d = narr 17 ys \<and> distinct (xs @ ys) \<and> set (xs @ ys) \<subseteq> {..<m}
     \<and> m \<le> 17 \<and> length (frame_buf d) = 17 \<and> (\<forall>k < 17. hw_buf_used (frame_buf d ! k) = (if k < m then 1 else 0))
     \<and> (\<forall>k \<in> set xs. i_reference_count (frame_buf d ! k) = 1)"

lemma pool_length:
  assumes "pool m xs ys d" shows "length xs + length ys \<le> m"
proof -
  have "card (set (xs @ ys)) \<le> m" using assms card_mono [of "{..<m}" "set (xs @ ys)"] by (simp add: pool_def)
  then show ?thesis using assms distinct_card [of "xs @ ys"] by (simp add: pool_def)
qed

text \<open>Releasing the oldest and the newest reference.\<close>

lemma pool_release:
  assumes p: "pool m xs ys d" and "k \<in> set xs" and xs': "set xs' = set xs - {k}" "distinct xs'" and "length ys < 17"
  shows "pool m xs' (ys @ [k]) (upd k unref (d\<lparr>reference := narr 17 xs', unused := narr 17 (ys @ [k])\<rparr>))"
proof -
  have k: "k < 17" "k \<notin> set ys" using p assms(2) by (auto simp: pool_def)
  have "frame_buf (upd k unref (d\<lparr>reference := narr 17 xs', unused := narr 17 (ys @ [k])\<rparr>)) = (frame_buf d)[k := unref (frame_buf d ! k)]"
    by (simp add: upd_def)
  then show ?thesis using assms k unfolding pool_def
    by (auto simp: nth_list_update unref_def)
qed

lemma release_first:
  assumes p: "pool m (k # xs) ys d" and "length xs < 16"
  shows "release_at 0 d = Some (upd k unref (d\<lparr>reference := narr 17 xs, unused := narr 17 (ys @ [k])\<rparr>))"
    and "pool m xs (ys @ [k]) (upd k unref (d\<lparr>reference := narr 17 xs, unused := narr 17 (ys @ [k])\<rparr>))"
proof -
  have l: "length ys < 17" using pool_length [OF p] p by (simp add: pool_def)
  have k: "k < 17" "i_reference_count (frame_buf d ! k) = 1" "length (frame_buf d) = 17" "reference d = narr 17 (k # xs)"
    "unused d = narr 17 ys" using p by (auto simp: pool_def)
  show "release_at 0 d = Some (upd k unref (d\<lparr>reference := narr 17 xs, unused := narr 17 (ys @ [k])\<rparr>))"
    unfolding release_at_def using k l assms(2)
    by (simp add: fl.shift_law push_unused [of k _ ys])
  show "pool m xs (ys @ [k]) (upd k unref (d\<lparr>reference := narr 17 xs, unused := narr 17 (ys @ [k])\<rparr>))"
    by (rule pool_release [OF p]) (use p l in \<open>auto simp: pool_def\<close>)
qed

text \<open>Dropping all references.\<close>

lemma reset_loop_all:
  assumes "pool m xs ys d" and "length xs < 17"
  shows "\<exists>d'. reset_loop d = Some d' \<and> pool m [] (ys @ rev xs) d'
    \<and> (\<forall>i < 17. i \<notin> set xs \<longrightarrow> frame_buf d' ! i = frame_buf d ! i)
    \<and> d' = d\<lparr>reference := reference d', unused := unused d', frame_buf := frame_buf d'\<rparr>"
  using assms
proof (induction xs arbitrary: ys d rule: rev_induct)
  case Nil
  then have "rd (reference d) 0 = Some None" by (simp add: pool_def rd_narr)
  with Nil show ?case by (intro exI [of _ d]) (simp add: reset_loop.simps)
next
  case (snoc k xs)
  let ?d = "upd k unref (d\<lparr>reference := narr 17 xs, unused := narr 17 (ys @ [k])\<rparr>)"
  have l: "length ys < 17" using pool_length [OF snoc.prems(1)] snoc.prems(1) by (simp add: pool_def)
  have p: "pool m xs (ys @ [k]) ?d"
    by (rule pool_release [OF snoc.prems(1)]) (use snoc.prems(1) l in \<open>auto simp: pool_def\<close>)
  have k: "k < 17" "i_reference_count (frame_buf d ! k) = 1" "length (frame_buf d) = 17" "reference d = narr 17 (xs @ [k])"
    "unused d = narr 17 ys" using snoc.prems(1) by (auto simp: pool_def)
  have "rd (reference d) 0 = Some (Some ((xs @ [k]) ! 0))" using k(4) snoc.prems(2) by (simp add: rd_narr del: nth_append_length)
  then have r: "reset_loop d = reset_loop ?d"
    using k l snoc.prems(2) fl.pop_law [of "xs @ [k]"]
    by (subst reset_loop.simps) (simp add: push_unused [of k _ ys])
  from snoc.IH [OF p] snoc.prems(2) obtain d' where
    d': "reset_loop ?d = Some d'" "pool m [] ((ys @ [k]) @ rev xs) d'" "\<forall>i < 17. i \<notin> set xs \<longrightarrow> frame_buf d' ! i = frame_buf ?d ! i"
      "d' = ?d\<lparr>reference := reference d', unused := unused d', frame_buf := frame_buf d'\<rparr>" by auto
  show ?case
  proof (intro exI conjI)
    show "d' = d\<lparr>reference := reference d', unused := unused d', frame_buf := frame_buf d'\<rparr>"
      by (subst d'(4)) (simp add: upd_def)
  qed (use r d' k in \<open>auto simp: upd_def\<close>)
qed

section \<open>A picture being coded\<close>

text \<open>Frame \<open>k\<close> has been taken from the pool; the references \<open>xs\<close> are those in \<open>F\<close>.\<close>

definition coding :: "nat \<Rightarrow> nat list \<Rightarrow> nat list \<Rightarrow> nat \<Rightarrow> (nat \<Rightarrow> rkv_frame) \<Rightarrow> rkv_dpb \<Rightarrow> bool" where
  "coding m xs ys k F d \<longleftrightarrow> pool m xs ys d \<and> fdec d = Some k \<and> k < m \<and> k \<notin> set (xs @ ys)
     \<and> m = length xs + length ys + 1 \<and> length xs < 17 \<and> (\<forall>i \<in> set xs. frame_buf d ! i = F i)
     \<and> length (fref0 d) = 17 \<and> length (fref1 d) = 17 \<and> length (ref_pic_list_order0 d) = 16
     \<and> i_reference_count (frame_buf d ! k) = 1 \<and> b_corrupt (frame_buf d ! k) = 0
     \<and> long_term_flag (frame_buf d ! k) = 0 \<and> reorder_longterm_flag (frame_buf d ! k) = 0"

definition arrays_ok :: "rkv_dpb \<Rightarrow> bool" where
  "arrays_ok d \<longleftrightarrow> length (fref0 d) = 17 \<and> length (fref1 d) = 17 \<and> length (ref_pic_list_order0 d) = 16"

definition taken :: "rkv_frame \<Rightarrow> rkv_frame" where
  "taken f = f\<lparr>i_reference_count := 1, b_keyframe := 0, b_corrupt := 0, long_term_flag := 0, reorder_longterm_flag := 0\<rparr>"

lemma find_unused:
  assumes "\<forall>k < 17. hw_buf_used (fs ! k) = (if k < m then 1 else 0)" and "m < 17"
  shows "find (\<lambda>k. hw_buf_used (fs ! k) = 0) [0..<17] = Some m"
  unfolding find_Some_iff using assms by (intro exI [of _ m]) (simp del: upt_conv_Cons upt_rec_numeral)

lemma pop_unused:
  assumes p: "pool m xs ys d" and m: "m = length xs + length ys" "m < 17" and a: "arrays_ok d"
  shows "\<exists>k m' ys' d'. h264e_rkv_frame_pop_unused d = Some (Some k, d') \<and> m' = max m (Suc (length xs))
    \<and> coding m' xs ys' k (\<lambda>i. frame_buf d ! i) (d'\<lparr>fdec := Some k\<rparr>) \<and> length xs < 17
    \<and> i_last_idr d' = i_last_idr d \<and> i_frame_cnt d' = i_frame_cnt d \<and> i_frame_num d' = i_frame_num d"
proof (cases "ys = []")
  case True
  let ?e = "d\<lparr>frame_buf := (frame_buf d)[m := (frame_buf d ! m)\<lparr>hw_buf_used := 1\<rparr>]\<rparr>"
  have f: "h264e_rkv_frame_new d = (Some m, ?e)"
    using find_unused [of "frame_buf d" m] p m(2) by (simp add: h264e_rkv_frame_new_def pool_def)
  have "h264e_rkv_frame_pop_unused d = Some (Some m, upd m taken ?e)"
    using p True m(2) by (simp add: h264e_rkv_frame_pop_unused_def pool_def rd_narr f set_frame_Some)
      (simp add: upd_def taken_def)
  moreover have "coding (Suc m) xs [] m (\<lambda>i. frame_buf d ! i) ((upd m taken ?e)\<lparr>fdec := Some m\<rparr>)"
    using p True m a unfolding coding_def pool_def arrays_ok_def
    by (auto simp: upd_def taken_def nth_list_update)
  ultimately show ?thesis using True m by (intro exI [of _ m] exI [of _ "Suc m"] exI [of _ "[]"]) (auto simp: upd_def)
next
  case False
  then obtain zs k where ys: "ys = zs @ [k]" by (cases ys rule: rev_cases) auto
  let ?e = "d\<lparr>unused := narr 17 zs\<rparr>"
  have k: "k < m" "k \<notin> set xs" "k \<notin> set zs" using p by (auto simp: ys pool_def)
  have l: "length ys < 17" using m by simp
  have "h264e_rkv_frame_pop (unused d) = Some (Some k, narr 17 zs)"
    using fl.pop_law [of ys] False l p by (simp add: ys pool_def)
  moreover have "rd (unused d) 0 = Some (Some (ys ! 0))" using p l False by (simp add: pool_def rd_narr)
  ultimately have "h264e_rkv_frame_pop_unused d = Some (Some k, upd k taken ?e)"
    using k m p by (simp add: h264e_rkv_frame_pop_unused_def set_frame_Some pool_def)
      (simp add: upd_def taken_def)
  moreover have "coding m xs zs k (\<lambda>i. frame_buf d ! i) ((upd k taken ?e)\<lparr>fdec := Some k\<rparr>)"
    using p m a k unfolding coding_def pool_def arrays_ok_def ys
    by (auto simp: upd_def taken_def nth_list_update)
  ultimately show ?thesis using m ys by (intro exI [of _ k] exI [of _ m] exI [of _ zs]) (auto simp: upd_def)
qed

lemma coding_upd:
  assumes "coding m xs ys k F d"
    and "\<And>f. hw_buf_used (g f) = hw_buf_used f \<and> i_reference_count (g f) = i_reference_count f \<and> b_corrupt (g f) = b_corrupt f
      \<and> long_term_flag (g f) = long_term_flag f \<and> reorder_longterm_flag (g f) = reorder_longterm_flag f"
  shows "coding m xs ys k F (upd k g d)"
  using assms unfolding coding_def pool_def by (auto simp: upd_def nth_list_update)

lemma coding_k: "coding m xs ys k F d \<Longrightarrow> k < length (frame_buf d)" "coding m xs ys k F d \<Longrightarrow> fdec d = Some k"
  by (auto simp: coding_def pool_def)

text \<open>The fields it does not speak of.\<close>

lemma coding_fields [simp]:
  "coding m xs ys k F (d\<lparr>i_slice_type := t\<rparr>) = coding m xs ys k F d"
  "coding m xs ys k F (d\<lparr>i_nal_ref_idc := idc, i_nal_type := ty\<rparr>) = coding m xs ys k F d"
  "coding m xs ys k F (d\<lparr>i_max_ref0 := r, i_max_ref1 := r'\<rparr>) = coding m xs ys k F d"
  "coding m xs ys k F (d\<lparr>i_ref0 := a, i_ref1 := b\<rparr>) = coding m xs ys k F d"
  "coding m xs ys k F (d\<lparr>i_mmco_command_count := n, i_mmco_remove_from_end := a, reordering0 := x, reordering1 := y\<rparr>)
    = coding m xs ys k F d"
  by (simp_all add: coding_def pool_def)

lemma coding_lists:
  "coding m xs ys k F d \<Longrightarrow> length f = 17 \<Longrightarrow>
    coding m xs ys k F (d\<lparr>i_ref0 := a, i_ref1 := b, fref_nearest0 := x, fref0 := f, reordering0 := r\<rparr>)"
  "coding m xs ys k F d \<Longrightarrow> length l = 16 \<Longrightarrow> coding m xs ys k F (d\<lparr>ref_pic_list_order0 := l\<rparr>)"
  "coding m xs ys k F d \<Longrightarrow>
    coding m xs ys k F (d\<lparr>i_long_term_reference_flag := e, i_idr_pic_id := g, i_tmp_idr_pic_id := h\<rparr>)"
  unfolding coding_def pool_def by auto

text \<open>The numbers of the frame being coded.\<close>

definition numbered :: "nat \<Rightarrow> int \<Rightarrow> int \<Rightarrow> int \<Rightarrow> rkv_dpb \<Rightarrow> bool" where
  "numbered k cnt num poc d \<longleftrightarrow> fr_frame_cnt (frame_buf d ! k) = cnt \<and> fr_frame_num (frame_buf d ! k) = num
     \<and> fr_poc (frame_buf d ! k) = poc"

definition counters :: "int \<Rightarrow> int \<Rightarrow> int \<Rightarrow> int \<Rightarrow> rkv_dpb \<Rightarrow> bool" where
  "counters r cnt num idr d \<longleftrightarrow> i_frame_cnt d = cnt \<and> i_frame_num d = num \<and> i_last_idr d = idr
     \<and> i_max_ref0 d = r"

lemma set_fdec_step:
  fixes c :: int
  assumes "coding m xs ys k F d" and "counters r cnt num idr d"
  defines "num' \<equiv> if c = 1 then 0 else num" and "idr' \<equiv> if c = 1 then cnt else idr"
  shows "\<exists>d'. set_fdec c d = Some d' \<and> coding m xs ys k F d' \<and> counters r cnt num' idr' d'
    \<and> numbered k cnt num' (2 * (cnt - max idr' 0)) d' \<and> fr_frame_type (frame_buf d' ! k) = c"
proof -
  define e where "e = (if c = 1 then d\<lparr>i_frame_num := 0, i_last_idr := i_frame_cnt d\<rparr> else d)"
  have e: "coding m xs ys k F e" "counters r cnt num' idr' e"
    using assms(1,2) by (auto simp: e_def coding_def pool_def counters_def num'_def idr'_def)
  have s: "set_fdec c d = Some (upd k (\<lambda>f. f\<lparr>fr_frame_cnt := cnt, fr_frame_num := num', fr_frame_type := c,
      fr_poc := 2 * (cnt - max idr' 0)\<rparr>) e)"
    using coding_k [OF e(1)] e(2) by (simp add: set_fdec_def Let_def e_def [symmetric] set_frame_Some counters_def)
  show ?thesis unfolding s
    by (intro exI conjI, rule refl, rule coding_upd [OF e(1)])
      (use e(2) coding_k [OF e(1)] in \<open>simp_all add: counters_def numbered_def nth_upd\<close>)
qed

lemma valid_refs_narr:
  assumes "reference d = narr 17 xs" and "length xs < 17" and "\<forall>k \<in> set xs. k < length (frame_buf d)"
    and "n + i = 17" and "i \<le> length xs"
  shows "\<exists>v. valid_refs_left n i d = Some v"
  using assms(4,5)
proof (induction n arbitrary: i)
  case (Suc n)
  show ?case
  proof (cases "i < length xs")
    case True
    then obtain v where "valid_refs_left n (Suc i) d = Some v" using Suc.IH [of "Suc i"] Suc.prems by auto
    then show ?thesis using assms(1-3) True by (simp add: rd_narr deref_Some)
  qed (use assms(1,2) Suc.prems in \<open>simp add: rd_narr\<close>)
qed (use assms(2) in simp)

lemma check_refs_step:
  assumes "coding m xs ys k F d" and "counters r cnt num idr d" and "numbered k cnt num poc d"
  shows "\<exists>d'. check_refs d = Some d' \<and> coding m xs ys k F d' \<and> counters r cnt num idr d' \<and> numbered k cnt num poc d'"
proof -
  have k: "k < length (frame_buf d)" "fdec d = Some k" using coding_k [OF assms(1)] by simp_all
  have "reference d = narr 17 xs" "length xs < 17" "\<forall>i \<in> set xs. i < length (frame_buf d)"
    using assms(1) by (auto simp: coding_def pool_def)
  from valid_refs_narr [OF this, of 17 0] obtain v where v: "valid_refs_left 17 0 d = Some v" by auto
  define e where "e = (if RKVENC_IS_TYPE_I (fr_frame_type (frame_buf d ! k)) \<or> v \<noteq> 0 then d
    else upd k (\<lambda>f. f\<lparr>b_keyframe := 1, fr_frame_type := 1\<rparr>) d)"
  have e: "coding m xs ys k F e" "counters r cnt num idr e" "numbered k cnt num poc e"
    using assms k coding_upd [OF assms(1)] by (auto simp: e_def counters_def numbered_def nth_upd)
  have "check_refs d = Some (if b_keyframe (frame_buf e ! k) \<noteq> 0 then e\<lparr>i_last_keyframe := fr_frame_cnt (frame_buf e ! k)\<rparr> else e)"
    using k v by (simp add: check_refs_def deref_Some set_frame_Some) (simp add: e_def deref_Some)
  then show ?thesis using e by (auto simp: coding_def pool_def counters_def numbered_def)
qed

text \<open>The state of the marking and reordering commands before the lists are built.\<close>

definition no_commands :: "rkv_dpb \<Rightarrow> bool" where
  "no_commands d \<longleftrightarrow> i_mmco_command_count d = 0 \<and> i_mmco_remove_from_end d = 0 \<and> reordering0 d = 0 \<and> reordering1 d = 0"

definition slice_of :: "int \<Rightarrow> nat" where
  "slice_of c = (if c \<le> 2 then 2 else if c = 3 then 0 else 1)"

lemma reset_step:
  assumes "coding m xs ys k F d" and "counters r cnt num idr d" and "numbered k cnt num poc d" and "no_commands d"
  shows "\<exists>d'. h264e_rkv_reference_reset d = Some d' \<and> coding m [] (ys @ rev xs) k F d' \<and> counters r cnt num idr d'
    \<and> numbered k cnt num 0 d' \<and> no_commands d' \<and> i_slice_type d' = i_slice_type d"
proof -
  have p: "pool m xs ys d" "length xs < 17" "k < 17" "k \<notin> set xs" using assms(1) by (auto simp: coding_def pool_def)
  from reset_loop_all [OF p(1,2)] obtain e where e: "reset_loop d = Some e" "pool m [] (ys @ rev xs) e"
    "\<forall>i < 17. i \<notin> set xs \<longrightarrow> frame_buf e ! i = frame_buf d ! i"
    "e = d\<lparr>reference := reference e, unused := unused e, frame_buf := frame_buf e\<rparr>" by blast
  have f: "fdec e = fdec d" "fref0 e = fref0 d" "fref1 e = fref1 d" "ref_pic_list_order0 e = ref_pic_list_order0 d"
    "i_frame_cnt e = i_frame_cnt d" "i_frame_num e = i_frame_num d" "i_last_idr e = i_last_idr d" "no_commands e"
    "i_slice_type e = i_slice_type d" "i_max_ref0 e = i_max_ref0 d"
    using assms(4) by (subst e(4), simp add: no_commands_def)+
  have c: "coding m [] (ys @ rev xs) k F e" using assms(1) e(2,3) f p(3,4) by (auto simp: coding_def)
  have "h264e_rkv_reference_reset d = Some (upd k (\<lambda>f. f\<lparr>fr_poc := 0\<rparr>) e)"
    using e(1) coding_k [OF c] by (simp add: h264e_rkv_reference_reset_def set_frame_Some)
  moreover have "coding m [] (ys @ rev xs) k F (upd k (\<lambda>f. f\<lparr>fr_poc := 0\<rparr>) e)" by (rule coding_upd [OF c]) simp
  ultimately show ?thesis using f e(3) p assms(2,3) coding_k [OF c]
    by (auto simp: counters_def numbered_def nth_upd no_commands_def)
qed

lemma set_nal_step:
  assumes "coding m xs ys k F d" and "counters r cnt num idr d" and "numbered k cnt num poc d" and "no_commands d"
    and c: "c \<in> {1, 2, 3, 4}"
  defines "xs' \<equiv> if c = 1 then [] else xs" and "ys' \<equiv> if c = 1 then ys @ rev xs else ys"
  shows "\<exists>d'. set_nal_type c sps d = Some d' \<and> coding m xs' ys' k F d' \<and> counters r cnt num idr d'
    \<and> numbered k cnt num (if c = 1 then 0 else poc) d' \<and> no_commands d' \<and> i_slice_type d' = slice_of c
    \<and> b_kept_as_ref (frame_buf d' ! k) = 1 \<and> i_nal_ref_idc d' \<noteq> 0"
proof -
  let ?sl = "d\<lparr>i_slice_type := slice_of c\<rparr>"
  obtain e where e: "(if c = 1 then h264e_rkv_reference_reset ?sl else Some ?sl) = Some e" "coding m xs' ys' k F e"
    "counters r cnt num idr e" "numbered k cnt num (if c = 1 then 0 else poc) e" "no_commands e" "i_slice_type e = slice_of c"
  proof -
    have s: "coding m xs ys k F ?sl" "counters r cnt num idr ?sl" "numbered k cnt num poc ?sl" "no_commands ?sl"
      using assms(1-4) by (simp_all add: counters_def numbered_def no_commands_def)
    show thesis
    proof (cases "c = 1")
      case True
      from reset_step [OF s] that True show ?thesis by (auto simp: xs'_def ys'_def)
    next
      case False
      then show ?thesis using that [of ?sl] s by (simp add: xs'_def ys'_def)
    qed
  qed
  let ?kept = "\<lambda>f. f\<lparr>b_kept_as_ref := 1\<rparr>"
  define idc ty where "idc = (if keyframe_max_interval sps = 1 then 1 else if c = 1 then 3 else (2 :: nat))"
    and "ty = (if c = 1 then 5 else (1 :: nat))"
  have r: "idc \<noteq> 0" "set_nal_type c sps d = Some ((upd k ?kept e)\<lparr>i_nal_ref_idc := idc, i_nal_type := ty\<rparr>)"
  proof -
    consider "c = 1" | "c = 2" | "c = 3" | "c = 4" using c by auto
    then show "set_nal_type c sps d = Some ((upd k ?kept e)\<lparr>i_nal_ref_idc := idc, i_nal_type := ty\<rparr>)"
      using e(1) coding_k [OF e(2)]
      by cases (simp_all add: set_nal_type_def slice_of_def set_frame_Some idc_def ty_def)
  qed (simp add: idc_def)
  have "coding m xs' ys' k F ((upd k ?kept e)\<lparr>i_nal_ref_idc := idc, i_nal_type := ty\<rparr>)"
    using coding_upd [OF e(2), of ?kept] by simp
  then show ?thesis unfolding r(2) using e r(1) coding_k [OF e(2)]
    by (simp add: counters_def numbered_def no_commands_def nth_upd)
qed

section \<open>The reference list\<close>

lemma length_set_refs [simp]: "length ks \<le> length l \<Longrightarrow> length (set_refs ks l) = length l"
  by (simp add: set_refs_def)

lemma set_refs_twice [simp]: "length ks = length js \<Longrightarrow> set_refs ks (set_refs js l) = set_refs ks l"
  by (simp add: set_refs_def)

lemma list_refs_set [simp]: "length ks \<le> length l \<Longrightarrow> list_refs (length ks) (set_refs ks l) = Some ks"
  by (simp add: list_refs_def set_refs_def comp_def)

lemma wr_set_refs:
  assumes "i < length xs" and "length xs \<le> length l"
  shows "wr (set_refs (take i xs) l) i (Some (xs ! i)) = Some (set_refs (take (Suc i) xs) l)"
proof -
  have "(set_refs (take i xs) l)[i := Some (xs ! i)] = set_refs (take (Suc i) xs) l"
    by (rule nth_equalityI) (use assms in \<open>auto simp: set_refs_def nth_append nth_list_update min_def less_Suc_eq\<close>)
  then show ?thesis using assms by (simp add: wr_def)
qed

lemma split_refs_all:
  assumes "reference d = narr 17 xs" and "length xs < 17" and "length l = 17"
    and fr: "\<forall>k \<in> set xs. k < length (frame_buf d) \<and> b_corrupt (frame_buf d ! k) = 0 \<and> fr_poc (frame_buf d ! k) < poc"
    and "n + i = 17" and "i \<le> length xs" and "i_ref0 d = i" and "fref0 d = set_refs (take i xs) l"
  shows "split_refs n i poc d = Some (d\<lparr>fref0 := set_refs xs l, i_ref0 := length xs\<rparr>)"
  using assms
proof (induction n arbitrary: i d)
  case (Suc n)
  show ?case
  proof (cases "i < length xs")
    case True
    let ?e = "d\<lparr>fref0 := set_refs (take (Suc i) xs) l, i_ref0 := Suc i\<rparr>"
    have "split_refs n (Suc i) poc ?e = Some (?e\<lparr>fref0 := set_refs xs l, i_ref0 := length xs\<rparr>)"
      by (rule Suc.IH) (use Suc.prems True in auto)
    moreover have "split_refs (Suc n) i poc d = split_refs n (Suc i) poc ?e"
      using Suc.prems True wr_set_refs [OF True, of l] by (simp add: rd_narr deref_Some)
    ultimately show ?thesis by simp
  next
    case False
    then show ?thesis using Suc.prems by (simp add: rd_narr)
  qed
qed simp

text \<open>No long term references, and a configured number and position that make sense.\<close>

definition plain_ref :: "h264e_ref_param \<Rightarrow> bool" where
  "plain_ref cfg \<longleftrightarrow> i_long_term_en cfg = 0 \<and> 1 \<le> i_frame_reference cfg \<and> 0 \<le> i_ref_pos cfg"

text \<open>The element at the configured position is moved to the front.\<close>

definition reorders :: "h264e_ref_param \<Rightarrow> nat \<Rightarrow> bool" where
  "reorders cfg n \<longleftrightarrow> 1 < i_frame_reference cfg \<and> i_ref_pos cfg \<noteq> 0 \<and> i_ref_pos cfg < int n"

definition moved_first :: "h264e_ref_param \<Rightarrow> 'a list \<Rightarrow> 'a list" where
  "moved_first cfg l = (let p = nat (i_ref_pos cfg)
     in if reorders cfg (length l) then l ! p # take p l @ drop (p + 1) l else l)"

lemma mset_moved: "p < length l \<Longrightarrow> mset (l ! p # take p l @ drop (p + 1) l) = mset l"
  by (metis (no_types, lifting) add.commute id_take_nth_drop mset.simps(2) mset_append plus_1_eq_Suc union_mset_add_mset_right)

lemma mset_moved_first [simp]: "0 \<le> i_ref_pos cfg \<Longrightarrow> mset (moved_first cfg l) = mset l"
  using mset_moved [of "nat (i_ref_pos cfg)" l] by (auto simp: moved_first_def Let_def reorders_def)

lemma length_moved_first [simp]: "0 \<le> i_ref_pos cfg \<Longrightarrow> length (moved_first cfg l) = length l"
  by (metis mset_moved_first size_mset)

lemma order_step:
  assumes "fref0 d = set_refs xs l" and "i_ref0 d = length xs" and "length xs < 17" and "length l = 17"
  shows "\<exists>x ks. order_by_distance cfg cur d = Some (d\<lparr>fref_nearest0 := x, fref0 := set_refs ks l\<rparr>) \<and> mset ks = mset xs
    \<and> sorted (map (\<lambda>k. h264e_rkv_reference_distance cfg cur (frame_buf d ! k)) ks)"
proof -
  have 0: "rd (fref0 d) 0 = Some (fref0 d ! 0)" using assms by (simp add: rd_def)
  show ?thesis
  proof (cases "length xs \<le> 1")
    case True
    then have "sorted (map (\<lambda>k. h264e_rkv_reference_distance cfg cur (frame_buf d ! k)) xs)"
      by (cases xs) auto
    moreover have "d\<lparr>fref_nearest0 := fref0 d ! 0\<rparr> = d\<lparr>fref_nearest0 := fref0 d ! 0, fref0 := set_refs xs l\<rparr>"
      by (simp flip: assms(1))
    ultimately show ?thesis using True 0 assms(2)
      by (intro exI [of _ "fref0 d ! 0"] exI [of _ xs]) (simp add: order_by_distance_def)
  next
    case False
    obtain near ks where o: "order_refs (\<lambda>k. h264e_rkv_reference_distance cfg cur (frame_buf d ! k))
                          (\<lambda>k. fr_poc (frame_buf d ! k)) (hd xs) xs = (near, ks)" by fastforce
    have m: "mset ks = mset xs" "sorted (map (\<lambda>k. h264e_rkv_reference_distance cfg cur (frame_buf d ! k)) ks)"
      using order_refs_result [of "\<lambda>k. h264e_rkv_reference_distance cfg cur (frame_buf d ! k)"
          "\<lambda>k. fr_poc (frame_buf d ! k)" "hd xs" xs] by (simp_all add: o)
    have "length ks = length xs" using m(1) by (metis size_mset)
    then show ?thesis using False 0 assms m
      by (intro exI [of _ "Some near"] exI [of _ ks]) (simp add: order_by_distance_def o)
  qed
qed

lemma reorder_step:
  assumes "plain_ref cfg" and "fref0 d = set_refs ks l" and "i_ref0 d = length ks" and "length ks < 17" and "length l = 17"
    and fr: "\<forall>k \<in> set ks. k < length (frame_buf d) \<and> long_term_flag (frame_buf d ! k) = 0"
  shows "reorder_refs cfg d = Some (d\<lparr>reordering0 := of_bool (reorders cfg (length ks)), fref0 := set_refs (moved_first cfg ks) l\<rparr>)"
proof (cases "reorders cfg (length ks)")
  case True
  define p where "p = nat (i_ref_pos cfg)"
  have p: "p < length ks" "i_ref_pos cfg = int p" using True assms(1) by (auto simp: p_def reorders_def plain_ref_def)
  have r: "rd (fref0 d) p = Some (Some (ks ! p))" using p assms by (simp add: rd_def set_refs_def nth_append)
  have f: "long_term_flag (frame_buf d ! (ks ! p)) = 0" "ks ! p < length (frame_buf d)" using fr p(1) by auto
  have moved_length: "Suc (length ks - Suc 0) = length ks" using p(1) by simp
  have pl: "p < length (set_refs ks l)" using p assms by simp
  have "fold (\<lambda>i l. swap l i (i - 1)) (rev [1..<p + 1]) (set_refs ks l)
      = set_refs ks l ! p # take p (set_refs ks l) @ drop (p + 1) (set_refs ks l)"
    by (rule swap_down [OF pl])
  also have "\<dots> = set_refs (moved_first cfg ks) l"
    using p True moved_length by (simp add: moved_first_def p_def [symmetric] set_refs_def nth_append take_map drop_map)
  finally show ?thesis
    using True r f p assms(2,3) by (simp add: reorder_refs_def reorders_def deref_Some p_def [symmetric] del: upt_Suc)
next
  case False
  then have "moved_first cfg ks = ks" by (simp add: moved_first_def Let_def)
  moreover have "reorder_refs cfg d = Some (d\<lparr>reordering0 := 0\<rparr>)"
    using False assms(3) by (simp only: reorder_refs_def reorders_def if_False)
  moreover have "d\<lparr>reordering0 := 0\<rparr> = d\<lparr>reordering0 := 0, fref0 := set_refs ks l\<rparr>" by (simp flip: assms(2))
  ultimately show ?thesis using False by simp
qed

text \<open>What the list building leaves: list 0 and its length, no commands, the rest untouched.\<close>

definition built :: "h264e_ref_param \<Rightarrow> rkv_frame \<Rightarrow> (nat \<Rightarrow> rkv_frame) \<Rightarrow> nat list \<Rightarrow> rkv_dpb \<Rightarrow> bool" where
  "built cfg cur F xs d \<longleftrightarrow> (\<exists>ks l. mset ks = mset xs
     \<and> sorted (map (\<lambda>k. h264e_rkv_reference_distance cfg cur (F k)) ks) \<and> length l = 17
     \<and> fref0 d = set_refs (moved_first cfg ks) l \<and> i_ref0 d = min (length xs) (nat (i_frame_reference cfg))
     \<and> reordering0 d = of_bool (reorders cfg (length xs)))"

definition refs_before :: "nat list \<Rightarrow> int \<Rightarrow> (nat \<Rightarrow> rkv_frame) \<Rightarrow> bool" where
  "refs_before xs poc F \<longleftrightarrow> (\<forall>i \<in> set xs. b_corrupt (F i) = 0 \<and> long_term_flag (F i) = 0 \<and> fr_poc (F i) < poc)"

lemma build_step:
  assumes cfg: "plain_ref cfg" and c: "coding m xs ys k F d" and "no_commands d" and "i_max_ref0 d = i_frame_reference cfg"
    and "numbered k cnt num poc d" and "i_slice_type d \<noteq> 2 \<Longrightarrow> refs_before xs poc F"
  shows "\<exists>a b x f r. h264e_rkv_reference_build_list cfg sps d = Some (cfg, d\<lparr>i_ref0 := a, i_ref1 := b, fref_nearest0 := x,
      fref0 := f, reordering0 := r\<rparr>)
    \<and> length f = 17 \<and> (i_slice_type d = 2 \<longrightarrow> r = 0)
    \<and> (i_slice_type d \<noteq> 2 \<longrightarrow> built cfg (frame_buf d ! k) F xs (d\<lparr>i_ref0 := a, fref0 := f, reordering0 := r\<rparr>))"
proof -
  note k = coding_k [OF c]
  have en: "i_long_term_en cfg = 0" using cfg by (simp add: plain_ref_def)
  have l: "length (fref0 d) = 17" using c by (simp add: coding_def)
  show ?thesis
  proof (cases "i_slice_type d = 2")
    case True
    have "h264e_rkv_reference_build_list cfg sps d = Some (cfg, d\<lparr>i_ref0 := 0, i_ref1 := 0\<rparr>)"
      using k en True by (simp add: h264e_rkv_reference_build_list_def deref_Some Let_def)
    moreover have "d\<lparr>i_ref0 := 0, i_ref1 := 0\<rparr> = d\<lparr>i_ref0 := 0, i_ref1 := 0, fref_nearest0 := fref_nearest0 d,
        fref0 := fref0 d, reordering0 := reordering0 d\<rparr>" by simp
    ultimately show ?thesis using True l assms(3)
      by (intro exI [of _ "0 :: nat"] exI [of _ "fref_nearest0 d"] exI [of _ "fref0 d"] exI [of _ "reordering0 d"])
        (simp add: no_commands_def)
  next
    case False
    let ?l = "fref0 d" and ?cur = "frame_buf d ! k"
    let ?d0 = "d\<lparr>i_ref0 := 0, i_ref1 := 0\<rparr>"
    let ?d1 = "?d0\<lparr>fref0 := set_refs xs ?l, i_ref0 := length xs\<rparr>"
    have cur: "fr_poc ?cur = poc" using assms(5) by (simp add: numbered_def)
    have xs: "length xs < 17" "reference d = narr 17 xs" "\<forall>i \<in> set xs. i < 17 \<and> frame_buf d ! i = F i" "length (frame_buf d) = 17"
      using c by (auto simp: coding_def pool_def)
    have s: "split_refs 17 0 poc ?d0 = Some ?d1"
      by (rule split_refs_all) (use xs l assms(6) False in \<open>auto simp: refs_before_def set_refs_def\<close>)
    have o1: "fref0 ?d1 = set_refs xs ?l" "i_ref0 ?d1 = length xs" by simp_all
    from order_step [OF o1 xs(1) l, of cfg ?cur] obtain x ks where
      o: "order_by_distance cfg ?cur ?d1 = Some (?d1\<lparr>fref_nearest0 := x, fref0 := set_refs ks ?l\<rparr>)" "mset ks = mset xs"
        "sorted (map (\<lambda>k. h264e_rkv_reference_distance cfg ?cur (frame_buf d ! k)) ks)" by auto
    let ?d2 = "?d1\<lparr>fref_nearest0 := x, fref0 := set_refs ks ?l\<rparr>"
    have ks: "length ks = length xs" "set ks = set xs" using o(2) by (metis size_mset, metis set_mset_mset)
    let ?d3 = "?d2\<lparr>reordering0 := of_bool (reorders cfg (length ks)), fref0 := set_refs (moved_first cfg ks) ?l\<rparr>"
    have r: "reorder_refs cfg ?d2 = Some ?d3"
      by (rule reorder_step [OF cfg]) (use ks xs l assms(6) False in \<open>auto simp: refs_before_def\<close>)
    have n: "i_mmco_remove_from_end ?d1 = 0" "i_mmco_command_count ?d3 = 0" "i_max_ref0 ?d3 = i_frame_reference cfg"
      using assms(3,4) by (simp_all add: no_commands_def)
    have b: "h264e_rkv_reference_build_list cfg sps d = Some (cfg, limit_refs cfg ?d3)"
    proof -
      have "?d3\<lparr>i_mmco_command_count := 0\<rparr> = ?d3" using n(2) by simp
      then show ?thesis using k False cur s n(1) o(1) r en
        by (simp only: h264e_rkv_reference_build_list_def deref_Some Let_def bind.bind_lunit)
          (simp add: mmco_from_end_def long_term_last_def mark_first_p_def long_term_marking_def n)
    qed
    have "limit_refs cfg ?d3 = d\<lparr>i_ref0 := min (length xs) (nat (i_frame_reference cfg)), i_ref1 := 0, fref_nearest0 := x,
        fref0 := set_refs (moved_first cfg ks) ?l, reordering0 := of_bool (reorders cfg (length xs))\<rparr>"
      using n ks cfg by (simp add: limit_refs_def plain_ref_def)
    with b have e: "h264e_rkv_reference_build_list cfg sps d = Some (cfg, d\<lparr>i_ref0 := min (length xs) (nat (i_frame_reference cfg)),
        i_ref1 := 0, fref_nearest0 := x, fref0 := set_refs (moved_first cfg ks) ?l, reordering0 := of_bool (reorders cfg (length xs))\<rparr>)"
      by simp
    have m: "map (\<lambda>k. h264e_rkv_reference_distance cfg ?cur (frame_buf d ! k)) ks
        = map (\<lambda>k. h264e_rkv_reference_distance cfg ?cur (F k)) ks" using xs(3) ks(2) by simp
    have "built cfg ?cur F xs (d\<lparr>i_ref0 := min (length xs) (nat (i_frame_reference cfg)),
        fref0 := set_refs (moved_first cfg ks) ?l, reordering0 := of_bool (reorders cfg (length xs))\<rparr>)"
      unfolding built_def by (intro exI [of _ ks] exI [of _ ?l]) (use o(2) o(3) [unfolded m] l in simp)
    moreover have "length (set_refs (moved_first cfg ks) ?l) = 17" using ks l xs(1) cfg by (simp add: plain_ref_def)
    moreover note e
    ultimately have "\<exists>a b x f r. h264e_rkv_reference_build_list cfg sps d = Some (cfg, d\<lparr>i_ref0 := a, i_ref1 := b, fref_nearest0 := x,
        fref0 := f, reordering0 := r\<rparr>) \<and> length f = 17
        \<and> built cfg ?cur F xs (d\<lparr>i_ref0 := a, fref0 := f, reordering0 := r\<rparr>)" by blast
    then show ?thesis using False by simp
  qed
qed

text \<open>The command the slice header gets: it names the first reference of list 0.\<close>

definition order_mask :: "h264e_sps \<Rightarrow> int" where
  "order_mask sps = 2 ^ nat (i_log2_max_frame_num sps) - 1"

lemma write_orders_step:
  assumes c: "coding m xs ys k F d" and "reordering1 d = 0"
    and f0: "reordering0 d \<noteq> 0 \<Longrightarrow> i_ref0 d \<noteq> 0 \<Longrightarrow> \<exists>j. fref0 d ! 0 = Some j \<and> j \<in> set xs"
  shows "\<exists>l. write_orders sps d = Some (d\<lparr>ref_pic_list_order0 := l\<rparr>) \<and> length l = 16
    \<and> (reordering0 d \<noteq> 0 \<longrightarrow> i_ref0 d \<noteq> 0 \<longrightarrow>
        l ! 0 = reorder_command (order_mask sps) (fr_frame_num (frame_buf d ! k)) (fr_frame_num (F (the (fref0 d ! 0)))))"
proof -
  note k = coding_k [OF c]
  have len: "length (ref_pic_list_order0 d) = 16" "length (fref0 d) = 17" "reorder_longterm_flag (frame_buf d ! k) = 0"
    using c by (simp_all add: coding_def)
  show ?thesis
  proof (cases "reordering0 d \<noteq> 0 \<and> i_ref0 d \<noteq> 0")
    case False
    then have "write_orders sps d = Some d" using assms(2) by (auto simp: write_orders_def write_order_def)
    then show ?thesis using False len by (intro exI [of _ "ref_pic_list_order0 d"]) auto
  next
    case True
    then obtain j where j: "fref0 d ! 0 = Some j" "j \<in> set xs" using f0 by blast
    have "j < length (frame_buf d)" "frame_buf d ! j = F j" using j(2) c by (auto simp: coding_def pool_def)
    with True j len k assms(2) show ?thesis
      by (intro exI [of _ "(ref_pic_list_order0 d)[0 := reorder_command (order_mask sps) (fr_frame_num (frame_buf d ! k))
          (fr_frame_num (F j))]"])
        (simp add: write_orders_def write_order_def deref_Some rd_def wr_def order_mask_def)
  qed
qed

lemma set_idr_step:
  assumes "plain_ref cfg" and "coding m xs ys k F d"
  shows "\<exists>a b c. set_idr_id cfg d = Some (d\<lparr>i_long_term_reference_flag := a, i_idr_pic_id := b, i_tmp_idr_pic_id := c\<rparr>)"
proof (cases "i_nal_type d = 5")
  case True
  then have "set_idr_id cfg d = Some (d\<lparr>i_idr_pic_id := i_tmp_idr_pic_id d, i_tmp_idr_pic_id := i_tmp_idr_pic_id d XOR 1\<rparr>)"
    using assms(1) coding_k [OF assms(2)] by (simp add: set_idr_id_def deref_Some plain_ref_def)
  also have "d\<lparr>i_idr_pic_id := i_tmp_idr_pic_id d, i_tmp_idr_pic_id := i_tmp_idr_pic_id d XOR 1\<rparr> =
      d\<lparr>i_long_term_reference_flag := i_long_term_reference_flag d, i_idr_pic_id := i_tmp_idr_pic_id d,
        i_tmp_idr_pic_id := i_tmp_idr_pic_id d XOR 1\<rparr>" by simp
  finally show ?thesis by blast
next
  case False
  then have "set_idr_id cfg d = Some (d\<lparr>i_long_term_reference_flag := 0, i_idr_pic_id := -1, i_tmp_idr_pic_id := i_tmp_idr_pic_id d\<rparr>)"
    by (simp add: set_idr_id_def)
  then show ?thesis by blast
qed

section \<open>One picture\<close>

text \<open>
  The state between pictures: references \<open>xs\<close> and free frames \<open>ys\<close> are all frames used so far, in
  coding order and numbered from the last IDR picture on.
\<close>

definition frame_fine :: "int \<Rightarrow> int \<Rightarrow> rkv_frame \<Rightarrow> bool" where
  "frame_fine idr cnt f \<longleftrightarrow> b_corrupt f = 0 \<and> long_term_flag f = 0 \<and> idr \<le> fr_frame_cnt f \<and> fr_frame_cnt f < cnt
     \<and> fr_frame_num f = fr_frame_cnt f - idr \<and> fr_poc f = 2 * (fr_frame_cnt f - idr)"

definition frames_ok :: "nat list \<Rightarrow> rkv_dpb \<Rightarrow> bool" where
  "frames_ok xs d \<longleftrightarrow> (\<forall>i \<in> set xs. frame_fine (i_last_idr d) (i_frame_cnt d) (frame_buf d ! i))
     \<and> sorted_wrt (<) (map (\<lambda>i. fr_frame_cnt (frame_buf d ! i)) xs)"

definition between :: "nat \<Rightarrow> nat list \<Rightarrow> nat list \<Rightarrow> rkv_dpb \<Rightarrow> bool" where
  "between n xs ys d \<longleftrightarrow> pool (length xs + length ys) xs ys d \<and> length xs \<le> n \<and> length xs + length ys \<le> n + 1
     \<and> frames_ok xs d \<and> arrays_ok d \<and> 0 \<le> i_last_idr d \<and> i_last_idr d \<le> i_frame_cnt d
     \<and> i_frame_num d = i_frame_cnt d - i_last_idr d"

lemma init_between: "between n [] [] (h264e_rkv_reference_init cfg)"
proof -
  have "hw_buf_used (replicate 17 rkv_frame_zero ! k) = 0" if "k < 17" for k
    using that by (simp add: rkv_frame_zero_def)
  then show ?thesis
    by (simp add: between_def pool_def frames_ok_def arrays_ok_def h264e_rkv_reference_init_def narr_def)
qed

text \<open>The first half of setting up a picture: its frame, its numbers and its type.\<close>

lemma frame_start:
  assumes b: "between n xs ys d" and n: "n \<le> 15" and c: "c \<in> {1, 2, 3, 4}"
  defines "xs' \<equiv> if c = 1 then [] else xs" and "idr \<equiv> if c = 1 then i_frame_cnt d else i_last_idr d"
    and "F \<equiv> \<lambda>i. frame_buf d ! i" and "cnt \<equiv> i_frame_cnt d"
  shows "\<exists>m ys' k d1 d3 d4 d6. m \<le> n + 1 \<and> h264e_rkv_frame_pop_unused d = Some (Some k, d1)
    \<and> set_fdec c (d1\<lparr>fdec := Some k, i_max_ref0 := r, i_max_ref1 := r'\<rparr>) = Some d3 \<and> check_refs d3 = Some d4
    \<and> set_nal_type c sps (d4\<lparr>i_mmco_command_count := 0, i_mmco_remove_from_end := 0, reordering0 := 0, reordering1 := 0\<rparr>) = Some d6
    \<and> coding m xs' ys' k F d6 \<and> counters r cnt (cnt - idr) idr d6 \<and> numbered k cnt (cnt - idr) (2 * (cnt - idr)) d6
    \<and> no_commands d6 \<and> i_slice_type d6 = slice_of c \<and> b_kept_as_ref (frame_buf d6 ! k) = 1 \<and> i_nal_ref_idc d6 \<noteq> 0"
proof -
  let ?M = "length xs + length ys"
  note b' = b [unfolded between_def]
  have p: "pool ?M xs ys d" "?M < 17" "arrays_ok d" using b' n by simp_all
  from pop_unused [OF p(1) refl p(2,3)] obtain k m ys1 d1 where
    d1: "h264e_rkv_frame_pop_unused d = Some (Some k, d1)" "m = max ?M (Suc (length xs))"
      "coding m xs ys1 k F (d1\<lparr>fdec := Some k\<rparr>)" "i_last_idr d1 = i_last_idr d" "i_frame_cnt d1 = cnt" "i_frame_num d1 = i_frame_num d"
    unfolding F_def cnt_def by blast
  let ?d2 = "d1\<lparr>fdec := Some k, i_max_ref0 := r, i_max_ref1 := r'\<rparr>"
  have d2: "coding m xs ys1 k F ?d2" "counters r cnt (cnt - i_last_idr d) (i_last_idr d) ?d2"
    using d1 b' by (simp_all add: counters_def cnt_def)
  have idr: "0 \<le> idr" "(if c = 1 then 0 else cnt - i_last_idr d) = cnt - idr" using b' by (auto simp: idr_def cnt_def)
  have new: "(if c = 1 then cnt else i_last_idr d) = idr" "max idr 0 = idr" using idr(1) by (simp_all add: idr_def cnt_def)
  from set_fdec_step [OF d2, of c, unfolded new(1) idr(2) new(2)] obtain d3 where
    d3: "set_fdec c ?d2 = Some d3" "coding m xs ys1 k F d3" "counters r cnt (cnt - idr) idr d3"
      "numbered k cnt (cnt - idr) (2 * (cnt - idr)) d3" by blast
  from check_refs_step [OF d3(2-4)] obtain d4 where
    d4: "check_refs d3 = Some d4" "coding m xs ys1 k F d4" "counters r cnt (cnt - idr) idr d4"
      "numbered k cnt (cnt - idr) (2 * (cnt - idr)) d4" by blast
  let ?d5 = "d4\<lparr>i_mmco_command_count := 0, i_mmco_remove_from_end := 0, reordering0 := 0, reordering1 := 0\<rparr>"
  have d5: "coding m xs ys1 k F ?d5" "counters r cnt (cnt - idr) idr ?d5" "numbered k cnt (cnt - idr) (2 * (cnt - idr)) ?d5"
    "no_commands ?d5" using d4 by (simp_all add: counters_def numbered_def no_commands_def)
  have poc: "(if c = 1 then 0 else 2 * (cnt - idr)) = 2 * (cnt - idr)" by (simp add: idr_def cnt_def)
  have "m \<le> n + 1" using d1(2) b' by simp
  with d1(1) d3(1) d4(1) set_nal_step [OF d5 c, of sps, folded xs'_def, unfolded poc] show ?thesis by blast
qed

text \<open>The second half: the lists, the reordering commands and the IDR picture id.\<close>

lemma frame_lists:
  assumes d: "coding m xs ys k F d" "no_commands d" "numbered k cnt num poc d" and cfg: "plain_ref cfg" "i_max_ref0 d = i_frame_reference cfg"
    and refs: "i_slice_type d \<noteq> 2 \<Longrightarrow> refs_before xs poc F"
  shows "\<exists>d1 d2 d3. h264e_rkv_reference_build_list cfg sps d = Some (cfg, d1) \<and> write_orders sps d1 = Some d2
    \<and> set_idr_id cfg d2 = Some d3 \<and> coding m xs ys k F d3
    \<and> frame_buf d3 = frame_buf d \<and> i_frame_cnt d3 = i_frame_cnt d \<and> i_frame_num d3 = i_frame_num d \<and> i_last_idr d3 = i_last_idr d
    \<and> i_max_ref0 d3 = i_max_ref0 d \<and> i_nal_ref_idc d3 = i_nal_ref_idc d \<and> i_mmco_command_count d3 = i_mmco_command_count d
    \<and> (i_slice_type d \<noteq> 2 \<longrightarrow> built cfg (frame_buf d ! k) F xs d3 \<and> (reordering0 d3 \<noteq> 0 \<longrightarrow>
        ref_pic_list_order0 d3 ! 0 = reorder_command (order_mask sps) num (fr_frame_num (F (the (fref0 d3 ! 0))))))"
proof -
  from build_step [OF cfg(1) d(1,2) cfg(2) d(3) refs, of sps] obtain a b x f r where
    b: "h264e_rkv_reference_build_list cfg sps d = Some (cfg, d\<lparr>i_ref0 := a, i_ref1 := b, fref_nearest0 := x, fref0 := f, reordering0 := r\<rparr>)"
      "length f = 17" "i_slice_type d = 2 \<longrightarrow> r = 0"
      "i_slice_type d \<noteq> 2 \<longrightarrow> built cfg (frame_buf d ! k) F xs (d\<lparr>i_ref0 := a, fref0 := f, reordering0 := r\<rparr>)" by blast
  let ?d1 = "d\<lparr>i_ref0 := a, i_ref1 := b, fref_nearest0 := x, fref0 := f, reordering0 := r\<rparr>"
  have c1: "coding m xs ys k F ?d1" by (rule coding_lists(1) [OF d(1) b(2)])
  have first: "a \<noteq> 0 \<and> (\<exists>j. f ! 0 = Some j \<and> j \<in> set xs)" if nz: "r \<noteq> 0"
  proof -
    obtain ks l where ks: "mset ks = mset xs" "f = set_refs (moved_first cfg ks) l" "a = min (length xs) (nat (i_frame_reference cfg))"
      "reorders cfg (length xs)"
      using nz b(3,4) by (auto simp: built_def split: if_splits)
    have "mset (moved_first cfg ks) = mset xs" using ks(1) cfg by (simp add: plain_ref_def)
    moreover have l: "0 < length xs" "a \<noteq> 0" using ks(3,4) cfg(1) by (auto simp: reorders_def plain_ref_def)
    ultimately have "moved_first cfg ks ! 0 \<in> set xs" "0 < length (moved_first cfg ks)"
      by (metis nth_mem set_mset_mset size_mset)+
    then show ?thesis using ks(2) l(2) by (simp add: set_refs_def nth_append)
  qed
  have "reordering1 ?d1 = 0" using d(2) by (simp add: no_commands_def)
  from write_orders_step [OF c1 this, of sps] first obtain l where l: "write_orders sps ?d1 = Some (?d1\<lparr>ref_pic_list_order0 := l\<rparr>)"
    "length l = 16" "r \<noteq> 0 \<longrightarrow> l ! 0 = reorder_command (order_mask sps) (fr_frame_num (frame_buf d ! k)) (fr_frame_num (F (the (f ! 0))))"
    by auto
  let ?d2 = "?d1\<lparr>ref_pic_list_order0 := l\<rparr>"
  have c2: "coding m xs ys k F ?d2" by (rule coding_lists(2) [OF c1 l(2)])
  from set_idr_step [OF cfg(1) c2] obtain e g h where
    i: "set_idr_id cfg ?d2 = Some (?d2\<lparr>i_long_term_reference_flag := e, i_idr_pic_id := g, i_tmp_idr_pic_id := h\<rparr>)" by blast
  let ?d3 = "?d2\<lparr>i_long_term_reference_flag := e, i_idr_pic_id := g, i_tmp_idr_pic_id := h\<rparr>"
  have "coding m xs ys k F ?d3" by (rule coding_lists(3) [OF c2])
  moreover have "i_slice_type d \<noteq> 2 \<longrightarrow> built cfg (frame_buf d ! k) F xs ?d3" using b(4) by (simp add: built_def)
  ultimately show ?thesis using b(1) l i d(3)
    by (intro exI [of _ ?d1] exI [of _ ?d2] exI [of _ ?d3]) (simp add: numbered_def)
qed

text \<open>What a picture of type \<open>c\<close> finds: an IDR picture starts the numbering anew and drops all references.\<close>

lemma frame_set_step:
  assumes b: "between n xs ys d" and cfg: "plain_ref cfg" and n: "n \<le> 15" and c: "c \<in> {1, 2, 3, 4}"
  defines "xs' \<equiv> if c = 1 then [] else xs" and "idr \<equiv> if c = 1 then i_frame_cnt d else i_last_idr d"
    and "F \<equiv> \<lambda>i. frame_buf d ! i" and "cnt \<equiv> i_frame_cnt d"
  shows "\<exists>m ys' k d'. h264e_rkv_reference_frame_set cfg sps c d = Some (MPP_OK, cfg, d') \<and> coding m xs' ys' k F d'
    \<and> m \<le> n + 1 \<and> counters (i_frame_reference cfg) cnt (cnt - idr) idr d' \<and> numbered k cnt (cnt - idr) (2 * (cnt - idr)) d'
    \<and> b_kept_as_ref (frame_buf d' ! k) = 1 \<and> i_nal_ref_idc d' \<noteq> 0 \<and> i_mmco_command_count d' = 0
    \<and> (c \<notin> {1, 2} \<longrightarrow> built cfg (frame_buf d' ! k) F xs' d' \<and> (reordering0 d' \<noteq> 0 \<longrightarrow>
        ref_pic_list_order0 d' ! 0 = reorder_command (order_mask sps) (cnt - idr) (fr_frame_num (F (the (fref0 d' ! 0))))))"
proof -
  let ?r = "i_frame_reference cfg" and ?r' = "min (i_num_reorder_frames (sps_vui sps)) (i_frame_reference cfg)"
  from frame_start [OF b n c, where r = ?r and r' = ?r' and sps = sps, folded xs'_def idr_def F_def cnt_def] obtain m ys' k d1 d3 d4 d6 where
    s: "m \<le> n + 1" "h264e_rkv_frame_pop_unused d = Some (Some k, d1)"
      "set_fdec c (d1\<lparr>fdec := Some k, i_max_ref0 := ?r, i_max_ref1 := ?r'\<rparr>) = Some d3" "check_refs d3 = Some d4"
      "set_nal_type c sps (d4\<lparr>i_mmco_command_count := 0, i_mmco_remove_from_end := 0, reordering0 := 0, reordering1 := 0\<rparr>) = Some d6"
      "coding m xs' ys' k F d6" "counters ?r cnt (cnt - idr) idr d6" "numbered k cnt (cnt - idr) (2 * (cnt - idr)) d6"
      "no_commands d6" "i_slice_type d6 = slice_of c" "b_kept_as_ref (frame_buf d6 ! k) = 1" "i_nal_ref_idc d6 \<noteq> 0" by blast
  have sl: "i_slice_type d6 = 2 \<longleftrightarrow> c \<in> {1, 2}" using c s(10) by (auto simp: slice_of_def)
  have "refs_before xs' (2 * (cnt - idr)) F" if "i_slice_type d6 \<noteq> 2"
    using b that sl by (auto simp: between_def refs_before_def frames_ok_def frame_fine_def F_def xs'_def idr_def cnt_def)
  moreover have "i_max_ref0 d6 = ?r" using s(7) by (simp add: counters_def)
  ultimately obtain d7 d8 d9 where
    l: "h264e_rkv_reference_build_list cfg sps d6 = Some (cfg, d7)" "write_orders sps d7 = Some d8" "set_idr_id cfg d8 = Some d9"
      "coding m xs' ys' k F d9" "frame_buf d9 = frame_buf d6" "i_frame_cnt d9 = i_frame_cnt d6" "i_frame_num d9 = i_frame_num d6"
      "i_last_idr d9 = i_last_idr d6" "i_max_ref0 d9 = i_max_ref0 d6" "i_nal_ref_idc d9 = i_nal_ref_idc d6"
      "i_mmco_command_count d9 = i_mmco_command_count d6"
      "i_slice_type d6 \<noteq> 2 \<longrightarrow> built cfg (frame_buf d6 ! k) F xs' d9 \<and> (reordering0 d9 \<noteq> 0 \<longrightarrow>
        ref_pic_list_order0 d9 ! 0 = reorder_command (order_mask sps) (cnt - idr) (fr_frame_num (F (the (fref0 d9 ! 0)))))"
    using frame_lists [OF s(6,9,8) cfg, of sps] by blast
  have "h264e_rkv_reference_frame_set cfg sps c d = Some (MPP_OK, cfg, d9)"
    using s(2-5) l(1-3) by (simp add: h264e_rkv_reference_frame_set_def Let_def)
  with s(1,7-12) l(4-12) sl show ?thesis
    by (intro exI [of _ d9] exI conjI) (auto simp: counters_def numbered_def no_commands_def)
qed

text \<open>The last \<open>n\<close> elements.\<close>

definition window :: "nat \<Rightarrow> 'a list \<Rightarrow> 'a list" where
  "window n l = drop (length l - n) l"

lemma window_simps:
  "length l \<le> n \<Longrightarrow> window n l = l" "length l = Suc n \<Longrightarrow> window n l = tl l" "length (window n l) = min n (length l)"
  "set (window n l) \<subseteq> set l" "map f (window n l) = window n (map f l)"
  by (auto simp: window_def drop_Suc drop_map dest: in_set_dropD)

text \<open>Keeping the picture as a reference; the oldest one goes when there are too many.\<close>

lemma update_step:
  assumes c: "coding m xs ys k F d" and cfg: "plain_ref cfg" and kept: "b_kept_as_ref (frame_buf d ! k) = 1"
    and cmd: "i_mmco_command_count d = 0" and n: "i_num_ref_frames sps = int n" "n \<le> 15" "length xs \<le> n"
  shows "\<exists>ys' d'. h264e_rkv_reference_frame_update cfg sps d = Some (MPP_OK, d') \<and> pool m (window n (xs @ [k])) ys' d'
    \<and> length (window n (xs @ [k])) + length ys' = m \<and> d' = d\<lparr>reference := reference d', unused := unused d', frame_buf := frame_buf d'\<rparr>
    \<and> (\<forall>i \<in> set (window n (xs @ [k])). frame_buf d' ! i = frame_buf d ! i)
    \<and> (\<forall>i < 17. frame_buf d' ! i = frame_buf d ! i \<or> frame_buf d' ! i = unref (frame_buf d ! i))"
proof -
  note k = coding_k [OF c]
  let ?e = "d\<lparr>reference := narr 17 (xs @ [k])\<rparr>"
  have r: "reference d = narr 17 xs" "length xs < 17" using c by (simp_all add: coding_def pool_def)
  have p: "pool m (xs @ [k]) ys ?e" using c by (auto simp: coding_def pool_def)
  have m: "m = length xs + length ys + 1" using c by (simp add: coding_def)
  have pu: "h264e_rkv_frame_push (reference d) (fdec d) = Some (narr 17 (xs @ [k]))"
    using fl.push_law [of xs k] r k by simp
  have rd: "rd (narr 17 (xs @ [k])) n = Some (if n < length xs + 1 then Some ((xs @ [k]) ! n) else None)"
    using rd_narr [of "xs @ [k]" 17 n] n by simp
  have upd: "h264e_rkv_reference_frame_update cfg sps d =
      (if n < length xs + 1 then do { d \<leftarrow> release_at 0 ?e; Some (MPP_OK, d) } else Some (MPP_OK, ?e))"
    using k kept cmd pu rd n(1) cfg
    by (simp add: h264e_rkv_reference_frame_update_def h264e_rkv_reference_update_def deref_Some Let_def plain_ref_def)
  show ?thesis
  proof (cases "n < length xs + 1")
    case False
    then have w: "window n (xs @ [k]) = xs @ [k]" by (simp add: window_simps)
    have "h264e_rkv_reference_frame_update cfg sps d = Some (MPP_OK, ?e)" using False upd by simp
    then show ?thesis using p m unfolding w by (intro exI [of _ ys] exI [of _ ?e]) simp
  next
    case True
    obtain j zs where z: "xs @ [k] = j # zs" by (cases "xs @ [k]") auto
    have len: "length zs = n" using z n(3) True by (metis Suc_eq_plus1 add_right_cancel length_Cons length_append_singleton less_antisym linorder_not_le)
    have w: "window n (xs @ [k]) = zs" using len by (simp add: z window_simps)
    note rel = release_first [of m j zs ys ?e, folded z, OF p]
    let ?f = "upd j unref (?e\<lparr>reference := narr 17 zs, unused := narr 17 (ys @ [j])\<rparr>)"
    have l: "length zs < 16" using len n(2) by simp
    have jd: "j \<notin> set zs" using p z by (auto simp: pool_def)
    have u: "h264e_rkv_reference_frame_update cfg sps d = Some (MPP_OK, ?f)" using True upd rel(1) [OF l] by simp
    have fb: "frame_buf ?f = (frame_buf d)[j := unref (frame_buf d ! j)]" by (simp add: upd_def)
    have "length (frame_buf d) = 17" using c by (simp add: coding_def pool_def)
    then have fr: "\<forall>i < 17. frame_buf ?f ! i = frame_buf d ! i \<or> frame_buf ?f ! i = unref (frame_buf d ! i)"
      "\<forall>i \<in> set zs. frame_buf ?f ! i = frame_buf d ! i" unfolding fb using jd by (metis nth_list_update_eq nth_list_update_neq)+
    have "length zs + length (ys @ [j]) = m" using m len n(3) True by simp
    moreover have "?f = d\<lparr>reference := reference ?f, unused := unused ?f, frame_buf := frame_buf ?f\<rparr>" by (simp add: upd_def)
    ultimately show ?thesis using u rel(2) [OF l] fr unfolding w by blast
  qed
qed

section \<open>The encoder\<close>

text \<open>What the states mean: the picture counts of the references, and of list 0 of the last picture.\<close>

definition ref_counts :: "rkv_dpb \<Rightarrow> int list" where
  "ref_counts d = map (\<lambda>p. fr_frame_cnt (frame_buf d ! the p)) (takeWhile (\<lambda>p. p \<noteq> None) (reference d))"

definition list0_counts :: "rkv_dpb \<Rightarrow> int list" where
  "list0_counts d = map (\<lambda>p. fr_frame_cnt (frame_buf d ! the p)) (take (i_ref0 d) (fref0 d))"

lemma ref_counts_narr: "reference d = narr n xs \<Longrightarrow> ref_counts d = map (\<lambda>i. fr_frame_cnt (frame_buf d ! i)) xs"
proof -
  have "takeWhile (\<lambda>p. p \<noteq> None) (narr n xs) = map Some xs"
    by (cases "n - length xs") (simp_all add: narr_def takeWhile_append takeWhile_map comp_def)
  then show "reference d = narr n xs \<Longrightarrow> ?thesis" by (simp add: ref_counts_def comp_def)
qed

text \<open>With a plain distance the list is the references from the newest to the oldest.\<close>

lemma built_counts:
  assumes b: "built cfg cur F xs d" and cfg: "plain_ref cfg" "i_frame_packing cfg \<noteq> 5" and len: "length xs < 17"
    and F: "sorted_wrt (<) (map (\<lambda>i. fr_frame_cnt (F i)) xs)" "\<forall>i \<in> set xs. fr_frame_cnt (F i) < fr_frame_cnt cur"
  shows "take (i_ref0 d) (fref0 d) = map Some (take (nat (i_frame_reference cfg)) (moved_first cfg (rev xs)))"
    and "reordering0 d = of_bool (reorders cfg (length xs))" and "i_ref0 d = min (length xs) (nat (i_frame_reference cfg))"
proof -
  let ?dist = "\<lambda>k. h264e_rkv_reference_distance cfg cur (F k)"
  obtain ks l where b': "mset ks = mset xs" "sorted (map ?dist ks)" "length l = 17" "fref0 d = set_refs (moved_first cfg ks) l"
    "i_ref0 d = min (length xs) (nat (i_frame_reference cfg))" "reordering0 d = of_bool (reorders cfg (length xs))"
    using b by (auto simp: built_def)
  have dist: "?dist k = fr_frame_cnt cur - fr_frame_cnt (F k)" if "k \<in> set xs" for k
    using F(2) that cfg(2) by (auto simp: h264e_rkv_reference_distance_def)
  have map: "map ?dist xs = map (\<lambda>c. fr_frame_cnt cur - c) (map (\<lambda>i. fr_frame_cnt (F i)) xs)" using dist by simp
  have "sorted_wrt (>) (map ?dist xs)"
    unfolding map sorted_wrt_map by (rule sorted_wrt_mono_rel [OF _ F(1) [unfolded sorted_wrt_map]]) simp
  then have s: "sorted_wrt (<) (map ?dist (rev xs))" by (simp only: rev_map [symmetric] sorted_wrt_rev)
  have "ks = rev xs"
  proof (rule map_sorted_distinct_set_unique [of ?dist])
    have d: "distinct (map ?dist (rev xs))" "sorted (map ?dist (rev xs))"
      using s by (simp_all only: strict_sorted_iff)
    then show "sorted (map ?dist (rev xs))" "distinct (map ?dist (rev xs))" by simp_all
    have st: "set ks = set (rev xs)" using b'(1) by (metis set_mset_mset set_rev)
    then show "set ks = set (rev xs)" .
    show "inj_on ?dist (set ks \<union> set (rev xs))" using d(1) st by (simp add: distinct_map)
    have "mset (map ?dist ks) = mset (map ?dist (rev xs))" using b'(1) by simp
    then show "distinct (map ?dist ks)" using d(1) by (metis distinct_count_atmost_1 set_mset_mset)
  qed (rule b'(2))
  moreover have "length (moved_first cfg (rev xs)) = length xs" using cfg(1) by (simp add: plain_ref_def)
  ultimately show "take (i_ref0 d) (fref0 d) = map Some (take (nat (i_frame_reference cfg)) (moved_first cfg (rev xs)))"
    unfolding b'(4,5) by (simp add: set_refs_def take_map min_def)
  show "reordering0 d = of_bool (reorders cfg (length xs))" "i_ref0 d = min (length xs) (nat (i_frame_reference cfg))"
    using b' by simp_all
qed

lemma map_moved_first: "0 \<le> i_ref_pos cfg \<Longrightarrow> map f (moved_first cfg l) = moved_first cfg (map f l)"
  by (simp add: moved_first_def Let_def reorders_def take_map drop_map nat_less_iff)

text \<open>The decoding of a reordering command: idc 1 adds to the predicted number, 0 subtracts.\<close>

definition reorder_target :: "int \<Rightarrow> int \<times> int \<Rightarrow> int" where
  "reorder_target num = (\<lambda>(idc, arg). if idc = 1 then num + (arg + 1) else num - (arg + 1))"

lemma reorder_command_target:
  "reorder_target num (reorder_command (2 ^ n - 1) num ref) mod 2 ^ n = ref mod 2 ^ n"
proof -
  have m: "x AND (2 ^ n - 1) = x mod 2 ^ n" for x :: int
    by (simp add: take_bit_eq_mask [symmetric] mask_eq_exp_minus_1 [symmetric] take_bit_eq_mod)
  let ?d = "ref mod 2 ^ n - num mod 2 ^ n"
  have add: "(num + ?d) mod 2 ^ n = ref mod 2 ^ n"
    by (metis add.commute diff_add_cancel mod_add_right_eq mod_diff_eq)
  show ?thesis
  proof (cases "?d > 0")
    case True
    have "?d \<le> 2 ^ n - 1" by (smt (verit) pos_mod_bound pos_mod_sign zero_less_power)
    then have "(?d - 1) mod 2 ^ n = ?d - 1" using True by (intro mod_pos_pos_trivial) simp_all
    then have "reorder_target num (reorder_command (2 ^ n - 1) num ref) = num + ?d"
      using True by (simp add: reorder_target_def reorder_command_def m)
    then show ?thesis using add by simp
  next
    case False
    then have r: "reorder_target num (reorder_command (2 ^ n - 1) num ref) = num - ((- ?d - 1) mod 2 ^ n + 1)"
      by (simp add: reorder_target_def reorder_command_def m)
    have "(num - ((- ?d - 1) mod 2 ^ n + 1)) mod 2 ^ n = (num - ((- ?d - 1) + 1)) mod 2 ^ n"
      by (metis mod_add_left_eq mod_diff_right_eq)
    moreover have "num - ((- ?d - 1) + 1) = num + ?d" by simp
    ultimately show ?thesis unfolding r using add by (simp only:)
  qed
qed

text \<open>The state after a picture has been kept.\<close>

lemma next_between:
  assumes c: "coding m xs ys k F d" "m \<le> n + 1" "counters r cnt (cnt - idr) idr d" "numbered k cnt (cnt - idr) (2 * (cnt - idr)) d"
    and fine: "\<forall>i \<in> set xs. frame_fine idr cnt (F i)" and srt: "sorted_wrt (<) (map (\<lambda>i. fr_frame_cnt (F i)) xs)"
    and idr: "0 \<le> idr" "idr \<le> cnt"
    and u: "pool m (window n (xs @ [k])) ys' e" "length (window n (xs @ [k])) + length ys' = m"
      "e = d\<lparr>reference := reference e, unused := unused e, frame_buf := frame_buf e\<rparr>"
      "\<forall>i \<in> set (window n (xs @ [k])). frame_buf e ! i = frame_buf d ! i"
  defines "e' \<equiv> e\<lparr>i_frame_cnt := i_frame_cnt e + 1, i_frame_num := i_frame_num e + 1\<rparr>"
  shows "between n (window n (xs @ [k])) ys' e'" and "ref_counts e' = window n (map (\<lambda>i. fr_frame_cnt (F i)) xs @ [cnt])"
proof -
  let ?w = "window n (xs @ [k])"
  have d: "i_frame_cnt e = cnt" "i_frame_num e = cnt - idr" "i_last_idr e = idr" "arrays_ok e"
    using c(1,3) by (subst u(3), simp add: counters_def coding_def arrays_ok_def)+
  have k: "frame_fine idr (cnt + 1) (frame_buf d ! k)" "fr_frame_cnt (frame_buf d ! k) = cnt"
    using c(1,4) idr by (simp_all add: coding_def numbered_def frame_fine_def)
  have xs: "\<forall>i \<in> set xs. frame_buf d ! i = F i" using c(1) by (simp add: coding_def)
  have "map (\<lambda>i. fr_frame_cnt (frame_buf e ! i)) ?w = map (\<lambda>i. fr_frame_cnt (frame_buf d ! i)) ?w" using u(4) by simp
  also have "\<dots> = window n (map (\<lambda>i. fr_frame_cnt (F i)) xs @ [cnt])" unfolding window_simps(5) using xs k(2) by (simp cong: map_cong)
  finally have w: "map (\<lambda>i. fr_frame_cnt (frame_buf e ! i)) ?w = window n (map (\<lambda>i. fr_frame_cnt (F i)) xs @ [cnt])" .
  have "sorted_wrt (<) (map (\<lambda>i. fr_frame_cnt (F i)) xs @ [cnt])"
    using srt fine by (simp add: sorted_wrt_append frame_fine_def)
  then have s: "sorted_wrt (<) (map (\<lambda>i. fr_frame_cnt (frame_buf e ! i)) ?w)"
    unfolding w unfolding window_def by (rule sorted_wrt_drop)
  have "frame_fine idr (cnt + 1) (frame_buf e ! i)" if "i \<in> set ?w" for i
  proof -
    have "i \<in> set xs \<or> i = k" using that window_simps(4) [of n "xs @ [k]"] by auto
    then show ?thesis using u(4) that fine xs k by (auto simp: frame_fine_def)
  qed
  then have fo: "frames_ok ?w e'" using s d by (simp add: frames_ok_def e'_def)
  have "pool (length ?w + length ys') ?w ys' e'" using u(1) unfolding u(2) by (simp add: pool_def e'_def)
  moreover have "length ?w \<le> n" by (simp only: window_simps(3))
  ultimately show "between n ?w ys' e'" using fo d idr u(2) c(2) by (simp add: between_def e'_def arrays_ok_def)
  show "ref_counts e' = window n (map (\<lambda>i. fr_frame_cnt (F i)) xs @ [cnt])"
    using ref_counts_narr [of e' 17 ?w] u(1) w by (simp add: pool_def e'_def)
qed

text \<open>The list of the picture in terms of picture counts, and what its reordering command names.\<close>

definition list0_as_configured :: "h264e_ref_param \<Rightarrow> h264e_sps \<Rightarrow> int list \<Rightarrow> int \<Rightarrow> int \<Rightarrow> rkv_dpb \<Rightarrow> bool" where
  "list0_as_configured cfg sps refs cnt idr d \<longleftrightarrow>
     list0_counts d = take (nat (i_frame_reference cfg)) (moved_first cfg (rev refs))
     \<and> (if reorders cfg (length refs)
        then reordering0 d = 1 \<and> reorder_target (cnt - idr) (ref_pic_list_order0 d ! 0) mod 2 ^ nat (i_log2_max_frame_num sps)
          = (hd (list0_counts d) - idr) mod 2 ^ nat (i_log2_max_frame_num sps)
        else reordering0 d = 0)"

lemma coded_list0:
  assumes b: "built cfg cur F xs d" and cfg: "plain_ref cfg" "i_frame_packing cfg \<noteq> 5" and len: "length xs < 17"
    and fine: "\<forall>i \<in> set xs. frame_fine idr cnt (F i)" and srt: "sorted_wrt (<) (map (\<lambda>i. fr_frame_cnt (F i)) xs)"
    and cur: "fr_frame_cnt cur = cnt" and same: "\<forall>i \<in> set xs. fr_frame_cnt (frame_buf d ! i) = fr_frame_cnt (F i)"
    and ord: "reordering0 d \<noteq> 0 \<Longrightarrow>
      ref_pic_list_order0 d ! 0 = reorder_command (order_mask sps) (cnt - idr) (fr_frame_num (F (the (fref0 d ! 0))))"
  shows "list0_as_configured cfg sps (map (\<lambda>i. fr_frame_cnt (F i)) xs) cnt idr d"
proof -
  let ?R = "nat (i_frame_reference cfg)" and ?l = "moved_first cfg (rev xs)"
  have x: "0 \<le> i_ref_pos cfg" "1 \<le> i_frame_reference cfg" using cfg(1) by (auto simp: plain_ref_def)
  have "\<forall>i \<in> set xs. fr_frame_cnt (F i) < fr_frame_cnt cur" using fine cur by (simp add: frame_fine_def)
  then have t: "take (i_ref0 d) (fref0 d) = map Some (take ?R ?l)" "reordering0 d = of_bool (reorders cfg (length xs))"
    "i_ref0 d = min (length xs) ?R"
    using built_counts [OF b cfg len srt] by simp_all
  have "mset ?l = mset xs" using x(1) by simp
  then have sl: "set ?l = set xs" "length ?l = length xs" by (metis set_mset_mset, metis size_mset)
  have l1: "list0_counts d = map (\<lambda>i. fr_frame_cnt (F i)) (take ?R ?l)"
    using t(1) same sl(1) by (auto simp: list0_counts_def dest: in_set_takeD)
  have l0: "list0_counts d = take ?R (moved_first cfg (rev (map (\<lambda>i. fr_frame_cnt (F i)) xs)))"
    unfolding l1 using x(1) by (simp add: take_map rev_map flip: map_moved_first)
  show ?thesis
  proof (cases "reorders cfg (length xs)")
    case True
    then have "0 < length ?l" unfolding sl(2) using x by (cases xs) (auto simp: reorders_def)
    then obtain j js where l: "?l = j # js" by (cases ?l) auto
    obtain R where R: "?R = Suc R" using x(2) by (cases ?R) simp_all
    have "take (i_ref0 d) (fref0 d) = Some j # map Some (take R js)" using t(1) by (simp add: l R)
    moreover from this have "0 < i_ref0 d" by (cases "i_ref0 d") simp_all
    ultimately have "fref0 d ! 0 = Some j" by (metis nth_Cons_0 nth_take)
    moreover have "fr_frame_num (F j) = fr_frame_cnt (F j) - idr" using fine sl(1) l by (auto simp: frame_fine_def)
    ultimately have "ref_pic_list_order0 d ! 0 = reorder_command (order_mask sps) (cnt - idr) (hd (list0_counts d) - idr)"
      using ord t(2) True l1 by (simp add: l R)
    then show ?thesis using l0 t(2) True by (simp add: list0_as_configured_def order_mask_def reorder_command_target)
  qed (use l0 t(2) in \<open>simp add: list0_as_configured_def\<close>)
qed

text \<open>One picture: it is coded, and leaves a state of the same kind.\<close>

lemma gen_frame_step:
  assumes b: "between n xs ys d" and cfg: "plain_ref cfg" and c: "c \<in> {1, 2, 3, 4}"
    and n: "i_num_ref_frames sps = int n" "n \<le> 15"
  defines "xs' \<equiv> if c = 1 then [] else xs" and "idr \<equiv> if c = 1 then i_frame_cnt d else i_last_idr d"
  shows "\<exists>ys' k d'. rkv_gen_frame sps c (cfg, d) = Some (cfg, d') \<and> between n (window n (xs' @ [k])) ys' d'
    \<and> fdec d' = Some k \<and> k \<le> n \<and> k \<notin> set xs' \<and> i_frame_cnt d' = i_frame_cnt d + 1 \<and> i_last_idr d' = idr
    \<and> deref d' (Some k) \<noteq> None \<and> fr_poc (frame_buf d' ! k) = 2 * (i_frame_cnt d - idr) \<and> i_nal_ref_idc d' \<noteq> 0
    \<and> ref_counts d' = window n ((if c = 1 then [] else ref_counts d) @ [i_frame_cnt d])
    \<and> (c \<notin> {1, 2} \<longrightarrow> i_frame_packing cfg \<noteq> 5 \<longrightarrow> list0_as_configured cfg sps (ref_counts d) (i_frame_cnt d) idr d')"
proof -
  let ?F = "\<lambda>i. frame_buf d ! i" and ?cnt = "i_frame_cnt d"
  note b' = b [unfolded between_def]
  from frame_set_step [OF b cfg n(2) c, of sps, folded xs'_def idr_def] obtain m ys1 k d1 where
    s: "h264e_rkv_reference_frame_set cfg sps c d = Some (MPP_OK, cfg, d1)" "coding m xs' ys1 k ?F d1" "m \<le> n + 1"
      "counters (i_frame_reference cfg) ?cnt (?cnt - idr) idr d1" "numbered k ?cnt (?cnt - idr) (2 * (?cnt - idr)) d1"
      "b_kept_as_ref (frame_buf d1 ! k) = 1" "i_nal_ref_idc d1 \<noteq> 0" "i_mmco_command_count d1 = 0"
      "c \<notin> {1, 2} \<longrightarrow> built cfg (frame_buf d1 ! k) ?F xs' d1 \<and> (reordering0 d1 \<noteq> 0 \<longrightarrow>
        ref_pic_list_order0 d1 ! 0 = reorder_command (order_mask sps) (?cnt - idr) (fr_frame_num (?F (the (fref0 d1 ! 0)))))"
    by blast
  have "length xs' \<le> n" using b' by (simp add: xs'_def)
  from update_step [OF s(2) cfg s(6,8) n this] obtain ys' d2 where
    u: "h264e_rkv_reference_frame_update cfg sps d1 = Some (MPP_OK, d2)" "pool m (window n (xs' @ [k])) ys' d2"
      "length (window n (xs' @ [k])) + length ys' = m"
      "d2 = d1\<lparr>reference := reference d2, unused := unused d2, frame_buf := frame_buf d2\<rparr>"
      "\<forall>i \<in> set (window n (xs' @ [k])). frame_buf d2 ! i = frame_buf d1 ! i"
      "\<forall>i < 17. frame_buf d2 ! i = frame_buf d1 ! i \<or> frame_buf d2 ! i = unref (frame_buf d1 ! i)" by blast
  have same: "fdec d2 = fdec d1" "fref0 d2 = fref0 d1" "ref_pic_list_order0 d2 = ref_pic_list_order0 d1" "i_frame_cnt d2 = i_frame_cnt d1"
    "i_ref0 d2 = i_ref0 d1" "i_nal_ref_idc d2 = i_nal_ref_idc d1" "reordering0 d2 = reordering0 d1" "i_last_idr d2 = i_last_idr d1"
    by (subst u(4), simp)+
  let ?d' = "d2\<lparr>i_frame_cnt := i_frame_cnt d2 + 1, i_frame_num := i_frame_num d2 + 1\<rparr>"
  have new: "k \<notin> set xs'" using s(2) by (simp add: coding_def)
  have c1: "k < m" "length (frame_buf d1) = 17" "length (fref0 d1) = 17" "fdec d1 = Some k" "k < 17"
    "\<forall>i \<in> set xs'. frame_buf d1 ! i = ?F i \<and> i < 17" using s(2) by (auto simp: coding_def pool_def)
  have "rd (fref0 d1) 0 = Some (fref0 d1 ! 0)" using c1(3) by (simp only: rd_def) simp
  then have gen: "rkv_gen_frame sps c (cfg, d) = Some (cfg, ?d')"
    using s(1,7) u(1) same(6) c1 by (simp add: rkv_gen_frame_def deref_Some)
  have fine: "\<forall>i \<in> set xs'. frame_fine idr ?cnt (?F i)" "sorted_wrt (<) (map (\<lambda>i. fr_frame_cnt (?F i)) xs')" "0 \<le> idr" "idr \<le> ?cnt"
    using b' by (auto simp: frames_ok_def xs'_def idr_def)
  note nb = next_between [OF s(2-5) fine u(2-5)]
  have refs: "map (\<lambda>i. fr_frame_cnt (?F i)) xs' = (if c = 1 then [] else ref_counts d)"
    using ref_counts_narr [of d 17 xs] b' by (simp add: xs'_def pool_def)
  have l0: "list0_as_configured cfg sps (ref_counts d) ?cnt idr ?d'" if cc: "c \<notin> {1, 2}" "i_frame_packing cfg \<noteq> 5"
  proof -
    have "built cfg (frame_buf d1 ! k) ?F xs' ?d'" using s(9) cc(1) same by (simp add: built_def)
    moreover have "\<forall>i \<in> set xs'. fr_frame_cnt (frame_buf ?d' ! i) = fr_frame_cnt (?F i)"
      using u(6) c1(6) by (auto simp: unref_def)
    ultimately have "list0_as_configured cfg sps (map (\<lambda>i. fr_frame_cnt (?F i)) xs') ?cnt idr ?d'"
      using coded_list0 [OF _ cfg cc(2) _ fine(1,2), of "frame_buf d1 ! k" ?d' sps] s(2,5,9) cc(1) same
      by (simp add: numbered_def coding_def)
    then show ?thesis using refs cc(1) by simp
  qed
  have "i_frame_cnt ?d' = ?cnt + 1" "i_last_idr ?d' = idr" using s(4) same by (simp_all add: counters_def)
  moreover have "fr_poc (frame_buf ?d' ! k) = 2 * (?cnt - idr)" "i_nal_ref_idc ?d' \<noteq> 0"
    using u(6) c1(5) s(5,7) same(6) by (auto simp: numbered_def unref_def)
  moreover have "length (frame_buf ?d') = 17" using u(2) by (simp add: pool_def)
  then have "deref ?d' (Some k) \<noteq> None" using c1(5) by (simp add: deref_def rd_def)
  ultimately show ?thesis using gen nb new c1(1,4) s(3) same(1) refs l0 by (intro exI [of _ ?d'] exI conjI) auto
qed

section \<open>Properties\<close>

text \<open>A run of the encoder over the coding types of its pictures.\<close>

fun rkv_gen_frames :: "h264e_sps \<Rightarrow> int list \<Rightarrow> h264e_ref_param \<times> rkv_dpb \<Rightarrow> (h264e_ref_param \<times> rkv_dpb) option" where
  "rkv_gen_frames sps [] s = Some s"
| "rkv_gen_frames sps (c # cs) s = do { s \<leftarrow> rkv_gen_frame sps c s; rkv_gen_frames sps cs s }"

lemma rkv_gen_frames_append:
  "rkv_gen_frames sps (cs @ cs') s = do { s \<leftarrow> rkv_gen_frames sps cs s; rkv_gen_frames sps cs' s }"
proof (induction cs arbitrary: s)
  case (Cons a cs)
  then show ?case by (cases "rkv_gen_frame sps a s") simp_all
qed simp

text \<open>The number of the last IDR picture of a sequence, 0 when there is none.\<close>

definition last_idr :: "int list \<Rightarrow> nat" where
  "last_idr cs = length cs - Suc (length (takeWhile (\<lambda>c. c \<noteq> 1) (rev cs)))"

lemma last_idr_snoc: "last_idr (cs @ [c]) = (if c = 1 then length cs else last_idr cs)"
  by (simp add: last_idr_def)

lemma last_idr_le: "last_idr cs \<le> length cs"
  by (simp add: last_idr_def)

lemma window_snoc: "window n (window n l @ [x]) = window n (l @ [x])"
proof -
  have "drop (length (drop (length l - n) l @ [x]) - n) (drop (length l - n) l @ [x]) = drop (length (l @ [x]) - n) (l @ [x])"
    by (cases "length l \<le> n"; cases n) (auto simp: drop_append Suc_diff_Suc)
  then show ?thesis by (simp only: window_def)
qed

text \<open>The frames since the last IDR picture; the last \<open>n\<close> of them are kept.\<close>

definition kept_pictures :: "nat \<Rightarrow> int list \<Rightarrow> int list" where
  "kept_pictures n cs = window n (map int [last_idr cs..<length cs])"

lemma kept_pictures_snoc:
  "kept_pictures n (cs @ [c]) = window n ((if c = 1 then [] else kept_pictures n cs) @ [int (length cs)])"
  using last_idr_le [of cs] by (simp add: kept_pictures_def last_idr_snoc window_snoc upt_Suc)

lemma run_between:
  assumes cfg: "plain_ref cfg" and n: "i_num_ref_frames sps = int n" "n \<le> 15" and cs: "set cs \<subseteq> {1, 2, 3, 4}"
  shows "\<exists>d xs ys. rkv_gen_frames sps cs (cfg, h264e_rkv_reference_init cfg) = Some (cfg, d) \<and> between n xs ys d
    \<and> i_frame_cnt d = int (length cs) \<and> i_last_idr d = int (last_idr cs) \<and> ref_counts d = kept_pictures n cs"
  using cs
proof (induction cs rule: rev_induct)
  case Nil
  have "ref_counts (h264e_rkv_reference_init cfg) = []"
    by (simp add: ref_counts_def h264e_rkv_reference_init_def takeWhile_eq_Nil_iff hd_replicate)
  then show ?case using init_between [of n cfg]
    by (intro exI [of _ "h264e_rkv_reference_init cfg"] exI [of _ "[]"])
      (simp add: kept_pictures_def last_idr_def window_def, simp add: h264e_rkv_reference_init_def)
next
  case (snoc c cs)
  then obtain d xs ys where d: "rkv_gen_frames sps cs (cfg, h264e_rkv_reference_init cfg) = Some (cfg, d)" "between n xs ys d"
    "i_frame_cnt d = int (length cs)" "i_last_idr d = int (last_idr cs)" "ref_counts d = kept_pictures n cs" by auto
  from gen_frame_step [OF d(2) cfg _ n, of c] snoc.prems obtain ys' k d' where
    "rkv_gen_frame sps c (cfg, d) = Some (cfg, d')" "between n (window n ((if c = 1 then [] else xs) @ [k])) ys' d'"
    "i_frame_cnt d' = i_frame_cnt d + 1" "i_last_idr d' = (if c = 1 then i_frame_cnt d else i_last_idr d)"
    "ref_counts d' = window n ((if c = 1 then [] else ref_counts d) @ [i_frame_cnt d])" by auto
  then show ?case using d
    by (intro exI [of _ d'] exI conjI) (simp_all add: rkv_gen_frames_append last_idr_snoc kept_pictures_snoc)
qed

text \<open>
  C4: the reference management refines a sliding window. For every sequence of IDR, I, P and kept B
  pictures and at most 15 reference frames the encoder codes every picture (it neither runs out of
  frames nor leaves an array or follows a NULL pointer), and its references are then exactly the
  last \<open>n\<close> pictures since the last IDR picture.
\<close>

theorem rkv_references_window:
  assumes "plain_ref cfg" and "i_num_ref_frames sps = int n" and "n \<le> 15" and "set cs \<subseteq> {1, 2, 3, 4}"
  shows "\<exists>d. rkv_gen_frames sps cs (cfg, h264e_rkv_reference_init cfg) = Some (cfg, d) \<and> ref_counts d = kept_pictures n cs"
  using run_between [OF assms] by blast

definition refs_sps :: "nat \<Rightarrow> h264e_sps" where
  "refs_sps n = demo_sps\<lparr>i_num_ref_frames := int n, i_log2_max_frame_num := 16\<rparr>"

theorem rkv_references_window_witness:
  "\<exists>d. rkv_gen_frames (refs_sps 2) [1, 3, 3, 3] (h264e_set_ref, h264e_rkv_reference_init h264e_set_ref) = Some (h264e_set_ref, d)
    \<and> ref_counts d = [2, 3]"
proof -
  have "kept_pictures 2 [1, 3, 3, 3] = [2, 3]" by code_simp
  then show ?thesis
    using rkv_references_window [of h264e_set_ref "refs_sps 2" 2 "[1, 3, 3, 3]"]
    by (simp add: refs_sps_def plain_ref_def h264e_set_ref_def)
qed

lemma rec_bufs: "k < 17 \<Longrightarrow> allocate_rec_bufs buf ! k = (if k \<le> 1 then Some (buf k) else None)"
  by (cases k) (auto simp: allocate_rec_bufs_def nth_list_update)

text \<open>The frames of three pictures in a row, the first of them an IDR picture.\<close>

lemma three_frames:
  assumes "plain_ref cfg" and "i_num_ref_frames sps = int n" and "2 \<le> n" and "n \<le> 15"
  obtains k1 k2 k3 d1 d2 d3 where "distinct [k1, k2, k3]" and "k1 \<le> n" and "k2 \<le> n" and "k3 \<le> n"
    and "rkv_gen_frames sps [1] (cfg, h264e_rkv_reference_init cfg) = Some (cfg, d1)" and "fdec d1 = Some k1"
    and "rkv_gen_frames sps [1, 3] (cfg, h264e_rkv_reference_init cfg) = Some (cfg, d2)" and "fdec d2 = Some k2"
    and "rkv_gen_frames sps [1, 3, 3] (cfg, h264e_rkv_reference_init cfg) = Some (cfg, d3)" and "fdec d3 = Some k3"
proof -
  note step = gen_frame_step [OF _ assms(1) _ assms(2,4)]
  from step [OF init_between, of 1 cfg] obtain ys1 k1 d1 where
    1: "rkv_gen_frame sps 1 (cfg, h264e_rkv_reference_init cfg) = Some (cfg, d1)" "between n (window n [k1]) ys1 d1"
      "fdec d1 = Some k1" "k1 \<le> n" by auto
  have w: "window n [k1] = [k1]" "window n [k1, k] = [k1, k]" for k using assms(3) by (simp_all add: window_def)
  from step [OF 1(2), of 3] obtain ys2 k2 d2 where
    2: "rkv_gen_frame sps 3 (cfg, d1) = Some (cfg, d2)" "between n [k1, k2] ys2 d2" "fdec d2 = Some k2" "k2 \<le> n" "k2 \<noteq> k1"
    by (auto simp: w)
  from step [OF 2(2), of 3] obtain k3 d3 where
    3: "rkv_gen_frame sps 3 (cfg, d2) = Some (cfg, d3)" "fdec d3 = Some k3" "k3 \<le> n" "k3 \<notin> {k1, k2}" by auto
  show thesis by (rule that [of k1 k2 k3 d1 d2 d3]) (use 1 2 3 in auto)
qed

text \<open>
  C14: when every picture has a buffer. Over all sequences of IDR, I, P and kept B pictures the frame in which
  a picture is reconstructed has one of the buffers that \<open>h264e_rkv_allocate_buffers\<close> allocated exactly when the
  stream has at most one reference frame; with two or more, some picture gets a frame without a buffer.
\<close>

theorem rkv_pictures_have_buffers:
  assumes "plain_ref cfg" and "i_num_ref_frames sps = int n" and "n \<le> 15"
  shows "(\<forall>cs. cs \<noteq> [] \<and> set cs \<subseteq> {1, 2, 3, 4} \<longrightarrow>
      (\<exists>d b. rkv_gen_frames sps cs (cfg, h264e_rkv_reference_init cfg) = Some (cfg, d)
        \<and> rfpw_buf (allocate_rec_bufs buf) d = Some b)) \<longleftrightarrow> n \<le> 1"
    (is "?all \<longleftrightarrow> _")
proof
  assume n: "n \<le> 1"
  show ?all
  proof (intro allI impI, elim conjE)
    fix cs :: "int list"
    assume c: "cs \<noteq> []" "set cs \<subseteq> {1, 2, 3, 4}"
    obtain bs c where cs: "cs = bs @ [c]" using c(1) by (cases cs rule: rev_cases) auto
    from run_between [OF assms, of bs] c(2) obtain e xs ys where
      e: "rkv_gen_frames sps bs (cfg, h264e_rkv_reference_init cfg) = Some (cfg, e)" "between n xs ys e" by (auto simp: cs)
    from gen_frame_step [OF e(2) assms(1) _ assms(2,3), of c] c(2) obtain k d where
      "rkv_gen_frame sps c (cfg, e) = Some (cfg, d)" "fdec d = Some k" "k \<le> n" by (auto simp: cs)
    then show "\<exists>d b. rkv_gen_frames sps cs (cfg, h264e_rkv_reference_init cfg) = Some (cfg, d)
        \<and> rfpw_buf (allocate_rec_bufs buf) d = Some b"
      using e(1) n by (auto simp: cs rkv_gen_frames_append rfpw_buf_def rec_bufs)
  qed
next
  assume all: ?all
  show "n \<le> 1"
  proof (rule ccontr)
    assume "\<not> n \<le> 1"
    then obtain k1 k2 k3 d1 d2 d3 where k: "distinct [k1, k2, k3]" "k1 \<le> n" "k2 \<le> n" "k3 \<le> n"
      "rkv_gen_frames sps [1] (cfg, h264e_rkv_reference_init cfg) = Some (cfg, d1)" "fdec d1 = Some k1"
      "rkv_gen_frames sps [1, 3] (cfg, h264e_rkv_reference_init cfg) = Some (cfg, d2)" "fdec d2 = Some k2"
      "rkv_gen_frames sps [1, 3, 3] (cfg, h264e_rkv_reference_init cfg) = Some (cfg, d3)" "fdec d3 = Some k3"
      using three_frames [OF assms(1,2) _ assms(3)] not_less_eq_eq [of n 1] by (metis Suc_1)
    have "k1 \<le> 1" using all [rule_format, of "[1]"] k(2,5,6) assms(3) by (auto simp: rfpw_buf_def rec_bufs split: if_splits)
    moreover have "k2 \<le> 1" using all [rule_format, of "[1, 3]"] k(3,7,8) assms(3) by (auto simp: rfpw_buf_def rec_bufs split: if_splits)
    moreover have "k3 \<le> 1" using all [rule_format, of "[1, 3, 3]"] k(4,9,10) assms(3) by (auto simp: rfpw_buf_def rec_bufs split: if_splits)
    ultimately show False using k(1) by auto
  qed
qed

theorem rkv_pictures_have_buffers_witness:
  "(\<exists>d b. rkv_gen_frames (refs_sps 1) [1, 3] (h264e_set_ref, h264e_rkv_reference_init h264e_set_ref) = Some (h264e_set_ref, d)
      \<and> rfpw_buf (allocate_rec_bufs id) d = Some b)
    \<and> \<not> (\<forall>cs. cs \<noteq> [] \<and> set cs \<subseteq> {1, 2, 3, 4} \<longrightarrow>
      (\<exists>d b. rkv_gen_frames (refs_sps 2) cs (h264e_set_ref, h264e_rkv_reference_init h264e_set_ref) = Some (h264e_set_ref, d)
        \<and> rfpw_buf (allocate_rec_bufs id) d = Some b))"
proof -
  have p: "plain_ref h264e_set_ref" "i_num_ref_frames (refs_sps n) = int n" for n
    by (simp_all add: refs_sps_def plain_ref_def h264e_set_ref_def)
  have "\<exists>d b. rkv_gen_frames (refs_sps 1) cs (h264e_set_ref, h264e_rkv_reference_init h264e_set_ref) = Some (h264e_set_ref, d)
      \<and> rfpw_buf (allocate_rec_bufs id) d = Some b" if "cs \<noteq> [] \<and> set cs \<subseteq> {1, 2, 3, 4}" for cs
    using rkv_pictures_have_buffers [OF p, of 1 id] that by auto
  from this [of "[1, 3]"] show ?thesis using rkv_pictures_have_buffers [OF p, of 2 id] by simp
qed

text \<open>
  C12: the reference list of a P (or kept B) picture. Without long term references list 0 holds the
  references from the newest to the oldest, cut to the configured number, with the one at the
  configured position moved to the front; exactly when it was moved a reordering command is
  written, and a decoder that follows it, modulo the size of \<open>frame_num\<close>, arrives at the picture in
  front of the list.
\<close>

theorem rkv_list0:
  assumes "plain_ref cfg" and "i_frame_packing cfg \<noteq> 5" and "i_num_ref_frames sps = int n" and "n \<le> 15"
    and "set cs \<subseteq> {1, 2, 3, 4}" and "c \<in> {3, 4}"
  shows "\<exists>d. rkv_gen_frames sps (cs @ [c]) (cfg, h264e_rkv_reference_init cfg) = Some (cfg, d)
    \<and> list0_as_configured cfg sps (kept_pictures n cs) (int (length cs)) (int (last_idr cs)) d"
proof -
  from run_between [OF assms(1,3-5)] obtain d xs ys where
    d: "rkv_gen_frames sps cs (cfg, h264e_rkv_reference_init cfg) = Some (cfg, d)" "between n xs ys d"
      "i_frame_cnt d = int (length cs)" "i_last_idr d = int (last_idr cs)" "ref_counts d = kept_pictures n cs" by blast
  have c: "c \<in> {1, 2, 3, 4}" "c \<notin> {1, 2}" using assms(6) by auto
  from gen_frame_step [OF d(2) assms(1) c(1) assms(3,4)] c(2) assms(2) d show ?thesis
    by (auto simp: rkv_gen_frames_append)
qed

definition two_refs :: h264e_ref_param where
  "two_refs = h264e_set_ref\<lparr>i_frame_reference := 2\<rparr>"

theorem rkv_list0_witness:
  "\<exists>d. rkv_gen_frames (refs_sps 2) [1, 3, 3, 3] (two_refs, h264e_rkv_reference_init two_refs) = Some (two_refs, d)
    \<and> list0_counts d = [1, 2] \<and> reordering0 d = 1"
proof -
  have p: "plain_ref two_refs" "i_frame_packing two_refs \<noteq> 5" "i_num_ref_frames (refs_sps 2) = int 2" "set [1, 3, 3] \<subseteq> {1, 2, 3, 4 :: int}"
    by (simp_all add: refs_sps_def plain_ref_def two_refs_def h264e_set_ref_def)
  have k: "kept_pictures 2 [1, 3, 3] = [1, 2]" by code_simp
  have m: "take (nat (i_frame_reference two_refs)) (moved_first two_refs [2, 1]) = [1, 2 :: int]" "reorders two_refs (Suc (Suc 0))"
    by (simp_all add: moved_first_def reorders_def two_refs_def h264e_set_ref_def)
  from rkv_list0 [OF p(1-3) _ p(4), of 3] show ?thesis by (auto simp: k list0_as_configured_def m)
qed

text \<open>
  C32: the ordering loop of \<open>h264e_rkv_reference_build_list\<close>, which restarts after every exchange, ends
  for every list and distance, with the same references in the order of their distance.
\<close>

theorem order_refs_sorts:
  "mset (snd (order_refs dist poc near xs)) = mset xs \<and> sorted (map dist (snd (order_refs dist poc near xs)))"
  by (rule order_refs_result)

text \<open>
  C31: with 16 reference frames the pointer array has no room for its final NULL: keeping a picture
  when it already holds 16 references fills it, and the removal of the oldest one then runs past
  its end.
\<close>

theorem sixteen_references_overrun:
  assumes "reference d = narr 17 xs" and "length xs = 16" and "fdec d = Some k" and "k < length (frame_buf d)"
    and "b_kept_as_ref (frame_buf d ! k) \<noteq> 0" and "i_mmco_command_count d = 0" and "i_long_term_en cfg = 0" and "i_num_ref_frames sps = 16"
  shows "h264e_rkv_reference_update cfg sps d = None"
proof -
  have "h264e_rkv_frame_push (reference d) (fdec d) = Some (narr 17 (xs @ [k]))"
    using fl.push_law [of xs k] assms(1-3) by simp
  moreover have "rd (narr 17 (xs @ [k])) 16 = Some (Some k)"
    using rd_narr [of "xs @ [k]" 17 16] assms(2) by (simp add: nth_append)
  moreover have "shift_loop (narr 17 (xs @ [k])) = None" by (rule full_overrun) (simp_all add: assms(2))
  ultimately show ?thesis using assms
    by (simp add: h264e_rkv_reference_update_def deref_Some release_at_def h264e_rkv_frame_shift_def Let_def split: bind_splits)
qed

definition full_dpb :: rkv_dpb where
  "full_dpb = (h264e_rkv_reference_init h264e_set_ref)\<lparr>reference := narr 17 [0..<16], fdec := Some 16,
     frame_buf := replicate 17 (rkv_frame_zero\<lparr>hw_buf_used := 1, b_kept_as_ref := 1, i_reference_count := 1\<rparr>)\<rparr>"

theorem sixteen_references_overrun_witness:
  "h264e_rkv_reference_update h264e_set_ref (refs_sps 16) full_dpb = None"
  by (rule sixteen_references_overrun [of _ "[0..<16]" 16])
    (simp_all add: full_dpb_def refs_sps_def h264e_set_ref_def h264e_rkv_reference_init_def)

end
