(* ===== verification/H264dCtx.thy ===== *)
theory H264dCtx
  imports H264dPs
begin

text \<open>
  What the decoder keeps of a slice: \<open>H264_SLICE_t\<close>, the part of \<open>H264dVideoCtx_t\<close> that changes from
  picture to picture, and the arrays of \<open>H264dCurCtx_t\<close> the slice header is read into
  (mpp/codec/dec/h264/h264d_global.h). The members that only copy a field of the NAL unit header, and the
  lists of references, which belong to the picture buffer, are left out.
  A pointer to a parameter set is the place of the set in its array.
\<close>

datatype sps_ptr = Sps nat | SubSps nat

record h264_drpm =
  memory_management_control_operation :: int
  difference_of_pic_nums_minus1 :: int
  mm_long_term_pic_num :: int
  mm_long_term_frame_idx :: int
  max_long_term_frame_idx_plus1 :: int
  drpm_Next :: "nat option"

text \<open>
  \<open>sl_fault\<close> is the model's own: an access outside an array, or through \<open>NULL\<close>, has happened.
\<close>

record h264_slice =
  sl_idr_flag :: int
  sl_idr_pic_id :: int
  sl_nal_reference_idc :: int
  sl_start_mb_nr :: u32
  sl_slice_type :: int
  sl_pic_parameter_set_id :: int
  sl_frame_num :: int
  sl_field_pic_flag :: int
  sl_bottom_field_flag :: int
  sl_structure :: int
  sl_mb_aff_frame_flag :: int
  sl_pic_order_cnt_lsb :: int
  sl_delta_pic_order_cnt_bottom :: int
  sl_delta_pic_order_cnt :: "int list"
  sl_poc_used_bitlen :: u32
  sl_redundant_pic_cnt :: int
  sl_direct_spatial_mv_pred_flag :: int
  sl_num_ref_idx_active :: "int list"
  sl_num_ref_idx_override_flag :: int
  sl_ref_pic_list_reordering_flag :: "int list"
  sl_dec_ref_pic_marking_buffer :: "nat option"
  sl_drpm_used_bitlen :: u32
  sl_no_output_of_prior_pics_flag :: int
  sl_long_term_reference_flag :: int
  sl_adaptive_ref_pic_buffering_flag :: int
  sl_ThisPOC :: int
  sl_toppoc :: int
  sl_bottompoc :: int
  sl_framepoc :: int
  sl_AbsFrameNum :: u32
  sl_PicOrderCntMsb :: int
  sl_active_sps :: "sps_ptr option"
  sl_active_pps :: "nat option"
  sl_p_Dpb :: "nat option"
  sl_view_id :: int
  sl_inter_view_flag :: int
  sl_anchor_pic_flag :: int
  sl_fault :: bool

definition zero_slice :: h264_slice where
  "zero_slice = \<lparr>sl_idr_flag = 0, sl_idr_pic_id = 0, sl_nal_reference_idc = 0, sl_start_mb_nr = 0, sl_slice_type = 0,
     sl_pic_parameter_set_id = 0, sl_frame_num = 0, sl_field_pic_flag = 0, sl_bottom_field_flag = 0, sl_structure = 0,
     sl_mb_aff_frame_flag = 0, sl_pic_order_cnt_lsb = 0, sl_delta_pic_order_cnt_bottom = 0, sl_delta_pic_order_cnt = [0, 0],
     sl_poc_used_bitlen = 0, sl_redundant_pic_cnt = 0, sl_direct_spatial_mv_pred_flag = 0, sl_num_ref_idx_active = [0, 0],
     sl_num_ref_idx_override_flag = 0, sl_ref_pic_list_reordering_flag = [0, 0], sl_dec_ref_pic_marking_buffer = None,
     sl_drpm_used_bitlen = 0, sl_no_output_of_prior_pics_flag = 0, sl_long_term_reference_flag = 0,
     sl_adaptive_ref_pic_buffering_flag = 0, sl_ThisPOC = 0, sl_toppoc = 0, sl_bottompoc = 0, sl_framepoc = 0,
     sl_AbsFrameNum = 0, sl_PicOrderCntMsb = 0, sl_active_sps = None, sl_active_pps = None, sl_p_Dpb = None,
     sl_view_id = 0, sl_inter_view_flag = 0, sl_anchor_pic_flag = 0, sl_fault = False\<rparr>"

text \<open>
  \<open>vs_layer_size\<close> is the member \<open>size\<close> of the two picture buffers, \<open>vs_dec_pic\<close> tells whether \<open>dec_pic\<close> is set.
\<close>

record h264d_vid =
  vs_slice_type :: int
  vs_type :: int
  vs_structure :: int
  vs_no_output_of_prior_pics_flag :: int
  vs_active_sps :: "sps_ptr option"
  vs_active_subsps :: "nat option"
  vs_active_pps :: "nat option"
  vs_active_sps_id :: "int list"
  vs_active_mvc_sps_flag :: int
  vs_dec_pic :: bool
  vs_dpb_size :: "u32 list"
  vs_layer_size :: "u32 list"
  vs_last_has_mmco_5 :: int
  vs_last_pic_bottom_field :: int
  vs_PrevPicOrderCntMsb :: int
  vs_PrevPicOrderCntLsb :: int
  vs_PreviousFrameNum :: u32
  vs_FrameNumOffset :: u32
  vs_PreviousFrameNumOffset :: int
  vs_ExpectedDeltaPerPicOrderCntCycle :: int
  vs_ExpectedPicOrderCnt :: int
  vs_PicOrderCntCycleCnt :: int
  vs_FrameNumInPicOrderCntCycle :: int
  vs_ThisPOC :: int

definition zero_vid :: h264d_vid where
  "zero_vid = \<lparr>vs_slice_type = 0, vs_type = 0, vs_structure = 0, vs_no_output_of_prior_pics_flag = 0, vs_active_sps = None,
     vs_active_subsps = None, vs_active_pps = None, vs_active_sps_id = [0, 0], vs_active_mvc_sps_flag = 0, vs_dec_pic = False,
     vs_dpb_size = [0, 0], vs_layer_size = [0, 0], vs_last_has_mmco_5 = 0, vs_last_pic_bottom_field = 0,
     vs_PrevPicOrderCntMsb = 0, vs_PrevPicOrderCntLsb = 0, vs_PreviousFrameNum = 0, vs_FrameNumOffset = 0,
     vs_PreviousFrameNumOffset = 0, vs_ExpectedDeltaPerPicOrderCntCycle = 0, vs_ExpectedPicOrderCnt = 0,
     vs_PicOrderCntCycleCnt = 0, vs_FrameNumInPicOrderCntCycle = 0, vs_ThisPOC = 0\<rparr>"

text \<open>
  The arrays a slice header is read into, two rows of \<open>MAX_REORDER_TIMES\<close> and \<open>MAX_MARKING_TIMES\<close> commands.
\<close>

abbreviation (input) "MAX_REORDER_TIMES \<equiv> (17 :: nat)"
abbreviation (input) "MAX_MARKING_TIMES \<equiv> (35 :: nat)"

record h264d_curbuf =
  cb_modification_of_pic_nums_idc :: "int list list"
  cb_abs_diff_pic_num_minus1 :: "int list list"
  cb_long_term_pic_idx :: "int list list"
  cb_abs_diff_view_idx_minus1 :: "int list list"
  cb_dec_ref_pic_marking_buffer :: "h264_drpm list"

definition zero_curbuf :: h264d_curbuf where
  "zero_curbuf = (let z = replicate 2 (replicate MAX_REORDER_TIMES 0)
     in \<lparr>cb_modification_of_pic_nums_idc = z, cb_abs_diff_pic_num_minus1 = z, cb_long_term_pic_idx = z,
          cb_abs_diff_view_idx_minus1 = z, cb_dec_ref_pic_marking_buffer = replicate MAX_MARKING_TIMES
            \<lparr>memory_management_control_operation = 0, difference_of_pic_nums_minus1 = 0, mm_long_term_pic_num = 0,
              mm_long_term_frame_idx = 0, max_long_term_frame_idx_plus1 = 0, drpm_Next = None\<rparr>\<rparr>)"

definition sps_at :: "sps_ptr \<Rightarrow> h264d_video \<Rightarrow> h264_sps" where
  "sps_at p v = (case p of Sps i \<Rightarrow> vd_spsSet v ! i | SubSps i \<Rightarrow> ss_sps (vd_subspsSet v ! i))"

end
