(* ===== verification/H264dNal.thy ===== *)
theory H264dNal
  imports H264dCtx
begin

text \<open>
  From packets to NAL units to parameter sets: mpp/codec/dec/h264/h264d_parse.c and
  \<open>h264d_prepare\<close> of h264d_api.c. A packet is cut into units, at start codes or by the length fields
  of an avcC stream; each unit is stored behind a head in \<open>head_buf\<close>, slices also in \<open>bitstream\<close>, and
  \<open>parse_loop\<close> walks over the stored units of one frame.

  The records hold the fields of \<open>H264dCurStream_t\<close>, \<open>H264dInputCtx_t\<close>, \<open>H264_Nalu_t\<close>,
  \<open>H264dNaluMvcExt_t\<close> and of the contexts around them; \<open>d_slice\<close> is the parameter set state of
  \<open>H264dPs\<close>. \<open>None\<close> is undefined behaviour: an access outside a buffer, through NULL, or through
  a pointer that may not be freed. The debug output (\<open>H264D_DBG_WRITE_ES_EN\<close>) and the assertions, both off
  by default, are left out, and an allocation always succeeds. \<open>process_slice\<close>, \<open>init_picture\<close> and
  \<open>fill_slice_syntax\<close>, not modelled, are arguments of the loop that calls them.
\<close>

section \<open>The state\<close>

text \<open>\<open>nalu_buf\<close> is NULL, the allocated buffer, or points into the input packet (avcC).\<close>

datatype nalu_ptr = Null | Heap "u8 list" | Input "u8 list"

record h264d_strm =
  nalu_offset :: nat
  nalu_max_size :: nat
  st_nalu_type :: int
  nalu_len :: nat
  nalu_buf :: nalu_ptr
  head_offset :: nat
  head_max_size :: nat
  head_buf :: "u8 list"
  prefixdata :: u64
  startcode_found :: int
  endcode_found :: int

text \<open>The input, with the length of the packet it comes from (\<open>pkt_impl->length\<close>).\<close>

record h264d_inp =
  need_split :: int
  in_buf :: "u8 list"
  in_length :: nat
  pkt_impl_length :: nat
  pkt_eos :: int
  has_get_eos :: int
  in_pts :: int
  in_dts :: int
  mvc_disable :: u32
  task_valid :: int
  task_eos :: int
  is_nalff :: int
  in_profile :: u8
  in_level :: u8
  nal_size :: nat
  sps_num :: nat
  pps_num :: nat

record h264_nalu =
  sodb_buf :: "u8 list"
  sodb_len :: nat
  forbidden_bit :: int
  nalu_type :: int
  nal_reference_idc :: int
  ualu_header_bytes :: nat

record h264_nalu_mvc_ext =
  mvc_valid :: u32
  mvc_non_idr_flag :: u32
  mvc_priority_id :: u32
  mvc_view_id :: u32
  mvc_temporal_id :: u32
  mvc_anchor_pic_flag :: u32
  mvc_inter_view_flag :: u32
  mvc_reserved_one_bit :: u32
  mvc_iPrefixNALU :: u32

datatype nalu_status =
    NALU_NULL | StreamError | HaveNoStream | NaluNotSupport | ReadNaluError | StartofNalu
  | EndofStream | MvcDisAble | MidOfNalu | EndOfNalu | StartOfPicture | StartOfSlice | SkipNALU
  | NALU_SPS | NALU_SubSPS | NALU_PPS | NALU_SEI

datatype slice_status =
    SliceSTATE_NULL | SliceSTATE_IDLE | SliceSTATE_ResetSlice | SliceSTATE_ReadNalu
  | SliceSTATE_ParseNalu | SliceSTATE_InitPicture | SliceSTATE_GetSliceData
  | SliceSTATE_RegisterOneFrame | SliceSTATE_Error

record h264d_dec =
  d_inp :: h264d_inp
  d_strm :: h264d_strm
  d_slice :: h264d_slice
  d_nalu :: h264_nalu
  d_mvcExt :: h264_nalu_mvc_ext
  svc_extension_flag :: int
  layer_id :: int
  bitstream :: "u8 list"
  max_strm_size :: nat
  strm_offset :: nat
  slice_count :: nat
  committed :: "(nat \<times> nat) option"
  last_pts :: int
  last_dts :: int
  curr_pts :: int
  curr_dts :: int
  nalu_ret :: nalu_status
  next_state :: slice_status
  have_slice_data :: int
  is_new_frame :: int
  is_parser_end :: int
  dec_mvc_valid :: int
  d_sl :: h264_slice
  d_vs :: h264d_vid
  d_cur :: h264d_curbuf
  err_used_ref_flag :: int
  err_dpb_err_flag :: int
  iNumOfSlicesDecoded :: int
  exit_picture_flag :: int

text \<open>
  The stream record after \<open>init_cur_ctx\<close>, with what the allocated memory happens to hold.
\<close>

definition init_cur_strm :: "u8 list \<Rightarrow> u8 list \<Rightarrow> h264d_strm" where
  "init_cur_strm m h =
    \<lparr>nalu_offset = 0, nalu_max_size = 2 * 1024 * 1024, st_nalu_type = 0, nalu_len = 0, nalu_buf = Heap m,
     head_offset = 0, head_max_size = 1024 * 1024, head_buf = h, prefixdata = 0xffffffff,
     startcode_found = 0, endcode_found = 0\<rparr>"

abbreviation (input) upd_strm :: "(h264d_strm \<Rightarrow> h264d_strm) \<Rightarrow> h264d_dec \<Rightarrow> h264d_dec" where
  "upd_strm \<equiv> d_strm_update"

abbreviation (input) upd_inp :: "(h264d_inp \<Rightarrow> h264d_inp) \<Rightarrow> h264d_dec \<Rightarrow> h264d_dec" where
  "upd_inp \<equiv> d_inp_update"

text \<open>The values of \<open>Nalu_type\<close> (mpp/common/h264_syntax.h).\<close>

abbreviation (input) "NALU_TYPE_SLICE \<equiv> (1 :: int)"
abbreviation (input) "NALU_TYPE_DPA \<equiv> (2 :: int)"
abbreviation (input) "NALU_TYPE_DPC \<equiv> (4 :: int)"
abbreviation (input) "NALU_TYPE_IDR \<equiv> (5 :: int)"
abbreviation (input) "NALU_TYPE_SEI \<equiv> (6 :: int)"
abbreviation (input) "NALU_TYPE_SPS \<equiv> (7 :: int)"
abbreviation (input) "NALU_TYPE_PPS \<equiv> (8 :: int)"
abbreviation (input) "NALU_TYPE_AUD \<equiv> (9 :: int)"
abbreviation (input) "NALU_TYPE_PREFIX \<equiv> (14 :: int)"
abbreviation (input) "NALU_TYPE_SUB_SPS \<equiv> (15 :: int)"
abbreviation (input) "NALU_TYPE_SLC_EXT \<equiv> (20 :: int)"

section \<open>Buffers and heads\<close>

definition U16_AT :: "u8 list \<Rightarrow> nat \<Rightarrow> nat option" where
  "U16_AT m p = (if p + 2 \<le> length m then Some (256 * unat (m ! p) + unat (m ! (p + 1))) else None)"

definition U32_AT :: "u8 list \<Rightarrow> nat \<Rightarrow> nat option" where
  "U32_AT m p =
    (if p + 4 \<le> length m
     then Some (2 ^ 24 * unat (m ! p) + 2 ^ 16 * unat (m ! (p + 1)) + 256 * unat (m ! (p + 2)) + unat (m ! (p + 3)))
     else None)"

definition parse_nal_size :: "nat \<Rightarrow> u8 list \<Rightarrow> nat \<Rightarrow> nat option" where
  "parse_nal_size n m p =
    (if n = 1 then if p < length m then Some (unat (m ! p)) else None
     else if n = 2 then U16_AT m p
     else if n = 3 then map_option (\<lambda>low. 2 ^ 16 * unat (m ! p) + low) (U16_AT m (p + 1))
     else if n = 4 then U32_AT m p
     else Some 0)"

definition MPP_ALIGN :: "nat \<Rightarrow> nat \<Rightarrow> nat" where
  "MPP_ALIGN x a = (x + (a - 1)) div a * a"

text \<open>The memory \<open>mpp_realloc\<close> adds is zero here; none of it is read before it is written.\<close>

definition realloc_buffer :: "u8 list option \<Rightarrow> nat \<Rightarrow> nat \<Rightarrow> mpp_ret \<times> u8 list option \<times> nat" where
  "realloc_buffer buf max_size add_size =
    (case buf of
       None \<Rightarrow> (MPP_ERR_MALLOC, None, max_size)
     | Some m \<Rightarrow> let add_size = MPP_ALIGN add_size 16
                in (MPP_OK, Some (m @ replicate add_size 0), max_size + add_size))"

text \<open>\<open>H264dNaluHead_t\<close> in memory, little endian, eight bytes.\<close>

definition nalu_head :: "u16 \<Rightarrow> u16 \<Rightarrow> u32 \<Rightarrow> u8 list" where
  "nalu_head is_frame_end ty len =
    [ucast is_frame_end, ucast (drop_bit 8 is_frame_end), ucast ty, ucast (drop_bit 8 ty),
     ucast len, ucast (drop_bit 8 len), ucast (drop_bit 16 len), ucast (drop_bit 24 len)]"

definition head_is_frame_end :: "u8 list \<Rightarrow> nat \<Rightarrow> nat" where
  "head_is_frame_end m p = unat (m ! p) + 256 * unat (m ! (p + 1))"

definition head_sodb_len :: "u8 list \<Rightarrow> nat \<Rightarrow> nat" where
  "head_sodb_len m p = unat (m ! (p + 4)) + 256 * unat (m ! (p + 5))
     + 2 ^ 16 * unat (m ! (p + 6)) + 2 ^ 24 * unat (m ! (p + 7))"

text \<open>Room in \<open>head_buf\<close> for \<open>add_size\<close> bytes, by a reallocation of \<open>grow\<close> bytes.\<close>

definition head_room :: "nat \<Rightarrow> nat \<Rightarrow> h264d_strm \<Rightarrow> h264d_strm" where
  "head_room add_size grow st =
    (if head_offset st + add_size \<ge> head_max_size st
     then case realloc_buffer (Some (head_buf st)) (head_max_size st) grow of
            (_, m, n) \<Rightarrow> st\<lparr>head_buf := the m, head_max_size := n\<rparr>
     else st)"

definition add_empty_nalu :: "h264d_strm \<Rightarrow> mpp_ret \<times> h264d_strm" where
  "add_empty_nalu st =
    (let st = head_room 8 512 st
     in (MPP_OK, st\<lparr>head_buf := store (head_buf st) (head_offset st) (nalu_head 1 0 0),
                    head_offset := head_offset st + 8\<rparr>))"

definition nalu_bytes :: "h264d_strm \<Rightarrow> u8 list" where
  "nalu_bytes st = (case nalu_buf st of Null \<Rightarrow> [] | Heap m \<Rightarrow> m | Input m \<Rightarrow> m)"

definition stored_type :: "int \<Rightarrow> bool" where
  "stored_type t \<longleftrightarrow> t = NALU_TYPE_SLICE \<or> t = NALU_TYPE_IDR \<or> t = NALU_TYPE_SPS \<or> t = NALU_TYPE_PPS
     \<or> t = NALU_TYPE_SUB_SPS \<or> t = NALU_TYPE_SEI \<or> t = NALU_TYPE_PREFIX \<or> t = NALU_TYPE_SLC_EXT"

definition slice_type :: "int \<Rightarrow> bool" where
  "slice_type t \<longleftrightarrow> t = NALU_TYPE_SLICE \<or> t = NALU_TYPE_IDR"

definition store_head :: "h264d_strm \<Rightarrow> h264d_strm option" where
  "store_head st =
    (if \<not> stored_type (st_nalu_type st) then Some st
     else
       let head_size = min 12800 (nalu_len st); add_size = head_size + 8;
           st = head_room add_size add_size st
       in if length (nalu_bytes st) < head_size then None
          else Some (st\<lparr>head_buf := store (head_buf st) (head_offset st)
                   (nalu_head 0 (word_of_int (st_nalu_type st)) (of_nat head_size) @ take head_size (nalu_bytes st)),
                 head_offset := head_offset st + add_size\<rparr>))"

definition store_strm :: "h264d_dec \<Rightarrow> h264d_dec option" where
  "store_strm d =
    (let st = d_strm d in
     if \<not> slice_type (st_nalu_type st) then Some d
     else
       let add_size = nalu_len st + 3;
           (m, n) = (if strm_offset d + add_size \<ge> max_strm_size d
                     then case realloc_buffer (Some (bitstream d)) (max_strm_size d) add_size of (_, m, n) \<Rightarrow> (the m, n)
                     else (bitstream d, max_strm_size d))
       in if length (nalu_bytes st) < nalu_len st then None
          else Some (d\<lparr>bitstream := store m (strm_offset d) ([0, 0, 1] @ take (nalu_len st) (nalu_bytes st)),
                       max_strm_size := n, strm_offset := strm_offset d + add_size\<rparr>))"

definition store_cur_nalu :: "h264d_dec \<Rightarrow> (mpp_ret \<times> h264d_dec) option" where
  "store_cur_nalu d =
    (case store_head (d_strm d) of
       None \<Rightarrow> None
     | Some st \<Rightarrow> map_option (\<lambda>d. (MPP_OK, d)) (store_strm (d\<lparr>d_strm := st\<rparr>)))"

section \<open>Finding the units\<close>

definition reset_nalu :: "h264d_strm \<Rightarrow> h264d_strm" where
  "reset_nalu st =
    (if endcode_found st \<noteq> 0
     then st\<lparr>startcode_found := endcode_found st, nalu_len := 0, st_nalu_type := 0, endcode_found := 0\<rparr>
     else st)"

definition find_prefix_code :: "u8 \<Rightarrow> h264d_strm \<Rightarrow> h264d_strm" where
  "find_prefix_code b st =
    (let st = st\<lparr>prefixdata := push_bit 8 (prefixdata st) OR ucast b\<rparr>
     in if prefixdata st AND 0x00FFFFFF = 1
        then if startcode_found st \<noteq> 0 then st\<lparr>endcode_found := 1\<rparr> else st\<lparr>startcode_found := 1\<rparr>
        else st)"

record judge_locals =
  j_type :: int
  j_header_bytes :: nat
  j_svc :: u32

definition judge_header :: "judge_locals parser list" where
  "judge_header =
    [READ_BITS 1 (\<lambda>_ l. l), READ_BITS 2 (\<lambda>_ l. l), READ_BITS 5 (\<lambda>v. j_type_update (\<lambda>_. s32 v)),
     UPD (j_header_bytes_update (\<lambda>_. 1)),
     COND (\<lambda>l. j_type l = NALU_TYPE_PREFIX \<or> j_type l = NALU_TYPE_SLC_EXT)
       [READ_BITS 1 (\<lambda>v. j_svc_update (\<lambda>_. v)),
        FAIL_UNLESS MPP_ERR_UNKNOW (\<lambda>l. j_svc l = 0),
        UPD (\<lambda>l. if j_type l = NALU_TYPE_SLC_EXT then l\<lparr>j_type := NALU_TYPE_SLICE\<rparr> else l),
        UPD (j_header_bytes_update (\<lambda>n. n + 3))] []]"

definition judge_is_new_frame :: "h264d_dec \<Rightarrow> (mpp_ret \<times> h264d_dec) option" where
  "judge_is_new_frame d =
    (let st = d_strm d; m = nalu_bytes st in
     if length m < 4 then None
     else case SEQ judge_header \<lparr>j_type = st_nalu_type st, j_header_bytes = 0, j_svc = - 1\<rparr>
                (mpp_set_pre_detection (mpp_set_bitread_ctx (take 4 m) 4)) of
       (ret, l, c) \<Rightarrow>
         let d = d\<lparr>d_strm := st\<lparr>st_nalu_type := j_type l\<rparr>, d_slice := (d_slice d)\<lparr>bitctx := c\<rparr>\<rparr> in
         if ret \<noteq> MPP_OK then Some (ret, d)
         else if nalu_len st = 1 \<and> (j_type l = NALU_TYPE_SEI \<or> j_type l = NALU_TYPE_SPS
                \<or> j_type l = NALU_TYPE_PPS \<or> j_type l = NALU_TYPE_AUD)
         then Some (MPP_OK, d\<lparr>is_new_frame := if have_slice_data d \<noteq> 0 then 1 else is_new_frame d,
                              have_slice_data := 0\<rparr>)
         else if nalu_len st > 1 \<and> slice_type (j_type l)
         then if length m < j_header_bytes l + 4 then None
              else case mpp_read_ue (mpp_set_pre_detection
                     (mpp_set_bitread_ctx (take 4 (drop (j_header_bytes l) m)) 4)) of
                (ret, c, first_mb_in_slice) \<Rightarrow>
                  let d = d\<lparr>d_slice := (d_slice d)\<lparr>bitctx := c\<rparr>\<rparr> in
                  if ret \<noteq> MPP_OK then Some (ret, d)
                  else if first_mb_in_slice = 0
                  then Some (MPP_OK, d\<lparr>last_dts := curr_dts d, last_pts := curr_pts d,
                               curr_dts := in_dts (d_inp d), curr_pts := in_pts (d_inp d),
                               is_new_frame := if have_slice_data d \<noteq> 0 then 1 else is_new_frame d,
                               have_slice_data := 1\<rparr>)
                  else Some (MPP_OK, d)
         else Some (MPP_OK, d))"

text \<open>
  \<open>nalu_buf[nalu_len++] = *curdata\<close>, after a reallocation when the buffer is full.
\<close>

definition put_nalu_byte :: "u8 \<Rightarrow> h264d_strm \<Rightarrow> (mpp_ret \<times> h264d_strm) option" where
  "put_nalu_byte b st =
    (case nalu_buf st of
       Heap m \<Rightarrow>
         let (m, n) = (if nalu_len st \<ge> nalu_max_size st
                       then case realloc_buffer (Some m) (nalu_max_size st) 512 of (_, m, n) \<Rightarrow> (the m, n)
                       else (m, nalu_max_size st))
         in if nalu_len st < length m
            then Some (MPP_OK, st\<lparr>nalu_buf := Heap (m[nalu_len st := b]), nalu_max_size := n,
                                  nalu_len := nalu_len st + 1\<rparr>)
            else None
     | Null \<Rightarrow> if nalu_len st \<ge> nalu_max_size st then Some (MPP_ERR_MALLOC, st) else None
     | Input _ \<Rightarrow> None)"

text \<open>
  The byte is appended to the unit, and the two ways to go on: with \<open>need_split\<close> the header tells
  whether a new frame begins; without, a slice takes the rest of the packet. The flag tells whether
  the loop is left.
\<close>

definition append_split :: "u8 \<Rightarrow> h264d_dec \<Rightarrow> (mpp_ret \<times> bool \<times> h264d_dec) option" where
  "append_split b d =
    (case put_nalu_byte b (d_strm d) of
       None \<Rightarrow> None
     | Some (ret, st) \<Rightarrow>
         let d = d\<lparr>d_strm := st\<rparr> in
         if ret \<noteq> MPP_OK then Some (ret, False, d)
         else if nalu_len st = 1 \<or> nalu_len st = 5
         then case judge_is_new_frame d of
                None \<Rightarrow> None
              | Some (ret, d) \<Rightarrow>
                  if ret \<noteq> MPP_OK then Some (ret, False, d)
                  else if is_new_frame d \<noteq> 0
                  then Some (MPP_OK, True, d\<lparr>d_strm := (snd (add_empty_nalu (d_strm d)))\<lparr>head_offset := 0\<rparr>,
                         d_inp := (d_inp d)\<lparr>task_valid := 1\<rparr>, is_new_frame := 0\<rparr>)
                  else Some (MPP_OK, False, d)
         else Some (MPP_OK, False, d))"

definition append_fast :: "u8 \<Rightarrow> h264d_dec \<Rightarrow> (mpp_ret \<times> bool \<times> h264d_dec) option" where
  "append_fast b d =
    (case put_nalu_byte b (d_strm d) of
       None \<Rightarrow> None
     | Some (ret, st) \<Rightarrow>
         let d = d\<lparr>d_strm := st\<rparr> in
         if ret \<noteq> MPP_OK then Some (ret, False, d)
         else if nalu_len st = 1
         then
           let ty = uint (nalu_bytes st ! 0) AND 0x1F; st = st\<lparr>st_nalu_type := ty\<rparr>; rest = pkt_impl_length (d_inp d)
           in if ty = NALU_TYPE_SLICE \<or> ty = NALU_TYPE_IDR \<or> ty = NALU_TYPE_SLC_EXT
              then
                let st = st\<lparr>nalu_len := nalu_len st + rest\<rparr>;
                    st = (if nalu_len st \<ge> nalu_max_size st
                          then case realloc_buffer (Some (nalu_bytes st)) (nalu_max_size st)
                                  (max 512 (nat ((int rest + 1 - int (nalu_max_size st)) mod 2 ^ 32))) of
                                 (_, m, n) \<Rightarrow> st\<lparr>nalu_buf := Heap (the m), nalu_max_size := n\<rparr>
                          else st);
                    src = take (rest + 1) (drop (nalu_offset st - 1) (in_buf (d_inp d)))
                in if length src < rest + 1 \<or> length (nalu_bytes st) < rest + 1 then None
                   else Some (MPP_OK, True, d\<lparr>d_strm := st\<lparr>nalu_buf := Heap (store (nalu_bytes st) 0 src)\<rparr>,
                          d_inp := (d_inp d)\<lparr>pkt_impl_length := 0, task_valid := 1\<rparr>\<rparr>)
              else Some (MPP_OK, False, d\<lparr>d_strm := st\<rparr>)
         else Some (MPP_OK, False, d))"

text \<open>The zero bytes before a start code are taken off; \<open>None\<close> when nothing else is left.\<close>

fun strip_zeros :: "u8 list \<Rightarrow> nat \<Rightarrow> nat option" where
  "strip_zeros m 0 = None"
| "strip_zeros m (Suc n) = (if m ! n = 0 then strip_zeros m n else Some (Suc n))"

definition end_of_nalu :: "h264d_dec \<Rightarrow> (mpp_ret \<times> h264d_dec) option" where
  "end_of_nalu d =
    (if nalu_len (d_strm d) < 3 \<or> length (nalu_bytes (d_strm d)) < nalu_len (d_strm d) then None
     else case strip_zeros (nalu_bytes (d_strm d)) (nalu_len (d_strm d) - 3) of
       None \<Rightarrow> None
     | Some n \<Rightarrow>
         (case store_cur_nalu (d\<lparr>d_strm := (d_strm d)\<lparr>nalu_len := n\<rparr>, nalu_ret := EndOfNalu\<rparr>) of
            None \<Rightarrow> None
          | Some (ret, d) \<Rightarrow> if ret \<noteq> MPP_OK then Some (ret, d)
                             else Some (MPP_OK, upd_strm reset_nalu d)))"

text \<open>
  The loop over the bytes of the packet; the first argument is \<open>pkt_impl->length\<close>, which every
  iteration lowers. \<open>*curdata\<close> is the byte at \<open>nalu_offset\<close>.
\<close>

primrec prepare_loop ::
  "(u8 \<Rightarrow> h264d_dec \<Rightarrow> (mpp_ret \<times> bool \<times> h264d_dec) option) \<Rightarrow> nat \<Rightarrow> h264d_dec \<Rightarrow> (mpp_ret \<times> h264d_dec) option" where
  "prepare_loop app 0 d = Some (MPP_OK, d)"
| "prepare_loop app (Suc n) d =
    (if nalu_offset (d_strm d) \<ge> length (in_buf (d_inp d)) then None
     else
       let b = in_buf (d_inp d) ! nalu_offset (d_strm d);
           d = d\<lparr>d_strm := (d_strm d)\<lparr>nalu_offset := nalu_offset (d_strm d) + 1\<rparr>,
                 d_inp := (d_inp d)\<lparr>pkt_impl_length := n\<rparr>\<rparr>
       in case (if startcode_found (d_strm d) \<noteq> 0 then app b d else Some (MPP_OK, False, d)) of
            None \<Rightarrow> None
          | Some (ret, brk, d) \<Rightarrow>
              if ret \<noteq> MPP_OK then Some (ret, d)
              else if brk then Some (MPP_OK, d)
              else let d = upd_strm (find_prefix_code b) d
                in if endcode_found (d_strm d) \<noteq> 0 then end_of_nalu d
                   else prepare_loop app n d)"

definition parse_eos :: "h264d_dec \<Rightarrow> (mpp_ret \<times> h264d_dec) option" where
  "parse_eos d =
    (case store_cur_nalu d of
       None \<Rightarrow> None
     | Some (ret, d) \<Rightarrow> if ret \<noteq> MPP_OK then Some (ret, d)
         else Some (MPP_OK, d\<lparr>d_strm := snd (add_empty_nalu (d_strm d)),
                              d_inp := (d_inp d)\<lparr>task_valid := 1, task_eos := 1\<rparr>\<rparr>))"

definition parse_prepare :: "h264d_dec \<Rightarrow> (mpp_ret \<times> h264d_dec) option" where
  "parse_prepare d =
    (let d = d\<lparr>nalu_ret := NALU_NULL, d_inp := (d_inp d)\<lparr>task_valid := 0\<rparr>\<rparr> in
     if pkt_eos (d_inp d) \<noteq> 0 then parse_eos d
     else if in_length (d_inp d) = 0 then Some (MPP_OK, d\<lparr>nalu_ret := HaveNoStream\<rparr>)
     else case prepare_loop append_split (pkt_impl_length (d_inp d)) d of
       None \<Rightarrow> None
     | Some (ret, d) \<Rightarrow>
         if ret \<noteq> MPP_OK then Some (ret, d)
         else
           let d = d\<lparr>d_inp := (d_inp d)\<lparr>in_length := pkt_impl_length (d_inp d)\<rparr>\<rparr>
           in Some (MPP_OK, if in_length (d_inp d) = 0
                then d\<lparr>d_strm := (d_strm d)\<lparr>nalu_offset := 0\<rparr>, nalu_ret := HaveNoStream\<rparr> else d))"

text \<open>The packet is used up: without a frame the open unit is stored as it is.\<close>

definition end_of_packet :: "h264d_dec \<Rightarrow> (mpp_ret \<times> h264d_dec) option" where
  "end_of_packet d =
    (case (if task_valid (d_inp d) = 0 then store_cur_nalu (d\<lparr>nalu_ret := EndOfNalu\<rparr>)
           else Some (MPP_OK, d\<lparr>nalu_ret := HaveNoStream\<rparr>)) of
       None \<Rightarrow> None
     | Some (ret, d) \<Rightarrow>
         if ret \<noteq> MPP_OK then Some (ret, d)
         else Some (MPP_OK, d\<lparr>d_strm := (reset_nalu ((d_strm d)\<lparr>nalu_offset := 0, endcode_found := 1\<rparr>))\<lparr>startcode_found := 0\<rparr>\<rparr>))"

definition parse_prepare_fast :: "h264d_dec \<Rightarrow> (mpp_ret \<times> h264d_dec) option" where
  "parse_prepare_fast d =
    (let d = d\<lparr>nalu_ret := NALU_NULL, d_inp := (d_inp d)\<lparr>task_valid := 0\<rparr>\<rparr> in
     if pkt_eos (d_inp d) \<noteq> 0 then parse_eos d
     else if in_length (d_inp d) = 0 then Some (MPP_OK, d\<lparr>nalu_ret := HaveNoStream\<rparr>)
     else case prepare_loop append_fast (pkt_impl_length (d_inp d)) d of
       None \<Rightarrow> None
     | Some (ret, d) \<Rightarrow>
         if ret \<noteq> MPP_OK then Some (ret, d)
         else case (if task_valid (d_inp d) = 0 then Some (MPP_OK, d) else store_cur_nalu d) of
           None \<Rightarrow> None
         | Some (ret, d) \<Rightarrow>
             if ret \<noteq> MPP_OK then Some (ret, d)
             else
               let d = (if task_valid (d_inp d) = 0 then d
                        else d\<lparr>d_strm := (snd (add_empty_nalu (d_strm d)))\<lparr>head_offset := 0\<rparr>,
                               last_dts := in_dts (d_inp d), last_pts := in_pts (d_inp d)\<rparr>);
                   d = d\<lparr>d_inp := (d_inp d)\<lparr>in_length := pkt_impl_length (d_inp d)\<rparr>\<rparr>
               in if in_length (d_inp d) = 0 then end_of_packet d else Some (MPP_OK, d))"

section \<open>Streams with length fields\<close>

text \<open>\<open>size_t\<close> subtraction.\<close>

definition size_sub :: "nat \<Rightarrow> nat \<Rightarrow> nat" where
  "size_sub a b = nat ((int a - int b) mod 2 ^ 64)"

text \<open>One loop of \<open>parse_prepare_extra_header\<close>: \<open>n\<close> sets of type \<open>ty\<close> from offset \<open>p\<close> on.\<close>

primrec extra_sets :: "u8 list \<Rightarrow> int \<Rightarrow> nat \<Rightarrow> nat \<Rightarrow> h264d_dec \<Rightarrow> (mpp_ret \<times> nat \<times> h264d_dec) option" where
  "extra_sets m ty 0 p d = Some (MPP_OK, p, d)"
| "extra_sets m ty (Suc n) p d =
    (case U16_AT m p of
       None \<Rightarrow> None
     | Some len \<Rightarrow>
         (case store_cur_nalu (upd_strm (\<lambda>st. st\<lparr>nalu_len := len, st_nalu_type := ty,
                 nalu_buf := Input (drop (p + 2) m)\<rparr>) d) of
            None \<Rightarrow> None
          | Some (ret, d) \<Rightarrow> if ret \<noteq> MPP_OK then Some (ret, p, d)
                             else extra_sets m ty n (p + 2 + len) d))"

definition parse_prepare_extra_header :: "h264d_dec \<Rightarrow> (mpp_ret \<times> h264d_dec) option" where
  "parse_prepare_extra_header d =
    (let m = in_buf (d_inp d); free_ok = (case nalu_buf (d_strm d) of Input _ \<Rightarrow> False | _ \<Rightarrow> True);
         d = upd_strm (nalu_buf_update (\<lambda>_. Null)) d in
     if \<not> free_ok then None
     else if in_length (d_inp d) < 7 then Some (MPP_ERR_UNKNOW, d)
     else if length m < 7 then None
     else if m ! 0 \<noteq> 1 then Some (MPP_ERR_UNKNOW, d)
     else
       let nsps = unat (m ! 5 AND 31);
           d = upd_inp (\<lambda>i. i\<lparr>in_profile := m ! 1, in_level := m ! 3, nal_size := 1 + unat (m ! 4 AND 3),
                              sps_num := nsps\<rparr>) d
       in case extra_sets m NALU_TYPE_SPS nsps 6 d of
            None \<Rightarrow> None
          | Some (ret, p, d) \<Rightarrow>
              if ret \<noteq> MPP_OK then Some (ret, d)
              else
                let d = upd_strm (nalu_buf_update (\<lambda>_. Null)) d in
                if p \<ge> length m then None
                else
                  let npps = unat (m ! p); d = upd_inp (pps_num_update (\<lambda>_. npps)) d
                  in case extra_sets m NALU_TYPE_PPS npps (p + 1) d of
                       None \<Rightarrow> None
                     | Some (ret, _, d) \<Rightarrow>
                         if ret \<noteq> MPP_OK then Some (ret, d)
                         else Some (MPP_OK, d\<lparr>d_inp := (d_inp d)\<lparr>pkt_impl_length := 0\<rparr>,
                                d_strm := (d_strm d)\<lparr>nalu_buf := Null, startcode_found := 1\<rparr>\<rparr>))"

text \<open>The reset when the packet ends or a length is wrong.\<close>

definition extra_data_reset :: "h264d_dec \<Rightarrow> h264d_dec" where
  "extra_data_reset d =
    d\<lparr>is_new_frame := 1, have_slice_data := 0, d_inp := (d_inp d)\<lparr>pkt_impl_length := 0, in_length := 0\<rparr>,
      d_strm := (d_strm d)\<lparr>nalu_len := 0, nalu_offset := 0, startcode_found := 1, endcode_found := 0,
                          nalu_buf := Null\<rparr>\<rparr>"

definition advance_input :: "nat \<Rightarrow> h264d_dec \<Rightarrow> h264d_dec" where
  "advance_input n d =
    d\<lparr>d_strm := (d_strm d)\<lparr>nalu_offset := nalu_offset (d_strm d) + n\<rparr>,
      d_inp := (d_inp d)\<lparr>pkt_impl_length := size_sub (pkt_impl_length (d_inp d)) n,
                        in_length := size_sub (in_length (d_inp d)) n\<rparr>\<rparr>"

text \<open>
  One unit, with a start code pending: its length, its head, its storage. \<open>p\<close> is \<open>curdata\<close>. The flag
  tells whether the function is left through \<open>__FAILED\<close>, with the code of the last store.
\<close>

definition extra_unit :: "mpp_ret \<Rightarrow> nat \<Rightarrow> h264d_dec \<Rightarrow> (mpp_ret \<times> bool \<times> nat \<times> h264d_dec) option" where
  "extra_unit ret p d =
    (let m = in_buf (d_inp d); k = nal_size (d_inp d) in
     case parse_nal_size k m p of
       None \<Rightarrow> None
     | Some len \<Rightarrow>
         let d = upd_strm (nalu_len_update (\<lambda>_. len)) d in
         if len = 0 \<or> len \<ge> in_length (d_inp d) then Some (ret, True, p, extra_data_reset d)
         else if p + k \<ge> length m then None
         else
           let d = upd_strm (\<lambda>st. st\<lparr>nalu_buf := Input (drop (p + k) m),
                     st_nalu_type := uint (m ! (p + k)) AND 0x1F, startcode_found := 0, endcode_found := 1\<rparr>)
                   (advance_input k d)
           in case store_cur_nalu d of
                None \<Rightarrow> None
              | Some (ret, d) \<Rightarrow>
                  if ret \<noteq> MPP_OK then Some (ret, True, p, d)
                  else Some (MPP_OK, False, p + k + len,
                         upd_strm (\<lambda>st. st\<lparr>startcode_found := 1, endcode_found := 0, nalu_len := 0\<rparr>)
                           (advance_input len d)))"

partial_function (option) extra_loop ::
  "mpp_ret \<Rightarrow> nat \<Rightarrow> h264d_dec \<Rightarrow> (mpp_ret \<times> bool \<times> h264d_dec) option" where
  "extra_loop ret p d =
    (if in_length (d_inp d) = 0 then Some (ret, False, d)
     else case (if startcode_found (d_strm d) \<noteq> 0 then extra_unit ret p d else Some (ret, False, p, d)) of
       None \<Rightarrow> None
     | Some (ret, failed, p, d) \<Rightarrow>
         if failed then Some (ret, True, d)
         else if in_length (d_inp d) < nal_size (d_inp d) then Some (ret, False, extra_data_reset d)
         else extra_loop ret p d)"

definition extra_failed :: "h264d_dec \<Rightarrow> h264d_dec" where
  "extra_failed d = d\<lparr>last_dts := in_pts (d_inp d), nalu_ret := HaveNoStream\<rparr>"

definition parse_prepare_extra_data :: "h264d_dec \<Rightarrow> (mpp_ret \<times> h264d_dec) option" where
  "parse_prepare_extra_data d =
    (let d = upd_inp (task_valid_update (\<lambda>_. 0)) d in
     if pkt_eos (d_inp d) \<noteq> 0 then Some (MPP_OK, upd_inp (\<lambda>i. i\<lparr>task_eos := 1, task_valid := 1\<rparr>) d)
     else if nal_size (d_inp d) = 0 then Some (MPP_ERR_VALUE, extra_failed d)
     else case extra_loop MPP_ERR_UNKNOW (nalu_offset (d_strm d)) d of
       None \<Rightarrow> None
     | Some (ret, failed, d) \<Rightarrow>
         if failed then Some (ret, extra_failed d)
         else
           let d = (if is_new_frame d = 0 then d
                    else d\<lparr>d_strm := (snd (add_empty_nalu (d_strm d)))\<lparr>head_offset := 0\<rparr>,
                           d_inp := (d_inp d)\<lparr>task_valid := 1\<rparr>, is_new_frame := 0,
                           last_dts := in_dts (d_inp d), last_pts := in_pts (d_inp d)\<rparr>)
           in Some (MPP_OK, extra_failed d))"

section \<open>The packet\<close>

record h264d_packet =
  pk_data :: "u8 list"
  pk_length :: nat
  pk_pts :: int
  pk_dts :: int
  pk_eos :: int
  pk_extra_data :: bool

text \<open>
  The loop of \<open>h264d_prepare\<close>; \<open>prep\<close> is \<open>parse_prepare\<close> or \<open>parse_prepare_fast\<close>, whose return
  value the code overwrites.
\<close>

partial_function (option) prepare_packet ::
  "(h264d_dec \<Rightarrow> (mpp_ret \<times> h264d_dec) option) \<Rightarrow> h264d_dec \<Rightarrow> h264d_dec option" where
  "prepare_packet prep d =
    (case prep d of
       None \<Rightarrow> None
     | Some (_, d) \<Rightarrow> if pkt_impl_length (d_inp d) \<noteq> 0 \<and> task_valid (d_inp d) = 0 then prepare_packet prep d
                     else Some d)"

text \<open>The bit stream buffer is filled with zeros up to a multiple of 16.\<close>

definition pad_bitstream :: "h264d_dec \<Rightarrow> h264d_dec option" where
  "pad_bitstream d =
    (let n = MPP_ALIGN (strm_offset d) 16 in
     if n \<le> length (bitstream d)
     then Some (d\<lparr>bitstream := store (bitstream d) (strm_offset d) (replicate (n - strm_offset d) 0)\<rparr>)
     else None)"

text \<open>
  The results are the task's packet, when the task is valid, and the length that is left. The end of
  the stream also flushes the picture buffer (\<open>h264d_flush_dpb_eos\<close>), which is not part of the state.
\<close>

definition set_input :: "h264d_packet \<Rightarrow> h264d_dec \<Rightarrow> h264d_dec" where
  "set_input pkt d =
    (let i = (d_inp d)\<lparr>in_pts := pk_pts pkt, in_dts := pk_dts pkt, pkt_impl_length := pk_length pkt\<rparr>
     in d\<lparr>d_inp := (if pk_eos pkt \<noteq> 0 then i\<lparr>pkt_eos := 1, has_get_eos := 1, in_buf := [], in_length := 0\<rparr>
                    else i\<lparr>in_buf := pk_data pkt, in_length := pk_length pkt, pkt_eos := 0\<rparr>)\<rparr>)"

definition h264d_prepare ::
  "h264d_dec \<Rightarrow> h264d_packet \<Rightarrow> (mpp_ret \<times> h264d_dec \<times> h264d_packet \<times> u8 list option) option" where
  "h264d_prepare d pkt =
    (if has_get_eos (d_inp d) \<noteq> 0 \<or> un_spt (d_slice d) then Some (MPP_OK, d, pkt\<lparr>pk_length := 0\<rparr>, None)
     else if pk_eos pkt \<noteq> 0 \<and> in_length (d_inp d) < 4
     then Some (MPP_OK, upd_inp (\<lambda>i. i\<lparr>in_pts := pk_pts pkt, in_dts := pk_dts pkt, pkt_eos := 1, has_get_eos := 1\<rparr>) d,
                pkt, None)
     else
       let d = set_input pkt d
       in if in_length (d_inp d) > 10 * 1024 * 1024 then Some (MPP_NOK, d, pkt\<lparr>pk_length := 0\<rparr>, None)
          else
            let m = in_buf (d_inp d);
                nalff = (if pk_extra_data pkt
                         then of_bool (in_length (d_inp d) > 3 \<and> m ! 0 \<noteq> 0 \<and> m ! 1 \<noteq> 0) else is_nalff (d_inp d));
                d = d\<lparr>d_inp := (d_inp d)\<lparr>is_nalff := nalff\<rparr>\<rparr>
            in if pk_extra_data pkt \<and> nalff \<noteq> 0
               then map_option (\<lambda>(_, d). (MPP_OK, d, pkt\<lparr>pk_length := pkt_impl_length (d_inp d)\<rparr>, None))
                      (parse_prepare_extra_header d)
               else case (if nalff \<noteq> 0 then map_option snd (parse_prepare_extra_data d)
                          else prepare_packet (if need_split (d_inp d) \<noteq> 0 then parse_prepare else parse_prepare_fast) d) of
                      None \<Rightarrow> None
                    | Some d \<Rightarrow>
                        let pkt = pkt\<lparr>pk_length := pkt_impl_length (d_inp d)\<rparr> in
                        if task_valid (d_inp d) = 0 then Some (MPP_OK, d, pkt, None)
                        else map_option (\<lambda>d. (MPP_OK, d, pkt,
                               Some (take (MPP_ALIGN (strm_offset d) 16) (bitstream d)))) (pad_bitstream d))"

section \<open>Parsing the stored units\<close>

abbreviation (input) upd_nalu :: "(h264_nalu \<Rightarrow> h264_nalu) \<Rightarrow> h264d_dec \<Rightarrow> h264d_dec" where
  "upd_nalu \<equiv> d_nalu_update"

abbreviation (input) upd_mvc :: "(h264_nalu_mvc_ext \<Rightarrow> h264_nalu_mvc_ext) \<Rightarrow> h264d_dec \<Rightarrow> h264d_dec" where
  "upd_mvc \<equiv> d_mvcExt_update"

definition mvc_extension :: "h264d_dec parser list" where
  "mvc_extension =
    [UPD (upd_mvc (mvc_valid_update (\<lambda>_. 1))), UPD (dec_mvc_valid_update (\<lambda>_. 1)),
     READ_ONEBIT (\<lambda>v. upd_mvc (mvc_non_idr_flag_update (\<lambda>_. v))),
     READ_BITS 6 (\<lambda>v. upd_mvc (mvc_priority_id_update (\<lambda>_. v))),
     READ_BITS 10 (\<lambda>v. upd_mvc (mvc_view_id_update (\<lambda>_. v))),
     READ_BITS 3 (\<lambda>v. upd_mvc (mvc_temporal_id_update (\<lambda>_. v))),
     READ_ONEBIT (\<lambda>v. upd_mvc (mvc_anchor_pic_flag_update (\<lambda>_. v))),
     READ_ONEBIT (\<lambda>v. upd_mvc (mvc_inter_view_flag_update (\<lambda>_. v))),
     READ_ONEBIT (\<lambda>v. upd_mvc (mvc_reserved_one_bit_update (\<lambda>_. v))),
     UPD (\<lambda>d. upd_mvc (mvc_iPrefixNALU_update (\<lambda>_. of_bool (nalu_type (d_nalu d) = NALU_TYPE_PREFIX))) d),
     UPD (\<lambda>d. if nalu_type (d_nalu d) = NALU_TYPE_SLC_EXT
              then upd_nalu (nalu_type_update (\<lambda>_. NALU_TYPE_SLICE)) d else d)]"

definition nalu_header :: "h264d_dec parser list" where
  "nalu_header =
    [READ_BITS 1 (\<lambda>v. upd_nalu (forbidden_bit_update (\<lambda>_. s32 v))),
     READ_BITS 2 (\<lambda>v. upd_nalu (nal_reference_idc_update (\<lambda>_. s32 v))),
     READ_BITS 5 (\<lambda>v. upd_nalu (nalu_type_update (\<lambda>_. s32 v))),
     UPD (upd_nalu (ualu_header_bytes_update (\<lambda>_. 1))),
     UPD (svc_extension_flag_update (\<lambda>_. - 1)),
     COND (\<lambda>d. nalu_type (d_nalu d) = NALU_TYPE_PREFIX \<or> nalu_type (d_nalu d) = NALU_TYPE_SLC_EXT)
       [READ_ONEBIT (\<lambda>v. svc_extension_flag_update (\<lambda>_. s32 v)),
        COND (\<lambda>d. svc_extension_flag d \<noteq> 0)
          [UPD (upd_mvc (mvc_valid_update (\<lambda>_. 0))), FAIL_UNLESS MPP_ERR_UNKNOW (\<lambda>_. False)]
          mvc_extension,
        UPD (upd_nalu (ualu_header_bytes_update (\<lambda>n. n + 3)))] []]"

definition nalu_reader :: "nat \<Rightarrow> h264_nalu \<Rightarrow> bitread_ctx" where
  "nalu_reader n nal = mpp_set_pre_detection
     (mpp_set_bitread_ctx (drop n (sodb_buf nal)) (int (sodb_len nal) - int n))"

definition parser_nalu_header :: "h264d_dec \<Rightarrow> mpp_ret \<times> h264d_dec" where
  "parser_nalu_header d =
    (case SEQ nalu_header d (nalu_reader 0 (d_nalu d)) of
       (ret, d, c) \<Rightarrow>
         if ret = MPP_OK
         then (MPP_OK, d\<lparr>d_slice := (d_slice d)\<lparr>bitctx := nalu_reader (ualu_header_bytes (d_nalu d)) (d_nalu d)\<rparr>,
                         nalu_ret := StartofNalu\<rparr>)
         else (ret, d\<lparr>d_slice := (d_slice d)\<lparr>bitctx := c\<rparr>,
                      nalu_ret := if ret = MPP_ERR_UNKNOW then StreamError else ReadNaluError\<rparr>))"

type_synonym slice_op = "h264d_dec \<Rightarrow> (mpp_ret \<times> h264d_dec) option"

definition on_slice :: "(mpp_ret \<times> h264d_slice) option \<Rightarrow> h264d_dec \<Rightarrow> (mpp_ret \<times> h264d_dec) option" where
  "on_slice r d = map_option (\<lambda>(ret, s). (ret, d\<lparr>d_slice := s\<rparr>)) r"

definition nalu_contents :: "slice_op \<Rightarrow> h264d_dec \<Rightarrow> (mpp_ret \<times> nalu_status \<times> h264d_dec) option" where
  "nalu_contents process_slice d =
    (let t = nalu_type (d_nalu d);
         ok = (\<lambda>status. map_option (\<lambda>(ret, d). (ret, status, d))) in
     if slice_type t
     then map_option (\<lambda>(ret, d). (ret,
            if layer_id d \<noteq> 0 \<and> mvc_disable (d_inp d) \<noteq> 0 then MvcDisAble else StartOfPicture, d)) (process_slice d)
     else if t = NALU_TYPE_SPS then ok NALU_SPS (on_slice (process_sps (d_slice d)) d)
     else if t = NALU_TYPE_PPS then ok NALU_PPS (on_slice (Some (process_pps (d_slice d))) d)
     else if t = NALU_TYPE_SUB_SPS then ok NALU_SubSPS (on_slice (process_subsps (d_slice d)) d)
     else if t = NALU_TYPE_SEI then Some (MPP_OK, NALU_SEI, d)
     else if NALU_TYPE_DPA \<le> t \<and> t \<le> NALU_TYPE_DPC then Some (MPP_OK, NaluNotSupport, d)
     else Some (MPP_OK, SkipNALU, d))"

definition parser_one_nalu :: "slice_op \<Rightarrow> h264d_dec \<Rightarrow> (mpp_ret \<times> h264d_dec) option" where
  "parser_one_nalu process_slice d =
    (case parser_nalu_header d of
       (ret, d) \<Rightarrow>
         if ret \<noteq> MPP_OK then Some (ret, d\<lparr>nalu_ret := ReadNaluError\<rparr>)
         else map_option (\<lambda>(ret, status, d).
                if ret = MPP_OK then (MPP_OK, d\<lparr>nalu_ret := status\<rparr>) else (ret, d\<lparr>nalu_ret := ReadNaluError\<rparr>))
              (nalu_contents process_slice d))"

definition zero_mvc_ext :: h264_nalu_mvc_ext where
  "zero_mvc_ext = \<lparr>mvc_valid = 0, mvc_non_idr_flag = 0, mvc_priority_id = 0, mvc_view_id = 0,
     mvc_temporal_id = 0, mvc_anchor_pic_flag = 0, mvc_inter_view_flag = 0, mvc_reserved_one_bit = 0,
     mvc_iPrefixNALU = 0\<rparr>"

definition reset_slice :: "h264d_dec \<Rightarrow> h264d_dec" where
  "reset_slice d = d\<lparr>d_mvcExt := zero_mvc_ext, svc_extension_flag := 0, layer_id := 0,
     d_sl := zero_slice\<lparr>sl_view_id := - 1, sl_active_sps := vs_active_sps (d_vs d), sl_active_pps := vs_active_pps (d_vs d)\<rparr>\<rparr>"

text \<open>The state \<open>SliceSTATE_ReadNalu\<close>: the next stored unit, at \<open>p_curdata\<close>.\<close>

definition read_nalu :: "h264d_dec \<Rightarrow> nat \<Rightarrow> (h264d_dec \<times> nat) option" where
  "read_nalu d p =
    (let m = head_buf (d_strm d); len = head_sodb_len m p in
     if p + 8 > length m then None
     else if head_is_frame_end m p \<noteq> 0
     then Some (d\<lparr>next_state := SliceSTATE_RegisterOneFrame, nalu_ret := HaveNoStream\<rparr>, p)
     else if p + 8 + len > length m then None
     else Some (d\<lparr>d_nalu := \<lparr>sodb_buf = take len (drop (p + 8) m), sodb_len = len, forbidden_bit = 0, nalu_type = 0,
                    nal_reference_idc = 0, ualu_header_bytes = 0\<rparr>,
                  nalu_ret := EndOfNalu, next_state := SliceSTATE_ParseNalu\<rparr>, p + 8 + len))"

text \<open>
  One iteration of \<open>parse_loop\<close>: \<open>Inl\<close> goes on, \<open>Inr\<close> leaves the loop, with the code, at \<open>__FAILED\<close>
  or at the end. In a state that does not occur the loop goes on for ever.
\<close>

definition loop_failed :: "mpp_ret \<Rightarrow> h264d_dec \<Rightarrow> mpp_ret \<times> h264d_dec" where
  "loop_failed ret d = (ret, d\<lparr>nalu_ret := NALU_NULL, slice_count := 0, strm_offset := 0,
     iNumOfSlicesDecoded := 0, exit_picture_flag := 0\<rparr>)"

text \<open>
  \<open>commit_buffer\<close> (h264d_fill.c) fills the stream up to a multiple of 16 and hands the buffers of the picture
  to the hardware layer in four descriptors. Their types and pointers are constants; \<open>committed\<close> keeps what
  varies in the state modelled here, the size of the stream and the number of slices in the slice control buffer.
\<close>

definition commit_buffer :: "h264d_dec \<Rightarrow> h264d_dec option" where
  "commit_buffer d =
    map_option (\<lambda>d. d\<lparr>committed := Some (MPP_ALIGN (strm_offset d) 16, slice_count d), slice_count := 0, strm_offset := 0\<rparr>)
      (pad_bitstream d)"

definition parse_iteration :: "slice_op \<Rightarrow> slice_op \<Rightarrow> slice_op \<Rightarrow> mpp_ret \<Rightarrow> h264d_dec \<Rightarrow> nat
    \<Rightarrow> (mpp_ret \<times> h264d_dec \<times> nat + mpp_ret \<times> h264d_dec) option" where
  "parse_iteration process_slice init_picture fill_slice_syntax ret d p =
    (case next_state d of
       SliceSTATE_ResetSlice \<Rightarrow>
         Some (Inl (ret, (reset_slice d)\<lparr>next_state := SliceSTATE_ReadNalu\<rparr>, p))
     | SliceSTATE_ReadNalu \<Rightarrow> map_option (\<lambda>(d, p). Inl (ret, d, p)) (read_nalu d p)
     | SliceSTATE_ParseNalu \<Rightarrow>
         map_option (\<lambda>(ret, d).
           if ret \<noteq> MPP_OK then Inr (loop_failed ret d)
           else if nalu_ret d = StartOfSlice then Inl (ret, d\<lparr>next_state := SliceSTATE_GetSliceData\<rparr>, p)
           else if nalu_ret d = StartOfPicture then Inl (ret, d\<lparr>next_state := SliceSTATE_InitPicture\<rparr>, p)
           else if nalu_ret d = MvcDisAble then Inr (loop_failed ret d)
           else Inl (ret, d\<lparr>next_state := SliceSTATE_ReadNalu\<rparr>, p)) (parser_one_nalu process_slice d)
     | SliceSTATE_InitPicture \<Rightarrow>
         map_option (\<lambda>(ret, d).
           if ret \<noteq> MPP_OK then Inr (loop_failed ret d)
           else Inl (ret, d\<lparr>next_state := SliceSTATE_GetSliceData\<rparr>, p))
          (if iNumOfSlicesDecoded d \<noteq> 0 then Some (MPP_OK, d)
           else map_option (\<lambda>(ret, d). (ret, if ret = MPP_OK then d\<lparr>is_parser_end := 1\<rparr> else d)) (init_picture d))
     | SliceSTATE_GetSliceData \<Rightarrow>
         map_option (\<lambda>(ret, d).
           if ret \<noteq> MPP_OK then Inr (loop_failed ret d)
           else Inl (ret, d\<lparr>iNumOfSlicesDecoded := iNumOfSlicesDecoded d + 1,
                  next_state := if is_parser_end d \<noteq> 0 then SliceSTATE_RegisterOneFrame else SliceSTATE_ResetSlice\<rparr>, p))
          (fill_slice_syntax d)
     | SliceSTATE_RegisterOneFrame \<Rightarrow>
         if is_parser_end d = 0 then Some (Inr (loop_failed MPP_NOK d))
         else map_option (\<lambda>d. Inr (MPP_OK, d\<lparr>next_state := SliceSTATE_ReadNalu\<rparr>)) (commit_buffer d)
     | _ \<Rightarrow> Some (Inl (MPP_NOK, d, p)))"

partial_function (option) parse_while :: "slice_op \<Rightarrow> slice_op \<Rightarrow> slice_op \<Rightarrow> mpp_ret \<Rightarrow> h264d_dec \<Rightarrow> nat
    \<Rightarrow> (mpp_ret \<times> h264d_dec) option" where
  "parse_while ps ip fs ret d p =
    (case parse_iteration ps ip fs ret d p of
       None \<Rightarrow> None
     | Some (Inl (ret, d, p)) \<Rightarrow> parse_while ps ip fs ret d p
     | Some (Inr r) \<Rightarrow> Some r)"

definition parse_loop :: "slice_op \<Rightarrow> slice_op \<Rightarrow> slice_op \<Rightarrow> h264d_dec \<Rightarrow> (mpp_ret \<times> h264d_dec) option" where
  "parse_loop ps ip fs d = parse_while ps ip fs MPP_ERR_UNKNOW (d\<lparr>next_state := SliceSTATE_ResetSlice\<rparr>) 0"

end
