(* ===== verification/H264dNalSpec.thy ===== *)
theory H264dNalSpec
  imports H264dNal H264dSpec
begin

text \<open>
  The splitting of packets into NAL units and the way of parameter sets through it: what
  \<open>prepare_loop\<close> does is an abstract scan of the bytes, however the stream is cut into packets, and
  the parse loop hands each stored unit to its parser.
\<close>

section \<open>The scan\<close>

text \<open>
  The scan holds whether a start code has been seen, the units so far and the bytes after the last
  start code. Zero bytes before a start code do not belong to a unit.
\<close>

definition drop_zeros :: "u8 list \<Rightarrow> u8 list" where
  "drop_zeros u = rev (dropWhile (\<lambda>b. b = 0) (rev u))"

type_synonym scan_state = "bool \<times> u8 list list \<times> u8 list"

definition ends_with :: "u8 list \<Rightarrow> u8 list \<Rightarrow> bool" where
  "ends_with s u \<longleftrightarrow> length s \<le> length u \<and> drop (length u - length s) u = s"

fun scan :: "scan_state \<Rightarrow> u8 \<Rightarrow> scan_state" where
  "scan (sc, us, u) b =
    (if ends_with [0, 0, 1] (u @ [b])
     then (True, if sc then us @ [drop_zeros (take (length u - 2) u)] else us, [])
     else (sc, us, u @ [b]))"

lemma ends_with_append: "length s = length v \<Longrightarrow> ends_with s (u @ v) \<longleftrightarrow> s = v"
  by (auto simp: ends_with_def)

lemma ends_with_snoc: "ends_with (s @ [a]) (u @ [b]) \<longleftrightarrow> a = b \<and> ends_with s u"
  by (auto simp: ends_with_def)

lemma ends_with_Nil [simp]: "ends_with [] u" "ends_with (a # s) [] \<longleftrightarrow> False"
  by (simp_all add: ends_with_def)

lemma ends_with_start: "ends_with [0, 0, 1] (u @ [b]) \<longleftrightarrow> b = 1 \<and> ends_with [0, 0] u"
  using ends_with_snoc [of "[0, 0]" 1 u b] by auto

lemma ends_with_zeros: "ends_with [0, 0] (u @ [b]) \<longleftrightarrow> b = 0 \<and> ends_with [0] u"
  "ends_with [0] (u @ [b]) \<longleftrightarrow> b = 0"
  using ends_with_snoc [of "[0]" 0 u b] ends_with_snoc [of "[]" 0 u b] by auto

lemma ends_with_length: "ends_with s u \<Longrightarrow> length s \<le> length u"
  by (simp add: ends_with_def)

text \<open>Units as an encoder sends them: no start code inside, and the last byte is not zero.\<close>

definition annexb_unit :: "u8 list \<Rightarrow> bool" where
  "annexb_unit u \<longleftrightarrow> u \<noteq> [] \<and> start_code_free u \<and> last u \<noteq> 0"

lemma start_code_free_ends:
  "start_code_free (u @ v) \<Longrightarrow> start_code_free u"
  by (induction u rule: start_code_free.induct) (auto simp: start_code_free_Cons split: list.splits)

lemma start_code_free_not_end:
  assumes "start_code_free (u @ [b])"
  shows "\<not> (b = 1 \<and> ends_with [0, 0] u)"
proof
  assume a: "b = 1 \<and> ends_with [0, 0] u"
  then obtain v where "u = v @ [0, 0]"
    by (auto simp: ends_with_def) (metis append_take_drop_id)
  with a assms have "start_code_free (v @ [0, 0, 1])" by simp
  then show False by (induction v) (auto simp: start_code_free_Cons split: list.splits)
qed

lemma scan_unit_bytes:
  "start_code_free (u @ v) \<Longrightarrow> foldl scan (sc, us, u) v = (sc, us, u @ v)"
proof (induction v rule: rev_induct)
  case (snoc b v)
  have "start_code_free (u @ v)" using start_code_free_ends [of "u @ v" "[b]"] snoc.prems by simp
  moreover have "\<not> (b = 1 \<and> ends_with [0, 0] (u @ v))"
    using start_code_free_not_end [of "u @ v" b] snoc.prems by simp
  ultimately show ?case using snoc.IH by (simp add: ends_with_start del: append_assoc)
qed simp

lemma drop_zeros_id: "u = [] \<or> last u \<noteq> 0 \<Longrightarrow> drop_zeros u = u"
  by (cases u rule: rev_cases) (simp_all add: drop_zeros_def)

text \<open>A start code, with zero bytes before it or not.\<close>

lemma scan_zeros: "foldl scan (sc, us, u) (replicate z 0) = (sc, us, u @ replicate z 0)"
proof (induction z)
  case (Suc z)
  then have "foldl scan (sc, us, u) (replicate z 0 @ [0]) = (sc, us, (u @ replicate z 0) @ [0])"
    using ends_with_start [of "u @ replicate z 0" 0] by simp
  then show ?case by (simp add: replicate_append_same)
qed simp

lemma drop_zeros_replicate: "drop_zeros (u @ replicate z 0) = drop_zeros u"
  by (simp add: drop_zeros_def dropWhile_append)

definition start_code :: "nat \<Rightarrow> u8 list" where
  "start_code z = replicate z 0 @ [0, 0, 1]"

lemma scan_start_code:
  assumes "u = [] \<or> last u \<noteq> 0"
  shows "foldl scan (sc, us, u) (start_code z) = (True, if sc then us @ [u] else us, [])"
proof -
  have z: "start_code z = replicate (z + 2) 0 @ [1]"
    by (simp add: start_code_def replicate_app_Cons_same)
  have u: "u @ replicate (z + 2) 0 = (u @ replicate z 0) @ [0, 0]" by (simp add: replicate_app_Cons_same)
  have "ends_with [0, 0, 1] ((u @ replicate (z + 2) 0) @ [1])"
    unfolding u ends_with_start by (simp add: ends_with_append del: append_assoc)
  moreover have "take (length (u @ replicate (z + 2) 0) - 2) (u @ replicate (z + 2) 0) = u @ replicate z 0"
    unfolding u by simp
  ultimately show ?thesis
    unfolding z foldl_append scan_zeros by (simp add: drop_zeros_replicate drop_zeros_id [OF assms])
qed

lemma drop_next: "drop n xs = b # bs \<Longrightarrow> n < length xs \<and> xs ! n = b \<and> drop (Suc n) xs = bs"
  by (cases "n < length xs") (simp_all add: Cons_nth_drop_Suc [symmetric])

lemma bytes_nat:
  fixes n :: nat
  shows "n mod 256 + 256 * (n div 256 mod 256) + 2 ^ 16 * (n div 2 ^ 16) = n"
    and "n mod 256 + 256 * (n div 256 mod 256) + 2 ^ 16 * (n div 2 ^ 16 mod 256) + 2 ^ 24 * (n div 2 ^ 24) = n"
proof -
  define p r s where "p = n div 256" and "r = p div 256" and "s = r div 256"
  have "m = m mod 256 + 256 * (m div 256)" for m :: nat by simp
  then have d: "p = p mod 256 + 256 * r" "r = r mod 256 + 256 * s" "n = n mod 256 + 256 * p"
    by (simp_all add: p_def r_def s_def)
  have q: "n div 2 ^ 16 = r" "n div 2 ^ 24 = s" "n div 256 = p" by (simp_all add: p_def r_def s_def flip: div_mult2_eq)
  show "n mod 256 + 256 * (n div 256 mod 256) + 2 ^ 16 * (n div 2 ^ 16) = n"
    "n mod 256 + 256 * (n div 256 mod 256) + 2 ^ 16 * (n div 2 ^ 16 mod 256) + 2 ^ 24 * (n div 2 ^ 24) = n"
    unfolding q using d by simp_all
qed

text \<open>A stream of units, each behind a start code of its own.\<close>

definition unit_stream :: "(nat \<times> u8 list) list \<Rightarrow> u8 list" where
  "unit_stream zus = concat (map (\<lambda>(z, u). start_code z @ u) zus)"

lemma scan_units:
  "\<forall>u \<in> snd ` set zus. annexb_unit u \<Longrightarrow> annexb_unit v \<Longrightarrow>
     foldl scan (True, ws, v) (unit_stream zus) = (True, ws @ butlast (v # map snd zus), last (v # map snd zus))"
proof (induction zus arbitrary: v ws)
  case (Cons zu zus)
  obtain z u where zu: "zu = (z, u)" by (cases zu)
  have v: "v = [] \<or> last v \<noteq> 0" and u: "annexb_unit u" "start_code_free ([] @ u)"
    using Cons.prems zu by (auto simp: annexb_unit_def)
  have "foldl scan (True, ws, v) (start_code z @ u) = (True, ws @ [v], u)"
    using scan_start_code [OF v, of True ws z] scan_unit_bytes [OF u(2), of True "ws @ [v]"]
    by (simp only: foldl_append) simp
  with Cons.IH [of u "ws @ [v]"] Cons.prems(1) u(1) show ?case by (simp add: unit_stream_def zu)
qed (simp add: unit_stream_def)

lemma scan_stream:
  assumes "\<forall>u \<in> snd ` set zus. annexb_unit u" and "zus \<noteq> []" and "v = [] \<or> last v \<noteq> 0"
  shows "foldl scan (False, ws, v) (unit_stream zus) = (True, ws @ butlast (map snd zus), last (map snd zus))"
proof -
  obtain z u zus' where zus: "zus = (z, u) # zus'" using assms(2) by (cases zus) auto
  then have u: "annexb_unit u" "start_code_free ([] @ u)" using assms(1) by (auto simp: annexb_unit_def)
  have "foldl scan (False, ws, v) (start_code z @ u) = (True, ws, u)"
    using scan_start_code [OF assms(3), of False ws z] scan_unit_bytes [OF u(2), of True ws]
    by (simp only: foldl_append) simp
  with scan_units [of zus' u ws] assms(1) u(1) show ?thesis by (simp add: unit_stream_def zus)
qed

section \<open>The state of a scan\<close>

definition nal_type :: "u8 list \<Rightarrow> int" where
  "nal_type u = uint (hd u) AND 31"

text \<open>Header bytes of units that are not slices and have no extension.\<close>

definition plain :: "u8 \<Rightarrow> bool" where
  "plain b \<longleftrightarrow> b \<noteq> 0 \<and> \<not> slice_type (uint b AND 31) \<and> uint b AND 31 \<noteq> 14 \<and> uint b AND 31 \<noteq> 20"

text \<open>What a stored unit looks like in \<open>head_buf\<close>.\<close>

definition unit_entry :: "u8 list \<Rightarrow> u8 list" where
  "unit_entry u =
    (if stored_type (nal_type u)
     then nalu_head 0 (word_of_int (nal_type u)) (of_nat (min 12800 (length u))) @ take 12800 u else [])"

definition buffers_ok :: "h264d_strm \<Rightarrow> bool" where
  "buffers_ok st \<longleftrightarrow> (\<exists>m. nalu_buf st = Heap m \<and> length m = nalu_max_size st) \<and> 8 \<le> nalu_max_size st
     \<and> length (head_buf st) = head_max_size st \<and> head_offset st \<le> head_max_size st"

definition prefix_ok :: "u64 \<Rightarrow> u8 list \<Rightarrow> bool" where
  "prefix_ok w u \<longleftrightarrow> (w AND 0xFF = 0 \<longleftrightarrow> ends_with [0] u) \<and> (w AND 0xFFFF = 0 \<longleftrightarrow> ends_with [0, 0] u)"

definition unit_ok :: "h264d_strm \<Rightarrow> u8 list list \<Rightarrow> u8 list \<Rightarrow> bool" where
  "unit_ok st us u \<longleftrightarrow> buffers_ok st \<and> nalu_len st = length u \<and> length u \<le> nalu_max_size st
     \<and> take (length u) (nalu_bytes st) = u \<and> (if u = [] then st_nalu_type st = 0 else st_nalu_type st = nal_type u \<and> plain (hd u))
     \<and> take (head_offset st) (head_buf st) = concat (map unit_entry us) \<and> endcode_found st = 0"

text \<open>Everything but the stream record, the bit reader, the state of the unit and the lengths left.\<close>

definition erase :: "h264d_dec \<Rightarrow> h264d_dec" where
  "erase d = d\<lparr>d_strm := undefined, d_slice := (d_slice d)\<lparr>bitctx := undefined\<rparr>, nalu_ret := NALU_NULL,
     d_inp := (d_inp d)\<lparr>in_length := 0, pkt_impl_length := 0, task_valid := 0\<rparr>\<rparr>"

lemma erase_update [simp]:
  "erase (d\<lparr>d_strm := st\<rparr>) = erase d"
  "erase (d\<lparr>nalu_ret := n\<rparr>) = erase d"
  "erase (d\<lparr>d_slice := (d_slice d)\<lparr>bitctx := c\<rparr>\<rparr>) = erase d"
  "erase (d\<lparr>d_inp := (d_inp d)\<lparr>in_length := l\<rparr>\<rparr>) = erase d"
  "erase (d\<lparr>d_inp := (d_inp d)\<lparr>pkt_impl_length := l\<rparr>\<rparr>) = erase d"
  "erase (d\<lparr>d_inp := (d_inp d)\<lparr>task_valid := p\<rparr>\<rparr>) = erase d"
  by (simp_all add: erase_def)

lemma erase_fields:
  assumes "erase d = erase d'"
  shows "in_buf (d_inp d) = in_buf (d_inp d')"
    "is_new_frame d = is_new_frame d'"
    "have_slice_data d = have_slice_data d'"
    "p_Vid (d_slice d) = p_Vid (d_slice d')"
    "pkt_eos (d_inp d) = pkt_eos (d_inp d')"
    "need_split (d_inp d) = need_split (d_inp d')"
    "is_nalff (d_inp d) = is_nalff (d_inp d')"
    "un_spt (d_slice d) = un_spt (d_slice d')"
    "has_get_eos (d_inp d) = has_get_eos (d_inp d')"
  using arg_cong [OF assms, of "\<lambda>d. in_buf (d_inp d)"]
    arg_cong [OF assms, of "\<lambda>d. is_new_frame d"]
    arg_cong [OF assms, of "\<lambda>d. have_slice_data d"]
    arg_cong [OF assms, of "\<lambda>d. p_Vid (d_slice d)"]
    arg_cong [OF assms, of "\<lambda>d. pkt_eos (d_inp d)"]
    arg_cong [OF assms, of "\<lambda>d. need_split (d_inp d)"]
    arg_cong [OF assms, of "\<lambda>d. is_nalff (d_inp d)"]
    arg_cong [OF assms, of "\<lambda>d. un_spt (d_slice d)"]
    arg_cong [OF assms, of "\<lambda>d. has_get_eos (d_inp d)"]
  by (simp_all add: erase_def)

lemma erase_stream:
  assumes "erase d = erase d'"
  shows "bitstream d = bitstream d'" "max_strm_size d = max_strm_size d'" "strm_offset d = strm_offset d'"
    "d_slice d = (d_slice d')\<lparr>bitctx := bitctx (d_slice d)\<rparr>"
proof -
  have "(d_slice d)\<lparr>bitctx := undefined\<rparr> = (d_slice d')\<lparr>bitctx := undefined\<rparr>"
    using arg_cong [OF assms, of d_slice] by (simp add: erase_def)
  then show "d_slice d = (d_slice d')\<lparr>bitctx := bitctx (d_slice d)\<rparr>" by (cases "d_slice d"; cases "d_slice d'") simp
qed (use arg_cong [OF assms, of bitstream] arg_cong [OF assms, of max_strm_size] arg_cong [OF assms, of strm_offset]
  in \<open>simp_all add: erase_def\<close>)

text \<open>The bytes before the first start code belong to no unit.\<close>

fun scanned :: "scan_state \<Rightarrow> h264d_dec \<Rightarrow> bool" where
  "scanned (sc, us, u) d \<longleftrightarrow> is_new_frame d = 0 \<and> have_slice_data d = 0
     \<and> unit_ok (d_strm d) us (if sc then u else []) \<and> startcode_found (d_strm d) = of_bool sc
     \<and> prefix_ok (prefixdata (d_strm d)) u"

section \<open>The start code detector\<close>

lemma push_byte_bits:
  "bit (push_bit 8 w OR ucast (b :: u8) :: u64) i \<longleftrightarrow> i < 64 \<and> (if i < 8 then bit b i else bit w (i - 8))"
  using bit_imp_le_length [of b i] by (auto simp: bit_or_iff bit_push_bit_iff bit_ucast_iff)

lemma all_less_split: "(\<forall>i < m + n. P i) \<longleftrightarrow> (\<forall>i < m. P i) \<and> (\<forall>i < n. P (m + i))" for m n :: nat
  by (metis add_less_cancel_left le_add_diff_inverse linorder_not_less trans_less_add1)

lemma byte_1: "(b :: u8) = 1 \<longleftrightarrow> (\<forall>i < 8. bit b i = (i = 0))"
  by (auto simp: bit_eq_iff bit_1_iff dest: bit_imp_le_length)

lemma and_ffffff_1: "w AND 0xffffff = (1 :: u64) \<longleftrightarrow> (\<forall>i < 24. bit w i = (i = 0))"
proof -
  have "w AND 0xffffff = take_bit 24 w" by (simp add: take_bit_eq_mask mask_eq_exp_minus_1)
  moreover have "take_bit 24 w = 1 \<longleftrightarrow> (\<forall>i < 64. bit (take_bit 24 w) i = bit (1 :: u64) i)"
    by (auto intro: bit_word_eqI)
  ultimately show ?thesis
    using all_less_split [of 24 40 "\<lambda>i. bit (take_bit 24 w) i = bit (1 :: u64) i"]
    by (simp add: bit_take_bit_iff bit_1_iff)
qed

lemma push_byte_masks:
  fixes w :: u64 and b :: u8
  defines "w' \<equiv> push_bit 8 w OR ucast b"
  shows "w' AND 0xff = 0 \<longleftrightarrow> b = 0" and "w' AND 0xffff = 0 \<longleftrightarrow> b = 0 \<and> w AND 0xff = 0"
    and "w' AND 0xffffff = 1 \<longleftrightarrow> b = 1 \<and> w AND 0xffff = 0"
  using all_less_split [of 8 8 "\<lambda>i. \<not> bit w' i"] all_less_split [of 8 16 "\<lambda>i. bit w' i = (i = 0)"]
  by (auto simp: w'_def and_ff_0 and_ffff_0 and_ffffff_1 byte_0 byte_1 push_byte_bits)

lemma prefix_ok_step:
  assumes "prefix_ok w u"
  shows "(push_bit 8 w OR ucast b) AND 0x00FFFFFF = (1 :: u64) \<longleftrightarrow> ends_with [0, 0, 1] (u @ [b])"
    and "prefix_ok (push_bit 8 w OR ucast b) (u @ [b])"
    and "b = 1 \<Longrightarrow> prefix_ok (push_bit 8 w OR ucast b) []"
  using assms push_byte_masks [of w b] by (simp_all add: prefix_ok_def ends_with_start ends_with_zeros)

section \<open>Appending a byte\<close>

lemma put_nalu_byte_ok:
  assumes "buffers_ok st" and "nalu_len st \<le> nalu_max_size st"
  obtains m n where "put_nalu_byte b st = Some (MPP_OK, st\<lparr>nalu_buf := Heap m, nalu_max_size := n, nalu_len := nalu_len st + 1\<rparr>)"
    and "length m = n" and "nalu_len st < n" and "nalu_max_size st \<le> n"
    and "take (nalu_len st + 1) m = take (nalu_len st) (nalu_bytes st) @ [b]"
proof -
  obtain m where m: "nalu_buf st = Heap m" "length m = nalu_max_size st" using assms(1) by (auto simp: buffers_ok_def)
  show thesis
  proof (cases "nalu_len st < nalu_max_size st")
    case True
    then show thesis using m
      by (intro that [where m = "m[nalu_len st := b]" and n = "nalu_max_size st"])
        (simp_all add: put_nalu_byte_def nalu_bytes_def take_Suc_conv_app_nth)
  next
    case False
    then have "nalu_len st = nalu_max_size st" using assms(2) by simp
    then show thesis using m
      by (intro that [where m = "(m @ replicate 512 0)[nalu_len st := b]" and n = "nalu_max_size st + 512"])
        (simp_all add: put_nalu_byte_def nalu_bytes_def take_Suc_conv_app_nth realloc_buffer_def MPP_ALIGN_def)
  qed
qed

lemma mpp_read_header:
  fixes b :: u8
  assumes "length r < 2 ^ 30"
  shows "rem_bits (mpp_set_pre_detection (mpp_set_bitread_ctx (b # r) (int (length (b # r)))))
      = byte_bits b @ bytes_bits (unescape True (push_bit 8 0xffff OR ucast b) r)"
    and "br_wf (mpp_set_pre_detection (mpp_set_bitread_ctx (b # r) (int (length (b # r)))))"
  using mpp_set_bitread_ctx_bits(3,4) [of "b # r"] assms by simp_all

lemma byte_bits_header:
  fixes b :: u8
  shows "byte_bits b = concat [[bit b 7], [bit b 6, bit b 5], msb_bits 5 b]"
proof -
  have "byte_bits b = msb_bits 3 (drop_bit 5 b) @ msb_bits 5 b"
    using msb_bits_add [of 3 5 b] by (simp add: byte_bits_def)
  then show ?thesis by (simp add: msb_bits_def bit_drop_bit_eq numeral_3_eq_3)
qed

lemma header_type: "s32 (bits_val (msb_bits 5 (b :: u8))) = uint b AND 31"
proof -
  have "(bits_val (msb_bits 5 b) :: u32) = ucast (take_bit 5 b)"
    by (rule bit_word_eqI) (auto simp: bit_bits_val nth_msb_bits bit_ucast_iff bit_take_bit_iff)
  moreover have "uint (take_bit 5 b) = uint b AND 31"
    by (simp add: take_bit_eq_mask mask_eq_exp_minus_1 uint_and)
  moreover have "sint (ucast x :: u32) = uint x" for x :: u8
  proof -
    have "signed_take_bit 31 (uint x) = uint x"
      by (rule signed_take_bit_int_eq_self, rule order_trans [OF _ uint_ge_0]) (use uint_lt2p [of x] in simp_all)
    moreover have "take_bit 32 (uint x) = uint x"
      by (rule take_bit_int_eq_self) (use uint_lt2p [of x] in simp_all)
    ultimately show ?thesis by (simp add: sint_uint unsigned_ucast_eq)
  qed
  ultimately show ?thesis by (simp add: s32_def)
qed

lemma judge_header_short:
  assumes "uint b AND 31 \<noteq> 14 \<and> uint b AND 31 \<noteq> 20" and "length r = 3"
  obtains c where "SEQ judge_header l (mpp_set_pre_detection (mpp_set_bitread_ctx (b # r) 4))
      = (MPP_OK, l\<lparr>j_type := uint b AND 31, j_header_bytes := 1\<rparr>, c)"
proof -
  let ?c = "mpp_set_pre_detection (mpp_set_bitread_ctx (b # r) 4)"
  have "int (length (b # r)) = 4" using assms(2) by simp
  note c = mpp_read_header [of r b, unfolded this]
  have "parses rest (SEQ judge_header) l (concat [[bit b 7], [bit b 6, bit b 5], msb_bits 5 b])
      (l\<lparr>j_type := uint b AND 31, j_header_bytes := 1\<rparr>)" for rest
  proof -
    have d: "decodes_all [READ_BITS 1 (\<lambda>_ l. l), READ_BITS 2 (\<lambda>_ l. l), READ_BITS 5 (\<lambda>v. j_type_update (\<lambda>_. s32 v)),
        UPD (j_header_bytes_update (\<lambda>_. 1))] [[bit b 7], [bit b 6, bit b 5], msb_bits 5 b, []]
        [\<lambda>l. l, \<lambda>l. l, j_type_update (\<lambda>_. uint b AND 31), j_header_bytes_update (\<lambda>_. 1)]"
      using decodes_READ_BITS [of "[bit b 7]" 1 "\<lambda>_ l. l"] decodes_READ_BITS [of "[bit b 6, bit b 5]" 2 "\<lambda>_ l. l"]
        decodes_READ_BITS [of "msb_bits 5 b" 5 "\<lambda>v. j_type_update (\<lambda>_. s32 v)"] by (simp add: header_type decodes_UPD)
    have "parses rest (SEQ [COND (\<lambda>l. j_type l = 14 \<or> j_type l = 20) ps []]) (l\<lparr>j_type := uint b AND 31, j_header_bytes := 1\<rparr>) []
        (l\<lparr>j_type := uint b AND 31, j_header_bytes := 1\<rparr>)" for ps
      using assms(1) parses_SEQ_Cons [OF parses_COND parses_SEQ_Nil [OF refl], where bs = "[]"]
      by (auto simp: parses_def COND_def)
    from parses_SEQ_append [OF decodes_parses [OF decodes_SEQ [OF d]] this, of l] show ?thesis
      by (simp add: judge_header_def)
  qed
  note p = this [folded byte_bits_header]
  have "length r < 2 ^ 30" using assms(2) by simp
  from parsesE [OF p c(2) [OF this] c(1) [OF this]] that show thesis by metis
qed

lemma no_change:
  "have_slice_data d = 0 \<Longrightarrow> d\<lparr>have_slice_data := 0\<rparr> = d"
  "is_new_frame d = 0 \<Longrightarrow> d\<lparr>is_new_frame := 0\<rparr> = d"
  by (cases d, simp)+

lemma judge_plain:
  assumes "take (nalu_len (d_strm d)) (nalu_bytes (d_strm d)) = u" and "u \<noteq> []" and "plain (hd u)"
    and "4 \<le> length (nalu_bytes (d_strm d))" and "have_slice_data d = 0" and "is_new_frame d = 0"
  obtains c where "judge_is_new_frame d = Some (MPP_OK, d\<lparr>d_strm := (d_strm d)\<lparr>st_nalu_type := nal_type u\<rparr>,
      d_slice := (d_slice d)\<lparr>bitctx := c\<rparr>\<rparr>)"
proof -
  obtain r where r: "take 4 (nalu_bytes (d_strm d)) = hd u # r" "length r = 3"
  proof
    have "nalu_bytes (d_strm d) \<noteq> []" "hd (nalu_bytes (d_strm d)) = hd u" using assms(1,2) by auto
    then show "take 4 (nalu_bytes (d_strm d)) = hd u # take 3 (tl (nalu_bytes (d_strm d)))"
      by (cases "nalu_bytes (d_strm d)") (simp_all add: eval_nat_numeral)
    show "length (take 3 (tl (nalu_bytes (d_strm d)))) = 3" using assms(4) by simp
  qed
  let ?l = "\<lparr>j_type = st_nalu_type (d_strm d), j_header_bytes = 0, j_svc = - 1\<rparr>"
  obtain c where c0: "SEQ judge_header ?l (mpp_set_pre_detection (mpp_set_bitread_ctx (hd u # r) 4))
    = (MPP_OK, ?l\<lparr>j_type := uint (hd u) AND 31, j_header_bytes := 1\<rparr>, c)"
    by (rule judge_header_short [OF _ r(2), of "hd u"]) (use assms(3) in \<open>simp add: plain_def\<close>)
  then have c: "SEQ judge_header ?l (mpp_set_pre_detection (mpp_set_bitread_ctx (take 4 (nalu_bytes (d_strm d))) 4))
    = (MPP_OK, \<lparr>j_type = nal_type u, j_header_bytes = 1, j_svc = - 1\<rparr>, c)"
    by (simp add: r(1) nal_type_def)
  have ns: "\<not> slice_type (nal_type u)" using assms(3) by (simp add: plain_def nal_type_def)
  note flags = no_change [of "d\<lparr>d_strm := (d_strm d)\<lparr>st_nalu_type := nal_type u\<rparr>, d_slice := (d_slice d)\<lparr>bitctx := c\<rparr>\<rparr>"]
  show thesis
    by (rule that [of c])
      (use c ns assms(4-6) flags in \<open>simp add: judge_is_new_frame_def Let_def not_less del: One_nat_def\<close>)
qed

text \<open>
  What the two ways to append a byte share: on a unit that is no slice they add the byte, set the
  type when the header is complete, and change nothing else.
\<close>

definition kept :: "h264d_strm \<Rightarrow> h264d_strm \<Rightarrow> bool" where
  "kept st st' \<longleftrightarrow> startcode_found st' = startcode_found st \<and> prefixdata st' = prefixdata st
     \<and> nalu_offset st' = nalu_offset st"

locale nalu_appender =
  fixes app :: "u8 \<Rightarrow> h264d_dec \<Rightarrow> (mpp_ret \<times> bool \<times> h264d_dec) option"
  assumes append_plain: "\<lbrakk>unit_ok (d_strm d) us u; is_new_frame d = 0; have_slice_data d = 0; plain (hd (u @ [b]))\<rbrakk>
    \<Longrightarrow> \<exists>d'. app b d = Some (MPP_OK, False, d') \<and> unit_ok (d_strm d') us (u @ [b])
          \<and> kept (d_strm d) (d_strm d') \<and> erase d' = erase d \<and> d_inp d' = d_inp d"

lemma put_nalu_byte_unit:
  assumes "unit_ok st us u"
  obtains st' where "put_nalu_byte b st = Some (MPP_OK, st')" and "kept st st'" and "nalu_len st' = Suc (length u)"
    and "unit_ok (st'\<lparr>st_nalu_type := t\<rparr>) us (u @ [b]) \<longleftrightarrow> t = nal_type (u @ [b]) \<and> plain (hd (u @ [b]))"
    and "take (Suc (length u)) (nalu_bytes st') = u @ [b]" and "8 \<le> length (nalu_bytes st')"
    and "st_nalu_type st' = st_nalu_type st"
proof -
  have ok: "buffers_ok st" "nalu_len st \<le> nalu_max_size st" "nalu_len st = length u"
    "take (nalu_len st) (nalu_bytes st) = u" using assms by (simp_all add: unit_ok_def)
  obtain m n where m: "put_nalu_byte b st = Some (MPP_OK, st\<lparr>nalu_buf := Heap m, nalu_max_size := n, nalu_len := nalu_len st + 1\<rparr>)"
    "length m = n" "nalu_len st < n" "nalu_max_size st \<le> n"
    "take (nalu_len st + 1) m = take (nalu_len st) (nalu_bytes st) @ [b]"
    using put_nalu_byte_ok [OF ok(1,2)] .
  show thesis
    by (rule that, rule m(1))
      (use m ok assms in \<open>auto simp: kept_def unit_ok_def buffers_ok_def nalu_bytes_def\<close>)
qed

interpretation split: nalu_appender append_split
proof
  fix d :: h264d_dec and us u b
  assume u: "unit_ok (d_strm d) us u" and f: "is_new_frame d = 0" "have_slice_data d = 0" and p: "plain (hd (u @ [b]))"
  obtain st where st: "put_nalu_byte b (d_strm d) = Some (MPP_OK, st)" "kept (d_strm d) st" "nalu_len st = Suc (length u)"
    "unit_ok (st\<lparr>st_nalu_type := nal_type (u @ [b])\<rparr>) us (u @ [b])"
    "take (Suc (length u)) (nalu_bytes st) = u @ [b]" "8 \<le> length (nalu_bytes st)" "st_nalu_type st = st_nalu_type (d_strm d)"
    using put_nalu_byte_unit [OF u, of b "nal_type (u @ [b])"] p by metis
  obtain c where c: "judge_is_new_frame (d\<lparr>d_strm := st\<rparr>) = Some (MPP_OK, d\<lparr>d_strm := st\<lparr>st_nalu_type := nal_type (u @ [b])\<rparr>,
      d_slice := (d_slice d)\<lparr>bitctx := c\<rparr>\<rparr>)"
    using judge_plain [of "d\<lparr>d_strm := st\<rparr>" "u @ [b]"] st p f by auto
  have t: "st_nalu_type st = nal_type (u @ [b])" if "u \<noteq> []"
    using that u st(7) by (simp add: unit_ok_def nal_type_def)
  show "\<exists>d'. append_split b d = Some (MPP_OK, False, d') \<and> unit_ok (d_strm d') us (u @ [b])
          \<and> kept (d_strm d) (d_strm d') \<and> erase d' = erase d \<and> d_inp d' = d_inp d"
  proof (cases "nalu_len st = 1 \<or> nalu_len st = 5")
    case True
    with st c f show ?thesis by (simp add: append_split_def Let_def kept_def erase_def)
  next
    case False
    then have "st\<lparr>st_nalu_type := nal_type (u @ [b])\<rparr> = st" using t st(3) by (cases st) auto
    with False st show ?thesis by (simp add: append_split_def Let_def erase_def)
  qed
qed

interpretation fast: nalu_appender append_fast
proof
  fix d :: h264d_dec and us u b
  assume u: "unit_ok (d_strm d) us u" and f: "is_new_frame d = 0" "have_slice_data d = 0" and p: "plain (hd (u @ [b]))"
  obtain st where st: "put_nalu_byte b (d_strm d) = Some (MPP_OK, st)" "kept (d_strm d) st" "nalu_len st = Suc (length u)"
    "unit_ok (st\<lparr>st_nalu_type := nal_type (u @ [b])\<rparr>) us (u @ [b])"
    "take (Suc (length u)) (nalu_bytes st) = u @ [b]" "8 \<le> length (nalu_bytes st)" "st_nalu_type st = st_nalu_type (d_strm d)"
    using put_nalu_byte_unit [OF u, of b "nal_type (u @ [b])"] p by metis
  have t: "st_nalu_type st = nal_type (u @ [b])" if "u \<noteq> []"
    using that u st(7) by (simp add: unit_ok_def nal_type_def)
  have h: "uint (nalu_bytes st ! 0) AND 31 = nal_type (u @ [b])"
    using st(5,6) by (cases "nalu_bytes st"; cases u) (auto simp: nal_type_def)
  have ty: "nal_type (u @ [b]) \<noteq> 1" "nal_type (u @ [b]) \<noteq> 5" "nal_type (u @ [b]) \<noteq> 20"
    using p by (auto simp: plain_def nal_type_def slice_type_def)
  show "\<exists>d'. append_fast b d = Some (MPP_OK, False, d') \<and> unit_ok (d_strm d') us (u @ [b])
          \<and> kept (d_strm d) (d_strm d') \<and> erase d' = erase d \<and> d_inp d' = d_inp d"
  proof (cases "nalu_len st = 1")
    case True
    with st h ty show ?thesis by (simp add: append_fast_def Let_def kept_def erase_def)
  next
    case False
    then have "st\<lparr>st_nalu_type := nal_type (u @ [b])\<rparr> = st" using t st(3) by (cases st) auto
    with False st show ?thesis by (simp add: append_fast_def Let_def erase_def)
  qed
qed

section \<open>The end of a unit\<close>

lemma strip_zeros_drop_zeros:
  "n \<le> length m \<Longrightarrow> drop_zeros (take n m) \<noteq> [] \<Longrightarrow>
     strip_zeros m n = Some (length (drop_zeros (take n m)))"
proof (induction n)
  case (Suc n)
  then have "take (Suc n) m = take n m @ [m ! n]" by (simp add: take_Suc_conv_app_nth)
  with Suc show ?case by (cases "m ! n = 0") (auto simp: drop_zeros_def)
qed (simp add: drop_zeros_def)

lemma drop_zeros_prefix: "take (length (drop_zeros u)) u = drop_zeros u"
proof -
  have "takeWhile (\<lambda>b. b = 0) (rev u) @ dropWhile (\<lambda>b. b = 0) (rev u) = rev u" by simp
  then have "rev u = takeWhile (\<lambda>b. b = 0) (rev u) @ rev (drop_zeros u)" by (simp add: drop_zeros_def)
  then have "u = drop_zeros u @ rev (takeWhile (\<lambda>b. b = 0) (rev u))" by (metis rev_append rev_rev_ident)
  then show ?thesis by (metis append_eq_conv_conj)
qed

lemma drop_zeros_hd:
  assumes "u \<noteq> []" and "hd u \<noteq> 0"
  shows "drop_zeros u \<noteq> []" and "hd (drop_zeros u) = hd u"
proof -
  have "\<exists>b \<in> set (rev u). b \<noteq> 0" using assms by (cases u) auto
  then show *: "drop_zeros u \<noteq> []" by (auto simp: drop_zeros_def dropWhile_eq_Nil_conv)
  then show "hd (drop_zeros u) = hd u"
    using drop_zeros_prefix [of u] assms(1) by (metis hd_take length_greater_0_conv)
qed

lemma length_nalu_head [simp]: "length (nalu_head a b c) = 8"
  by (simp add: nalu_head_def)

definition head_ok :: "h264d_strm \<Rightarrow> bool" where
  "head_ok st \<longleftrightarrow> length (head_buf st) = head_max_size st \<and> head_offset st \<le> head_max_size st"

lemma buffers_head: "buffers_ok st \<Longrightarrow> head_ok st"
  by (simp add: buffers_ok_def head_ok_def)

lemma head_room_ok:
  assumes "head_ok st" and "n \<le> g"
  obtains m k where "head_room n g st = st\<lparr>head_buf := m, head_max_size := k\<rparr>" and "length m = k"
    and "head_offset st + n \<le> k" and "take (head_offset st) m = take (head_offset st) (head_buf st)"
proof (cases "head_offset st + n \<ge> head_max_size st")
  case True
  have al: "g \<le> MPP_ALIGN g 16" by (simp add: MPP_ALIGN_def)
  show thesis
    by (rule that [where m = "head_buf st @ replicate (MPP_ALIGN g 16) 0" and k = "head_max_size st + MPP_ALIGN g 16"])
      (use True assms al in \<open>auto simp: head_room_def realloc_buffer_def head_ok_def Let_def\<close>)
qed (use assms that [where m = "head_buf st" and k = "head_max_size st"] in \<open>simp add: head_room_def head_ok_def\<close>)

text \<open>Storing a unit appends its entry to \<open>head_buf\<close>.\<close>

lemma store_head_unit:
  assumes "head_ok st" and "nalu_len st = length w" and "take (length w) (nalu_bytes st) = w"
    and "st_nalu_type st = nal_type w"
  obtains m k h where "store_head st = Some (st\<lparr>head_buf := m, head_max_size := k, head_offset := h\<rparr>)"
    and "length m = k" and "h \<le> k" and "take h m = take (head_offset st) (head_buf st) @ unit_entry w"
proof (cases "stored_type (nal_type w)")
  case False
  then show thesis using assms that [where m = "head_buf st" and k = "head_max_size st" and h = "head_offset st"]
    by (simp add: store_head_def unit_entry_def head_ok_def)
next
  case True
  define n where "n = min 12800 (length w)"
  obtain m k where m: "head_room (n + 8) (n + 8) st = st\<lparr>head_buf := m, head_max_size := k\<rparr>" "length m = k"
    "head_offset st + (n + 8) \<le> k" "take (head_offset st) m = take (head_offset st) (head_buf st)"
    using head_room_ok [OF assms(1) order_refl, of "n + 8"] .
  have tk: "take n (nalu_bytes st) = take 12800 w"
    using assms(3) by (metis n_def min.commute take_take)
  have "length w \<le> length (nalu_bytes st)" using assms(3) by (metis length_take min.cobounded1)
  then have nl: "n \<le> length (nalu_bytes st)" by (simp add: n_def)
  have e: "unit_entry w = nalu_head 0 (word_of_int (nal_type w)) (of_nat n) @ take n (nalu_bytes st)"
    using True by (simp add: unit_entry_def tk n_def [symmetric])
  then have le: "length (unit_entry w) = n + 8" using nl by simp
  show thesis
  proof (rule that)
    show "store_head st = Some (st\<lparr>head_buf := store m (head_offset st) (unit_entry w),
        head_max_size := k, head_offset := head_offset st + (n + 8)\<rparr>)"
      using True m(1) nl assms(2,4)
      by (simp add: store_head_def n_def [symmetric] Let_def e nalu_bytes_def)
    show "take (head_offset st + (n + 8)) (store m (head_offset st) (unit_entry w))
        = take (head_offset st) (head_buf st) @ unit_entry w"
      using take_store_end [of "head_offset st" "unit_entry w" m] m(2-4) le by simp
  qed (use m in simp_all)
qed

lemma store_unit:
  assumes "head_ok st" and "nalu_len st = length w" and "take (length w) (nalu_bytes st) = w"
    and "st_nalu_type st = nal_type w" and "st = d_strm d" and "\<not> slice_type (nal_type w)"
  obtains m k h where "store_cur_nalu d = Some (MPP_OK, d\<lparr>d_strm := st\<lparr>head_buf := m, head_max_size := k, head_offset := h\<rparr>\<rparr>)"
    and "length m = k" and "h \<le> k" and "take h m = take (head_offset st) (head_buf st) @ unit_entry w"
  by (rule store_head_unit [OF assms(1-4)])
    (use assms(4-6) that in \<open>simp add: store_cur_nalu_def store_strm_def\<close>)

lemma end_of_unit:
  assumes "unit_ok (st\<lparr>endcode_found := 0\<rparr>) us u" and "st = d_strm d" and "3 \<le> length u" and "endcode_found st = 1"
  defines "w \<equiv> drop_zeros (take (length u - 3) u)"
  assumes "drop_zeros (take (length u - 3) u) \<noteq> []"
  obtains st' where "end_of_nalu d = Some (MPP_OK, d\<lparr>d_strm := st', nalu_ret := EndOfNalu\<rparr>)"
    and "unit_ok st' (us @ [w]) []" and "startcode_found st' = 1" and "prefixdata st' = prefixdata st"
    and "nalu_offset st' = nalu_offset st"
proof -
  have a: "buffers_ok st" "nalu_len st = length u" "take (length u) (nalu_bytes st) = u" "st_nalu_type st = nal_type u"
    "plain (hd u)" "take (head_offset st) (head_buf st) = concat (map unit_entry us)" "length u \<le> length (nalu_bytes st)"
    using assms(1,3) by (auto simp: unit_ok_def buffers_ok_def nalu_bytes_def split: if_splits)
  have u: "take (length u - 3) u = take (length u - 3) (nalu_bytes st)"
    using a(3) by (metis diff_le_self min.absorb1 take_take)
  have ne: "take (length u - 3) u \<noteq> []" using assms(6) by (auto simp: drop_zeros_def)
  have w: "strip_zeros (nalu_bytes st) (length u - 3) = Some (length w)" "take (length w) (nalu_bytes st) = w" "hd w = hd u"
  proof -
    show "strip_zeros (nalu_bytes st) (length u - 3) = Some (length w)"
      using strip_zeros_drop_zeros [of "length u - 3" "nalu_bytes st"] assms(6) a(7) by (simp add: w_def u)
    have "hd (take (length u - 3) u) = hd u" using ne by (metis hd_take length_greater_0_conv take_eq_Nil zero_less_iff_neq_zero)
    then show "hd w = hd u" using drop_zeros_hd(2) [OF ne] a(5) by (simp add: w_def plain_def)
    have "length w \<le> length u - 3" using drop_zeros_prefix [of "take (length u - 3) u"]
      by (metis assms(5) length_take min.cobounded1 min.bounded_iff w_def)
    have "take (length w) (take (length u - 3) u) = w" unfolding w_def by (rule drop_zeros_prefix)
    with \<open>length w \<le> length u - 3\<close> show "take (length w) (nalu_bytes st) = w" by (simp add: u min_absorb1)
  qed
  have ty: "nal_type w = nal_type u" "\<not> slice_type (nal_type w)" using a(5) w(3) by (simp_all add: nal_type_def plain_def)
  define d1 where "d1 = d\<lparr>d_strm := st\<lparr>nalu_len := length w\<rparr>, nalu_ret := EndOfNalu\<rparr>"
  define st1 where "st1 = st\<lparr>nalu_len := length w\<rparr>"
  have p: "buffers_ok st1" "nalu_len st1 = length w" "take (length w) (nalu_bytes st1) = w"
    "st_nalu_type st1 = nal_type w" "st1 = d_strm d1" "head_offset st1 = head_offset st" "head_buf st1 = head_buf st"
    using a(1,4) w(2) ty(1) by (simp_all add: st1_def d1_def buffers_ok_def nalu_bytes_def)
  obtain m k h where s: "store_cur_nalu d1 = Some (MPP_OK, d1\<lparr>d_strm := st1\<lparr>head_buf := m, head_max_size := k, head_offset := h\<rparr>\<rparr>)"
    "length m = k" "h \<le> k" "take h m = take (head_offset st1) (head_buf st1) @ unit_entry w"
    using store_unit [OF buffers_head [OF p(1)] p(2-5) ty(2)] .
  show thesis
  proof (rule that)
    show "end_of_nalu d = Some (MPP_OK, d\<lparr>d_strm := reset_nalu (st1\<lparr>head_buf := m, head_max_size := k, head_offset := h\<rparr>),
        nalu_ret := EndOfNalu\<rparr>)"
      using s(1) w(1) a(2,7) assms(2,3)
      by (simp add: end_of_nalu_def d1_def [symmetric] st1_def [symmetric] not_less) (simp add: d1_def)
    show "unit_ok (reset_nalu (st1\<lparr>head_buf := m, head_max_size := k, head_offset := h\<rparr>)) (us @ [w]) []"
      using s(2-4) a(1,6) assms(4) p(6,7) by (simp add: reset_nalu_def unit_ok_def buffers_ok_def st1_def)
  qed (use assms(4) in \<open>simp_all add: reset_nalu_def st1_def\<close>)
qed

section \<open>The loop over a packet\<close>

text \<open>No unit of the stream begins with a slice header or with zero.\<close>

fun plain_run :: "scan_state \<Rightarrow> u8 list \<Rightarrow> bool" where
  "plain_run s [] = True"
| "plain_run s (b # bs) = ((fst s \<and> snd (snd s) = [] \<longrightarrow> plain b) \<and> plain_run (scan s b) bs)"

lemma plain_run_append: "plain_run s (xs @ ys) \<longleftrightarrow> plain_run s xs \<and> plain_run (foldl scan s xs) ys"
  by (induction xs arbitrary: s) auto

lemma find_prefix_fields [simp]:
  "nalu_offset (find_prefix_code b st) = nalu_offset st"
  "unit_ok (find_prefix_code b st\<lparr>endcode_found := e\<rparr>) us u = unit_ok (st\<lparr>endcode_found := e\<rparr>) us u"
  by (simp_all add: find_prefix_code_def Let_def unit_ok_def buffers_ok_def nalu_bytes_def)

lemma unit_ok_prefix:
  "endcode_found st = 0 \<Longrightarrow> endcode_found (find_prefix_code b st) = 0 \<Longrightarrow> unit_ok (find_prefix_code b st) us u = unit_ok st us u"
  by (simp add: find_prefix_code_def Let_def unit_ok_def buffers_ok_def nalu_bytes_def)

lemma find_prefix_scan:
  fixes b :: u8
  assumes "prefix_ok (prefixdata st) u" and "endcode_found st = 0" and "startcode_found st = of_bool sc"
  defines "st' \<equiv> find_prefix_code b st"
  shows "endcode_found st' = of_bool (sc \<and> ends_with [0, 0, 1] (u @ [b]))"
    and "startcode_found st' = of_bool (sc \<or> ends_with [0, 0, 1] (u @ [b]))"
    and "prefix_ok (prefixdata st') (if ends_with [0, 0, 1] (u @ [b]) then [] else u @ [b])"
  using assms(2,3) prefix_ok_step [OF assms(1), of b]
  by (auto simp: st'_def find_prefix_code_def Let_def ends_with_start)

lemma unit_ok_start:
  "unit_ok st us u \<Longrightarrow> endcode_found st = 0"
  by (simp add: unit_ok_def)

lemma scanned_advance:
  "scanned s d \<Longrightarrow> scanned s (d\<lparr>d_strm := (d_strm d)\<lparr>nalu_offset := x\<rparr>, d_inp := i\<rparr>)"
  by (cases s) (simp add: unit_ok_def buffers_ok_def nalu_bytes_def)

lemma take_Suc_drop:
  assumes "take (Suc n) (drop p m) = b # bs"
  shows "p < length m" and "m ! p = b" and "take n (drop (Suc p) m) = bs"
proof -
  show p: "p < length m" using assms by (cases "p < length m") simp_all
  then have "drop p m = m ! p # drop (Suc p) m" by (simp add: Cons_nth_drop_Suc)
  then show "m ! p = b" "take n (drop (Suc p) m) = bs" using assms by simp_all
qed

lemma prepare_loop_step:
  assumes "nalu_offset (d_strm d) < length (in_buf (d_inp d))" and "in_buf (d_inp d) ! nalu_offset (d_strm d) = b"
    and "d\<lparr>d_strm := (d_strm d)\<lparr>nalu_offset := nalu_offset (d_strm d) + 1\<rparr>,
           d_inp := (d_inp d)\<lparr>pkt_impl_length := n\<rparr>\<rparr> = d1"
    and "(if startcode_found (d_strm d1) \<noteq> 0 then app b d1 else Some (MPP_OK, False, d1)) = Some (MPP_OK, False, d2)"
    and "d2\<lparr>d_strm := find_prefix_code b (d_strm d2)\<rparr> = d3"
  shows "prepare_loop app (Suc n) d = (if endcode_found (d_strm d3) \<noteq> 0 then end_of_nalu d3 else prepare_loop app n d3)"
proof -
  have "upd_strm (find_prefix_code b) d2 = d3" using assms(5) by (cases d2) simp
  with assms(1) show ?thesis
    by (simp only: prepare_loop.simps Let_def assms(2-4) option.case prod.case if_False if_True simp_thms) simp
qed

context nalu_appender
begin

lemma byte_step:
  assumes "scanned (sc, us, u) d" and "sc \<and> u = [] \<longrightarrow> plain b"
  obtains d' st' where "(if startcode_found (d_strm d) \<noteq> 0 then app b d else Some (MPP_OK, False, d)) = Some (MPP_OK, False, d')"
    and "st' = find_prefix_code b (d_strm d')"
    and "erase d' = erase d" and "d_inp d' = d_inp d" and "nalu_offset st' = nalu_offset (d_strm d)"
    and "endcode_found st' = of_bool (sc \<and> ends_with [0, 0, 1] (u @ [b]))"
    and "startcode_found st' = of_bool (sc \<or> ends_with [0, 0, 1] (u @ [b]))"
    and "prefix_ok (prefixdata st') (if ends_with [0, 0, 1] (u @ [b]) then [] else u @ [b])"
    and "unit_ok (st'\<lparr>endcode_found := 0\<rparr>) us (if sc then u @ [b] else [])"
proof (cases sc)
  case True
  have s: "unit_ok (d_strm d) us u" "is_new_frame d = 0" "have_slice_data d = 0"
    "startcode_found (d_strm d) = 1" "prefix_ok (prefixdata (d_strm d)) u"
    using assms(1) True by simp_all
  have "plain (hd (u @ [b]))" using assms(2) True s(1) by (cases u) (auto simp: unit_ok_def)
  from append_plain [OF s(1-3) this] obtain d' where d': "app b d = Some (MPP_OK, False, d')"
    "unit_ok (d_strm d') us (u @ [b])" "kept (d_strm d) (d_strm d')" "erase d' = erase d" "d_inp d' = d_inp d"
    by blast
  then have k: "prefix_ok (prefixdata (d_strm d')) u" "endcode_found (d_strm d') = 0"
    "startcode_found (d_strm d') = of_bool True" "nalu_offset (d_strm d') = nalu_offset (d_strm d)"
    using s by (simp_all add: kept_def unit_ok_start)
  have "(d_strm d')\<lparr>endcode_found := 0\<rparr> = d_strm d'" using k(2) by (cases "d_strm d'") simp
  with that [of d' "find_prefix_code b (d_strm d')"] find_prefix_scan [OF k(1-3), of b] d' k(4) s(4) True
  show thesis by simp
next
  case False
  have s: "unit_ok (d_strm d) us []" "startcode_found (d_strm d) = of_bool False" "prefix_ok (prefixdata (d_strm d)) u"
    using assms(1) False by simp_all
  note e = unit_ok_start [OF s(1)]
  then have "(d_strm d)\<lparr>endcode_found := 0\<rparr> = d_strm d" by (cases "d_strm d") simp
  with that [of d "find_prefix_code b (d_strm d)"] find_prefix_scan [OF s(3) e s(2), of b] s False
  show thesis by simp
qed

lemma loop_byte:
  assumes "scanned s d" and "fst s \<and> snd (snd s) = [] \<longrightarrow> plain b"
    and "nalu_offset (d_strm d) < length (in_buf (d_inp d))" and "in_buf (d_inp d) ! nalu_offset (d_strm d) = b"
  obtains d' where "scanned (scan s b) d'" and "erase d' = erase d" and "d_inp d' = (d_inp d)\<lparr>pkt_impl_length := n\<rparr>"
    and "nalu_offset (d_strm d') = Suc (nalu_offset (d_strm d))"
    and "prepare_loop app (Suc n) d =
      (if fst s \<and> ends_with [0, 0, 1] (snd (snd s) @ [b]) then Some (MPP_OK, d') else prepare_loop app n d')"
proof -
  obtain sc us u where s: "s = (sc, us, u)" by (cases s)
  define d1 where "d1 = d\<lparr>d_strm := (d_strm d)\<lparr>nalu_offset := nalu_offset (d_strm d) + 1\<rparr>,
    d_inp := (d_inp d)\<lparr>pkt_impl_length := n\<rparr>\<rparr>"
  have s1: "scanned (sc, us, u) d1" "erase d1 = erase d" "d_inp d1 = (d_inp d)\<lparr>pkt_impl_length := n\<rparr>"
    "nalu_offset (d_strm d1) = nalu_offset (d_strm d) + 1"
    using scanned_advance [OF assms(1)] by (simp_all only: d1_def s) (simp_all add: erase_def)
  have "sc \<and> u = [] \<longrightarrow> plain b" using assms(2) by (simp add: s)
  from byte_step [OF s1(1) this] obtain d2 st where d2:
    "(if startcode_found (d_strm d1) \<noteq> 0 then app b d1 else Some (MPP_OK, False, d1)) = Some (MPP_OK, False, d2)"
    "st = find_prefix_code b (d_strm d2)" "erase d2 = erase d1" "d_inp d2 = d_inp d1" "nalu_offset st = nalu_offset (d_strm d1)"
    "endcode_found st = of_bool (sc \<and> ends_with [0, 0, 1] (u @ [b]))"
    "startcode_found st = of_bool (sc \<or> ends_with [0, 0, 1] (u @ [b]))"
    "prefix_ok (prefixdata st) (if ends_with [0, 0, 1] (u @ [b]) then [] else u @ [b])"
    "unit_ok (st\<lparr>endcode_found := 0\<rparr>) us (if sc then u @ [b] else [])" .
  define d3 where "d3 = d2\<lparr>d_strm := st\<rparr>"
  have flags: "is_new_frame d3 = 0" "have_slice_data d3 = 0"
    using erase_fields [OF d2(3)] s1 by (simp_all add: d3_def)
  have d3: "d_strm d3 = st" "d2\<lparr>d_strm := find_prefix_code b (d_strm d2)\<rparr> = d3" by (simp_all add: d3_def d2(2))
  have loop: "prepare_loop app (Suc n) d = (if endcode_found st \<noteq> 0 then end_of_nalu d3 else prepare_loop app n d3)"
    unfolding d3(1) [symmetric] using assms(3,4) d1_def [symmetric] d2(1) d3(2) by (rule prepare_loop_step)
  show thesis
  proof (cases "sc \<and> ends_with [0, 0, 1] (u @ [b])")
    case True
    then have e1: "endcode_found st = 1" and l: "3 \<le> length (u @ [b])"
      using d2(6) ends_with_length [of "[0, 0, 1]" "u @ [b]"] by simp_all
    have u: "unit_ok (st\<lparr>endcode_found := 0\<rparr>) us (u @ [b])" using d2(9) True by simp
    have t: "take (length (u @ [b]) - 3) (u @ [b]) = take (length u - 2) u" using l by simp
    have "plain (hd u)" using u l by (cases u) (auto simp: unit_ok_def)
    then have hd: "u \<noteq> []" "hd u \<noteq> 0" using l by (auto simp: plain_def)
    have "ends_with [0, 0] u" using True by (simp add: ends_with_start)
    then have "length u \<noteq> 2" using hd by (cases u) (auto simp: ends_with_def)
    then have ne: "take (length u - 2) u \<noteq> []" "hd (take (length u - 2) u) \<noteq> 0" using l hd by (auto simp: hd_take)
    from end_of_unit [OF u _ l e1, of d3] drop_zeros_hd(1) [OF ne] obtain st' where
      e: "end_of_nalu d3 = Some (MPP_OK, d3\<lparr>d_strm := st', nalu_ret := EndOfNalu\<rparr>)"
      "unit_ok st' (us @ [drop_zeros (take (length u - 2) u)]) []" "startcode_found st' = 1"
      "prefixdata st' = prefixdata st" "nalu_offset st' = nalu_offset st"
      unfolding t by (auto simp: d3_def)
    define d' where "d' = d3\<lparr>d_strm := st', nalu_ret := EndOfNalu\<rparr>"
    have "scanned (scan s b) d'" using e(2-4) True flags d2(8) by (simp add: s d'_def)
    then show ?thesis
      by (rule that) (use e(1,5) loop e1 True d2(3-5) s1(2-4) in \<open>simp_all add: s d'_def d3_def\<close>)
  next
    case False
    then have e: "endcode_found st = 0" using d2(6) by simp
    then have "st\<lparr>endcode_found := 0\<rparr> = st" by (cases st) simp
    with d2(9) have "unit_ok st us (if sc then u @ [b] else [])" by simp
    then have "scanned (scan s b) d3" using d2(7,8) False flags by (auto simp: s d3_def)
    then show ?thesis
      by (rule that) (use loop e False d2(3-5) s1(2-4) in \<open>auto simp: s d3_def\<close>)
  qed
qed

text \<open>The loop stops behind the start code that ends a unit, or at the end of the packet.\<close>

lemma loop_scans:
  assumes "scanned s d" and "plain_run s bs" and "length bs = n"
    and "take n (drop (nalu_offset (d_strm d)) (in_buf (d_inp d))) = bs"
  shows "\<exists>k d'. prepare_loop app n d = Some (MPP_OK, d') \<and> k \<le> n \<and> (0 < n \<longrightarrow> 0 < k)
    \<and> scanned (foldl scan s (take k bs)) d' \<and> erase d' = erase d
    \<and> d_inp d' = (if n = 0 then d_inp d else (d_inp d)\<lparr>pkt_impl_length := n - k\<rparr>)
    \<and> nalu_offset (d_strm d') = nalu_offset (d_strm d) + k"
  using assms
proof (induction n arbitrary: s d bs)
  case 0
  then show ?case by (intro exI [of _ 0] exI [of _ d]) simp
next
  case (Suc n)
  obtain b bs' where bs: "bs = b # bs'" "length bs' = n" using Suc.prems(3) by (cases bs) auto
  note o = take_Suc_drop [OF Suc.prems(4) [unfolded bs(1)]]
  have "fst s \<and> snd (snd s) = [] \<longrightarrow> plain b" and p: "plain_run (scan s b) bs'"
    using Suc.prems(2) by (simp_all add: bs)
  from loop_byte [OF Suc.prems(1) this(1) o(1,2), where n = n] obtain d1 where d1: "scanned (scan s b) d1"
    "erase d1 = erase d" "d_inp d1 = (d_inp d)\<lparr>pkt_impl_length := n\<rparr>" "nalu_offset (d_strm d1) = Suc (nalu_offset (d_strm d))"
    "prepare_loop app (Suc n) d = (if fst s \<and> ends_with [0, 0, 1] (snd (snd s) @ [b]) then Some (MPP_OK, d1) else prepare_loop app n d1)" .
  show ?case
  proof (cases "fst s \<and> ends_with [0, 0, 1] (snd (snd s) @ [b])")
    case True
    with d1 show ?thesis by (intro exI [of _ 1] exI [of _ d1]) (simp add: bs)
  next
    case False
    have "take n (drop (nalu_offset (d_strm d1)) (in_buf (d_inp d1))) = bs'" using o(3) d1(3,4) by simp
    from Suc.IH [OF d1(1) p bs(2) this] obtain k d' where k: "prepare_loop app n d1 = Some (MPP_OK, d')" "k \<le> n"
      "scanned (foldl scan (scan s b) (take k bs')) d'" "erase d' = erase d1"
      "d_inp d' = (if n = 0 then d_inp d1 else (d_inp d1)\<lparr>pkt_impl_length := n - k\<rparr>)"
      "nalu_offset (d_strm d') = nalu_offset (d_strm d1) + k"
      by blast
    have "prepare_loop app (Suc n) d = Some (MPP_OK, d')" using d1(5) False k(1) by (simp only: if_False)
    then show ?thesis
      using k(2-6) d1(2-4) by (intro exI [of _ "Suc k"] exI [of _ d']) (auto simp add: bs)
  qed
qed

text \<open>The first start code of a packet leads into its first unit.\<close>

lemma loop_start_code:
  assumes "scanned (False, us, h) d" and "take 3 (drop (nalu_offset (d_strm d)) (in_buf (d_inp d))) = [0, 0, 1]"
  obtains d' where "prepare_loop app (Suc (Suc (Suc r))) d = prepare_loop app r d'" and "scanned (True, us, []) d'"
    and "erase d' = erase d" and "d_inp d' = (d_inp d)\<lparr>pkt_impl_length := r\<rparr>"
    and "nalu_offset (d_strm d') = nalu_offset (d_strm d) + 3"
proof -
  let ?o = "nalu_offset (d_strm d)" and ?m = "in_buf (d_inp d)"
  note t1 = take_Suc_drop [of 2 ?o ?m 0 "[0, 1]"]
  have o: "?o < length ?m" "?m ! ?o = 0" "take 2 (drop (Suc ?o) ?m) = [0, 1]" using t1 assms(2) by simp_all
  note t2 = take_Suc_drop [of 1 "Suc ?o" ?m 0 "[1]"]
  have o2: "Suc ?o < length ?m" "?m ! Suc ?o = 0" "take 1 (drop (Suc (Suc ?o)) ?m) = [1]"
    using t2 o(3) by (simp_all add: numeral_2_eq_2)
  note o3 = take_Suc_drop [of 0 "Suc (Suc ?o)" ?m 1 "[]"]
  have o3: "Suc (Suc ?o) < length ?m" "?m ! Suc (Suc ?o) = 1" using o3 o2(3) by simp_all
  have sc: "scan (False, us, h) 0 = (False, us, h @ [0])" "scan (False, us, h @ [0]) 0 = (False, us, h @ [0, 0])"
    "scan (False, us, h @ [0, 0]) 1 = (True, us, [])"
    using ends_with_append [of "[0, 0, 1]" "[0, 0, 1]" h] ends_with_start [of "h @ [0]" 0] by (simp_all add: ends_with_start)
  note e = ends_with_start
  note [simp del] = prepare_loop.simps scan.simps scanned.simps
  obtain d1 where d1: "scanned (False, us, h @ [0]) d1" "erase d1 = erase d" "d_inp d1 = (d_inp d)\<lparr>pkt_impl_length := Suc (Suc r)\<rparr>"
    "nalu_offset (d_strm d1) = Suc ?o" "prepare_loop app (Suc (Suc (Suc r))) d = prepare_loop app (Suc (Suc r)) d1"
    by (rule loop_byte [OF assms(1) _ o(1,2), where n = "Suc (Suc r)"]) (simp_all add: sc e)
  obtain d2 where d2: "scanned (False, us, h @ [0, 0]) d2" "erase d2 = erase d1" "d_inp d2 = (d_inp d1)\<lparr>pkt_impl_length := Suc r\<rparr>"
    "nalu_offset (d_strm d2) = Suc (Suc ?o)" "prepare_loop app (Suc (Suc r)) d1 = prepare_loop app (Suc r) d2"
    by (rule loop_byte [OF d1(1), where b = 0 and n = "Suc r"]) (use d1 o2 in \<open>simp_all add: sc e\<close>)
  obtain d3 where d3: "scanned (True, us, []) d3" "erase d3 = erase d2" "d_inp d3 = (d_inp d2)\<lparr>pkt_impl_length := r\<rparr>"
    "nalu_offset (d_strm d3) = Suc (Suc (Suc ?o))" "prepare_loop app (Suc r) d2 = prepare_loop app r d3"
    by (rule loop_byte [OF d2(1), where b = 1 and n = r]) (use d1 d2 o3 in \<open>simp_all add: sc e\<close>)
  with that [of d3] d1 d2 d3 show thesis by simp
qed

end

section \<open>Packets\<close>

text \<open>The state between packets of a stream with start codes.\<close>

definition between_packets :: "scan_state \<Rightarrow> h264d_dec \<Rightarrow> bool" where
  "between_packets s d \<longleftrightarrow> scanned s d \<and> nalu_offset (d_strm d) = 0 \<and> is_nalff (d_inp d) = 0
     \<and> has_get_eos (d_inp d) = 0 \<and> \<not> un_spt (d_slice d)"

text \<open>Inside a packet, with \<open>bs\<close> left.\<close>

definition in_packet :: "scan_state \<Rightarrow> u8 list \<Rightarrow> h264d_dec \<Rightarrow> bool" where
  "in_packet s bs d \<longleftrightarrow> scanned s d \<and> pkt_eos (d_inp d) = 0 \<and> pkt_impl_length (d_inp d) = length bs
     \<and> in_length (d_inp d) = length bs
     \<and> nalu_offset (d_strm d) = (if bs = [] then 0 else length (in_buf (d_inp d)) - length bs)
     \<and> (bs \<noteq> [] \<longrightarrow> drop (length (in_buf (d_inp d)) - length bs) (in_buf (d_inp d)) = bs)"

lemma scanned_update [simp]:
  "scanned s (d\<lparr>d_inp := i\<rparr>) = scanned s d"
  "scanned s (d\<lparr>nalu_ret := n\<rparr>) = scanned s d"
  "scanned s (d\<lparr>last_dts := t\<rparr>) = scanned s d"
  "scanned s (d\<lparr>last_pts := t\<rparr>) = scanned s d"
  "scanned s (d\<lparr>d_strm := (d_strm d)\<lparr>nalu_offset := x\<rparr>\<rparr>) = scanned s d"
  "scanned s (d\<lparr>d_inp := i, d_strm := (d_strm d)\<lparr>nalu_offset := x\<rparr>\<rparr>) = scanned s d"
  by (cases s; simp add: unit_ok_def buffers_ok_def nalu_bytes_def)+

lemma parse_prepare_scans:
  assumes "in_packet s bs d" and "plain_run s bs"
  obtains k d' where "parse_prepare d = Some (MPP_OK, d')" and "in_packet (foldl scan s (take k bs)) (drop k bs) d'"
    and "bs \<noteq> [] \<longrightarrow> 0 < k" and "task_valid (d_inp d') = 0" and "erase d' = erase d"
proof (cases "bs = []")
  case True
  then show thesis
    using assms(1) that [of "d\<lparr>d_inp := (d_inp d)\<lparr>task_valid := 0\<rparr>, nalu_ret := HaveNoStream\<rparr>" 0]
    by (simp add: parse_prepare_def in_packet_def Let_def erase_def)
next
  case False
  define d0 where "d0 = d\<lparr>nalu_ret := NALU_NULL, d_inp := (d_inp d)\<lparr>task_valid := 0\<rparr>\<rparr>"
  have d0: "scanned s d0" "d_inp d0 = (d_inp d)\<lparr>task_valid := 0\<rparr>" "nalu_offset (d_strm d0) = nalu_offset (d_strm d)"
    "erase d0 = erase d"
    using assms(1) by (simp_all add: d0_def in_packet_def erase_def)
  have p: "pkt_impl_length (d_inp d) = length bs" "in_length (d_inp d) = length bs" "pkt_eos (d_inp d) = 0"
    "nalu_offset (d_strm d) = length (in_buf (d_inp d)) - length bs" "drop (length (in_buf (d_inp d)) - length bs) (in_buf (d_inp d)) = bs"
    using assms(1) False by (simp_all add: in_packet_def)
  then have "take (length bs) (drop (nalu_offset (d_strm d0)) (in_buf (d_inp d0))) = bs" using d0 by simp
  from split.loop_scans [OF d0(1) assms(2) refl this] obtain k d1 where d1: "prepare_loop append_split (length bs) d0 = Some (MPP_OK, d1)"
    "k \<le> length bs" "0 < k" "scanned (foldl scan s (take k bs)) d1" "erase d1 = erase d0"
    "d_inp d1 = (d_inp d0)\<lparr>pkt_impl_length := length bs - k\<rparr>" "nalu_offset (d_strm d1) = nalu_offset (d_strm d0) + k"
    using False by auto
  define d2 where "d2 = d1\<lparr>d_inp := (d_inp d1)\<lparr>in_length := length bs - k\<rparr>\<rparr>"
  have pl: "pkt_impl_length (d_inp d1) = length bs - k" by (simp add: d1(6))
  define d3 where "d3 = (if length bs = k then d2\<lparr>d_strm := (d_strm d2)\<lparr>nalu_offset := 0\<rparr>, nalu_ret := HaveNoStream\<rparr> else d2)"
  have len: "length bs \<le> length (in_buf (d_inp d))" using p(5) by (metis length_drop diff_le_self)
  have res: "parse_prepare d = Some (MPP_OK, d3)"
    unfolding parse_prepare_def Let_def d0_def [symmetric]
    using d0(2) p False d1(1,2) by (cases "k = length bs") (simp_all add: pl d2_def d3_def)
  have "drop (k + (length (in_buf (d_inp d)) - length bs)) (in_buf (d_inp d)) = drop k bs"
    by (metis drop_drop p(5))
  with len have dk: "drop (length (in_buf (d_inp d)) + k - length bs) (in_buf (d_inp d)) = drop k bs"
    by (simp add: add.commute)
  have "in_packet (foldl scan s (take k bs)) (drop k bs) d3"
    using dk d1 d0 p len by (auto simp: in_packet_def d3_def d2_def)
  moreover have "erase d3 = erase d1" by (simp add: d3_def d2_def erase_def)
  moreover have "task_valid (d_inp d3) = 0" using d1 d0 by (simp add: d3_def d2_def)
  ultimately show thesis using that [of d3 k] res d1(3,5) d0(4) by simp
qed

lemma prepare_packet_scans:
  assumes "in_packet s bs d" and "plain_run s bs"
  shows "\<exists>d'. prepare_packet parse_prepare d = Some d' \<and> in_packet (foldl scan s bs) [] d' \<and> task_valid (d_inp d') = 0
    \<and> erase d' = erase d"
  using assms
proof (induction "length bs" arbitrary: s bs d rule: less_induct)
  case less
  obtain k d1 where d1: "parse_prepare d = Some (MPP_OK, d1)" "in_packet (foldl scan s (take k bs)) (drop k bs) d1"
    "bs \<noteq> [] \<longrightarrow> 0 < k" "task_valid (d_inp d1) = 0" "erase d1 = erase d"
    using parse_prepare_scans [OF less.prems] .
  have bs: "foldl scan s bs = foldl scan (foldl scan s (take k bs)) (drop k bs)" by (metis append_take_drop_id foldl_append)
  have p: "plain_run (foldl scan s (take k bs)) (drop k bs)"
    using less.prems(2) by (metis append_take_drop_id plain_run_append)
  have len: "pkt_impl_length (d_inp d1) = length (drop k bs)" using d1(2) by (simp add: in_packet_def)
  show ?case
  proof (cases "drop k bs = []")
    case True
    then have "prepare_packet parse_prepare d = Some d1"
      using d1(1) len by (subst prepare_packet.simps) simp
    with d1 True bs show ?thesis by simp
  next
    case False
    then have "length (drop k bs) < length bs" using d1(3) by auto
    from less.hyps [OF this d1(2) p] obtain d' where d': "prepare_packet parse_prepare d1 = Some d'"
      "in_packet (foldl scan s bs) [] d'" "task_valid (d_inp d') = 0" "erase d' = erase d1" by (auto simp: bs)
    have "prepare_packet parse_prepare d = prepare_packet parse_prepare d1"
      using d1(1,4) len False by (subst prepare_packet.simps) simp
    with d' d1(5) show ?thesis by simp
  qed
qed

text \<open>A packet without the end of the stream.\<close>

definition stream_packet :: "h264d_packet \<Rightarrow> bool" where
  "stream_packet p \<longleftrightarrow> pk_eos p = 0 \<and> pk_length p = length (pk_data p) \<and> pk_length p \<le> 10 * 1024 * 1024
     \<and> \<not> pk_extra_data p"

lemma set_input_ok:
  assumes "between_packets s d" and "stream_packet p"
  defines "d0 \<equiv> (set_input p d)\<lparr>d_inp := (d_inp (set_input p d))\<lparr>is_nalff := 0\<rparr>\<rparr>"
  shows "in_packet s (pk_data p) d0" and "need_split (d_inp d0) = need_split (d_inp d)"
    and "is_nalff (d_inp d0) = 0" and "has_get_eos (d_inp d0) = 0" and "d_slice d0 = d_slice d"
  using assms(1,2)
  by (auto simp: d0_def between_packets_def stream_packet_def in_packet_def set_input_def Let_def)

lemma h264d_prepare_scans:
  assumes "between_packets s d" and "need_split (d_inp d) \<noteq> 0" and "stream_packet p" and "plain_run s (pk_data p)"
  obtains d' where "h264d_prepare d p = Some (MPP_OK, d', p\<lparr>pk_length := 0\<rparr>, None)"
    and "between_packets (foldl scan s (pk_data p)) d'" and "need_split (d_inp d') \<noteq> 0"
proof -
  define d1 where "d1 = set_input p d"
  define d0 where "d0 = d1\<lparr>d_inp := (d_inp d1)\<lparr>is_nalff := 0\<rparr>\<rparr>"
  note o = set_input_ok [OF assms(1,3), folded d1_def, folded d0_def]
  obtain d' where d': "prepare_packet parse_prepare d0 = Some d'" "in_packet (foldl scan s (pk_data p)) [] d'"
    "task_valid (d_inp d') = 0" "erase d' = erase d0"
    using prepare_packet_scans [OF o(1) assms(4)] by blast
  note f = erase_fields [OF d'(4)]
  have n: "is_nalff (d_inp d1) = 0" "in_length (d_inp d1) = length (pk_data p)"
    using assms(1,3) by (simp_all add: d1_def set_input_def between_packets_def Let_def stream_packet_def)
  have "h264d_prepare d p = Some (MPP_OK, d', p\<lparr>pk_length := 0\<rparr>, None)"
    using assms(1-3) d' o n
    by (simp add: h264d_prepare_def Let_def d1_def [symmetric] between_packets_def stream_packet_def
        d0_def [symmetric] in_packet_def)
  moreover have "between_packets (foldl scan s (pk_data p)) d'"
    using d'(2) f o assms(1) by (simp add: between_packets_def in_packet_def)
  ultimately show thesis using that f(6) o(2) assms(2) by metis
qed

section \<open>Streams of parameter sets\<close>

lemma plain_run_True: "u \<noteq> [] \<Longrightarrow> (1 :: u8) \<notin> set bs \<Longrightarrow> plain_run (True, us, u) bs"
  by (induction bs arbitrary: u) (auto simp: ends_with_start)

lemma plain_run_False: "(1 :: u8) \<notin> set bs \<Longrightarrow> plain_run (False, us, u) bs"
  by (induction bs arbitrary: u) (auto simp: ends_with_start)

lemma plain_run_unit: "start_code_free (v @ u) \<Longrightarrow> v \<noteq> [] \<or> u = [] \<or> plain (hd u) \<Longrightarrow> plain_run (True, us, v) u"
proof (induction u arbitrary: v)
  case (Cons b u)
  have "start_code_free (v @ [b])" using start_code_free_ends [of "v @ [b]" u] Cons.prems(1) by simp
  then have "scan (True, us, v) b = (True, us, v @ [b])"
    using start_code_free_not_end [of v b] by (auto simp: ends_with_start)
  with Cons show ?case by simp
qed simp

lemma plain_run_start_code:
  assumes "sc \<longrightarrow> v \<noteq> []"
  shows "plain_run (sc, us, v) (start_code z)"
proof -
  have z: "start_code z = replicate (z + 2) 0 @ [1]" by (simp add: start_code_def replicate_app_Cons_same)
  have "plain_run (sc, us, v) (replicate (z + 2) 0)"
    using assms plain_run_True [of v "replicate (z + 2) 0" us] plain_run_False [of "replicate (z + 2) 0" us v]
    by (cases sc) simp_all
  then show ?thesis unfolding z plain_run_append scan_zeros by simp
qed

lemma plain_run_stream:
  assumes "\<forall>u \<in> snd ` set zus. annexb_unit u \<and> plain (hd u)" and "if sc then annexb_unit v else v = [] \<or> last v \<noteq> 0"
  shows "plain_run (sc, us, v) (unit_stream zus)"
  using assms
proof (induction zus arbitrary: sc us v)
  case (Cons zu zus)
  obtain z u where zu: "zu = (z, u)" by (cases zu)
  have v: "v = [] \<or> last v \<noteq> 0" "sc \<longrightarrow> v \<noteq> []" using Cons.prems(2) by (auto simp: annexb_unit_def split: if_splits)
  have u: "annexb_unit u" "start_code_free ([] @ u)" "plain (hd u)" using Cons.prems(1) zu by (auto simp: annexb_unit_def)
  define us' where "us' = (if sc then us @ [v] else us)"
  have s: "foldl scan (sc, us, v) (start_code z) = (True, us', [])" using scan_start_code [OF v(1)] by (simp add: us'_def)
  have "plain_run (True, us', u) (unit_stream zus)" using Cons.IH [of True u] Cons.prems(1) u(1) by simp
  then have "plain_run (sc, us, v) (start_code z @ u @ unit_stream zus)"
    using plain_run_start_code [OF v(2)] plain_run_unit [OF u(2)] u(3) s scan_unit_bytes [OF u(2), of True us']
    by (simp add: plain_run_append)
  then show ?case by (simp add: unit_stream_def zu)
qed (simp add: unit_stream_def)

text \<open>The framework hands the packets over one after the other.\<close>

fun prepare_packets :: "h264d_dec \<Rightarrow> h264d_packet list \<Rightarrow> h264d_dec option" where
  "prepare_packets d [] = Some d"
| "prepare_packets d (p # ps) =
    (case h264d_prepare d p of
       Some (MPP_OK, d, _, None) \<Rightarrow> prepare_packets d ps
     | _ \<Rightarrow> None)"

lemma prepare_packets_scan:
  assumes "between_packets s d" and "need_split (d_inp d) \<noteq> 0" and "\<forall>p \<in> set ps. stream_packet p"
    and "plain_run s (concat (map pk_data ps))"
  obtains d' where "prepare_packets d ps = Some d'" and "between_packets (foldl scan s (concat (map pk_data ps))) d'"
  using assms
proof (induction ps arbitrary: s d thesis)
  case (Cons p ps)
  have pr: "plain_run s (pk_data p)" "plain_run (foldl scan s (pk_data p)) (concat (map pk_data ps))"
    using Cons.prems(5) by (simp_all add: plain_run_append)
  obtain d1 where d1: "h264d_prepare d p = Some (MPP_OK, d1, p\<lparr>pk_length := 0\<rparr>, None)"
    "between_packets (foldl scan s (pk_data p)) d1" "need_split (d_inp d1) \<noteq> 0"
    using h264d_prepare_scans [OF Cons.prems(2,3) _ pr(1)] Cons.prems(4) by auto
  obtain d2 where "prepare_packets d1 ps = Some d2"
    "between_packets (foldl scan (foldl scan s (pk_data p)) (concat (map pk_data ps))) d2"
    using Cons.IH [OF _ d1(2,3) _ pr(2)] Cons.prems(4) by auto
  with d1(1) Cons.prems(1) [of d2] show ?case by simp
qed simp

text \<open>A decoder as \<open>h264d_init\<close> leaves it, with anything in the memory it has allocated.\<close>

definition fresh_decoder :: "h264d_dec \<Rightarrow> bool" where
  "fresh_decoder d \<longleftrightarrow> (\<exists>m h. d_strm d = init_cur_strm m h \<and> length m = 2 * 1024 * 1024 \<and> length h = 1024 * 1024)
     \<and> is_new_frame d = 0 \<and> have_slice_data d = 0 \<and> is_nalff (d_inp d) = 0 \<and> has_get_eos (d_inp d) = 0
     \<and> \<not> un_spt (d_slice d)"

lemma fresh_between: "fresh_decoder d \<Longrightarrow> between_packets (False, [], []) d"
  by (auto simp: fresh_decoder_def between_packets_def init_cur_strm_def unit_ok_def buffers_ok_def prefix_ok_def)

definition stream_of :: "u8 list \<Rightarrow> h264d_packet" where
  "stream_of bs = \<lparr>pk_data = bs, pk_length = length bs, pk_pts = 0, pk_dts = 0, pk_eos = 0, pk_extra_data = False\<rparr>"

lemma stream_of_packet: "length bs \<le> 10 * 1024 * 1024 \<Longrightarrow> stream_packet (stream_of bs)" "pk_data (stream_of bs) = bs"
  by (simp_all add: stream_packet_def stream_of_def)

text \<open>A decoder as it is made, whose memory happens to hold zeros.\<close>

definition demo_dec :: "int \<Rightarrow> h264d_dec" where
  "demo_dec split = \<lparr>
     d_inp = \<lparr>need_split = split, in_buf = [], in_length = 0, pkt_impl_length = 0, pkt_eos = 0, has_get_eos = 0,
       in_pts = 0, in_dts = 0, mvc_disable = 0, task_valid = 0, task_eos = 0, is_nalff = 0, in_profile = 0,
       in_level = 0, nal_size = 0, sps_num = 0, pps_num = 0\<rparr>,
     d_strm = init_cur_strm (replicate (2 * 1024 * 1024) 0) (replicate (1024 * 1024) 0),
     d_slice = new_slice (mpp_set_bitread_ctx [] 0),
     d_nalu = \<lparr>sodb_buf = [], sodb_len = 0, forbidden_bit = 0, nalu_type = 0, nal_reference_idc = 0, ualu_header_bytes = 0\<rparr>,
     d_mvcExt = zero_mvc_ext, svc_extension_flag = 0, layer_id = 0, bitstream = [], max_strm_size = 0,
     strm_offset = 0, slice_count = 0, committed = None, last_pts = 0, last_dts = 0, curr_pts = 0, curr_dts = 0,
     nalu_ret = NALU_NULL, next_state = SliceSTATE_NULL, have_slice_data = 0, is_new_frame = 0, is_parser_end = 0,
     dec_mvc_valid = 0, d_sl = zero_slice, d_vs = zero_vid, d_cur = zero_curbuf, err_used_ref_flag = 0,
     err_dpb_err_flag = 0, iNumOfSlicesDecoded = 0, exit_picture_flag = 0\<rparr>"

lemma demo_dec_fresh: "fresh_decoder (demo_dec split)"
  unfolding fresh_decoder_def
  by (intro conjI exI [of _ "replicate (2 * 1024 * 1024) 0"] exI [of _ "replicate (1024 * 1024) 0"])
    (simp_all add: demo_dec_def new_slice_def)

text \<open>
  C5: for parameter sets, SEI and the other units that are not slices, packets do not matter. A stream of NAL
  units of which none is a slice, a prefix unit or a slice extension (types 1, 5, 14 and 20), each free of start
  codes and not ending in zero, each behind a start code of three or more bytes, may be cut into packets anywhere:
  in the splitting mode the decoder stores the entries of all these units but the last, in order; the last is not
  stored, no start code ended it, and stands complete in the buffer of the current unit. The entry of a unit is
  its head and its first 12800 bytes, nothing for a type the decoder does not keep (\<open>unit_entry\<close>).
\<close>

theorem split_any_packets:
  assumes "fresh_decoder d" and "need_split (d_inp d) \<noteq> 0"
    and "\<forall>u \<in> snd ` set zus. annexb_unit u \<and> plain (hd u)" and "zus \<noteq> []"
    and "\<forall>p \<in> set pkts. stream_packet p" and "concat (map pk_data pkts) = unit_stream zus"
  shows "\<exists>d'. prepare_packets d pkts = Some d'
    \<and> take (head_offset (d_strm d')) (head_buf (d_strm d')) = concat (map unit_entry (butlast (map snd zus)))
    \<and> take (nalu_len (d_strm d')) (nalu_bytes (d_strm d')) = last (map snd zus)
    \<and> st_nalu_type (d_strm d') = nal_type (last (map snd zus))"
proof -
  have "plain_run (False, [], []) (concat (map pk_data pkts))"
    unfolding assms(6) using assms(3) by (intro plain_run_stream) simp_all
  with fresh_between [OF assms(1)] assms(2,5) obtain d' where d': "prepare_packets d pkts = Some d'"
    "between_packets (foldl scan (False, [], []) (unit_stream zus)) d'"
    using prepare_packets_scan [of "(False, [], [])" d pkts] unfolding assms(6) by blast
  have "last (map snd zus) \<in> snd ` set zus" using last_in_set [of "map snd zus"] assms(4) by simp
  then have "last (map snd zus) \<noteq> []" using assms(3) by (auto simp: annexb_unit_def)
  moreover have "foldl scan (False, [], []) (unit_stream zus) = (True, butlast (map snd zus), last (map snd zus))"
    using scan_stream [of zus "[]" "[]"] assms(3,4) by simp
  ultimately show ?thesis using d' by (auto simp: between_packets_def unit_ok_def)
qed

theorem split_any_packets_witness:
  "\<exists>d'. prepare_packets (demo_dec 1)
       [stream_of [0, 0], stream_of [1, 9, 0x10, 0], stream_of [0, 0, 1, 0x67], stream_of [0x42]] = Some d'
    \<and> take (head_offset (d_strm d')) (head_buf (d_strm d')) = []
    \<and> take (nalu_len (d_strm d')) (nalu_bytes (d_strm d')) = [0x67, 0x42] \<and> st_nalu_type (d_strm d') = 7"
proof -
  let ?zus = "[(0, [9, 0x10]), (1, [0x67, 0x42])] :: (nat \<times> u8 list) list"
  have u: "\<forall>u \<in> snd ` set ?zus. annexb_unit u \<and> plain (hd u)"
    by (simp add: annexb_unit_def plain_def slice_type_def start_code_free_Cons)
  have "unit_entry [9, 0x10] = []" by (simp add: unit_entry_def nal_type_def stored_type_def)
  with split_any_packets [OF demo_dec_fresh _ u, of 1
      "[stream_of [0, 0], stream_of [1, 9, 0x10, 0], stream_of [0, 0, 1, 0x67], stream_of [0x42]]"]
  show ?thesis by (simp add: demo_dec_def stream_of_packet unit_stream_def start_code_def nal_type_def)
qed

section \<open>Packets that end with a unit\<close>

text \<open>Without splitting the end of a packet ends the open unit.\<close>

fun finish :: "scan_state \<Rightarrow> scan_state" where
  "finish (sc, us, u) = (False, if sc \<and> u \<noteq> [] then us @ [u] else us, u)"

lemma store_nothing: "st_nalu_type (d_strm d) = 0 \<Longrightarrow> store_cur_nalu d = Some (MPP_OK, d)"
  by (simp add: store_cur_nalu_def store_head_def store_strm_def stored_type_def slice_type_def)

lemma end_of_packet_ok:
  assumes "scanned s d" and "task_valid (d_inp d) = 0"
  obtains d' where "end_of_packet d = Some (MPP_OK, d')" and "scanned (finish s) d'" and "erase d' = erase d"
    and "nalu_offset (d_strm d') = 0" and "d_inp d' = d_inp d"
proof -
  obtain sc us u where s: "s = (sc, us, u)" by (cases s)
  define us' where "us' = (if sc \<and> u \<noteq> [] then us @ [u] else us)"
  define d0 where "d0 = d\<lparr>nalu_ret := EndOfNalu\<rparr>"
  obtain st where st: "store_cur_nalu d0 = Some (MPP_OK, d0\<lparr>d_strm := st\<rparr>)" "buffers_ok st"
    "take (head_offset st) (head_buf st) = concat (map unit_entry us')" "endcode_found st = 0"
    "prefixdata st = prefixdata (d_strm d)"
  proof (cases "sc \<and> u \<noteq> []")
    case True
    then have a: "buffers_ok (d_strm d0)" "nalu_len (d_strm d0) = length u" "take (length u) (nalu_bytes (d_strm d0)) = u"
      "st_nalu_type (d_strm d0) = nal_type u" "plain (hd u)"
      "take (head_offset (d_strm d0)) (head_buf (d_strm d0)) = concat (map unit_entry us)" "endcode_found (d_strm d0) = 0"
      using assms(1) by (simp_all add: s d0_def unit_ok_def)
    then have "\<not> slice_type (nal_type u)" by (simp add: plain_def nal_type_def)
    from store_unit [OF buffers_head [OF a(1)] a(2-4) refl this] obtain m k h where "store_cur_nalu d0
        = Some (MPP_OK, d0\<lparr>d_strm := (d_strm d0)\<lparr>head_buf := m, head_max_size := k, head_offset := h\<rparr>\<rparr>)"
      "length m = k" "h \<le> k" "take h m = take (head_offset (d_strm d0)) (head_buf (d_strm d0)) @ unit_entry u" .
    then show thesis
      by (intro that [of "(d_strm d0)\<lparr>head_buf := m, head_max_size := k, head_offset := h\<rparr>"])
        (use a True in \<open>simp_all add: us'_def buffers_ok_def\<close>, simp add: d0_def)
  next
    case False
    then have a: "unit_ok (d_strm d) us []" using assms(1) by (auto simp: s split: if_splits)
    then have "store_cur_nalu d0 = Some (MPP_OK, d0)" by (intro store_nothing) (simp add: d0_def unit_ok_def)
    then show thesis
      by (intro that [of "d_strm d0"]) (use a False in \<open>auto simp: us'_def unit_ok_def d0_def\<close>)
  qed
  define st' where "st' = (reset_nalu (st\<lparr>nalu_offset := 0, endcode_found := 1\<rparr>))\<lparr>startcode_found := 0\<rparr>"
  define d' where "d' = d0\<lparr>d_strm := st'\<rparr>"
  have "d0\<lparr>d_strm := st, d_strm := (reset_nalu ((d_strm (d0\<lparr>d_strm := st\<rparr>))\<lparr>nalu_offset := 0, endcode_found := 1\<rparr>))\<lparr>startcode_found := 0\<rparr>\<rparr> = d'"
    by (simp add: d'_def st'_def)
  then have "end_of_packet d = Some (MPP_OK, d')"
    using st(1) assms(2) by (simp add: end_of_packet_def d0_def [symmetric])
  moreover have "unit_ok st' us' []" "prefixdata st' = prefixdata (d_strm d)" "startcode_found st' = 0" "nalu_offset st' = 0"
    using st by (simp_all add: st'_def reset_nalu_def unit_ok_def buffers_ok_def)
  then have "scanned (finish s) d'" "nalu_offset (d_strm d') = 0"
    using assms(1) by (simp_all add: s d'_def us'_def d0_def)
  ultimately show thesis using that [of d'] by (simp add: d'_def d0_def)
qed

lemma parse_prepare_fast_scans:
  assumes "in_packet s bs d" and "plain_run s bs" and "bs \<noteq> []"
  obtains k d' where "parse_prepare_fast d = Some (MPP_OK, d')" and "0 < k" and "task_valid (d_inp d') = 0" and "erase d' = erase d"
    and "in_packet (if drop k bs = [] then finish (foldl scan s bs) else foldl scan s (take k bs)) (drop k bs) d'"
proof -
  define d0 where "d0 = d\<lparr>nalu_ret := NALU_NULL, d_inp := (d_inp d)\<lparr>task_valid := 0\<rparr>\<rparr>"
  have d0: "scanned s d0" "d_inp d0 = (d_inp d)\<lparr>task_valid := 0\<rparr>" "nalu_offset (d_strm d0) = nalu_offset (d_strm d)"
    "erase d0 = erase d"
    using assms(1) by (simp_all add: d0_def in_packet_def erase_def)
  have p: "pkt_impl_length (d_inp d) = length bs" "in_length (d_inp d) = length bs" "pkt_eos (d_inp d) = 0"
    "nalu_offset (d_strm d) = length (in_buf (d_inp d)) - length bs" "drop (length (in_buf (d_inp d)) - length bs) (in_buf (d_inp d)) = bs"
    using assms(1,3) by (simp_all add: in_packet_def)
  then have "take (length bs) (drop (nalu_offset (d_strm d0)) (in_buf (d_inp d0))) = bs" using d0 by simp
  from fast.loop_scans [OF d0(1) assms(2) refl this] obtain k d1 where d1: "prepare_loop append_fast (length bs) d0 = Some (MPP_OK, d1)"
    "k \<le> length bs" "0 < k" "scanned (foldl scan s (take k bs)) d1" "erase d1 = erase d0"
    "d_inp d1 = (d_inp d0)\<lparr>pkt_impl_length := length bs - k\<rparr>" "nalu_offset (d_strm d1) = nalu_offset (d_strm d0) + k"
    using assms(3) by auto
  have tv: "task_valid (d_inp d1) = 0" "pkt_impl_length (d_inp d1) = length bs - k" by (simp_all add: d1(6) d0(2))
  define d2 where "d2 = d1\<lparr>d_inp := (d_inp d1)\<lparr>in_length := length bs - k\<rparr>\<rparr>"
  have "erase d2 = erase d1" unfolding d2_def by (rule erase_update)
  with d1(5) d0(4) have ed: "erase d2 = erase d" by simp
  have d2: "erase d2 = erase d" "scanned (foldl scan s (take k bs)) d2" "in_length (d_inp d2) = length bs - k"
    "task_valid (d_inp d2) = 0" "d_strm d2 = d_strm d1" "pkt_impl_length (d_inp d2) = length bs - k"
    "pkt_eos (d_inp d2) = 0" "in_buf (d_inp d2) = in_buf (d_inp d)"
    by (fact ed, use d1(4) d0(2) tv p(3) in \<open>simp_all add: d2_def d1(6)\<close>)
  have res: "parse_prepare_fast d = (if length bs = k then end_of_packet d2 else Some (MPP_OK, d2))"
    unfolding parse_prepare_fast_def Let_def d0_def [symmetric]
    using d0(2) p assms(3) d1(1,2) tv by (simp add: d2_def)
  show thesis
  proof (cases "length bs = k")
    case True
    obtain d' where d': "end_of_packet d2 = Some (MPP_OK, d')" "scanned (finish (foldl scan s (take k bs))) d'" "erase d' = erase d2"
      "nalu_offset (d_strm d') = 0" "d_inp d' = d_inp d2"
      using end_of_packet_ok [OF d2(2,4)] .
    then show thesis
      by (intro that [of d' k]) (use res True d1(3) d2 in \<open>simp_all add: in_packet_def\<close>)
  next
    case False
    have len: "length bs \<le> length (in_buf (d_inp d))" using p(5) by (metis length_drop diff_le_self)
    have "drop (k + (length (in_buf (d_inp d)) - length bs)) (in_buf (d_inp d)) = drop k bs" by (metis drop_drop p(5))
    with len have "drop (length (in_buf (d_inp d)) + k - length bs) (in_buf (d_inp d)) = drop k bs" by (simp add: add.commute)
    then show thesis
      by (intro that [of d2 k]) (use res False d1(2,3,7) d2 d0(3) p(4) len in \<open>simp_all add: in_packet_def\<close>)
  qed
qed

lemma prepare_packet_fast_scans:
  assumes "in_packet s bs d" and "plain_run s bs" and "bs \<noteq> []"
  shows "\<exists>d'. prepare_packet parse_prepare_fast d = Some d' \<and> in_packet (finish (foldl scan s bs)) [] d' \<and> task_valid (d_inp d') = 0
    \<and> erase d' = erase d"
  using assms
proof (induction "length bs" arbitrary: s bs d rule: less_induct)
  case less
  obtain k d1 where d1: "parse_prepare_fast d = Some (MPP_OK, d1)" "0 < k" "task_valid (d_inp d1) = 0" "erase d1 = erase d"
    "in_packet (if drop k bs = [] then finish (foldl scan s bs) else foldl scan s (take k bs)) (drop k bs) d1"
    using parse_prepare_fast_scans [OF less.prems] .
  have bs: "foldl scan s bs = foldl scan (foldl scan s (take k bs)) (drop k bs)" by (metis append_take_drop_id foldl_append)
  have p: "plain_run (foldl scan s (take k bs)) (drop k bs)"
    using less.prems(2) by (metis append_take_drop_id plain_run_append)
  have len: "pkt_impl_length (d_inp d1) = length (drop k bs)" using d1(5) by (simp add: in_packet_def)
  show ?case
  proof (cases "drop k bs = []")
    case True
    then have "prepare_packet parse_prepare_fast d = Some d1" using d1(1) len by (subst prepare_packet.simps) simp
    with d1 True show ?thesis by simp
  next
    case False
    then have l: "length (drop k bs) < length bs" using d1(2) by auto
    have "in_packet (foldl scan s (take k bs)) (drop k bs) d1" using d1(5) False by simp
    from less.hyps [OF l this p False] obtain d' where d': "prepare_packet parse_prepare_fast d1 = Some d'"
      "in_packet (finish (foldl scan s bs)) [] d'" "task_valid (d_inp d') = 0" "erase d' = erase d1" by (auto simp: bs)
    have "prepare_packet parse_prepare_fast d = prepare_packet parse_prepare_fast d1"
      using d1(1,3) len False by (subst prepare_packet.simps) simp
    with d' d1(4) show ?thesis by simp
  qed
qed

section \<open>A packet with a slice\<close>

lemma MPP_ALIGN_16: "x \<le> MPP_ALIGN x 16" "MPP_ALIGN x 16 mod 16 = 0" "m mod 16 = 0 \<Longrightarrow> x \<le> m \<Longrightarrow> MPP_ALIGN x 16 \<le> m"
proof -
  show "x \<le> MPP_ALIGN x 16" "MPP_ALIGN x 16 mod 16 = 0" by (simp_all add: MPP_ALIGN_def)
  assume "m mod 16 = 0" "x \<le> m"
  then obtain k where "m = 16 * k" by auto
  with \<open>x \<le> m\<close> show "MPP_ALIGN x 16 \<le> m" by (simp add: MPP_ALIGN_def)
qed

definition strm_ok :: "h264d_dec \<Rightarrow> bool" where
  "strm_ok d \<longleftrightarrow> length (bitstream d) = max_strm_size d \<and> max_strm_size d mod 16 = 0 \<and> strm_offset d \<le> max_strm_size d"

lemma append_fast_slice:
  assumes "unit_ok (d_strm d) us []" and "drop (nalu_offset (d_strm d) - 1) (in_buf (d_inp d)) = b # sl"
    and "pkt_impl_length (d_inp d) = length sl" and "slice_type (uint b AND 31)" and "length sl < 2 ^ 31"
  obtains m n where "append_fast b d = Some (MPP_OK, True, d\<lparr>d_strm := (d_strm d)\<lparr>nalu_buf := Heap m, nalu_max_size := n,
      nalu_len := Suc (length sl), st_nalu_type := uint b AND 31\<rparr>, d_inp := (d_inp d)\<lparr>pkt_impl_length := 0, task_valid := 1\<rparr>\<rparr>)"
    and "length m = n" and "8 \<le> n" and "take (Suc (length sl)) m = b # sl"
proof -
  have u: "buffers_ok (d_strm d)" "nalu_len (d_strm d) = 0" "8 \<le> nalu_max_size (d_strm d)"
    using assms(1) by (simp_all add: unit_ok_def buffers_ok_def)
  have "nalu_len (d_strm d) \<le> nalu_max_size (d_strm d)" using u(2) by simp
  from put_nalu_byte_ok [OF u(1) this, of b] obtain m n where m0: "put_nalu_byte b (d_strm d)
      = Some (MPP_OK, (d_strm d)\<lparr>nalu_buf := Heap m, nalu_max_size := n, nalu_len := nalu_len (d_strm d) + 1\<rparr>)"
    "length m = n" "nalu_max_size (d_strm d) \<le> n"
    "take (nalu_len (d_strm d) + 1) m = take (nalu_len (d_strm d)) (nalu_bytes (d_strm d)) @ [b]" .
  then have m: "put_nalu_byte b (d_strm d) = Some (MPP_OK, (d_strm d)\<lparr>nalu_buf := Heap m, nalu_max_size := n, nalu_len := 1\<rparr>)"
    "length m = n" "nalu_max_size (d_strm d) \<le> n" "take 1 m = [b]" using u(2) by simp_all
  have m0: "m ! 0 = b" using m(4) by (cases m) simp_all
  have len: "length (in_buf (d_inp d)) - (nalu_offset (d_strm d) - 1) = Suc (length sl)"
    using assms(2) by (metis length_Cons length_drop)
  define g where "g = MPP_ALIGN (max 512 (nat ((int (length sl) + 1 - int n) mod 2 ^ 32))) 16"
  have gs: "MPP_ALIGN (max 512 (nat ((int (length sl) + 1 - int n) mod 4294967296))) 16 = g" by (simp add: g_def)
  define m' n' where "m' = (if length sl + 1 \<ge> n then m @ replicate g 0 else m)"
    and "n' = (if length sl + 1 \<ge> n then n + g else n)"
  have "length sl + 1 \<le> n + g" if "length sl + 1 \<ge> n"
  proof -
    have "(int (length sl) + 1 - int n) mod 2 ^ 32 = int (length sl + 1 - n)" using that assms(5) by (simp add: of_nat_diff)
    then have "length sl + 1 - n \<le> g"
      using MPP_ALIGN_16(1) [of "max 512 (length sl + 1 - n)"] by (simp add: g_def)
    with that show ?thesis by simp
  qed
  then have l: "length m' = n'" "length sl + 1 \<le> n'" "8 \<le> n'" using m(2,3) u(3) by (auto simp: m'_def n'_def)
  show thesis
  proof (rule that)
    show "append_fast b d = Some (MPP_OK, True, d\<lparr>d_strm := (d_strm d)\<lparr>nalu_buf := Heap (store m' 0 (b # sl)), nalu_max_size := n',
      nalu_len := Suc (length sl), st_nalu_type := uint b AND 31\<rparr>, d_inp := (d_inp d)\<lparr>pkt_impl_length := 0, task_valid := 1\<rparr>\<rparr>)"
    proof (cases "length sl + 1 \<ge> n")
      case True
      then show ?thesis
        using assms(2-4) m(1,2) m0 l len
        by (auto simp: append_fast_def Let_def nalu_bytes_def slice_type_def realloc_buffer_def gs m'_def n'_def)
    next
      case False
      then show ?thesis
        using assms(2-4) m(1,2) m0 l len
        by (auto simp: append_fast_def Let_def nalu_bytes_def slice_type_def m'_def n'_def)
    qed
    show "take (Suc (length sl)) (store m' 0 (b # sl)) = b # sl"
      using take_store_end [of 0 "b # sl" m'] l by simp
  qed (use l in simp_all)
qed

text \<open>Storing a slice: its entry, and the slice behind a start code in the bit stream.\<close>

lemma store_slice:
  assumes "head_ok st" and "nalu_len st = length w" and "take (length w) (nalu_bytes st) = w"
    and "st_nalu_type st = nal_type w" and "st = d_strm d" and "slice_type (nal_type w)" and "strm_ok d"
  obtains m k h bs n where "store_cur_nalu d = Some (MPP_OK, d\<lparr>d_strm := st\<lparr>head_buf := m, head_max_size := k, head_offset := h\<rparr>,
      bitstream := bs, max_strm_size := n, strm_offset := strm_offset d + 3 + length w\<rparr>)"
    and "length m = k" and "h \<le> k" and "take h m = take (head_offset st) (head_buf st) @ unit_entry w"
    and "length bs = n" and "n mod 16 = 0" and "strm_offset d + 3 + length w \<le> n"
    and "take (strm_offset d + 3 + length w) bs = take (strm_offset d) (bitstream d) @ [0, 0, 1] @ w"
proof -
  obtain m k h where h: "store_head st = Some (st\<lparr>head_buf := m, head_max_size := k, head_offset := h\<rparr>)"
    "length m = k" "h \<le> k" "take h m = take (head_offset st) (head_buf st) @ unit_entry w"
    using store_head_unit [OF assms(1-4)] .
  define g where "g = MPP_ALIGN (length w + 3) 16"
  define full where "full \<longleftrightarrow> strm_offset d + (length w + 3) \<ge> max_strm_size d"
  define b n where "b = (if full then bitstream d @ replicate g 0 else bitstream d)"
    and "n = (if full then max_strm_size d + g else max_strm_size d)"
  have l: "length b = n" "n mod 16 = 0" "strm_offset d + 3 + length w \<le> n" "take (strm_offset d) b = take (strm_offset d) (bitstream d)"
    using assms(7) MPP_ALIGN_16(1,2) [of "length w + 3"] by (auto simp: b_def n_def strm_ok_def g_def full_def mod_add_eq)
  have nl: "length w \<le> length (nalu_bytes st)" using assms(3) by (metis length_take min.cobounded1)
  show thesis
  proof (rule that)
    show "store_cur_nalu d = Some (MPP_OK, d\<lparr>d_strm := st\<lparr>head_buf := m, head_max_size := k, head_offset := h\<rparr>,
      bitstream := store b (strm_offset d) ([0, 0, 1] @ w), max_strm_size := n, strm_offset := strm_offset d + 3 + length w\<rparr>)"
      using h(1) assms(2-6) nl
      by (simp add: store_cur_nalu_def store_strm_def Let_def realloc_buffer_def g_def [symmetric] full_def [symmetric]
          b_def n_def nalu_bytes_def add.commute add.left_commute)
    show "take (strm_offset d + 3 + length w) (store b (strm_offset d) ([0, 0, 1] @ w)) = take (strm_offset d) (bitstream d) @ [0, 0, 1] @ w"
    proof -
      have "strm_offset d + length ([0, 0, 1] @ w) = strm_offset d + 3 + length w" by simp
      with take_store_end [of "strm_offset d" "[0, 0, 1] @ w" b] l show ?thesis by (metis (no_types))
    qed
  qed (use h l in simp_all)
qed

lemma add_empty_nalu_ok:
  assumes "head_ok st"
  obtains m k h where "add_empty_nalu st = (MPP_OK, st\<lparr>head_buf := m, head_max_size := k, head_offset := h\<rparr>)"
    and "length m = k" and "h \<le> k" and "take h m = take (head_offset st) (head_buf st) @ nalu_head 1 0 0"
    and "h = head_offset st + 8"
proof -
  obtain m k where m: "head_room 8 512 st = st\<lparr>head_buf := m, head_max_size := k\<rparr>" "length m = k"
    "head_offset st + 8 \<le> k" "take (head_offset st) m = take (head_offset st) (head_buf st)"
    by (rule head_room_ok [OF assms, of 8 512]) simp_all
  show thesis
    by (rule that [where m = "store m (head_offset st) (nalu_head 1 0 0)" and k = k and h = "head_offset st + 8"])
      (use m take_store_end [of "head_offset st" "nalu_head 1 0 0" m] in \<open>simp_all add: add_empty_nalu_def Let_def\<close>)
qed

text \<open>The state behind a packet with a frame: heads, empty head, and the slice in the bit stream.\<close>

lemma fast_slice_loop:
  assumes "in_packet (False, us, h) ([0, 0, 1] @ b # sl) d" and "slice_type (uint b AND 31)" and "length sl < 2 ^ 31"
  obtains d1 m n where "prepare_loop append_fast (length sl + 4) d = Some (MPP_OK, d1\<lparr>d_strm := (d_strm d1)\<lparr>nalu_buf := Heap m,
      nalu_max_size := n, nalu_len := Suc (length sl), st_nalu_type := uint b AND 31\<rparr>,
      d_inp := (d_inp d1)\<lparr>pkt_impl_length := 0, task_valid := 1\<rparr>\<rparr>)"
    and "length m = n" and "8 \<le> n" and "take (Suc (length sl)) m = b # sl"
    and "erase d1 = erase d" and "unit_ok (d_strm d1) us []"
proof -
  let ?m = "in_buf (d_inp d)"
  have off: "drop (nalu_offset (d_strm d)) ?m = [0, 0, 1] @ b # sl" and s: "scanned (False, us, h) d"
    using assms(1) by (simp_all add: in_packet_def)
  have "take 3 (drop (nalu_offset (d_strm d)) ?m) = [0, 0, 1]" unfolding off by simp
  from fast.loop_start_code [OF s this] obtain d1 where d1:
    "prepare_loop append_fast (Suc (Suc (Suc (Suc (length sl))))) d = prepare_loop append_fast (Suc (length sl)) d1"
    "scanned (True, us, []) d1" "erase d1 = erase d" "d_inp d1 = (d_inp d)\<lparr>pkt_impl_length := Suc (length sl)\<rparr>"
    "nalu_offset (d_strm d1) = nalu_offset (d_strm d) + 3" .
  have "drop (3 + nalu_offset (d_strm d)) ?m = drop 3 (drop (nalu_offset (d_strm d)) ?m)" by simp
  also have "\<dots> = b # sl" unfolding off by simp
  finally have rest: "drop (nalu_offset (d_strm d) + 3) ?m = b # sl" by (simp add: add.commute)
  define d2 where "d2 = d1\<lparr>d_strm := (d_strm d1)\<lparr>nalu_offset := nalu_offset (d_strm d1) + 1\<rparr>,
      d_inp := (d_inp d1)\<lparr>pkt_impl_length := length sl\<rparr>\<rparr>"
  have d2: "unit_ok (d_strm d2) us []" "startcode_found (d_strm d2) = 1" "pkt_impl_length (d_inp d2) = length sl"
    "drop (nalu_offset (d_strm d2) - 1) (in_buf (d_inp d2)) = b # sl"
    using d1(2,4,5) rest by (simp_all add: d2_def unit_ok_def buffers_ok_def nalu_bytes_def add.commute)
  from append_fast_slice [OF d2(1,4,3) assms(2,3)] obtain m n where a: "append_fast b d2 = Some (MPP_OK, True, d2\<lparr>d_strm := (d_strm d2)\<lparr>nalu_buf := Heap m, nalu_max_size := n,
      nalu_len := Suc (length sl), st_nalu_type := uint b AND 31\<rparr>, d_inp := (d_inp d2)\<lparr>pkt_impl_length := 0, task_valid := 1\<rparr>\<rparr>)"
    "length m = n" "8 \<le> n" "take (Suc (length sl)) m = b # sl" .
  have o: "nalu_offset (d_strm d1) < length (in_buf (d_inp d1))" "in_buf (d_inp d1) ! nalu_offset (d_strm d1) = b"
    using rest d1(4,5) take_Suc_drop [of 0 "nalu_offset (d_strm d) + 3" ?m b "[]"] by simp_all
  have "length sl + 4 = Suc (Suc (Suc (Suc (length sl))))" by simp
  moreover have "prepare_loop append_fast (Suc (length sl)) d1 = Some (MPP_OK, d2\<lparr>d_strm := (d_strm d2)\<lparr>nalu_buf := Heap m, nalu_max_size := n,
      nalu_len := Suc (length sl), st_nalu_type := uint b AND 31\<rparr>, d_inp := (d_inp d2)\<lparr>pkt_impl_length := 0, task_valid := 1\<rparr>\<rparr>)"
    using o a(1) d2(2) by (simp only: prepare_loop.simps Let_def d2_def [symmetric] not_le [symmetric] if_False) simp
  ultimately have pl: "prepare_loop append_fast (length sl + 4) d = Some (MPP_OK, d2\<lparr>d_strm := (d_strm d2)\<lparr>nalu_buf := Heap m, nalu_max_size := n,
      nalu_len := Suc (length sl), st_nalu_type := uint b AND 31\<rparr>, d_inp := (d_inp d2)\<lparr>pkt_impl_length := 0, task_valid := 1\<rparr>\<rparr>)"
    using d1(1) by (simp only:)
  have "erase d2 = erase d1" by (simp add: d2_def erase_def)
  then have "erase d2 = erase d" using d1(3) by (rule trans)
  from pl a(2-4) this d2(1) show thesis by (rule that)
qed

lemma parse_prepare_fast_slice:
  assumes "in_packet (False, us, h) ([0, 0, 1] @ sl) d" and "sl \<noteq> []" and "slice_type (nal_type sl)" and "length sl < 2 ^ 31"
    and "strm_ok d"
  obtains d' where "parse_prepare_fast d = Some (MPP_OK, d')" and "task_valid (d_inp d') = 1" and "pkt_impl_length (d_inp d') = 0"
    and "\<exists>rest. head_buf (d_strm d') = concat (map unit_entry us) @ unit_entry sl @ nalu_head 1 0 0 @ rest"
    and "strm_ok d'" and "strm_offset d' = strm_offset d + 3 + length sl"
    and "take (strm_offset d') (bitstream d') = take (strm_offset d) (bitstream d) @ [0, 0, 1] @ sl"
    and "\<exists>c. d_slice d' = (d_slice d)\<lparr>bitctx := c\<rparr>"
proof -
  obtain b sl' where sl: "sl = b # sl'" using assms(2) by (cases sl) auto
  define d0 where "d0 = d\<lparr>nalu_ret := NALU_NULL, d_inp := (d_inp d)\<lparr>task_valid := 0\<rparr>\<rparr>"
  have d0: "in_packet (False, us, h) ([0, 0, 1] @ b # sl') d0" "erase d0 = erase d"
    using assms(1) by (simp_all add: d0_def in_packet_def sl erase_def)
  have p: "pkt_impl_length (d_inp d0) = length sl' + 4" "in_length (d_inp d0) \<noteq> 0" "pkt_eos (d_inp d0) = 0"
    using d0(1) by (auto simp: in_packet_def)
  obtain d1 m n where l: "prepare_loop append_fast (length sl' + 4) d0 = Some (MPP_OK, d1\<lparr>d_strm := (d_strm d1)\<lparr>nalu_buf := Heap m,
      nalu_max_size := n, nalu_len := Suc (length sl'), st_nalu_type := uint b AND 31\<rparr>,
      d_inp := (d_inp d1)\<lparr>pkt_impl_length := 0, task_valid := 1\<rparr>\<rparr>)"
    "length m = n" "8 \<le> n" "take (Suc (length sl')) m = b # sl'" "erase d1 = erase d0" "unit_ok (d_strm d1) us []"
    by (rule fast_slice_loop [OF d0(1)]) (use assms(3,4) in \<open>simp_all add: sl nal_type_def\<close>)
  define st where "st = (d_strm d1)\<lparr>nalu_buf := Heap m, nalu_max_size := n, nalu_len := Suc (length sl'), st_nalu_type := uint b AND 31\<rparr>"
  define d2 where "d2 = d1\<lparr>d_strm := st, d_inp := (d_inp d1)\<lparr>pkt_impl_length := 0, task_valid := 1\<rparr>\<rparr>"
  have e: "erase d1 = erase d" using l(5) d0(2) by simp
  have st: "buffers_ok st" "nalu_len st = length sl" "take (length sl) (nalu_bytes st) = sl" "st_nalu_type st = nal_type sl"
    "st = d_strm d2" "take (head_offset st) (head_buf st) = concat (map unit_entry us)"
    using l by (simp_all add: st_def d2_def unit_ok_def buffers_ok_def nalu_bytes_def sl nal_type_def)
  have so: "strm_ok d2" "strm_offset d2 = strm_offset d" "bitstream d2 = bitstream d"
    using assms(5) erase_stream [OF e] by (simp_all add: strm_ok_def d2_def)
  obtain hb k h bs n' where s: "store_cur_nalu d2 = Some (MPP_OK, d2\<lparr>d_strm := st\<lparr>head_buf := hb, head_max_size := k, head_offset := h\<rparr>,
      bitstream := bs, max_strm_size := n', strm_offset := strm_offset d2 + 3 + length sl\<rparr>)"
    "length hb = k" "h \<le> k" "take h hb = take (head_offset st) (head_buf st) @ unit_entry sl"
    "length bs = n'" "n' mod 16 = 0" "strm_offset d2 + 3 + length sl \<le> n'"
    "take (strm_offset d2 + 3 + length sl) bs = take (strm_offset d2) (bitstream d2) @ [0, 0, 1] @ sl"
    using store_slice [OF buffers_head [OF st(1)] st(2-5) assms(3) so(1)] .
  define st3 where "st3 = st\<lparr>head_buf := hb, head_max_size := k, head_offset := h\<rparr>"
  have "buffers_ok st3" using st(1) s(2,3) by (simp add: st3_def buffers_ok_def)
  from add_empty_nalu_ok [OF buffers_head [OF this]] obtain hb4 k4 h4 where a: "add_empty_nalu st3 = (MPP_OK, st3\<lparr>head_buf := hb4, head_max_size := k4, head_offset := h4\<rparr>)"
    "length hb4 = k4" "h4 \<le> k4" "take h4 hb4 = take (head_offset st3) (head_buf st3) @ nalu_head 1 0 0" by metis
  define d3 where "d3 = d2\<lparr>d_strm := st3, bitstream := bs, max_strm_size := n', strm_offset := strm_offset d2 + 3 + length sl\<rparr>"
  define st5 where "st5 = (reset_nalu ((st3\<lparr>head_buf := hb4, head_max_size := k4, head_offset := 0, nalu_offset := 0,
      endcode_found := 1\<rparr>)))\<lparr>startcode_found := 0\<rparr>"
  define d5 where "d5 = d3\<lparr>d_strm := st5, last_dts := in_dts (d_inp d3), last_pts := in_pts (d_inp d3),
    d_inp := (d_inp d3)\<lparr>in_length := 0\<rparr>, nalu_ret := HaveNoStream\<rparr>"
  define d4 where "d4 = d3\<lparr>d_strm := st3\<lparr>head_buf := hb4, head_max_size := k4, head_offset := 0\<rparr>,
    last_dts := in_dts (d_inp d3), last_pts := in_pts (d_inp d3), d_inp := (d_inp d3)\<lparr>in_length := 0\<rparr>\<rparr>"
  have tv: "task_valid (d_inp d2) = 1" "pkt_impl_length (d_inp d2) = 0" "d_inp d3 = d_inp d2" "d_strm d3 = st3"
    "task_valid (d_inp d4) = 1"
    by (simp_all add: d2_def d3_def d4_def)
  have "end_of_packet d4 = Some (MPP_OK, d5)"
    using tv(5) by (simp add: end_of_packet_def) (simp add: d5_def d4_def st5_def)
  then have res: "parse_prepare_fast d = Some (MPP_OK, d5)"
    unfolding parse_prepare_fast_def Let_def d0_def [symmetric]
    using p l(1) s(1) a(1) tv(1-4)
    by (simp add: st_def [symmetric] d2_def [symmetric] d3_def [symmetric] st3_def [symmetric]) (simp add: d4_def tv)
  have hb: "head_buf (d_strm d5) = hb4" by (simp add: d5_def st5_def reset_nalu_def)
  have "take h4 hb4 = concat (map unit_entry us) @ unit_entry sl @ nalu_head 1 0 0"
    using a(4) s(4) st(6) by (simp add: st3_def)
  then have "\<exists>rest. head_buf (d_strm d5) = concat (map unit_entry us) @ unit_entry sl @ nalu_head 1 0 0 @ rest"
    unfolding hb by (metis append.assoc append_take_drop_id)
  moreover have "strm_ok d5" "strm_offset d5 = strm_offset d + 3 + length sl"
    "take (strm_offset d5) (bitstream d5) = take (strm_offset d) (bitstream d) @ [0, 0, 1] @ sl"
    using s(5-8) so by (simp_all add: d5_def d3_def strm_ok_def)
  moreover have "d_slice d5 = (d_slice d)\<lparr>bitctx := bitctx (d_slice d1)\<rparr>"
    using erase_stream(4) [OF e] by (simp add: d5_def d3_def d2_def)
  ultimately show thesis using that [OF res] tv by (auto simp: d5_def)
qed

text \<open>
  A packet with one slice behind a start code is a task of its own: its heads are those of the units
  stored before, of the slice, and an empty one, and its data is the slice behind its start code.
\<close>

lemma pad_bitstream_ok:
  assumes "strm_ok d"
  obtains b where "pad_bitstream d = Some (d\<lparr>bitstream := b\<rparr>)"
    and "take (strm_offset d) (take (MPP_ALIGN (strm_offset d) 16) b) = take (strm_offset d) (bitstream d)"
proof -
  define a where "a = MPP_ALIGN (strm_offset d) 16"
  have a: "strm_offset d \<le> a" "a \<le> length (bitstream d)"
    using assms MPP_ALIGN_16(1) [of "strm_offset d"] MPP_ALIGN_16(3) [of "max_strm_size d" "strm_offset d"]
    by (auto simp: a_def strm_ok_def)
  show thesis
    by (rule that [of "store (bitstream d) (strm_offset d) (replicate (a - strm_offset d) 0)"])
      (use a in \<open>simp_all add: pad_bitstream_def Let_def a_def [symmetric] take_store min_absorb2\<close>)
qed

lemma fast_slice_packet:
  assumes "between_packets (False, us, h) d" and "need_split (d_inp d) = 0" and "stream_packet p"
    and "pk_data p = [0, 0, 1] @ sl" and "sl \<noteq> []" and "slice_type (nal_type sl)" and "strm_ok d"
  obtains d' out where "h264d_prepare d p = Some (MPP_OK, d', p\<lparr>pk_length := 0\<rparr>, Some out)"
    and "take (strm_offset d + 3 + length sl) out = take (strm_offset d) (bitstream d) @ [0, 0, 1] @ sl"
    and "\<exists>rest. head_buf (d_strm d') = concat (map unit_entry us) @ unit_entry sl @ nalu_head 1 0 0 @ rest"
    and "\<exists>c. d_slice d' = (d_slice d)\<lparr>bitctx := c\<rparr>"
proof -
  define d1 where "d1 = set_input p d"
  define d0 where "d0 = d1\<lparr>d_inp := (d_inp d1)\<lparr>is_nalff := 0\<rparr>\<rparr>"
  note o = set_input_ok [OF assms(1,3), folded d1_def, folded d0_def]
  have n: "is_nalff (d_inp d1) = 0" "in_length (d_inp d1) = length (pk_data p)"
    using assms(1,3) by (simp_all add: d1_def set_input_def between_packets_def Let_def stream_packet_def)
  have b: "strm_ok d0" "strm_offset d0 = strm_offset d" "bitstream d0 = bitstream d"
    using assms(7) by (simp_all add: d0_def d1_def set_input_def Let_def strm_ok_def)
  have "length sl < 2 ^ 31" using assms(3,4) by (simp add: stream_packet_def)
  from parse_prepare_fast_slice [OF o(1) [unfolded assms(4)] assms(5,6) this b(1)] obtain d2 where d2:
    "parse_prepare_fast d0 = Some (MPP_OK, d2)" "task_valid (d_inp d2) = 1" "pkt_impl_length (d_inp d2) = 0"
    "\<exists>rest. head_buf (d_strm d2) = concat (map unit_entry us) @ unit_entry sl @ nalu_head 1 0 0 @ rest"
    "strm_ok d2" "strm_offset d2 = strm_offset d0 + 3 + length sl"
    "take (strm_offset d2) (bitstream d2) = take (strm_offset d0) (bitstream d0) @ [0, 0, 1] @ sl"
    "\<exists>c. d_slice d2 = (d_slice d0)\<lparr>bitctx := c\<rparr>" .
  obtain b' where b': "pad_bitstream d2 = Some (d2\<lparr>bitstream := b'\<rparr>)"
    "take (strm_offset d2) (take (MPP_ALIGN (strm_offset d2) 16) b') = take (strm_offset d2) (bitstream d2)"
    by (rule pad_bitstream_ok [OF d2(5)])
  have "prepare_packet parse_prepare_fast d0 = Some d2" using d2(1,3) by (subst prepare_packet.simps) simp
  with b'(1) have "h264d_prepare d p = Some (MPP_OK, d2\<lparr>bitstream := b'\<rparr>, p\<lparr>pk_length := 0\<rparr>, Some (take (MPP_ALIGN (strm_offset d2) 16) b'))"
    using assms(1-3) d2(2,3) o n
    by (simp add: h264d_prepare_def Let_def d1_def [symmetric] between_packets_def stream_packet_def d0_def [symmetric])
  then show thesis by (rule that) (use b'(2) d2(4,6,7,8) b o(5) in simp_all)
qed

end
