(* ===== verification/H264dFlow.thy ===== *)
theory H264dFlow
  imports H264dNalSpec RkvSpec
begin

text \<open>
  From the encoder's configuration to the decoder's parameter sets: the header packet of the RKVENC
  path goes through the unsplit packet path, the storage of units and the parse loop, and meets
  the first slice with the parameter sets of the configuration in place.
\<close>

section \<open>The header packet\<close>

lemma fast_header_packet:
  assumes "between_packets (False, us, h) d" and "h = [] \<or> last h \<noteq> 0" and "need_split (d_inp d) = 0" and "stream_packet p"
    and "pk_data p = unit_stream zus" and "\<forall>u \<in> snd ` set zus. annexb_unit u \<and> plain (hd u)" and "zus \<noteq> []"
  obtains d' where "h264d_prepare d p = Some (MPP_OK, d', p\<lparr>pk_length := 0\<rparr>, None)"
    and "between_packets (False, us @ map snd zus, last (map snd zus)) d'" and "need_split (d_inp d') = 0"
    and "\<exists>c. d_slice d' = (d_slice d)\<lparr>bitctx := c\<rparr>" and "strm_ok d' = strm_ok d" and "strm_offset d' = strm_offset d"
proof -
  define d1 where "d1 = set_input p d"
  define d0 where "d0 = d1\<lparr>d_inp := (d_inp d1)\<lparr>is_nalff := 0\<rparr>\<rparr>"
  note o = set_input_ok [OF assms(1,4), folded d1_def, folded d0_def]
  have n: "is_nalff (d_inp d1) = 0" "in_length (d_inp d1) = length (pk_data p)"
    using assms(1,4) by (simp_all add: d1_def set_input_def between_packets_def Let_def stream_packet_def)
  have b: "strm_ok d0 = strm_ok d" "strm_offset d0 = strm_offset d"
    by (simp_all add: d0_def d1_def set_input_def Let_def strm_ok_def)
  have u: "\<forall>u \<in> snd ` set zus. annexb_unit u" using assms(6) by simp
  have "pk_data p \<noteq> []" using assms(5,7) by (cases zus) (auto simp: unit_stream_def start_code_def)
  moreover have "plain_run (False, us, h) (pk_data p)"
    unfolding assms(5) using assms(2,6) by (intro plain_run_stream) simp_all
  ultimately obtain d2 where d2: "prepare_packet parse_prepare_fast d0 = Some d2"
    "in_packet (finish (foldl scan (False, us, h) (pk_data p))) [] d2" "task_valid (d_inp d2) = 0" "erase d2 = erase d0"
    using prepare_packet_fast_scans [OF o(1)] by blast
  have last: "last (map snd zus) \<in> snd ` set zus" using last_in_set [of "map snd zus"] assms(7) by simp
  have f: "finish (foldl scan (False, us, h) (pk_data p)) = (False, us @ map snd zus, last (map snd zus))"
    unfolding assms(5) scan_stream [OF u assms(7,2)] using last u append_butlast_last_id [of "map snd zus"] assms(7)
    by (auto simp: annexb_unit_def)
  note e = erase_fields [OF d2(4)] erase_stream [OF d2(4)]
  have "h264d_prepare d p = Some (MPP_OK, d2, p\<lparr>pk_length := 0\<rparr>, None)"
    using assms(1,3,4) d2 o n
    by (simp add: h264d_prepare_def Let_def d1_def [symmetric] between_packets_def stream_packet_def
        d0_def [symmetric] in_packet_def)
  moreover have "between_packets (False, us @ map snd zus, last (map snd zus)) d2"
    using d2(2) e o assms(1) unfolding f by (simp add: between_packets_def in_packet_def)
  moreover have "\<exists>c. d_slice d2 = (d_slice d)\<lparr>bitctx := c\<rparr>" using e(13) o(5) by metis
  moreover have "strm_ok d2 = strm_ok d" "strm_offset d2 = strm_offset d"
    using e b by (simp_all add: strm_ok_def d0_def d1_def set_input_def Let_def)
  ultimately show thesis using that [of d2] e(6) o(2) assms(3) by simp
qed

section \<open>Walking over the stored units\<close>

lemma unat_bytes_u32: "unat (ucast w :: u8) + 256 * unat (ucast (drop_bit 8 w) :: u8)
    + 2 ^ 16 * unat (ucast (drop_bit 16 w) :: u8) + 2 ^ 24 * unat (ucast (drop_bit 24 w) :: u8) = unat (w :: u32)"
proof -
  have b: "unat (ucast (drop_bit n w) :: u8) = unat w div 2 ^ n mod 256" for n
    by (simp only: unsigned_ucast_eq unat_drop_bit_eq) (simp add: take_bit_eq_mod drop_bit_eq_div)
  have "unat w < 2 ^ LENGTH(32)" by (rule unsigned_less)
  then have c: "unat w div 2 ^ 24 mod 256 = unat w div 2 ^ 24" by simp
  show ?thesis using b [of 0] b [of 8] b [of 16] b [of 24] c bytes_nat(2) [of "unat w"] by simp
qed

lemma read_nalu_entry:
  assumes "drop p (head_buf (d_strm d)) = nalu_head 0 t (of_nat (length u)) @ u @ rest" and "length u < 2 ^ 32"
  shows "read_nalu d p = Some (d\<lparr>d_nalu := \<lparr>sodb_buf = u, sodb_len = length u, forbidden_bit = 0, nalu_type = 0,
                    nal_reference_idc = 0, ualu_header_bytes = 0\<rparr>,
                  nalu_ret := EndOfNalu, next_state := SliceSTATE_ParseNalu\<rparr>, p + 8 + length u)"
proof -
  let ?m = "head_buf (d_strm d)"
  have n: "?m ! (p + i) = (nalu_head 0 t (of_nat (length u)) @ u @ rest) ! i" if "i < 8" for i
  proof -
    have "p + i < length ?m" using arg_cong [OF assms(1), of length] that by simp
    then have "?m ! (p + i) = drop p ?m ! i" by simp
    then show ?thesis unfolding assms(1) .
  qed
  have fe: "head_is_frame_end ?m p = 0"
    using n [of 0] n [of 1] by (simp add: head_is_frame_end_def nalu_head_def)
  have "head_sodb_len ?m p = unat (of_nat (length u) :: u32)"
    using n [of 4] n [of 5] n [of 6] n [of 7] unat_bytes_u32 [of "of_nat (length u)"]
    by (simp add: head_sodb_len_def nalu_head_def)
  also have "\<dots> = length u" using assms(2) by (simp add: unat_of_nat)
  finally have sl: "head_sodb_len ?m p = length u" .
  have len: "p + 8 + length u \<le> length ?m" using arg_cong [OF assms(1), of length] by simp
  have "drop (8 + p) ?m = drop 8 (drop p ?m)" by simp
  also have "\<dots> = u @ rest" unfolding assms(1) by (simp add: nalu_head_def)
  finally have "take (length u) (drop (p + 8) ?m) = u" by (simp add: add.commute)
  then show ?thesis using fe sl len by (simp add: read_nalu_def Let_def)
qed

text \<open>The header of a unit that is no slice, and the reader behind it.\<close>

lemma unescape_cong:
  "(w AND 0xff = 0 \<longleftrightarrow> w' AND 0xff = 0) \<Longrightarrow> (w AND 0xffff = 0 \<longleftrightarrow> w' AND 0xffff = 0) \<Longrightarrow>
     unescape e w bs = unescape e w' bs"
proof (induction bs arbitrary: w w')
  case (Cons b bs)
  have "unescape e (push_bit 8 w OR ucast b) bs = unescape e (push_bit 8 w' OR ucast b) bs"
    using push_byte_masks [of w b] push_byte_masks [of w' b] Cons.prems(1) by (intro Cons.IH) simp_all
  then show ?case using Cons.prems(2) by (simp split: list.splits)
qed simp

lemma nalu_reader_tail:
  assumes "sodb_buf n = b # r" and "sodb_len n = length (b # r)" and "b \<noteq> 0" and "length r < 2 ^ 30"
  shows "rem_bits (nalu_reader 0 n) = byte_bits b @ rem_bits (nalu_reader 1 n)" and "br_wf (nalu_reader 0 n)"
    and "br_wf (nalu_reader 1 n)"
proof -
  have r0: "nalu_reader 0 n = mpp_set_pre_detection (mpp_set_bitread_ctx (b # r) (int (length (b # r))))"
    and r1: "nalu_reader 1 n = mpp_set_pre_detection (mpp_set_bitread_ctx r (int (length r)))"
    using assms(1,2) by (simp_all add: nalu_reader_def)
  have "(0xffff :: u64) AND 0xff \<noteq> 0" "(0xffff :: u64) AND 0xffff \<noteq> 0" by simp_all
  then have "unescape True (push_bit 8 0xffff OR ucast b) r = unescape True 0xffff r"
    using push_byte_masks [of "0xffff" b] assms(3) by (intro unescape_cong) simp_all
  then show "rem_bits (nalu_reader 0 n) = byte_bits b @ rem_bits (nalu_reader 1 n)"
    unfolding r0 r1 using mpp_read_header(1) [of r b] mpp_set_bitread_ctx_bits(4) [of r] assms(4) by simp
  show "br_wf (nalu_reader 0 n)" unfolding r0 by (rule mpp_read_header(2) [OF assms(4)])
  show "br_wf (nalu_reader 1 n)" unfolding r1 by (rule mpp_set_bitread_ctx_bits(3)) (use assms(4) in simp)
qed

lemma nalu_header_plain:
  assumes "plain b" and "rem_bits c = byte_bits b @ rest" and "br_wf c"
  obtains n v c' where "SEQ nalu_header d c = (MPP_OK, d\<lparr>d_nalu := n, svc_extension_flag := v\<rparr>, c')"
    and "nalu_type n = uint b AND 31" and "ualu_header_bytes n = 1" and "sodb_buf n = sodb_buf (d_nalu d)"
    and "sodb_len n = sodb_len (d_nalu d)"
proof -
  define n where "n = (d_nalu d)\<lparr>forbidden_bit := s32 (bits_val [bit b 7]), nal_reference_idc := s32 (bits_val [bit b 6, bit b 5]),
      nalu_type := uint b AND 31, ualu_header_bytes := 1\<rparr>"
  let ?d = "d\<lparr>d_nalu := n, svc_extension_flag := - 1\<rparr>"
  have d: "decodes_all (take 5 nalu_header) [[bit b 7], [bit b 6, bit b 5], msb_bits 5 b, [], []]
      [d_nalu_update (forbidden_bit_update (\<lambda>_. s32 (bits_val [bit b 7]))),
       d_nalu_update (nal_reference_idc_update (\<lambda>_. s32 (bits_val [bit b 6, bit b 5]))),
       d_nalu_update (nalu_type_update (\<lambda>_. uint b AND 31)),
       d_nalu_update (ualu_header_bytes_update (\<lambda>_. 1)), svc_extension_flag_update (\<lambda>_. - 1)]"
    using decodes_READ_BITS [of "[bit b 7]" 1 "\<lambda>v. d_nalu_update (forbidden_bit_update (\<lambda>_. s32 v))"]
      decodes_READ_BITS [of "[bit b 6, bit b 5]" 2 "\<lambda>v. d_nalu_update (nal_reference_idc_update (\<lambda>_. s32 v))"]
      decodes_READ_BITS [of "msb_bits 5 b" 5 "\<lambda>v. d_nalu_update (nalu_type_update (\<lambda>_. s32 v))"]
    by (simp add: nalu_header_def header_type decodes_UPD del: bits_val_single split del: if_split)
  have r: "run [d_nalu_update (forbidden_bit_update (\<lambda>_. s32 (bits_val [bit b 7]))),
       d_nalu_update (nal_reference_idc_update (\<lambda>_. s32 (bits_val [bit b 6, bit b 5]))),
       d_nalu_update (nalu_type_update (\<lambda>_. uint b AND 31)),
       d_nalu_update (ualu_header_bytes_update (\<lambda>_. 1)), svc_extension_flag_update (\<lambda>_. - 1)] d = ?d"
    by (cases d) (simp add: n_def)
  have t: "nalu_header = take 5 nalu_header @ drop 5 nalu_header" by simp
  have "parses rest (SEQ (drop 5 nalu_header)) ?d [] ?d"
    using assms(1) by (auto simp: nalu_header_def parses_def COND_def n_def plain_def)
  from parses_SEQ_append [OF decodes_parses [OF decodes_SEQ [OF d] r [symmetric]] this]
  have "parses rest (SEQ nalu_header) d (byte_bits b) ?d"
    unfolding t [symmetric] byte_bits_header by simp
  from parsesE [OF this assms(3,2)] obtain c' where
    "SEQ nalu_header d c = (MPP_OK, ?d, c')" by blast
  then show thesis by (rule that) (simp_all add: n_def)
qed

lemma parser_nalu_header_plain:
  assumes "sodb_buf (d_nalu d) = u" and "sodb_len (d_nalu d) = length u" and "u \<noteq> []" and "plain (hd u)" and "length u < 2 ^ 30"
  obtains n v where "parser_nalu_header d = (MPP_OK, d\<lparr>d_nalu := n, svc_extension_flag := v,
      d_slice := (d_slice d)\<lparr>bitctx := nalu_reader 1 (d_nalu d)\<rparr>, nalu_ret := StartofNalu\<rparr>)"
    and "nalu_type n = nal_type u"
proof -
  obtain b r where u: "u = b # r" using assms(3) by (cases u) auto
  have b: "b \<noteq> 0" "plain b" "length r < 2 ^ 30" using assms(4,5) by (simp_all add: u plain_def)
  note t = nalu_reader_tail [OF assms(1) [unfolded u] assms(2) [unfolded u] b(1,3)]
  obtain n v c' where n: "SEQ nalu_header d (nalu_reader 0 (d_nalu d)) = (MPP_OK, d\<lparr>d_nalu := n, svc_extension_flag := v\<rparr>, c')"
    "nalu_type n = uint b AND 31" "ualu_header_bytes n = 1" "sodb_buf n = sodb_buf (d_nalu d)" "sodb_len n = sodb_len (d_nalu d)"
    using nalu_header_plain [OF b(2) t(1,2)] .
  have "nalu_reader 1 n = nalu_reader 1 (d_nalu d)" using n(4,5) by (simp add: nalu_reader_def)
  then show thesis
    by (intro that [where n = n and v = v]) (use n in \<open>simp_all add: parser_nalu_header_def u nal_type_def\<close>)
qed

text \<open>
  One stored parameter set: read, headed, processed, whatever the operations on slices are.
\<close>

definition process_set :: "int \<Rightarrow> h264d_slice \<Rightarrow> (mpp_ret \<times> h264d_slice) option" where
  "process_set t s = (if t = 7 then process_sps s else if t = 8 then Some (process_pps s) else None)"

lemma parse_while_set:
  assumes "next_state d = SliceSTATE_ReadNalu" and "drop p (head_buf (d_strm d)) = unit_entry u @ rest"
    and "nal_type u = 7 \<or> nal_type u = 8" and "u \<noteq> []" and "hd u \<noteq> 0" and "length u \<le> 12800"
    and "process_set (nal_type u) ((d_slice d)\<lparr>bitctx := nalu_reader 1 \<lparr>sodb_buf = u, sodb_len = length u, forbidden_bit = 0,
           nalu_type = 0, nal_reference_idc = 0, ualu_header_bytes = 0\<rparr>\<rparr>) = Some (MPP_OK, s)"
  obtains d' where "\<And>ps ip fs ret. parse_while ps ip fs ret d p = parse_while ps ip fs MPP_OK d' (p + 8 + length u)"
    and "next_state d' = SliceSTATE_ReadNalu" and "d_strm d' = d_strm d" and "d_slice d' = s"
proof -
  define n0 where "n0 = \<lparr>sodb_buf = u, sodb_len = length u, forbidden_bit = 0, nalu_type = 0, nal_reference_idc = 0,
    ualu_header_bytes = 0\<rparr>"
  define d1 where "d1 = d\<lparr>d_nalu := n0, nalu_ret := EndOfNalu, next_state := SliceSTATE_ParseNalu\<rparr>"
  have "unit_entry u = nalu_head 0 (word_of_int (nal_type u)) (of_nat (length u)) @ u"
    using assms(3,6) by (auto simp: unit_entry_def stored_type_def min_absorb2)
  then have r: "read_nalu d p = Some (d1, p + 8 + length u)"
    using read_nalu_entry [of p d _ u rest] assms(2,6) by (simp add: d1_def n0_def)
  have "plain (hd u)" using assms(3,5) by (auto simp: plain_def nal_type_def slice_type_def)
  have d1: "sodb_buf (d_nalu d1) = u" "sodb_len (d_nalu d1) = length u" "length u < 2 ^ 30"
    using assms(6) by (simp_all add: d1_def n0_def)
  obtain n v where
    n: "parser_nalu_header d1 = (MPP_OK, d1\<lparr>d_nalu := n, svc_extension_flag := v,
      d_slice := (d_slice d1)\<lparr>bitctx := nalu_reader 1 (d_nalu d1)\<rparr>, nalu_ret := StartofNalu\<rparr>)" "nalu_type n = nal_type u"
    by (rule parser_nalu_header_plain [OF d1(1,2) assms(4) \<open>plain (hd u)\<close> d1(3)])
  define d2 where "d2 = d1\<lparr>d_nalu := n, svc_extension_flag := v, d_slice := (d_slice d1)\<lparr>bitctx := nalu_reader 1 (d_nalu d1)\<rparr>,
      nalu_ret := StartofNalu\<rparr>"
  have s: "process_set (nal_type u) (d_slice d2) = Some (MPP_OK, s)"
    using assms(7) by (simp add: d2_def d1_def n0_def)
  define st where "st = (if nal_type u = 7 then NALU_SPS else NALU_PPS)"
  have c: "nalu_contents ps d2 = Some (MPP_OK, st, d2\<lparr>d_slice := s\<rparr>)" for ps
    using s assms(3) n(2) by (auto simp: nalu_contents_def Let_def process_set_def on_slice_def slice_type_def d2_def st_def)
  define d3 where "d3 = d2\<lparr>d_slice := s, nalu_ret := st\<rparr>"
  have o: "parser_one_nalu ps d1 = Some (MPP_OK, d3)" for ps
    using n(1) unfolding d2_def [symmetric] by (simp add: parser_one_nalu_def c d3_def)
  have st: "st \<noteq> StartOfSlice" "st \<noteq> StartOfPicture" "st \<noteq> MvcDisAble" by (simp_all add: st_def)
  define d' where "d' = d3\<lparr>next_state := SliceSTATE_ReadNalu\<rparr>"
  have i1: "parse_iteration ps ip fs ret d p = Some (Inl (ret, d1, p + 8 + length u))" for ps ip fs ret
    using assms(1) r by (simp add: parse_iteration_def)
  have i2: "parse_iteration ps ip fs ret d1 q = Some (Inl (MPP_OK, d', q))" for ps ip fs ret q
    using o [of ps] st by (simp add: parse_iteration_def d'_def d3_def d1_def)
  have "parse_while ps ip fs ret d p = parse_while ps ip fs MPP_OK d' (p + 8 + length u)" for ps ip fs ret
    using i1 [of ps ip fs ret] i2 [of ps ip fs ret]
    by (subst parse_while.simps, simp) (subst parse_while.simps, simp)
  then show thesis
    by (rule that) (simp_all add: d'_def d3_def d2_def d1_def)
qed

section \<open>The units of the encoder\<close>

lemma escape_eq_Nil [simp]: "escape z bs = [] \<longleftrightarrow> bs = []"
  by (cases bs) simp_all

lemma last_escape: "bs \<noteq> [] \<Longrightarrow> last (escape z bs) = last bs"
proof (induction bs arbitrary: z)
  case (Cons b bs)
  then show ?case by (cases "bs = []") simp_all
qed simp

lemma last_rbsp: "rbsp bs \<noteq> [] \<and> last (rbsp bs) \<noteq> 0"
proof -
  define k where "k = 7 - length bs mod 8"
  have k: "k < 8" by (simp add: k_def)
  have b: "bytes_bits (rbsp bs) = bs @ True # replicate k False"
    unfolding bytes_bits_rbsp by (simp add: trailing_bits_def k_def)
  then have "rbsp bs \<noteq> []" by auto
  moreover have False if "last (rbsp bs) = 0"
  proof -
    have zero_byte: "bytes_bits [0] = replicate 8 False" by code_simp
    have "rbsp bs = butlast (rbsp bs) @ [0]" using that \<open>rbsp bs \<noteq> []\<close> by (metis append_butlast_last_id)
    then have "bytes_bits (rbsp bs) = bytes_bits (butlast (rbsp bs)) @ replicate 8 False"
      by (metis bytes_bits_simps(3) zero_byte)
    from arg_cong [OF this, of "\<lambda>l. rev l ! k"] show False unfolding b using k by (simp add: nth_append)
  qed
  ultimately show ?thesis by blast
qed

lemma annexb_unit_rbsp:
  assumes "h \<noteq> 0" and "length (rbsp bs) \<le> 512"
  defines "u \<equiv> drop 3 (annexb h (rbsp bs))"
  shows "annexb h (rbsp bs) = [0, 0, 1] @ u" and "annexb_unit u" and "hd u = h" and "u \<noteq> []" and "length u \<le> 1025"
    and "sodb_buf n = u \<Longrightarrow> sodb_len n = length u \<Longrightarrow> br_wf (nalu_reader 1 n)"
    and "sodb_buf n = u \<Longrightarrow> sodb_len n = length u \<Longrightarrow> rem_bits (nalu_reader 1 n) = bs @ trailing_bits (length bs)"
proof -
  note r = annexb_reads [OF assms(1,2), folded u_def]
  have u: "u = h # escape 0 (rbsp bs)" by (simp add: u_def annexb_def)
  show "annexb h (rbsp bs) = [0, 0, 1] @ u" "hd u = h" "u \<noteq> []" "annexb_unit u"
    using r(1,2) last_rbsp [of bs] by (auto simp: u annexb_unit_def last_escape)
  show l: "length u \<le> 1025" using length_escape_le [of 0 "rbsp bs"] assms(2) by (simp add: u)
  assume n: "sodb_buf n = u" "sodb_len n = length u"
  have "length (escape 0 (rbsp bs)) < 2 ^ 30" using l by (simp add: u)
  note t = nalu_reader_tail [OF n [unfolded u] assms(1) this]
  have "nalu_reader 0 n = mpp_set_pre_detection (mpp_set_bitread_ctx u (int (length u)))"
    using n by (simp add: nalu_reader_def)
  then show "br_wf (nalu_reader 1 n)" "rem_bits (nalu_reader 1 n) = bs @ trailing_bits (length bs)"
    using t r(4) by (simp_all add: bytes_bits_rbsp)
qed

section \<open>To the first slice\<close>

lemma parse_loop_slice:
  assumes "head_buf (d_strm d) = unit_entry S @ unit_entry P @ unit_entry sl @ rest"
    and "nal_type S = 7" and "S \<noteq> []" and "hd S \<noteq> 0" and "length S \<le> 12800"
    and "nal_type P = 8" and "P \<noteq> []" and "hd P \<noteq> 0" and "length P \<le> 12800"
    and "slice_type (nal_type sl)"
    and "\<And>n. sodb_buf n = S \<Longrightarrow> sodb_len n = length S \<Longrightarrow>
          process_sps ((d_slice d)\<lparr>bitctx := nalu_reader 1 n\<rparr>) = Some (MPP_OK, s1 n)"
    and "\<And>n m. sodb_buf n = S \<Longrightarrow> sodb_len n = length S \<Longrightarrow> sodb_buf m = P \<Longrightarrow> sodb_len m = length P \<Longrightarrow>
          process_pps ((s1 n)\<lparr>bitctx := nalu_reader 1 m\<rparr>) = (MPP_OK, s2 n m)"
  obtains d3 p n m where "\<And>ps ip fs. parse_loop ps ip fs d = parse_while ps ip fs MPP_OK d3 p"
    and "next_state d3 = SliceSTATE_ParseNalu" and "sodb_buf (d_nalu d3) = take 12800 sl" and "d_slice d3 = s2 n m"
    and "sodb_buf n = S" and "sodb_len n = length S" and "sodb_buf m = P" and "sodb_len m = length P"
proof -
  define na where "na u = \<lparr>sodb_buf = u, sodb_len = length u, forbidden_bit = 0, nalu_type = 0, nal_reference_idc = 0,
    ualu_header_bytes = 0\<rparr>" for u
  have na: "sodb_buf (na u) = u" "sodb_len (na u) = length u" for u by (simp_all add: na_def)
  define d0 where "d0 = (reset_slice d)\<lparr>next_state := SliceSTATE_ReadNalu\<rparr>"
  have d0: "next_state d0 = SliceSTATE_ReadNalu" "d_strm d0 = d_strm d" "d_slice d0 = d_slice d"
    by (simp_all add: d0_def reset_slice_def)
  have start: "parse_loop ps ip fs d = parse_while ps ip fs MPP_ERR_UNKNOW d0 0" for ps ip fs
    unfolding parse_loop_def by (subst parse_while.simps) (simp add: parse_iteration_def reset_slice_def d0_def)
  have h0: "drop 0 (head_buf (d_strm d0)) = unit_entry S @ unit_entry P @ unit_entry sl @ rest" using assms(1) d0(2) by simp
  have "process_set (nal_type S) ((d_slice d0)\<lparr>bitctx := nalu_reader 1 (na S)\<rparr>) = Some (MPP_OK, s1 (na S))"
    using assms(11) [OF na(1,2)] assms(2) d0(3) by (simp add: process_set_def)
  then obtain d1 where w1: "\<And>ps ip fs ret. parse_while ps ip fs ret d0 0 = parse_while ps ip fs MPP_OK d1 (0 + 8 + length S)"
    and d1: "next_state d1 = SliceSTATE_ReadNalu" "d_strm d1 = d_strm d0" "d_slice d1 = s1 (na S)"
    using parse_while_set [OF d0(1) h0 disjI1 [OF assms(2)] assms(3,4,5), folded na_def] by metis
  have l: "length (unit_entry S) = 8 + length S" "length (unit_entry P) = 8 + length P"
    using assms(2,5,6,9) by (auto simp: unit_entry_def stored_type_def nalu_head_def)
  have h1: "drop (0 + 8 + length S) (head_buf (d_strm d1)) = unit_entry P @ unit_entry sl @ rest"
    using assms(1) d0(2) d1(2) l(1) by simp
  have "process_set (nal_type P) ((d_slice d1)\<lparr>bitctx := nalu_reader 1 (na P)\<rparr>) = Some (MPP_OK, s2 (na S) (na P))"
    using assms(12) [OF na(1,2) na(1,2)] assms(6) d1(3) by (simp add: process_set_def)
  then obtain d2 where w2: "\<And>ps ip fs ret. parse_while ps ip fs ret d1 (0 + 8 + length S)
        = parse_while ps ip fs MPP_OK d2 (0 + 8 + length S + 8 + length P)"
    and d2: "next_state d2 = SliceSTATE_ReadNalu" "d_strm d2 = d_strm d1" "d_slice d2 = s2 (na S) (na P)"
    using parse_while_set [OF d1(1) h1 disjI2 [OF assms(6)] assms(7,8,9), folded na_def] by metis
  define u where "u = take 12800 sl"
  have "length (unit_entry S @ unit_entry P) = 0 + 8 + length S + 8 + length P" using l by simp
  then have "drop (0 + 8 + length S + 8 + length P) (head_buf (d_strm d2)) = unit_entry sl @ rest"
    unfolding assms(1) d0(2) d1(2) d2(2) by (metis append.assoc append_eq_conv_conj)
  also have "\<dots> = nalu_head 0 (word_of_int (nal_type sl)) (of_nat (length u)) @ u @ rest"
    using assms(10) by (auto simp: unit_entry_def slice_type_def stored_type_def u_def min.commute)
  finally have h2: "drop (0 + 8 + length S + 8 + length P) (head_buf (d_strm d2))
    = nalu_head 0 (word_of_int (nal_type sl)) (of_nat (length u)) @ u @ rest" .
  define d3 where "d3 = d2\<lparr>d_nalu := na u, nalu_ret := EndOfNalu, next_state := SliceSTATE_ParseNalu\<rparr>"
  have "length u < 2 ^ 32" by (simp add: u_def)
  from read_nalu_entry [OF h2 this] have r: "read_nalu d2 (0 + 8 + length S + 8 + length P)
      = Some (d3, 0 + 8 + length S + 8 + length P + 8 + length u)" by (simp only: d3_def na_def)
  have "parse_while ps ip fs ret d2 (0 + 8 + length S + 8 + length P)
      = parse_while ps ip fs ret d3 (0 + 8 + length S + 8 + length P + 8 + length u)" for ps ip fs ret
    using r d2(1) by (subst parse_while.simps) (simp add: parse_iteration_def)
  with start w1 w2 have "\<And>ps ip fs. parse_loop ps ip fs d
      = parse_while ps ip fs MPP_OK d3 (0 + 8 + length S + 8 + length P + 8 + length u)" by simp
  then show thesis
    by (rule that [OF _ _ _ _ na(1,2) na(1,2)]) (simp_all add: d3_def d2(3) u_def na_def)
qed

text \<open>The two parameter sets, read at their units, end up in the slots of the decoder.\<close>

lemma config_sets_stored:
  assumes cfg: "enc_cfg_ok cfg" "sps_profile_accepted (codec_profile cfg)" "codec_profile cfg \<noteq> 44"
    "level_known (codec_level cfg)" "even (prep_width cfg)" "even (prep_height cfg)"
    "(prep_width cfg + 15) * (prep_height cfg + 15) * 3 < 2 ^ 32"
    and e: "sps_ok e" "sps_result cfg hw' e" and p: "pps_ok p" "h264e_set_pps cfg e p0 = (MPP_OK, p)"
    and slots: "vd_spsSet (p_Vid s) \<noteq> []" "vd_ppsSet (p_Vid s) \<noteq> []"
    and c: "br_wf c" "rem_bits c = sps_bits e @ trailing_bits (length (sps_bits e))"
    and b: "br_wf b" "rem_bits b = pps_bits p e @ trailing_bits (length (pps_bits p e))"
  shows "\<exists>s1 s2. process_sps (s\<lparr>bitctx := c\<rparr>) = Some (MPP_OK, s1) \<and> process_pps (s1\<lparr>bitctx := b\<rparr>) = (MPP_OK, s2)
    \<and> config_sps cfg e (vd_spsSet (p_Vid s2) ! 0) \<and> config_pps p (vd_ppsSet (p_Vid s2) ! 0)"
proof -
  have c': "br_wf (bitctx (s\<lparr>bitctx := c\<rparr>))" "rem_bits (bitctx (s\<lparr>bitctx := c\<rparr>)) = sps_bits e @ trailing_bits (length (sps_bits e))"
    using c by simp_all
  obtain x y where xy: "process_sps (s\<lparr>bitctx := c\<rparr>) = Some (MPP_OK, s\<lparr>bitctx := c, bitctx := x, pc_sps := y,
         p_Vid := (p_Vid (s\<lparr>bitctx := c\<rparr>))\<lparr>vd_spsSet := (vd_spsSet (p_Vid (s\<lparr>bitctx := c\<rparr>)))[0 := y]\<rparr>\<rparr>)" "config_sps cfg e y"
    by (rule config_sps_processed [OF cfg(1) e cfg(2-7) c'])
  define s1 where "s1 = s\<lparr>bitctx := x, pc_sps := y, p_Vid := (p_Vid s)\<lparr>vd_spsSet := (vd_spsSet (p_Vid s))[0 := y]\<rparr>\<rparr>"
  have s1: "process_sps (s\<lparr>bitctx := c\<rparr>) = Some (MPP_OK, s1)" using xy(1) by (simp add: s1_def)
  define t where "t = s1\<lparr>bitctx := b\<rparr>"
  have t: "bitctx t = b" "p_Vid t = (p_Vid s)\<lparr>vd_spsSet := (vd_spsSet (p_Vid s))[0 := y]\<rparr>" by (simp_all add: t_def s1_def)
  have id: "sps_id e = 0" "ue_ok (sps_id e)" using e(2) by (simp_all add: sps_result_def ue_ok_def)
  have "pps_dec p \<and> pps_id p = 0"
    using set_pps_ok [OF cfg(1) id(2), of p0] p(2) id(1) by (auto simp: pps_dec_def)
  then have pd: "pps_dec p" "pps_id p = 0" by simp_all
  obtain x' y' where s2: "process_pps t = (MPP_OK, t\<lparr>bitctx := x', pc_pps := y', p_Vid := (p_Vid t)\<lparr>vd_ppsSet :=
      (vd_ppsSet (p_Vid t))[nat (pps_id p) := y']\<rparr>\<rparr>)" "config_pps p y'"
    by (rule config_pps_processed [OF p(1) pd(1), of t]) (use t b in simp_all)
  show ?thesis
    by (intro exI conjI, rule s1, rule s2(1) [unfolded t_def]) (use xy(2) s2(2) slots pd(2) t in \<open>simp_all add: s1_def\<close>)
qed

text \<open>The packet of the two sets, then the packet of a slice, in the unsplit mode.\<close>

lemma header_then_slice:
  assumes "fresh_decoder d" and "need_split (d_inp d) = 0" and "strm_ok d" and "strm_offset d = 0"
    and "annexb_unit S" and "annexb_unit P" and "plain (hd S)" and "plain (hd P)" and "length S + length P < 10 * 1024 * 1024 - 6"
    and "sl \<noteq> []" and "slice_type (nal_type sl)" and "length sl < 10 * 1024 * 1024 - 3"
  obtains d1 p1 d2 p2 out c rest where "h264d_prepare d (stream_of ([0, 0, 1] @ S @ [0, 0, 1] @ P)) = Some (MPP_OK, d1, p1, None)"
    and "h264d_prepare d1 (stream_of ([0, 0, 1] @ sl)) = Some (MPP_OK, d2, p2, Some out)"
    and "take (3 + length sl) out = [0, 0, 1] @ sl" and "d_slice d2 = (d_slice d)\<lparr>bitctx := c\<rparr>"
    and "head_buf (d_strm d2) = unit_entry S @ unit_entry P @ unit_entry sl @ rest"
proof -
  let ?zus = "[(0, S), (0, P)]"
  let ?hdr = "[0, 0, 1] @ S @ [0, 0, 1] @ P"
  have sp: "stream_packet (stream_of ?hdr)" "stream_packet (stream_of ([0, 0, 1] @ sl))"
    using assms(9,12) by (intro stream_of_packet(1); simp)+
  have q: "\<forall>u \<in> snd ` set ?zus. annexb_unit u \<and> plain (hd u)" using assms(5-8) by simp
  have us: "pk_data (stream_of ?hdr) = unit_stream ?zus" by (simp add: stream_of_packet(2) unit_stream_def start_code_def)
  obtain d1 where d1: "h264d_prepare d (stream_of ?hdr) = Some (MPP_OK, d1, (stream_of ?hdr)\<lparr>pk_length := 0\<rparr>, None)"
    "between_packets (False, [] @ map snd ?zus, last (map snd ?zus)) d1" "need_split (d_inp d1) = 0"
    "\<exists>c. d_slice d1 = (d_slice d)\<lparr>bitctx := c\<rparr>" "strm_ok d1 = strm_ok d" "strm_offset d1 = strm_offset d"
    by (rule fast_header_packet [OF fresh_between [OF assms(1)] _ assms(2) sp(1) us q]) auto
  obtain d2 out where d2: "h264d_prepare d1 (stream_of ([0, 0, 1] @ sl)) = Some (MPP_OK, d2, (stream_of ([0, 0, 1] @ sl))\<lparr>pk_length := 0\<rparr>, Some out)"
    "take (strm_offset d1 + 3 + length sl) out = take (strm_offset d1) (bitstream d1) @ [0, 0, 1] @ sl"
    "\<exists>rest. head_buf (d_strm d2) = concat (map unit_entry ([] @ map snd ?zus)) @ unit_entry sl @ nalu_head 1 0 0 @ rest"
    "\<exists>c. d_slice d2 = (d_slice d1)\<lparr>bitctx := c\<rparr>"
    by (rule fast_slice_packet [OF d1(2,3) sp(2) stream_of_packet(2) assms(10,11)]) (use d1(5) assms(3) in simp_all)
  obtain c where c: "d_slice d2 = (d_slice d)\<lparr>bitctx := c\<rparr>" using d1(4) d2(4) by auto
  obtain rest where "head_buf (d_strm d2) = unit_entry S @ unit_entry P @ unit_entry sl @ rest" using d2(3) by auto
  from that [OF d1(1) d2(1) _ c this] d2(2) d1(6) assms(4) show thesis by simp
qed

text \<open>
  C1: from the encoder's configuration to the decoder's first slice, over the packets. For every acceptable
  configuration with a defined frame rate the packet of parameter sets that the RKVENC path fills, given to a new decoder in the
  unsplit mode, yields no task; the packet of the first slice then yields a task whose stream is that
  slice; and \<open>parse_loop\<close>, whatever the operations on slices are, comes to this slice with the picture
  size, profile and references of the configuration in the SPS slot and its PPS in the PPS slot.
\<close>

theorem configuration_to_first_slice:
  assumes "addr mod 4 = 0" and "length (nal info0) = 3" and "enc_cfg_ok cfg"
    and "vui_ok (sps_vui (ei_sps info0))" and "800 \<le> length (pkt_data pkt)" and "sps_profile_accepted (codec_profile cfg)"
    and "codec_profile cfg \<noteq> 44" and "level_known (codec_level cfg)" and "even (prep_width cfg)"
    and "even (prep_height cfg)" and "(prep_width cfg + 15) * (prep_height cfg + 15) * 3 < 2 ^ 32"
    and "fresh_decoder d" and "need_split (d_inp d) = 0" and "strm_ok d" and "strm_offset d = 0"
    and "vd_spsSet (p_Vid (d_slice d)) \<noteq> []" and "vd_ppsSet (p_Vid (d_slice d)) \<noteq> []"
    and "sl \<noteq> []" and "slice_type (nal_type sl)" and "length sl < 10 * 1024 * 1024 - 3" and "fps_defined cfg"
  shows "\<exists>info hw' sps pps h d1 p1 d2 p2 out d3 p.
      h264e_rkv_set_extra_info cfg hw (h264e_rkv_init_extra_info addr info0) = Some (info, hw')
    \<and> h264e_set_sps cfg hw (ei_sps info0) = Some (MPP_OK, sps, hw') \<and> h264e_set_pps cfg sps (ei_pps info0) = (MPP_OK, pps)
    \<and> h = h264e_rkv_get_extra_info info pkt
    \<and> h264d_prepare d (stream_of (take (pkt_length h) (pkt_data h))) = Some (MPP_OK, d1, p1, None)
    \<and> h264d_prepare d1 (stream_of ([0, 0, 1] @ sl)) = Some (MPP_OK, d2, p2, Some out)
    \<and> take (3 + length sl) out = [0, 0, 1] @ sl
    \<and> (\<forall>ps ip fs. parse_loop ps ip fs d2 = parse_while ps ip fs MPP_OK d3 p)
    \<and> next_state d3 = SliceSTATE_ParseNalu \<and> sodb_buf (d_nalu d3) = take 12800 sl
    \<and> config_sps cfg sps (vd_spsSet (p_Vid (d_slice d3)) ! 0) \<and> config_pps pps (vd_ppsSet (p_Vid (d_slice d3)) ! 0)"
proof -
  obtain info hw' sps pps where h:
    "h264e_rkv_set_extra_info cfg hw (h264e_rkv_init_extra_info addr info0) = Some (info, hw')"
    "h264e_set_sps cfg hw (ei_sps info0) = Some (MPP_OK, sps, hw')" "sps_ok sps" "sps_result cfg hw' sps"
    "h264e_set_pps cfg sps (ei_pps info0) = (MPP_OK, pps)" "pps_ok pps"
    "take (pkt_length (h264e_rkv_get_extra_info info pkt)) (pkt_data (h264e_rkv_get_extra_info info pkt))
        = annexb 0x67 (rbsp (sps_bits sps)) @ annexb 0x68 (rbsp (pps_bits pps sps))"
    "length (rbsp (sps_bits sps)) \<le> 201" "length (rbsp (pps_bits pps sps)) \<le> 64"
    by (rule header_packet [OF assms(1-5,21)])
  define S P where "S = drop 3 (annexb 0x67 (rbsp (sps_bits sps)))"
    and "P = drop 3 (annexb 0x68 (rbsp (pps_bits pps sps)))"
  have nz: "(0x67 :: u8) \<noteq> 0" "(0x68 :: u8) \<noteq> 0" by simp_all
  have l: "length (rbsp (sps_bits sps)) \<le> 512" "length (rbsp (pps_bits pps sps)) \<le> 512" using h(8,9) by simp_all
  note uS = annexb_unit_rbsp [OF nz(1) l(1), folded S_def] and uP = annexb_unit_rbsp [OF nz(2) l(2), folded P_def]
  have t: "nal_type S = 7" "nal_type P = 8" "plain (hd S)" "plain (hd P)"
    by (simp_all add: nal_type_def uS(3) uP(3) plain_def slice_type_def)
  have ends: "hd S \<noteq> 0" "length S \<le> 12800" "hd P \<noteq> 0" "length P \<le> 12800" using uS(3,5) uP(3,5) nz by simp_all
  have hdr: "take (pkt_length (h264e_rkv_get_extra_info info pkt)) (pkt_data (h264e_rkv_get_extra_info info pkt))
      = [0, 0, 1] @ S @ [0, 0, 1] @ P" unfolding h(7) unfolding uS(1) uP(1) by simp
  obtain d1 p1 d2 p2 out c rest where d: "h264d_prepare d (stream_of ([0, 0, 1] @ S @ [0, 0, 1] @ P)) = Some (MPP_OK, d1, p1, None)"
    "h264d_prepare d1 (stream_of ([0, 0, 1] @ sl)) = Some (MPP_OK, d2, p2, Some out)"
    "take (3 + length sl) out = [0, 0, 1] @ sl" "d_slice d2 = (d_slice d)\<lparr>bitctx := c\<rparr>"
    "head_buf (d_strm d2) = unit_entry S @ unit_entry P @ unit_entry sl @ rest"
    by (rule header_then_slice [OF assms(12-15) uS(2) uP(2) t(3,4) _ assms(18-20)]) (use uS(5) uP(5) in simp)
  define s1 where "s1 n = snd (the (process_sps ((d_slice d2)\<lparr>bitctx := nalu_reader 1 n\<rparr>)))" for n
  define s2 where "s2 n m = snd (process_pps ((s1 n)\<lparr>bitctx := nalu_reader 1 m\<rparr>))" for n m
  have sets: "process_sps ((d_slice d2)\<lparr>bitctx := nalu_reader 1 n\<rparr>) = Some (MPP_OK, s1 n)
      \<and> process_pps ((s1 n)\<lparr>bitctx := nalu_reader 1 m\<rparr>) = (MPP_OK, s2 n m)
      \<and> config_sps cfg sps (vd_spsSet (p_Vid (s2 n m)) ! 0) \<and> config_pps pps (vd_ppsSet (p_Vid (s2 n m)) ! 0)"
    if "sodb_buf n = S" "sodb_len n = length S" "sodb_buf m = P" "sodb_len m = length P" for n m
  proof -
    have "vd_spsSet (p_Vid (d_slice d2)) \<noteq> []" "vd_ppsSet (p_Vid (d_slice d2)) \<noteq> []" using assms(16,17) by (simp_all add: d(4))
    from config_sets_stored [OF assms(3,6-11) h(3,4,6,5) this uS(6,7) [OF that(1,2)] uP(6,7) [OF that(3,4)]]
    show ?thesis by (auto simp: s1_def s2_def)
  qed
  obtain d3 p n m where d3: "\<And>ps ip fs. parse_loop ps ip fs d2 = parse_while ps ip fs MPP_OK d3 p"
    "next_state d3 = SliceSTATE_ParseNalu" "sodb_buf (d_nalu d3) = take 12800 sl" "d_slice d3 = s2 n m"
    "sodb_buf n = S" "sodb_len n = length S" "sodb_buf m = P" "sodb_len m = length P"
  proof (rule parse_loop_slice [OF d(5) t(1) uS(4) ends(1,2) t(2) uP(4) ends(3,4) assms(19), of s1 s2])
    show "process_sps ((d_slice d2)\<lparr>bitctx := nalu_reader 1 n\<rparr>) = Some (MPP_OK, s1 n)"
      if "sodb_buf n = S" "sodb_len n = length S" for n
      using sets [OF that, of "n\<lparr>sodb_buf := P, sodb_len := length P\<rparr>"] by simp
    show "process_pps ((s1 n)\<lparr>bitctx := nalu_reader 1 m\<rparr>) = (MPP_OK, s2 n m)"
      if "sodb_buf n = S" "sodb_len n = length S" "sodb_buf m = P" "sodb_len m = length P" for n m
      using sets [OF that] by simp
  qed (rule that)
  have sets3: "config_sps cfg sps (vd_spsSet (p_Vid (d_slice d3)) ! 0)" "config_pps pps (vd_ppsSet (p_Vid (d_slice d3)) ! 0)"
    unfolding d3(4) using sets [OF d3(5-8)] by blast+
  show ?thesis
    by (intro exI conjI allI, rule h(1), rule h(2), rule h(5), rule refl, unfold hdr, rule d(1), rule d(2), rule d(3),
        rule d3(1), rule d3(2), rule d3(3), rule sets3(1), rule sets3(2))
qed

theorem configuration_to_first_slice_witness:
  "\<exists>sps pps d1 p1 d2 p2 out d3 p hdr.
      h264d_prepare (demo_dec 0) (stream_of hdr) = Some (MPP_OK, d1, p1, None)
    \<and> h264d_prepare d1 (stream_of [0, 0, 1, 0x65, 0x88]) = Some (MPP_OK, d2, p2, Some out)
    \<and> (\<forall>ps ip fs. parse_loop ps ip fs d2 = parse_while ps ip fs MPP_OK d3 p)
    \<and> sodb_buf (d_nalu d3) = [0x65, 0x88]
    \<and> config_sps demo_cfg sps (vd_spsSet (p_Vid (d_slice d3)) ! 0) \<and> config_pps pps (vd_ppsSet (p_Vid (d_slice d3)) ! 0)"
proof -
  have c: "sps_profile_accepted (codec_profile demo_cfg)" "codec_profile demo_cfg \<noteq> 44" "level_known (codec_level demo_cfg)"
    "even (prep_width demo_cfg)" "even (prep_height demo_cfg)" "vui_ok (sps_vui (ei_sps demo_extra))"
    "(prep_width demo_cfg + 15) * (prep_height demo_cfg + 15) * 3 < 2 ^ 32" "length (nal demo_extra) = 3"
    by (simp_all add: demo_cfg_def sps_profile_accepted_def level_known_def demo_ok demo_extra_def)
  have d: "fresh_decoder (demo_dec 0)" "need_split (d_inp (demo_dec 0)) = 0" "strm_ok (demo_dec 0)" "strm_offset (demo_dec 0) = 0"
    "vd_spsSet (p_Vid (d_slice (demo_dec 0))) \<noteq> []" "vd_ppsSet (p_Vid (d_slice (demo_dec 0))) \<noteq> []"
    using demo_dec_fresh by (simp_all add: demo_dec_def strm_ok_def new_slice_def zero_video_def)
  have s: "[0x65, 0x88 :: u8] \<noteq> []" "slice_type (nal_type [0x65, 0x88 :: u8])" "length [0x65, 0x88 :: u8] < 10 * 1024 * 1024 - 3"
    by (simp_all add: nal_type_def slice_type_def)
  have p: "800 \<le> length (pkt_data \<lparr>pkt_data = replicate 1024 0, pkt_length = 0\<rparr>)" by simp
  show ?thesis
    using configuration_to_first_slice [of 4096, OF _ c(8) demo_ok(1) c(6) p c(1-5,7) d s demo_ok(4), of demo_hw] by (simp add: min_def) blast
qed

end
