(* ===== verification/H264dFrame.thy ===== *)
theory H264dFrame
  imports H264dNalSpec
begin

text \<open>
  Where \<open>parse_prepare\<close> sees a new picture, and what it does to the byte that showed it.
\<close>

section \<open>The first slice of a picture\<close>

lemma read_ue_zero:
  assumes "br_wf c" and "rem_bits c = True # rest"
  obtains c' where "mpp_read_ue c = (MPP_OK, c', 0)"
proof -
  have "rem_bits c = ue_bits 0 @ rest" unfolding assms(2) by code_simp
  from mpp_read_ue_code [OF assms(1) this] that show thesis by auto
qed

lemma judge_first_slice:
  assumes "nalu_bytes (d_strm d) = h # a # x # y # z # r" and "slice_type (uint h AND 31)" and "bit a 7"
    and "nalu_len (d_strm d) = 5"
  obtains c where "judge_is_new_frame d = Some (MPP_OK, d\<lparr>d_strm := (d_strm d)\<lparr>st_nalu_type := uint h AND 31\<rparr>,
      d_slice := (d_slice d)\<lparr>bitctx := c\<rparr>, last_dts := curr_dts d, last_pts := curr_pts d,
      curr_dts := in_dts (d_inp d), curr_pts := in_pts (d_inp d),
      is_new_frame := if have_slice_data d \<noteq> 0 then 1 else is_new_frame d, have_slice_data := 1\<rparr>)"
proof -
  have t: "uint h AND 31 \<noteq> 14 \<and> uint h AND 31 \<noteq> 20" using assms(2) by (auto simp: slice_type_def)
  let ?l = "\<lparr>j_type = st_nalu_type (d_strm d), j_header_bytes = 0, j_svc = - 1\<rparr>"
  have "length [a, x, y] = 3" by simp
  from judge_header_short [OF t this, of ?l] obtain c0 where
    c0: "SEQ judge_header ?l (mpp_set_pre_detection (mpp_set_bitread_ctx [h, a, x, y] 4))
      = (MPP_OK, \<lparr>j_type = uint h AND 31, j_header_bytes = 1, j_svc = - 1\<rparr>, c0)" by auto
  have "length [x, y, z] < 2 ^ 30" by simp
  note r = mpp_read_header [OF this, of a]
  have "byte_bits a = True # tl (byte_bits a)" using assms(3) by (simp add: byte_bits_def msb_bits_def upt_rec eval_nat_numeral)
  then have "rem_bits (mpp_set_pre_detection (mpp_set_bitread_ctx [a, x, y, z] (int (length [a, x, y, z]))))
      = True # (tl (byte_bits a) @ bytes_bits (unescape True (push_bit 8 0xffff OR ucast a) [x, y, z]))"
    using r(1) by (metis append_Cons)
  from read_ue_zero [OF r(2) this] obtain c where
    c: "mpp_read_ue (mpp_set_pre_detection (mpp_set_bitread_ctx [a, x, y, z] 4)) = (MPP_OK, c, 0)" by auto
  show thesis
    by (rule that [of c]) (use c0 c assms in \<open>simp add: judge_is_new_frame_def Let_def\<close>)
qed

text \<open>The fifth byte of a slice that begins a picture leaves the loop.\<close>

lemma append_split_first:
  assumes "buffers_ok (d_strm d)" and "nalu_len (d_strm d) = 4" and "take 4 (nalu_bytes (d_strm d)) = [h, a, x, y]"
    and "slice_type (uint h AND 31)" and "bit a 7" and "have_slice_data d \<noteq> 0"
  obtains m n hb k c where "append_split z d = Some (MPP_OK, True, d\<lparr>d_strm := (d_strm d)\<lparr>nalu_buf := Heap m, nalu_max_size := n,
      nalu_len := 5, st_nalu_type := uint h AND 31, head_buf := hb, head_max_size := k, head_offset := 0\<rparr>,
      d_slice := (d_slice d)\<lparr>bitctx := c\<rparr>, last_dts := curr_dts d, last_pts := curr_pts d,
      curr_dts := in_dts (d_inp d), curr_pts := in_pts (d_inp d), is_new_frame := 0, have_slice_data := 1,
      d_inp := (d_inp d)\<lparr>task_valid := 1\<rparr>\<rparr>)"
    and "length m = n" and "8 \<le> n" and "take 5 m = [h, a, x, y, z]" and "length hb = k"
    and "take (head_offset (d_strm d) + 8) hb = take (head_offset (d_strm d)) (head_buf (d_strm d)) @ nalu_head 1 0 0"
proof -
  have le: "nalu_len (d_strm d) \<le> nalu_max_size (d_strm d)" using assms(1,2) by (simp add: buffers_ok_def)
  obtain m n where
    m: "put_nalu_byte z (d_strm d) = Some (MPP_OK, (d_strm d)\<lparr>nalu_buf := Heap m, nalu_max_size := n, nalu_len := 5\<rparr>)"
    "length m = n" "nalu_max_size (d_strm d) \<le> n" "take 5 m = [h, a, x, y, z]"
    by (rule put_nalu_byte_ok [OF assms(1) le, of z]) (use assms(2,3) in simp)
  have n: "8 \<le> n" using m(3) assms(1) by (simp add: buffers_ok_def)
  define d1 where "d1 = d\<lparr>d_strm := (d_strm d)\<lparr>nalu_buf := Heap m, nalu_max_size := n, nalu_len := 5\<rparr>\<rparr>"
  have "nalu_bytes (d_strm d1) = h # a # x # y # z # drop 5 m"
    using append_take_drop_id [of 5 m] m(4) by (simp add: d1_def nalu_bytes_def)
  then obtain c where c: "judge_is_new_frame d1 = Some (MPP_OK, d1\<lparr>d_strm := (d_strm d1)\<lparr>st_nalu_type := uint h AND 31\<rparr>,
      d_slice := (d_slice d1)\<lparr>bitctx := c\<rparr>, last_dts := curr_dts d1, last_pts := curr_pts d1,
      curr_dts := in_dts (d_inp d1), curr_pts := in_pts (d_inp d1),
      is_new_frame := if have_slice_data d1 \<noteq> 0 then 1 else is_new_frame d1, have_slice_data := 1\<rparr>)"
    using judge_first_slice [of d1 h a x y z "drop 5 m"] assms(4,5) by (auto simp: d1_def)
  define st where "st = (d_strm d1)\<lparr>st_nalu_type := uint h AND 31\<rparr>"
  have "buffers_ok st" using assms(1) m(2) n by (simp add: st_def d1_def buffers_ok_def)
  from add_empty_nalu_ok [OF buffers_head [OF this]] obtain hb k h' where
    e: "add_empty_nalu st = (MPP_OK, st\<lparr>head_buf := hb, head_max_size := k, head_offset := h'\<rparr>)"
    "length hb = k" "take h' hb = take (head_offset st) (head_buf st) @ nalu_head 1 0 0" "h' = head_offset st + 8" by metis
  show thesis
  proof (rule that [where m = m and n = n and hb = hb and k = k and c = c])
    show "append_split z d = Some (MPP_OK, True, d\<lparr>d_strm := (d_strm d)\<lparr>nalu_buf := Heap m, nalu_max_size := n,
      nalu_len := 5, st_nalu_type := uint h AND 31, head_buf := hb, head_max_size := k, head_offset := 0\<rparr>,
      d_slice := (d_slice d)\<lparr>bitctx := c\<rparr>, last_dts := curr_dts d, last_pts := curr_pts d,
      curr_dts := in_dts (d_inp d), curr_pts := in_pts (d_inp d), is_new_frame := 0, have_slice_data := 1,
      d_inp := (d_inp d)\<lparr>task_valid := 1\<rparr>\<rparr>)"
      using m(1) c e(1) assms(6) by (simp add: append_split_def Let_def d1_def st_def)
  qed (use m n e in \<open>simp_all add: st_def d1_def\<close>)
qed

section \<open>The byte that shows it is lost to the search for start codes\<close>

text \<open>
  Inside the second slice of a stream: four bytes of the unit are there, the first slice of its picture,
  and the last picture is complete.
\<close>

definition before_first_slice :: "u8 \<Rightarrow> u8 \<Rightarrow> u8 list \<Rightarrow> h264d_dec \<Rightarrow> bool" where
  "before_first_slice h a bs d \<longleftrightarrow> buffers_ok (d_strm d) \<and> strm_ok d
     \<and> nalu_len (d_strm d) = 4 \<and> take 4 (nalu_bytes (d_strm d)) = [h, a, 0, 0]
     \<and> startcode_found (d_strm d) \<noteq> 0 \<and> endcode_found (d_strm d) = 0 \<and> prefixdata (d_strm d) AND 0xFFFF = 0
     \<and> have_slice_data d \<noteq> 0 \<and> pkt_eos (d_inp d) = 0
     \<and> in_length (d_inp d) = length bs \<and> pkt_impl_length (d_inp d) = length bs
     \<and> drop (nalu_offset (d_strm d)) (in_buf (d_inp d)) = bs"

lemma slice_cut_step1:
  assumes "before_first_slice h a (3 # 1 # bs) d" and "slice_type (uint h AND 31)" and "bit a 7"
  obtains d' where "parse_prepare d = Some (MPP_OK, d')" and "task_valid (d_inp d') = 1"
    and "buffers_ok (d_strm d')" and "strm_ok d'" and "strm_offset d' = strm_offset d"
    and "bitstream d' = bitstream d" and "nalu_len (d_strm d') = 5" and "take 5 (nalu_bytes (d_strm d')) = [h, a, 0, 0, 3]"
    and "startcode_found (d_strm d') \<noteq> 0" and "prefixdata (d_strm d') AND 0xFFFF = 0" and "head_offset (d_strm d') = 0"
    and "st_nalu_type (d_strm d') = uint h AND 31" and "pkt_eos (d_inp d') = 0" and "in_length (d_inp d') = Suc (length bs)"
    and "pkt_impl_length (d_inp d') = Suc (length bs)" and "drop (nalu_offset (d_strm d')) (in_buf (d_inp d')) = 1 # bs"
proof -
  note b = assms(1) [unfolded before_first_slice_def]
  define d0 where "d0 = d\<lparr>nalu_ret := NALU_NULL, d_inp := (d_inp d)\<lparr>task_valid := 0\<rparr>\<rparr>"
  define d1 where "d1 = d0\<lparr>d_strm := (d_strm d0)\<lparr>nalu_offset := nalu_offset (d_strm d0) + 1\<rparr>,
    d_inp := (d_inp d0)\<lparr>pkt_impl_length := Suc (length bs)\<rparr>\<rparr>"
  have d1: "d_strm d1 = (d_strm d)\<lparr>nalu_offset := nalu_offset (d_strm d) + 1\<rparr>" "have_slice_data d1 \<noteq> 0"
    using b by (simp_all add: d1_def d0_def)
  have ok: "buffers_ok (d_strm d1)" "nalu_len (d_strm d1) = 4" "take 4 (nalu_bytes (d_strm d1)) = [h, a, 0, 0]"
    using b by (simp_all add: d1(1) buffers_ok_def nalu_bytes_def)
  from append_split_first [OF ok assms(2,3) d1(2), of 3] obtain m n hb k c where
    a: "append_split 3 d1 = Some (MPP_OK, True, d1\<lparr>d_strm := (d_strm d1)\<lparr>nalu_buf := Heap m, nalu_max_size := n,
      nalu_len := 5, st_nalu_type := uint h AND 31, head_buf := hb, head_max_size := k, head_offset := 0\<rparr>,
      d_slice := (d_slice d1)\<lparr>bitctx := c\<rparr>, last_dts := curr_dts d1, last_pts := curr_pts d1,
      curr_dts := in_dts (d_inp d1), curr_pts := in_pts (d_inp d1), is_new_frame := 0, have_slice_data := 1,
      d_inp := (d_inp d1)\<lparr>task_valid := 1\<rparr>\<rparr>)"
    "length m = n" "8 \<le> n" "take 5 m = [h, a, 0, 0, 3]" "length hb = k" by metis
  have "drop (nalu_offset (d_strm d)) (in_buf (d_inp d)) = 3 # 1 # bs" using b by simp
  note o = drop_next [OF this]
  define d2 where "d2 = d1\<lparr>d_strm := (d_strm d1)\<lparr>nalu_buf := Heap m, nalu_max_size := n,
      nalu_len := 5, st_nalu_type := uint h AND 31, head_buf := hb, head_max_size := k, head_offset := 0\<rparr>,
      d_slice := (d_slice d1)\<lparr>bitctx := c\<rparr>, last_dts := curr_dts d1, last_pts := curr_pts d1,
      curr_dts := in_dts (d_inp d1), curr_pts := in_pts (d_inp d1), is_new_frame := 0, have_slice_data := 1,
      d_inp := (d_inp d1)\<lparr>task_valid := 1\<rparr>\<rparr>"
  have "prepare_loop append_split (pkt_impl_length (d_inp d0)) d0 = Some (MPP_OK, d2)"
    using b o a(1) by (simp add: d0_def Let_def d1_def d2_def)
  moreover have "pkt_eos (d_inp d0) = 0" "in_length (d_inp d0) \<noteq> 0" using b by (simp_all add: d0_def)
  moreover have "pkt_impl_length (d_inp d2) = Suc (length bs)" by (simp add: d2_def d1_def)
  ultimately have "parse_prepare d = Some (MPP_OK, d2\<lparr>d_inp := (d_inp d2)\<lparr>in_length := Suc (length bs)\<rparr>\<rparr>)"
    unfolding parse_prepare_def Let_def d0_def [symmetric] by simp
  then show thesis
    by (rule that) (use a(2-5) b o in \<open>simp_all add: d2_def d1_def d0_def buffers_ok_def strm_ok_def nalu_bytes_def\<close>)
qed

lemma slice_cut_step2:
  assumes "buffers_ok (d_strm d)" and "strm_ok d" and "nalu_len (d_strm d) = 5" and "take 5 (nalu_bytes (d_strm d)) = [h, a, 0, 0, 3]"
    and "startcode_found (d_strm d) \<noteq> 0" and "prefixdata (d_strm d) AND 0xFFFF = 0" and "head_offset (d_strm d) = 0"
    and "st_nalu_type (d_strm d) = uint h AND 31" and "pkt_eos (d_inp d) = 0" and "in_length (d_inp d) = Suc (length bs)"
    and "pkt_impl_length (d_inp d) = Suc (length bs)" and "drop (nalu_offset (d_strm d)) (in_buf (d_inp d)) = 1 # bs"
    and "slice_type (uint h AND 31)" and "bit a 7" and "bs \<noteq> []"
  obtains d' where "parse_prepare d = Some (MPP_OK, d')" and "nalu_ret d' = EndOfNalu" and "nalu_len (d_strm d') = 0"
    and "take (head_offset (d_strm d')) (head_buf (d_strm d')) = unit_entry [h, a]"
    and "strm_offset d' = strm_offset d + 5"
    and "take (strm_offset d') (bitstream d') = take (strm_offset d) (bitstream d) @ [0, 0, 1, h, a]"
proof -
  define d0 where "d0 = d\<lparr>nalu_ret := NALU_NULL, d_inp := (d_inp d)\<lparr>task_valid := 0\<rparr>\<rparr>"
  define d1 where "d1 = d0\<lparr>d_strm := (d_strm d0)\<lparr>nalu_offset := nalu_offset (d_strm d0) + 1\<rparr>,
    d_inp := (d_inp d0)\<lparr>pkt_impl_length := length bs\<rparr>\<rparr>"
  have d1: "d_strm d1 = (d_strm d)\<lparr>nalu_offset := nalu_offset (d_strm d) + 1\<rparr>" by (simp add: d1_def d0_def)
  have ok: "buffers_ok (d_strm d1)" using assms(1) by (simp add: d1 buffers_ok_def)
  have le: "nalu_len (d_strm d1) \<le> nalu_max_size (d_strm d1)" using assms(1,3) by (simp add: d1 buffers_ok_def)
  obtain m n where m: "put_nalu_byte 1 (d_strm d1) = Some (MPP_OK, (d_strm d1)\<lparr>nalu_buf := Heap m, nalu_max_size := n, nalu_len := 6\<rparr>)"
    "length m = n" "nalu_max_size (d_strm d1) \<le> n" "take 6 m = [h, a, 0, 0, 3, 1]"
    by (rule put_nalu_byte_ok [OF ok le, of 1]) (use assms(3,4) in \<open>simp add: d1 nalu_bytes_def\<close>)
  have m': "m ! 0 = h" "m ! 1 = a" "m ! 2 = 0" "6 \<le> length m" "8 \<le> n" "take 2 m = [h, a]"
    using arg_cong [OF m(4), of "\<lambda>l. l ! 0"] arg_cong [OF m(4), of "\<lambda>l. l ! 1"] arg_cong [OF m(4), of "\<lambda>l. l ! 2"]
      arg_cong [OF m(4), of length] arg_cong [OF m(4), of "take 2"] m(3) assms(1) by (simp_all add: d1 buffers_ok_def)
  have "a \<noteq> 0" using assms(14) by auto
  then have strip: "strip_zeros m 3 = Some 2" using m' by (simp add: eval_nat_numeral)
  define st where "st = find_prefix_code 1 ((d_strm d1)\<lparr>nalu_buf := Heap m, nalu_max_size := n, nalu_len := 6\<rparr>)"
  have st: "endcode_found st = 1" "nalu_len st = 6" "nalu_buf st = Heap m" "nalu_max_size st = n" "nalu_bytes st = m"
    "st_nalu_type st = uint h AND 31" "head_offset st = 0" "buffers_ok (st\<lparr>nalu_len := 2\<rparr>)"
    using push_byte_masks(3) [of "prefixdata (d_strm d)" 1] assms(1,5-8) m(2) m'(5)
    by (simp_all add: st_def find_prefix_code_def Let_def d1 nalu_bytes_def buffers_ok_def)
  define d2 where "d2 = d1\<lparr>d_strm := st\<lparr>nalu_len := 2\<rparr>, nalu_ret := EndOfNalu\<rparr>"
  have w: "nalu_len (st\<lparr>nalu_len := 2\<rparr>) = length [h, a]" "take (length [h, a]) (nalu_bytes (st\<lparr>nalu_len := 2\<rparr>)) = [h, a]"
    "st_nalu_type (st\<lparr>nalu_len := 2\<rparr>) = nal_type [h, a]" "st\<lparr>nalu_len := 2\<rparr> = d_strm d2" "slice_type (nal_type [h, a])" "strm_ok d2"
    using st m' assms(2,13) by (simp_all add: nal_type_def nalu_bytes_def d2_def d1_def d0_def strm_ok_def numeral_2_eq_2)
  obtain hb k h' bs' n' where s: "store_cur_nalu d2 = Some (MPP_OK, d2\<lparr>d_strm := st\<lparr>nalu_len := 2, head_buf := hb, head_max_size := k, head_offset := h'\<rparr>,
      bitstream := bs', max_strm_size := n', strm_offset := strm_offset d2 + 3 + length [h, a]\<rparr>)"
    "take h' hb = unit_entry [h, a]"
    "take (strm_offset d2 + 3 + length [h, a]) bs' = take (strm_offset d2) (bitstream d2) @ [0, 0, 1, h, a]"
    by (rule store_slice [OF buffers_head [OF st(8)] w]) (use st(7) in simp)
  define d3 where "d3 = upd_strm reset_nalu (d2\<lparr>d_strm := st\<lparr>nalu_len := 2, head_buf := hb, head_max_size := k, head_offset := h'\<rparr>,
      bitstream := bs', max_strm_size := n', strm_offset := strm_offset d2 + 3 + length [h, a]\<rparr>)"
  have e: "end_of_nalu (d1\<lparr>d_strm := st\<rparr>) = Some (MPP_OK, d3)"
    using st strip s(1) m'(4) by (simp add: end_of_nalu_def d2_def [symmetric] d3_def)
  note o = drop_next [OF assms(12)]
  have "append_split 1 d1 = Some (MPP_OK, False, d1\<lparr>d_strm := (d_strm d1)\<lparr>nalu_buf := Heap m, nalu_max_size := n, nalu_len := 6\<rparr>\<rparr>)"
    using m(1) by (simp add: append_split_def)
  then have "prepare_loop append_split (pkt_impl_length (d_inp d0)) d0 = Some (MPP_OK, d3)"
    using o assms(5,11) e st(1) by (simp add: d0_def Let_def) (simp add: d1_def d0_def st_def comp_def)
  moreover have "pkt_eos (d_inp d0) = 0" "in_length (d_inp d0) \<noteq> 0" using assms(9,10) by (simp_all add: d0_def)
  moreover have "pkt_impl_length (d_inp d3) = length bs" by (simp add: d3_def d2_def d1_def)
  ultimately have "parse_prepare d = Some (MPP_OK, d3\<lparr>d_inp := (d_inp d3)\<lparr>in_length := length bs\<rparr>\<rparr>)"
    using assms(15) unfolding parse_prepare_def Let_def d0_def [symmetric] by simp
  then show thesis
    by (rule that) (use s(2,3) st(1) in \<open>simp_all add: d3_def d2_def d1_def d0_def reset_nalu_def\<close>)
qed

text \<open>
  C24: a slice may be cut in two. When the first slice of a picture starts with the header byte \<open>h\<close>,
  a byte \<open>a\<close> that says that it is the first (\<open>first_mb_in_slice = 0\<close>), and an escaped \<open>0, 0, 1\<close>, that is
  the bytes \<open>0, 0, 3, 1\<close>, \<open>parse_prepare\<close> leaves the loop at the escape byte, for the picture before is complete,
  and does not show this byte to \<open>find_prefix_code\<close>. The next call takes the byte \<open>1\<close> for the end of a
  start code: the unit stored, and the stream for the hardware, is \<open>h, a\<close>; the rest is read as a new unit.
\<close>

theorem first_slice_cut:
  assumes "before_first_slice h a (3 # 1 # bs) d" and "slice_type (uint h AND 31)" and "bit a 7" and "bs \<noteq> []"
  shows "\<exists>d1 d2. parse_prepare d = Some (MPP_OK, d1) \<and> task_valid (d_inp d1) = 1
    \<and> parse_prepare d1 = Some (MPP_OK, d2) \<and> nalu_ret d2 = EndOfNalu \<and> nalu_len (d_strm d2) = 0
    \<and> take (head_offset (d_strm d2)) (head_buf (d_strm d2)) = unit_entry [h, a]
    \<and> take (strm_offset d2) (bitstream d2) = take (strm_offset d) (bitstream d) @ [0, 0, 1, h, a]"
proof -
  obtain d1 where d1: "parse_prepare d = Some (MPP_OK, d1)" "task_valid (d_inp d1) = 1"
    "buffers_ok (d_strm d1)" "strm_ok d1" "strm_offset d1 = strm_offset d" "bitstream d1 = bitstream d"
    "nalu_len (d_strm d1) = 5" "take 5 (nalu_bytes (d_strm d1)) = [h, a, 0, 0, 3]"
    "startcode_found (d_strm d1) \<noteq> 0" "prefixdata (d_strm d1) AND 0xFFFF = 0" "head_offset (d_strm d1) = 0"
    "st_nalu_type (d_strm d1) = uint h AND 31" "pkt_eos (d_inp d1) = 0" "in_length (d_inp d1) = Suc (length bs)"
    "pkt_impl_length (d_inp d1) = Suc (length bs)" "drop (nalu_offset (d_strm d1)) (in_buf (d_inp d1)) = 1 # bs"
    by (rule slice_cut_step1 [OF assms(1-3)])
  obtain d2 where "parse_prepare d1 = Some (MPP_OK, d2)" "nalu_ret d2 = EndOfNalu" "nalu_len (d_strm d2) = 0"
    "take (head_offset (d_strm d2)) (head_buf (d_strm d2)) = unit_entry [h, a]" "strm_offset d2 = strm_offset d1 + 5"
    "take (strm_offset d2) (bitstream d2) = take (strm_offset d1) (bitstream d1) @ [0, 0, 1, h, a]"
    by (rule slice_cut_step2 [OF d1(3,4,7-16) assms(2-4)])
  with d1(1,2,5,6) show ?thesis by auto
qed

definition demo_first_slice :: h264d_dec where
  "demo_first_slice = (demo_dec 1)\<lparr>have_slice_data := 1,
     d_strm := (d_strm (demo_dec 1))\<lparr>nalu_buf := Heap (store (replicate (2 * 1024 * 1024) 0) 0 [0x41, 0x9a, 0, 0]),
       nalu_len := 4, startcode_found := 1, prefixdata := 0x419a0000, nalu_offset := 7\<rparr>,
     d_inp := (d_inp (demo_dec 1))\<lparr>in_buf := [0, 0, 1, 0x41, 0x9a, 0, 0, 3, 1, 0x55], in_length := 3, pkt_impl_length := 3\<rparr>\<rparr>"

theorem first_slice_cut_witness:
  "\<exists>d1 d2. parse_prepare demo_first_slice = Some (MPP_OK, d1) \<and> task_valid (d_inp d1) = 1
    \<and> parse_prepare d1 = Some (MPP_OK, d2) \<and> nalu_ret d2 = EndOfNalu
    \<and> take (strm_offset d2) (bitstream d2) = [0, 0, 1, 0x41, 0x9a]"
proof -
  have four: "Suc (Suc (Suc (Suc 0))) = 4" by simp
  have b: "before_first_slice 0x41 0x9a [3, 1, 0x55] demo_first_slice"
    using take_store_end [of 0 "[0x41, 0x9a, 0, 0]" "replicate (2 * 1024 * 1024) (0 :: u8)"]
    by (simp add: before_first_slice_def demo_first_slice_def demo_dec_def init_cur_strm_def buffers_ok_def strm_ok_def
        nalu_bytes_def four del: store.simps)
  have s: "slice_type (uint (0x41 :: u8) AND 31)" "bit (0x9a :: u8) 7" "[0x55 :: u8] \<noteq> []"
    by (simp_all add: slice_type_def)
  have "strm_offset demo_first_slice = 0" by (simp add: demo_first_slice_def demo_dec_def)
  with first_slice_cut [OF b s] show ?thesis by auto
qed

end
