(* ===== verification/H264dAvcc.thy ===== *)
theory H264dAvcc
  imports H264dNalSpec
begin

text \<open>
  Streams in the form of MP4 files: an \<open>avcC\<close> packet with the parameter sets, then packets of
  units behind their lengths.
\<close>

section \<open>Storing any unit\<close>

definition slice_part :: "u8 list \<Rightarrow> u8 list" where
  "slice_part u = (if slice_type (nal_type u) then [0, 0, 1] @ u else [])"

text \<open>What is stored: the entries of the units, and the stream for the hardware.\<close>

definition stored :: "u8 list \<Rightarrow> u8 list \<Rightarrow> h264d_dec \<Rightarrow> bool" where
  "stored hs ss d \<longleftrightarrow> head_ok (d_strm d) \<and> strm_ok d \<and> take (head_offset (d_strm d)) (head_buf (d_strm d)) = hs
     \<and> take (strm_offset d) (bitstream d) = ss"

lemma stored_update [simp]:
  "stored hs ss (d_inp_update f d) = stored hs ss d"
  "stored hs ss (d\<lparr>is_new_frame := n\<rparr>) = stored hs ss d"
  "stored hs ss (d\<lparr>have_slice_data := n\<rparr>) = stored hs ss d"
  "stored hs ss (d\<lparr>last_dts := n\<rparr>) = stored hs ss d"
  "stored hs ss (d\<lparr>last_pts := n\<rparr>) = stored hs ss d"
  "stored hs ss (d\<lparr>nalu_ret := r\<rparr>) = stored hs ss d"
  "stored hs ss (d\<lparr>d_strm := st\<lparr>nalu_len := l\<rparr>\<rparr>) = stored hs ss (d\<lparr>d_strm := st\<rparr>)"
  "stored hs ss (d\<lparr>d_strm := st\<lparr>nalu_buf := b\<rparr>\<rparr>) = stored hs ss (d\<lparr>d_strm := st\<rparr>)"
  "stored hs ss (d\<lparr>d_strm := st\<lparr>nalu_offset := l\<rparr>\<rparr>) = stored hs ss (d\<lparr>d_strm := st\<rparr>)"
  "stored hs ss (d\<lparr>d_strm := st\<lparr>st_nalu_type := t\<rparr>\<rparr>) = stored hs ss (d\<lparr>d_strm := st\<rparr>)"
  "stored hs ss (d\<lparr>d_strm := st\<lparr>startcode_found := c\<rparr>\<rparr>) = stored hs ss (d\<lparr>d_strm := st\<rparr>)"
  "stored hs ss (d\<lparr>d_strm := st\<lparr>endcode_found := c\<rparr>\<rparr>) = stored hs ss (d\<lparr>d_strm := st\<rparr>)"
  "stored hs ss (d\<lparr>d_strm := d_strm d\<rparr>) = stored hs ss d"
  by (simp_all add: stored_def head_ok_def strm_ok_def)

text \<open>Everything but the storage and the state of the unit.\<close>

definition same_frame :: "h264d_dec \<Rightarrow> h264d_dec \<Rightarrow> bool" where
  "same_frame d d' \<longleftrightarrow> d_inp d' = d_inp d \<and> d_slice d' = d_slice d \<and> nalu_offset (d_strm d') = nalu_offset (d_strm d)
     \<and> startcode_found (d_strm d') = startcode_found (d_strm d) \<and> is_new_frame d' = is_new_frame d"

lemma store_stored:
  assumes "stored hs ss d" and "nalu_len (d_strm d) = length w" and "take (length w) (nalu_bytes (d_strm d)) = w"
    and "st_nalu_type (d_strm d) = nal_type w"
  obtains d' where "store_cur_nalu d = Some (MPP_OK, d')" and "stored (hs @ unit_entry w) (ss @ slice_part w) d'"
    and "same_frame d d'" and "nalu_len (d_strm d') = length w"
proof (cases "slice_type (nal_type w)")
  case True
  have st: "head_ok (d_strm d)" "strm_ok d" using assms(1) by (simp_all add: stored_def)
  obtain m k h bs n where s: "store_cur_nalu d = Some (MPP_OK, d\<lparr>d_strm := (d_strm d)\<lparr>head_buf := m, head_max_size := k, head_offset := h\<rparr>,
      bitstream := bs, max_strm_size := n, strm_offset := strm_offset d + 3 + length w\<rparr>)"
    "length m = k" "h \<le> k" "take h m = take (head_offset (d_strm d)) (head_buf (d_strm d)) @ unit_entry w"
    "length bs = n" "n mod 16 = 0" "strm_offset d + 3 + length w \<le> n"
    "take (strm_offset d + 3 + length w) bs = take (strm_offset d) (bitstream d) @ [0, 0, 1] @ w"
    by (rule store_slice [OF st(1) assms(2-4) refl True st(2)])
  show thesis
    by (rule that [OF s(1)])
      (use s(2-8) assms(1,2) True in \<open>simp_all add: stored_def head_ok_def strm_ok_def slice_part_def same_frame_def\<close>)
next
  case False
  have st: "head_ok (d_strm d)" using assms(1) by (simp add: stored_def)
  obtain m k h where s: "store_cur_nalu d = Some (MPP_OK, d\<lparr>d_strm := (d_strm d)\<lparr>head_buf := m, head_max_size := k, head_offset := h\<rparr>\<rparr>)"
    "length m = k" "h \<le> k" "take h m = take (head_offset (d_strm d)) (head_buf (d_strm d)) @ unit_entry w"
    by (rule store_unit [OF st assms(2-4) refl False])
  show thesis
    by (rule that [OF s(1)])
      (use s(2-4) assms(1,2) False in \<open>simp_all add: stored_def head_ok_def strm_ok_def slice_part_def same_frame_def\<close>)
qed

section \<open>Units behind their lengths\<close>

definition size_bytes :: "nat \<Rightarrow> nat \<Rightarrow> u8 list" where
  "size_bytes k n = map (\<lambda>i. word_of_nat (n div 256 ^ (k - 1 - i))) [0..<k]"

lemma length_size_bytes [simp]: "length (size_bytes k n) = k"
  by (simp add: size_bytes_def)

lemma unat_u8_of_nat: "unat (word_of_nat n :: u8) = n mod 256"
  by (simp add: unat_of_nat)

lemma U16_AT_bytes:
  assumes "drop p m = size_bytes 2 n @ rest" and "n < 256 ^ 2"
  shows "U16_AT m p = Some n"
proof -
  have s: "size_bytes 2 n = [word_of_nat (n div 256), word_of_nat n]" by (simp add: size_bytes_def upt_rec)
  have d: "drop p m = word_of_nat (n div 256) # word_of_nat n # rest" using assms(1) s by simp
  note d0 = drop_next [OF d]
  note d1 = drop_next [OF conjunct2 [OF conjunct2 [OF d0]]]
  have "n div 256 < 256" using assms(2) by (simp add: less_mult_imp_div_less)
  then show ?thesis using d0 d1 by (simp add: U16_AT_def unat_u8_of_nat)
qed

lemma parse_nal_size_bytes:
  assumes "drop p m = size_bytes k n @ rest" and "1 \<le> k" and "k \<le> 4" and "n < 256 ^ k"
  shows "parse_nal_size k m p = Some n"
proof -
  consider "k = 1" | "k = 2" | "k = 3" | "k = 4" using assms(2,3) by linarith
  then show ?thesis
  proof cases
    case 1
    then have d: "drop p m = word_of_nat n # rest" using assms(1) by (simp add: size_bytes_def)
    show ?thesis using 1 assms(4) drop_next [OF d] by (simp add: parse_nal_size_def unat_u8_of_nat)
  next
    case 2
    with U16_AT_bytes [of p m n rest] assms(1,4) show ?thesis by (simp add: parse_nal_size_def)
  next
    case 3
    have d: "drop p m = word_of_nat (n div 256 ^ 2) # word_of_nat (n div 256) # word_of_nat n # rest"
      using assms(1) 3 by (simp add: size_bytes_def upt_rec)
    note d0 = drop_next [OF d]
    note d1 = drop_next [OF conjunct2 [OF conjunct2 [OF d0]]]
    note d2 = drop_next [OF conjunct2 [OF conjunct2 [OF d1]]]
    have "n div 2 ^ 16 < 256" using assms(4) 3 by (simp add: less_mult_imp_div_less)
    then show ?thesis using 3 d0 d1 d2 bytes_nat(1) [of n]
      by (simp add: parse_nal_size_def U16_AT_def unat_u8_of_nat)
  next
    case 4
    have d: "drop p m = word_of_nat (n div 256 ^ 3) # word_of_nat (n div 256 ^ 2) # word_of_nat (n div 256) # word_of_nat n # rest"
      using assms(1) 4 by (simp add: size_bytes_def upt_rec)
    note d0 = drop_next [OF d]
    note d1 = drop_next [OF conjunct2 [OF conjunct2 [OF d0]]]
    note d2 = drop_next [OF conjunct2 [OF conjunct2 [OF d1]]]
    note d3 = drop_next [OF conjunct2 [OF conjunct2 [OF d2]]]
    have "n div 2 ^ 24 < 256" using assms(4) 4 by (simp add: less_mult_imp_div_less)
    then show ?thesis using 4 d0 d1 d2 d3 bytes_nat(2) [of n] by (simp add: parse_nal_size_def U32_AT_def unat_u8_of_nat numeral_3_eq_3)
  qed
qed

definition framed :: "nat \<Rightarrow> u8 list \<Rightarrow> u8 list" where
  "framed k u = size_bytes k (length u) @ u"

definition framable :: "nat \<Rightarrow> u8 list \<Rightarrow> bool" where
  "framable k u \<longleftrightarrow> u \<noteq> [] \<and> length u < 256 ^ k"

text \<open>Inside a packet of units: \<open>bs\<close> is left, from offset \<open>p\<close> on.\<close>

definition in_frames :: "nat \<Rightarrow> nat \<Rightarrow> u8 list \<Rightarrow> h264d_dec \<Rightarrow> bool" where
  "in_frames k p bs d \<longleftrightarrow> nal_size (d_inp d) = k \<and> 1 \<le> k \<and> k \<le> 4 \<and> drop p (in_buf (d_inp d)) = bs
     \<and> in_length (d_inp d) = length bs \<and> pkt_impl_length (d_inp d) = length bs \<and> length bs < 2 ^ 64
     \<and> startcode_found (d_strm d) \<noteq> 0"

lemma size_sub_less: "b \<le> a \<Longrightarrow> a < 2 ^ 64 \<Longrightarrow> size_sub a b = a - b"
  by (simp add: size_sub_def nat_mod_distrib flip: of_nat_diff)

lemma extra_unit_framed:
  assumes "in_frames k p (framed k u @ bs) d" and "stored hs ss d" and "framable k u"
  obtains d' where "extra_unit ret p d = Some (MPP_OK, False, p + length (framed k u), d')"
    and "in_frames k (p + length (framed k u)) bs d'" and "stored (hs @ unit_entry u) (ss @ slice_part u) d'"
    and "d_slice d' = d_slice d" and "d_inp d' = (d_inp d)\<lparr>in_length := length bs, pkt_impl_length := length bs\<rparr>"
proof -
  let ?m = "in_buf (d_inp d)"
  have k: "nal_size (d_inp d) = k" "1 \<le> k" "k \<le> 4" "drop p ?m = framed k u @ bs" "in_length (d_inp d) = k + length u + length bs"
    "pkt_impl_length (d_inp d) = k + length u + length bs" "k + length u + length bs < 2 ^ 64" "startcode_found (d_strm d) \<noteq> 0"
    using assms(1) by (simp_all add: in_frames_def framed_def)
  have u: "u \<noteq> []" "length u < 256 ^ k" using assms(3) by (simp_all add: framable_def)
  have n: "parse_nal_size k ?m p = Some (length u)"
    using parse_nal_size_bytes [OF _ k(2,3) u(2)] k(4) by (simp add: framed_def)
  have dr: "drop (p + k) ?m = u @ bs"
  proof -
    have "drop (p + k) ?m = drop k (drop p ?m)" by (simp add: add.commute)
    then show ?thesis unfolding k(4) by (simp add: framed_def)
  qed
  then have lt: "p + k < length ?m" using u(1) by (cases "p + k < length ?m") auto
  have hd: "?m ! (p + k) = hd u" using dr lt u(1) by (metis hd_append2 hd_drop_conv_nth)
  define d0 where "d0 = d\<lparr>d_strm := (d_strm d)\<lparr>nalu_len := length u, nalu_offset := nalu_offset (d_strm d) + k, nalu_buf := Input (u @ bs),
      st_nalu_type := nal_type u, startcode_found := 0, endcode_found := 1\<rparr>,
    d_inp := (d_inp d)\<lparr>pkt_impl_length := length u + length bs, in_length := length u + length bs\<rparr>\<rparr>"
  have "stored hs ss d0" using assms(2) by (simp add: d0_def)
  moreover have "nalu_len (d_strm d0) = length u" "take (length u) (nalu_bytes (d_strm d0)) = u"
    "st_nalu_type (d_strm d0) = nal_type u" by (simp_all add: d0_def nalu_bytes_def)
  ultimately obtain d1 where d1: "store_cur_nalu d0 = Some (MPP_OK, d1)" "stored (hs @ unit_entry u) (ss @ slice_part u) d1"
    "same_frame d0 d1" "nalu_len (d_strm d1) = length u"
    using store_stored by blast
  define d2 where "d2 = upd_strm (\<lambda>st. st\<lparr>startcode_found := 1, endcode_found := 0, nalu_len := 0\<rparr>) (advance_input (length u) d1)"
  have i1: "d_inp d1 = d_inp d0" using d1(3) by (simp add: same_frame_def)
  have i2: "d_inp d2 = (d_inp d)\<lparr>in_length := length bs, pkt_impl_length := length bs\<rparr>"
    using i1 k(7) by (simp add: d2_def advance_input_def d0_def size_sub_less)
  show thesis
  proof (rule that [of d2])
    have z: "length u \<noteq> 0" "\<not> length u \<ge> in_length (d_inp d)" using u(1) k(2,5) by simp_all
    have a: "upd_strm (\<lambda>st. st\<lparr>nalu_buf := Input (u @ bs), st_nalu_type := nal_type u, startcode_found := 0, endcode_found := 1\<rparr>)
        (advance_input k (upd_strm (nalu_len_update (\<lambda>_. length u)) d)) = d0"
      using k(5-7) by (simp add: advance_input_def d0_def size_sub_less)
    show "extra_unit ret p d = Some (MPP_OK, False, p + length (framed k u), d2)"
      using n z lt k(1) hd a d1(1) by (simp add: extra_unit_def dr nal_type_def d2_def framed_def add.assoc)
    show "stored (hs @ unit_entry u) (ss @ slice_part u) d2"
      using d1(2) by (simp add: d2_def advance_input_def stored_def head_ok_def strm_ok_def)
    have "drop (p + length (framed k u)) ?m = drop (length u) (drop (p + k) ?m)" by (simp add: framed_def add.commute add.left_commute)
    then show "in_frames k (p + length (framed k u)) bs d2"
      using k(1-3,7) i2 dr by (simp add: in_frames_def d2_def)
    show "d_slice d2 = d_slice d" using d1(3) by (simp add: d2_def advance_input_def same_frame_def d0_def)
  qed (rule i2)
qed

lemma extra_loop_framed:
  assumes "in_frames k p (concat (map (framed k) us)) d" and "stored hs ss d" and "\<forall>u \<in> set us. framable k u" and "us \<noteq> []"
  obtains d' where "extra_loop ret p d = Some (MPP_OK, False, extra_data_reset d')"
    and "stored (hs @ concat (map unit_entry us)) (ss @ concat (map slice_part us)) d'"
    and "d_slice d' = d_slice d" and "\<exists>n m. d_inp d' = (d_inp d)\<lparr>in_length := n, pkt_impl_length := m\<rparr>"
  using assms
proof (induction us arbitrary: p d hs ss ret thesis)
  case (Cons u us)
  have i: "in_frames k p (framed k u @ concat (map (framed k) us)) d" "framable k u"
    using Cons.prems(2,4) by simp_all
  obtain d1 where d1: "extra_unit ret p d = Some (MPP_OK, False, p + length (framed k u), d1)"
    "in_frames k (p + length (framed k u)) (concat (map (framed k) us)) d1" "stored (hs @ unit_entry u) (ss @ slice_part u) d1"
    "d_slice d1 = d_slice d" "d_inp d1 = (d_inp d)\<lparr>in_length := length (concat (map (framed k) us)),
       pkt_impl_length := length (concat (map (framed k) us))\<rparr>"
    by (rule extra_unit_framed [OF i(1) Cons.prems(3) i(2)])
  have s: "in_length (d_inp d) \<noteq> 0" "startcode_found (d_strm d) \<noteq> 0" "in_length (d_inp d1) = length (concat (map (framed k) us))"
    "nal_size (d_inp d1) = k" "1 \<le> k"
    using i d1(2) by (auto simp: in_frames_def framed_def framable_def)
  show thesis
  proof (cases "us = []")
    case True
    then have "in_length (d_inp d1) < nal_size (d_inp d1)" using s(3-5) by simp
    then have "extra_loop ret p d = Some (MPP_OK, False, extra_data_reset d1)"
      using s(1,2) d1(1) by (subst extra_loop.simps) simp
    then show thesis by (rule Cons.prems(1)) (use d1(3-5) True in auto)
  next
    case False
    then obtain v vs where "us = v # vs" by (cases us) auto
    then have "\<not> in_length (d_inp d1) < nal_size (d_inp d1)" using s(3,4) by (simp add: framed_def)
    then have e: "extra_loop ret p d = extra_loop MPP_OK (p + length (framed k u)) d1"
      using s(1,2) d1(1) by (subst extra_loop.simps) simp
    have "\<forall>u \<in> set us. framable k u" using Cons.prems(4) by simp
    from Cons.IH [OF _ d1(2,3) this False] obtain d' where d': "extra_loop MPP_OK (p + length (framed k u)) d1 = Some (MPP_OK, False, extra_data_reset d')"
      "stored ((hs @ unit_entry u) @ concat (map unit_entry us)) ((ss @ slice_part u) @ concat (map slice_part us)) d'"
      "d_slice d' = d_slice d1" "\<exists>n m. d_inp d' = (d_inp d1)\<lparr>in_length := n, pkt_impl_length := m\<rparr>" by blast
    show thesis
      by (rule Cons.prems(1), unfold e, rule d'(1)) (use d'(2-4) d1(4,5) in auto)
  qed
qed simp

text \<open>A packet of units is a frame: the empty unit is added, the task is valid.\<close>

lemma extra_data_framed:
  assumes "in_frames k (nalu_offset (d_strm d)) (concat (map (framed k) us)) d" and "stored hs ss d"
    and "\<forall>u \<in> set us. framable k u" and "us \<noteq> []" and "pkt_eos (d_inp d) = 0"
  obtains d' rest where "parse_prepare_extra_data d = Some (MPP_OK, d')" and "task_valid (d_inp d') = 1"
    and "head_buf (d_strm d') = hs @ concat (map unit_entry us) @ nalu_head 1 0 0 @ rest" and "head_offset (d_strm d') = 0"
    and "strm_ok d'" and "take (strm_offset d') (bitstream d') = ss @ concat (map slice_part us)"
    and "d_slice d' = d_slice d" and "pkt_impl_length (d_inp d') = 0"
proof -
  define d0 where "d0 = upd_inp (task_valid_update (\<lambda>_. 0)) d"
  have "in_frames k (nalu_offset (d_strm d0)) (concat (map (framed k) us)) d0" "stored hs ss d0"
    using assms(1,2) by (simp_all add: d0_def in_frames_def)
  from extra_loop_framed [OF this assms(3,4), of MPP_ERR_UNKNOW] obtain d1 where
    d1: "extra_loop MPP_ERR_UNKNOW (nalu_offset (d_strm d0)) d0 = Some (MPP_OK, False, extra_data_reset d1)"
    "stored (hs @ concat (map unit_entry us)) (ss @ concat (map slice_part us)) d1" "d_slice d1 = d_slice d0" by blast
  define d2 where "d2 = extra_data_reset d1"
  have d2: "stored (hs @ concat (map unit_entry us)) (ss @ concat (map slice_part us)) d2" "is_new_frame d2 = 1"
    using d1(2) by (simp_all add: d2_def extra_data_reset_def stored_def head_ok_def strm_ok_def)
  have "head_ok (d_strm d2)" using d2(1) by (simp add: stored_def)
  from add_empty_nalu_ok [OF this] obtain m n h where
    e: "add_empty_nalu (d_strm d2) = (MPP_OK, (d_strm d2)\<lparr>head_buf := m, head_max_size := n, head_offset := h\<rparr>)"
    "take h m = take (head_offset (d_strm d2)) (head_buf (d_strm d2)) @ nalu_head 1 0 0" by metis
  define d3 where "d3 = extra_failed (d2\<lparr>d_strm := (d_strm d2)\<lparr>head_buf := m, head_max_size := n, head_offset := 0\<rparr>,
      d_inp := (d_inp d2)\<lparr>task_valid := 1\<rparr>, is_new_frame := 0, last_dts := in_dts (d_inp d2), last_pts := in_pts (d_inp d2)\<rparr>)"
  have "nal_size (d_inp d0) \<noteq> 0" "pkt_eos (d_inp d0) = 0" using assms(1,5) by (auto simp: in_frames_def d0_def)
  then have p: "parse_prepare_extra_data d = Some (MPP_OK, d3)"
    using d1(1) e(1) d2(2) by (simp add: parse_prepare_extra_data_def Let_def d0_def [symmetric] d2_def [symmetric]) (simp add: d3_def)
  have m: "m = hs @ concat (map unit_entry us) @ nalu_head 1 0 0 @ drop h m"
    using e(2) d2(1) append_take_drop_id [of h m] by (simp add: stored_def)
  show thesis
    by (rule that [where rest = "drop h m", OF p])
      (use m d2(1) d1(3) in \<open>simp_all add: d3_def extra_failed_def stored_def strm_ok_def d2_def extra_data_reset_def d0_def\<close>)
qed

section \<open>The header\<close>

lemma extra_sets_framed:
  assumes "drop p m = concat (map (framed 2) us) @ bs" and "\<forall>u \<in> set us. framable 2 u \<and> nal_type u = ty" and "stored hs ss d"
  obtains d' where "extra_sets m ty (length us) p d = Some (MPP_OK, p + length (concat (map (framed 2) us)), d')"
    and "stored (hs @ concat (map unit_entry us)) (ss @ concat (map slice_part us)) d'" and "same_frame d d'"
  using assms
proof (induction us arbitrary: p d hs ss thesis)
  case Nil
  then show thesis using Nil.prems(1) [of d] by (simp add: same_frame_def)
next
  case (Cons u us)
  have u: "length u < 256 ^ 2" "nal_type u = ty" using Cons.prems(3) by (simp_all add: framable_def)
  have dr: "drop p m = size_bytes 2 (length u) @ u @ concat (map (framed 2) us) @ bs"
    using Cons.prems(2) by (simp add: framed_def [of 2 u])
  have n: "U16_AT m p = Some (length u)" by (rule U16_AT_bytes [OF dr u(1)])
  have "drop (p + 2) m = drop 2 (drop p m)" by (simp add: add.commute)
  then have dr2: "drop (p + 2) m = u @ concat (map (framed 2) us) @ bs" unfolding dr by simp
  define d0 where "d0 = upd_strm (\<lambda>st. st\<lparr>nalu_len := length u, st_nalu_type := ty, nalu_buf := Input (drop (p + 2) m)\<rparr>) d"
  have "stored hs ss d0" using Cons.prems(4) by (simp add: d0_def stored_def head_ok_def strm_ok_def)
  moreover have "nalu_len (d_strm d0) = length u" "take (length u) (nalu_bytes (d_strm d0)) = u" "st_nalu_type (d_strm d0) = nal_type u"
    using dr2 u(2) by (simp_all add: d0_def nalu_bytes_def)
  ultimately obtain d1 where d1: "store_cur_nalu d0 = Some (MPP_OK, d1)" "stored (hs @ unit_entry u) (ss @ slice_part u) d1" "same_frame d0 d1"
    using store_stored by blast
  have "drop (p + 2 + length u) m = drop (length u) (drop (p + 2) m)" by (simp add: add.commute)
  then have dr3: "drop (p + 2 + length u) m = concat (map (framed 2) us) @ bs" unfolding dr2 by simp
  have "\<forall>u \<in> set us. framable 2 u \<and> nal_type u = ty" using Cons.prems(3) by simp
  from Cons.IH [OF _ dr3 this d1(2)] obtain d2 where
    d2: "extra_sets m ty (length us) (p + 2 + length u) d1 = Some (MPP_OK, p + 2 + length u + length (concat (map (framed 2) us)), d2)"
    "stored ((hs @ unit_entry u) @ concat (map unit_entry us)) ((ss @ slice_part u) @ concat (map slice_part us)) d2" "same_frame d1 d2" by blast
  show thesis
  proof (rule Cons.prems(1))
    show "extra_sets m ty (length (u # us)) p d = Some (MPP_OK, p + length (concat (map (framed 2) (u # us))), d2)"
      using d2(1) by (simp only: extra_sets.simps n option.case d0_def [symmetric] d1(1) prod.case list.size One_nat_def add_Suc_right add_0_right)
        (simp add: framed_def [of 2 u])
    show "same_frame d d2" using d1(3) d2(3) by (simp add: same_frame_def d0_def)
  qed (use d2(2) in simp)
qed

definition avcc_header :: "u8 \<Rightarrow> u8 \<Rightarrow> nat \<Rightarrow> u8 list list \<Rightarrow> u8 list list \<Rightarrow> u8 list" where
  "avcc_header profile level k spss ppss =
    [1, profile, 0, level, word_of_nat (k - 1) OR 0xFC, word_of_nat (length spss) OR 0xE0]
    @ concat (map (framed 2) spss) @ [word_of_nat (length ppss)] @ concat (map (framed 2) ppss)"

lemma low_bits:
  "n < 4 \<Longrightarrow> unat ((word_of_nat n OR 0xFC :: u8) AND 3) = n"
  "n < 32 \<Longrightarrow> unat ((word_of_nat n OR 0xE0 :: u8) AND 31) = n"
proof -
  have m: "x AND 3 = take_bit 2 x" "x AND 31 = take_bit 5 x" for x :: u8
    by (simp_all add: take_bit_eq_mask mask_eq_exp_minus_1)
  have z: "take_bit 2 (0xFC :: u8) = 0" "take_bit 5 (0xE0 :: u8) = 0" by code_simp+
  show "n < 4 \<Longrightarrow> unat ((word_of_nat n OR 0xFC :: u8) AND 3) = n"
    "n < 32 \<Longrightarrow> unat ((word_of_nat n OR 0xE0 :: u8) AND 31) = n"
    unfolding m take_bit_or z by (simp_all add: unsigned_take_bit_eq unat_of_nat take_bit_nat_eq_self)
qed

lemma extra_header_framed:
  assumes "in_buf (d_inp d) = avcc_header profile level k spss ppss" and "in_length (d_inp d) = length (in_buf (d_inp d))"
    and "\<forall>u \<in> set spss. framable 2 u \<and> nal_type u = 7" and "\<forall>u \<in> set ppss. framable 2 u \<and> nal_type u = 8"
    and "length spss < 32" and "length ppss < 256" and "1 \<le> k" and "k \<le> 4" and "stored hs ss d" and "nalu_buf (d_strm d) = Heap buf"
  obtains d' where "parse_prepare_extra_header d = Some (MPP_OK, d')"
    and "stored (hs @ concat (map unit_entry (spss @ ppss))) ss d'" and "nal_size (d_inp d') = k"
    and "startcode_found (d_strm d') = 1" and "d_slice d' = d_slice d" and "nalu_offset (d_strm d') = nalu_offset (d_strm d)"
    and "is_nalff (d_inp d') = is_nalff (d_inp d)" and "has_get_eos (d_inp d') = has_get_eos (d_inp d)"
proof -
  let ?m = "in_buf (d_inp d)"
  have sl: "concat (map slice_part us) = []" if "\<forall>u \<in> set us. framable 2 u \<and> nal_type u = t" "t = 7 \<or> t = 8" for us t
    using that by (auto simp: slice_part_def slice_type_def)
  have m: "7 \<le> length ?m" "?m ! 0 = 1" "1 + unat (?m ! 4 AND 3) = k" "unat (?m ! 5 AND 31) = length spss" "?m ! 3 = level" "?m ! 1 = profile"
    using low_bits(1) [of "k - 1"] low_bits(2) [OF assms(5)] assms(7,8) by (simp_all add: assms(1) avcc_header_def)
  have dr: "drop 6 ?m = concat (map (framed 2) spss) @ word_of_nat (length ppss) # concat (map (framed 2) ppss)"
    by (simp add: assms(1) avcc_header_def)
  define d0 where "d0 = upd_inp (\<lambda>i. i\<lparr>in_profile := profile, in_level := level, nal_size := k, sps_num := length spss\<rparr>)
    (upd_strm (nalu_buf_update (\<lambda>_. Null)) d)"
  have "stored hs ss d0" using assms(9) by (simp add: d0_def stored_def head_ok_def strm_ok_def)
  from extra_sets_framed [OF dr assms(3) this] obtain d1 where
    d1: "extra_sets ?m 7 (length spss) 6 d0 = Some (MPP_OK, 6 + length (concat (map (framed 2) spss)), d1)"
    "stored (hs @ concat (map unit_entry spss)) (ss @ concat (map slice_part spss)) d1" "same_frame d0 d1" by blast
  let ?p = "6 + length (concat (map (framed 2) spss))"
  have "drop ?p ?m = drop (length (concat (map (framed 2) spss))) (drop 6 ?m)" by (simp add: add.commute)
  then have "drop ?p ?m = word_of_nat (length ppss) # concat (map (framed 2) ppss)" unfolding dr by simp
  note o = drop_next [OF this]
  have npps: "unat (?m ! ?p) = length ppss" using o assms(6) by (simp add: unat_u8_of_nat)
  define d2 where "d2 = upd_inp (pps_num_update (\<lambda>_. length ppss)) (upd_strm (nalu_buf_update (\<lambda>_. Null)) d1)"
  have "stored (hs @ concat (map unit_entry spss)) (ss @ concat (map slice_part spss)) d2"
    using d1(2) by (simp add: d2_def stored_def head_ok_def strm_ok_def)
  moreover have "drop (?p + 1) ?m = concat (map (framed 2) ppss) @ []" using o by simp
  ultimately obtain d3 where
    d3: "extra_sets ?m 8 (length ppss) (?p + 1) d2 = Some (MPP_OK, ?p + 1 + length (concat (map (framed 2) ppss)), d3)"
    "stored ((hs @ concat (map unit_entry spss)) @ concat (map unit_entry ppss))
       ((ss @ concat (map slice_part spss)) @ concat (map slice_part ppss)) d3" "same_frame d2 d3"
    using extra_sets_framed [OF _ assms(4)] by blast
  define d4 where "d4 = d3\<lparr>d_inp := (d_inp d3)\<lparr>pkt_impl_length := 0\<rparr>, d_strm := (d_strm d3)\<lparr>nalu_buf := Null, startcode_found := 1\<rparr>\<rparr>"
  have "parse_prepare_extra_header d = Some (MPP_OK, d4)"
    unfolding parse_prepare_extra_header_def Let_def
    using m assms(2,10) d1(1) o npps d3(1)
    by (simp add: d0_def [symmetric]) (simp add: d2_def [symmetric] d4_def)
  moreover have "concat (map slice_part spss) = []" "concat (map slice_part ppss) = []" using sl assms(3,4) by blast+
  ultimately show thesis
    by (intro that [of d4])
      (use d3(2,3) d1(3) in \<open>simp_all add: d4_def same_frame_def d2_def d0_def stored_def head_ok_def strm_ok_def\<close>)
qed

section \<open>The units of an avcC stream\<close>

definition extra_packet :: "u8 list \<Rightarrow> h264d_packet" where
  "extra_packet bs = (stream_of bs)\<lparr>pk_extra_data := True\<rparr>"

text \<open>
  C13: an \<open>avcC\<close> stream is stored unit by unit. A new decoder, given the \<open>avcC\<close> packet of some
  parameter sets and then a packet of units behind their lengths of \<open>k\<close> bytes, holds in
  \<open>head_buf\<close> the entries of these units in order, the sets first, closed by the empty unit; the task's stream
  are the slices of the packet, each behind a start code. The entry of
  a unit is its head and its first 12800 bytes, nothing for a type the decoder does not keep (\<open>unit_entry\<close>).
\<close>

theorem avcc_stored:
  assumes "fresh_decoder d" and "strm_ok d" and "strm_offset d = 0" and "profile \<noteq> 0"
    and "\<forall>u \<in> set spss. framable 2 u \<and> nal_type u = 7" and "\<forall>u \<in> set ppss. framable 2 u \<and> nal_type u = 8"
    and "length spss < 32" and "length ppss < 256" and "1 \<le> k" and "k \<le> 4"
    and "length (avcc_header profile level k spss ppss) \<le> 10 * 1024 * 1024"
    and "\<forall>u \<in> set us. framable k u" and "us \<noteq> []" and "length (concat (map (framed k) us)) \<le> 10 * 1024 * 1024"
  shows "\<exists>d1 p1 d2 p2 out rest.
      h264d_prepare d (extra_packet (avcc_header profile level k spss ppss)) = Some (MPP_OK, d1, p1, None)
    \<and> h264d_prepare d1 (stream_of (concat (map (framed k) us))) = Some (MPP_OK, d2, p2, Some out)
    \<and> head_buf (d_strm d2) = concat (map unit_entry (spss @ ppss @ us)) @ nalu_head 1 0 0 @ rest
    \<and> take (length (concat (map slice_part us))) out = concat (map slice_part us)"
proof -
  let ?h = "avcc_header profile level k spss ppss" and ?b = "concat (map (framed k) us)" and ?ss = "concat (map slice_part us)"
  define d0 where "d0 = (set_input (extra_packet ?h) d)\<lparr>d_inp := (d_inp (set_input (extra_packet ?h) d))\<lparr>is_nalff := 1\<rparr>\<rparr>"
  obtain m h where f: "d_strm d = init_cur_strm m h" "length h = 1024 * 1024" "has_get_eos (d_inp d) = 0" "\<not> un_spt (d_slice d)"
    using assms(1) by (auto simp: fresh_decoder_def)
  have st: "stored [] [] d0" "nalu_buf (d_strm d0) = Heap m" "nalu_offset (d_strm d0) = 0" "has_get_eos (d_inp d0) = 0" "is_nalff (d_inp d0) = 1"
      "d_slice d0 = d_slice d" "in_buf (d_inp d0) = ?h" "in_length (d_inp d0) = length (in_buf (d_inp d0))"
    using f assms(2,3) by (simp_all add: d0_def set_input_def Let_def extra_packet_def stream_of_def stored_def head_ok_def strm_ok_def init_cur_strm_def)
  obtain d1 where d1: "parse_prepare_extra_header d0 = Some (MPP_OK, d1)" "stored ([] @ concat (map unit_entry (spss @ ppss))) [] d1"
    "nal_size (d_inp d1) = k" "startcode_found (d_strm d1) = 1" "d_slice d1 = d_slice d0" "nalu_offset (d_strm d1) = nalu_offset (d_strm d0)"
    "is_nalff (d_inp d1) = is_nalff (d_inp d0)" "has_get_eos (d_inp d1) = has_get_eos (d_inp d0)"
    by (rule extra_header_framed [OF st(7,8) assms(5-10) st(1,2)])
  have h: "3 < length ?h" "?h ! 0 \<noteq> 0" "?h ! 1 \<noteq> 0" using assms(4) by (simp_all add: avcc_header_def)
  have p1: "h264d_prepare d (extra_packet ?h) = Some (MPP_OK, d1, (extra_packet ?h)\<lparr>pk_length := pkt_impl_length (d_inp d1)\<rparr>, None)"
    using f(3,4) assms(11) h d1(1) by (simp add: h264d_prepare_def Let_def set_input_def extra_packet_def stream_of_def d0_def)
  define e0 where "e0 = set_input (stream_of ?b) d1"
  have n: "is_nalff (d_inp e0) = 1" "has_get_eos (d_inp d1) = 0" "\<not> un_spt (d_slice d1)" "e0\<lparr>d_inp := (d_inp e0)\<lparr>is_nalff := 1\<rparr>\<rparr> = e0"
    "pkt_eos (d_inp e0) = 0" "in_length (d_inp e0) \<le> 10 * 1024 * 1024"
    using d1(5,7,8) st(4-6) f(4) assms(14) by (simp_all add: e0_def set_input_def Let_def stream_of_def)
  have "in_frames k (nalu_offset (d_strm e0)) ?b e0"
    using d1(3,4,6) st(3) assms(9,10,14) by (simp add: in_frames_def e0_def set_input_def Let_def stream_of_def)
  moreover have "stored (concat (map unit_entry (spss @ ppss))) [] e0"
    using d1(2) by (simp add: e0_def set_input_def Let_def)
  ultimately obtain d2 rest where d2: "parse_prepare_extra_data e0 = Some (MPP_OK, d2)" "task_valid (d_inp d2) = 1"
    "head_buf (d_strm d2) = concat (map unit_entry (spss @ ppss)) @ concat (map unit_entry us) @ nalu_head 1 0 0 @ rest"
    "strm_ok d2" "take (strm_offset d2) (bitstream d2) = [] @ ?ss" "pkt_impl_length (d_inp d2) = 0"
    using extra_data_framed [OF _ _ assms(12,13) n(5)] by metis
  obtain b where b: "pad_bitstream d2 = Some (d2\<lparr>bitstream := b\<rparr>)"
    "take (strm_offset d2) (take (MPP_ALIGN (strm_offset d2) 16) b) = take (strm_offset d2) (bitstream d2)"
    by (rule pad_bitstream_ok [OF d2(4)])
  have pk: "\<not> pk_extra_data (stream_of ?b)" "pk_eos (stream_of ?b) = 0" by (simp_all add: stream_of_def)
  have p2: "h264d_prepare d1 (stream_of ?b) = Some (MPP_OK, d2\<lparr>bitstream := b\<rparr>, (stream_of ?b)\<lparr>pk_length := 0\<rparr>,
      Some (take (MPP_ALIGN (strm_offset d2) 16) b))"
    using n d2(1,2,6) b(1) pk by (simp add: h264d_prepare_def Let_def e0_def [symmetric] n(4))
  have "strm_offset d2 = length ?ss" using d2(4,5) by (metis append_Nil length_take min.absorb2 strm_ok_def)
  then have o: "take (length ?ss) (take (MPP_ALIGN (strm_offset d2) 16) b) = ?ss" using d2(5) b(2) by simp
  show ?thesis by (intro exI conjI, rule p1, rule p2, simp add: d2(3), rule o)
qed

theorem avcc_stored_witness:
  "\<exists>d1 p1 d2 p2 out rest.
      h264d_prepare (demo_dec 0) (extra_packet (avcc_header 77 31 4 [[0x67, 0x4d]] [[0x68, 0xee]])) = Some (MPP_OK, d1, p1, None)
    \<and> h264d_prepare d1 (stream_of [0, 0, 0, 2, 9, 0x10, 0, 0, 0, 3, 0x65, 0x88, 0x84]) = Some (MPP_OK, d2, p2, Some out)
    \<and> head_buf (d_strm d2) = concat (map unit_entry [[0x67, 0x4d], [0x68, 0xee], [9, 0x10], [0x65, 0x88, 0x84]]) @ nalu_head 1 0 0 @ rest
    \<and> take 6 out = [0, 0, 1, 0x65, 0x88, 0x84]"
proof -
  let ?us = "[[9, 0x10], [0x65, 0x88, 0x84]] :: u8 list list"
  have c: "concat (map (framed 4) ?us) = [0, 0, 0, 2, 9, 0x10, 0, 0, 0, 3, 0x65, 0x88, 0x84]"
    "concat (map slice_part ?us) = [0, 0, 1, 0x65, 0x88, 0x84]"
    by (simp_all add: framed_def size_bytes_def upt_rec slice_part_def nal_type_def slice_type_def)
  have six: "Suc (Suc (Suc (Suc (Suc (Suc 0))))) = 6" by simp
  have d: "strm_ok (demo_dec 0)" "strm_offset (demo_dec 0) = 0" by (simp_all add: demo_dec_def strm_ok_def)
  show ?thesis
    using avcc_stored [OF demo_dec_fresh d, of 77 "[[0x67, 0x4d]]" "[[0x68, 0xee]]" 4 31 ?us] unfolding c
    by (simp add: framable_def nal_type_def avcc_header_def framed_def six)
qed


section \<open>A length that is too large\<close>

text \<open>
  C25: the length of a unit is compared with what is left of the packet together with the length field itself.
  A unit of a stored type whose length field is too large by less than the size of the field
  passes the check and is read over the end of the packet (the model's \<open>None\<close>).
\<close>

theorem extra_data_overrun:
  assumes "in_frames k (nalu_offset (d_strm d)) (size_bytes k n @ u) d" and "u \<noteq> []" and "stored_type (nal_type u)"
    and "length u < n" and "n < k + length u" and "n \<le> 12800" and "n < 256 ^ k" and "pkt_eos (d_inp d) = 0"
  shows "parse_prepare_extra_data d = None"
proof -
  define d0 where "d0 = upd_inp (task_valid_update (\<lambda>_. 0)) d"
  let ?m = "in_buf (d_inp d)" and ?p = "nalu_offset (d_strm d)"
  have k: "nal_size (d_inp d) = k" "1 \<le> k" "k \<le> 4" "drop ?p ?m = size_bytes k n @ u" "in_length (d_inp d) = k + length u"
    "startcode_found (d_strm d) \<noteq> 0" using assms(1) by (simp_all add: in_frames_def)
  have s: "parse_nal_size k ?m ?p = Some n" by (rule parse_nal_size_bytes [OF k(4,2,3) assms(7)])
  have "drop (?p + k) ?m = drop k (drop ?p ?m)" by (simp add: add.commute)
  then have dr: "drop (?p + k) ?m = u" unfolding k(4) by simp
  then have lt: "?p + k < length ?m" using assms(2) by (cases "?p + k < length ?m") auto
  have hd: "?m ! (?p + k) = hd u" using dr lt by (metis hd_drop_conv_nth)
  have "extra_unit ret ?p d0 = None" for ret
    using k(1,2,5) s assms(3-6) lt hd
    by (simp add: extra_unit_def Let_def d0_def dr nal_type_def store_cur_nalu_def store_head_def head_room_def
        nalu_bytes_def advance_input_def split: prod.splits)
  then have "extra_loop MPP_ERR_UNKNOW ?p d0 = None"
    using k(2,5,6) by (subst extra_loop.simps) (simp add: d0_def)
  then show ?thesis
    using k(1,2) assms(8) by (simp add: parse_prepare_extra_data_def Let_def d0_def)
qed

theorem extra_data_overrun_witness:
  "parse_prepare_extra_data ((demo_dec 0)\<lparr>
     d_strm := (d_strm (demo_dec 0))\<lparr>startcode_found := 1\<rparr>,
     d_inp := (d_inp (demo_dec 0))\<lparr>in_buf := [0, 0, 0, 5, 0x65, 0x88, 0x84], in_length := 7, pkt_impl_length := 7,
       nal_size := 4\<rparr>\<rparr>) = None"
  by (rule extra_data_overrun [where k = 4 and n = 5 and u = "[0x65, 0x88, 0x84]"])
    (simp_all add: in_frames_def demo_dec_def init_cur_strm_def size_bytes_def upt_rec nal_type_def stored_type_def)

end
