(* ===== verification/H264dSlice.thy ===== *)
theory H264dSlice
  imports H264dNal
begin

text \<open>
  Slice headers: mpp/codec/dec/h264/h264d_slice.c, the activation of the parameter sets
  (\<open>activate_sps\<close>, \<open>activate_pps\<close>) and \<open>decode_poc\<close> of h264d_init.c. \<open>process_slice\<close> is what \<open>parse_loop\<close>
  calls for a slice. The picture buffer's operations it calls are the argument \<open>dpb_ops\<close>; a
  run that leaves an array or goes through \<open>NULL\<close> sets \<open>sl_fault\<close> and has the result \<open>None\<close>.
\<close>

section \<open>Statements\<close>

abbreviation (input) upd_sl :: "(h264_slice \<Rightarrow> h264_slice) \<Rightarrow> h264d_dec \<Rightarrow> h264d_dec" where
  "upd_sl \<equiv> d_sl_update"

abbreviation (input) upd_vs :: "(h264d_vid \<Rightarrow> h264d_vid) \<Rightarrow> h264d_dec \<Rightarrow> h264d_dec" where
  "upd_vs \<equiv> d_vs_update"

abbreviation (input) upd_cur :: "(h264d_curbuf \<Rightarrow> h264d_curbuf) \<Rightarrow> h264d_dec \<Rightarrow> h264d_dec" where
  "upd_cur \<equiv> d_cur_update"

definition FAULT_IF :: "(h264d_dec \<Rightarrow> bool) \<Rightarrow> h264d_dec parser" where
  "FAULT_IF b = COND b [UPD (upd_sl (sl_fault_update (\<lambda>_. True))), FAIL_UNLESS MPP_NOK (\<lambda>_. False)] []"

text \<open>A read whose width is computed; \<open>if\<close> on a bit that is not kept; the number of bits a part uses.\<close>

definition READ_BITS_OF :: "('s \<Rightarrow> int) \<Rightarrow> (u32 \<Rightarrow> 's \<Rightarrow> 's) \<Rightarrow> 's parser" where
  "READ_BITS_OF n out s c =
    (case mpp_read_bits c (n s) of (ret, c, v) \<Rightarrow>
       if ret = MPP_OK then (MPP_OK, out v s, c) else (ret, s, c))"

definition IF_ONEBIT :: "'s parser list \<Rightarrow> 's parser" where
  "IF_ONEBIT ps s c =
    (case mpp_read_bits c 1 of (ret, c, v) \<Rightarrow>
       if ret = MPP_OK then SEQ (if v \<noteq> 0 then ps else []) s c else (ret, s, c))"

definition MEASURE :: "(u32 \<Rightarrow> 's \<Rightarrow> 's) \<Rightarrow> 's parser list \<Rightarrow> 's parser" where
  "MEASURE put ps s c =
    (case SEQ ps s c of (ret, s', c') \<Rightarrow>
       if ret = MPP_OK then (MPP_OK, put (word_of_int (used_bits c' - used_bits c)) s', c') else (ret, s', c'))"

text \<open>A call of a function that does not read the stream; \<open>None\<close> is a fault.\<close>

definition CALL :: "(h264d_dec \<Rightarrow> (mpp_ret \<times> h264d_dec) option) \<Rightarrow> h264d_dec parser" where
  "CALL f d c =
    (case f d of None \<Rightarrow> (MPP_NOK, upd_sl (sl_fault_update (\<lambda>_. True)) d, c)
     | Some (ret, d') \<Rightarrow> (ret, d', c))"

section \<open>List modification\<close>

abbreviation (input) "P_SLICE \<equiv> (0 :: int)"
abbreviation (input) "B_SLICE \<equiv> (1 :: int)"
abbreviation (input) "I_SLICE \<equiv> (2 :: int)"
abbreviation (input) "SP_SLICE \<equiv> (3 :: int)"
abbreviation (input) "SI_SLICE \<equiv> (4 :: int)"

definition put_at :: "nat \<Rightarrow> nat \<Rightarrow> u32 \<Rightarrow> int list list \<Rightarrow> int list list" where
  "put_at l i v m = m[l := (m ! l)[i := s32 v]]"

definition reorder_size :: "nat \<Rightarrow> h264d_dec \<Rightarrow> nat" where
  "reorder_size l d = unat (word_of_int (sl_num_ref_idx_active (d_sl d) ! l + 1) :: u32)"

definition reorder_idc :: "nat \<Rightarrow> nat \<Rightarrow> h264d_dec \<Rightarrow> int" where
  "reorder_idc l i d = cb_modification_of_pic_nums_idc (d_cur d) ! l ! i"

text \<open>
  The \<open>do ... while\<close> loop for list \<open>l\<close>, with room for \<open>k\<close> more entries in the row. \<open>MPP_NOK\<close> is
  the jump out of the loop when the list is too long.
\<close>

primrec reorder_loop :: "nat \<Rightarrow> nat \<Rightarrow> h264d_dec parser list" where
  "reorder_loop l 0 =
    [FAIL_UNLESS MPP_NOK (\<lambda>d. MAX_REORDER_TIMES < reorder_size l d), READ_UE (\<lambda>_ d. d), FAULT_IF (\<lambda>_. True)]"
| "reorder_loop l (Suc k) =
    (let i = MAX_REORDER_TIMES - Suc k in
     [FAIL_UNLESS MPP_NOK (\<lambda>d. i < reorder_size l d),
      READ_UE (\<lambda>v. upd_cur (cb_modification_of_pic_nums_idc_update (put_at l i v))),
      COND (\<lambda>d. reorder_idc l i d = 0 \<or> reorder_idc l i d = 1)
        [READ_UE (\<lambda>v. upd_cur (cb_abs_diff_pic_num_minus1_update (put_at l i v)))]
        [COND (\<lambda>d. reorder_idc l i d = 2)
          [READ_UE (\<lambda>v. upd_cur (cb_long_term_pic_idx_update (put_at l i v)))]
          [COND (\<lambda>d. reorder_idc l i d = 4 \<or> reorder_idc l i d = 5)
            [READ_UE (\<lambda>v. upd_cur (cb_abs_diff_view_idx_minus1_update (put_at l i v)))] []]],
      COND (\<lambda>d. reorder_idc l i d \<noteq> 3) (reorder_loop l k) []])"

definition reorder_list :: "nat \<Rightarrow> h264d_dec parser" where
  "reorder_list l = SEQ
    [READ_ONEBIT (\<lambda>v. upd_sl (sl_ref_pic_list_reordering_flag_update (\<lambda>f. f[l := s32 v]))),
     COND (\<lambda>d. sl_ref_pic_list_reordering_flag (d_sl d) ! l \<noteq> 0) (reorder_loop l MAX_REORDER_TIMES) []]"

text \<open>
  The code after \<open>__BITREAD_ERR\<close> returns the code of the last read. After a read that failed this is its
  code; after the jump out of the loop it is \<open>MPP_OK\<close>, for the read before the jump has succeeded.
\<close>

definition ref_pic_list_mvc_modification :: "h264d_dec parser" where
  "ref_pic_list_mvc_modification d c =
    (case SEQ [COND (\<lambda>d. sl_slice_type (d_sl d) mod 5 \<noteq> I_SLICE \<and> sl_slice_type (d_sl d) mod 5 \<noteq> SI_SLICE) [reorder_list 0] [],
               COND (\<lambda>d. sl_slice_type (d_sl d) mod 5 = B_SLICE) [reorder_list 1] []] d c of
       (ret, d, c) \<Rightarrow> (if ret = MPP_NOK then MPP_OK else ret, d, c))"

section \<open>Weights\<close>

definition active_sps :: "h264d_dec \<Rightarrow> h264_sps" where
  "active_sps d = sps_at (the (sl_active_sps (d_sl d))) (p_Vid (d_slice d))"

definition active_pps :: "h264d_dec \<Rightarrow> h264_pps" where
  "active_pps d = vd_ppsSet (p_Vid (d_slice d)) ! the (vs_active_pps (d_vs d))"

text \<open>The weights are read and dropped.\<close>

definition weights :: "nat \<Rightarrow> h264d_dec parser" where
  "weights l = FOR (\<lambda>d. nat (sl_num_ref_idx_active (d_sl d) ! l))
    (\<lambda>_. [IF_ONEBIT [READ_SE (\<lambda>_ d. d), READ_SE (\<lambda>_ d. d)],
          COND (\<lambda>d. s_chroma_format_idc (active_sps d) \<noteq> 0)
            [IF_ONEBIT [READ_SE (\<lambda>_ d. d), READ_SE (\<lambda>_ d. d), READ_SE (\<lambda>_ d. d), READ_SE (\<lambda>_ d. d)]] []])"

definition pred_weight_table :: "h264d_dec parser" where
  "pred_weight_table = SEQ
    [READ_UE (\<lambda>_ d. d),
     COND (\<lambda>d. s_chroma_format_idc (active_sps d) \<noteq> 0) [READ_UE (\<lambda>_ d. d)] [],
     weights 0,
     COND (\<lambda>d. sl_slice_type (d_sl d) = B_SLICE \<and> p_weighted_bipred_idc (active_pps d) = 1) [weights 1] []]"

section \<open>Marking of references\<close>

definition mmco :: "nat \<Rightarrow> h264d_dec \<Rightarrow> int" where
  "mmco i d = memory_management_control_operation (cb_dec_ref_pic_marking_buffer (d_cur d) ! i)"

definition upd_drpm :: "nat \<Rightarrow> (h264_drpm \<Rightarrow> h264_drpm) \<Rightarrow> h264d_dec \<Rightarrow> h264d_dec" where
  "upd_drpm i f = upd_cur (cb_dec_ref_pic_marking_buffer_update (\<lambda>m. m[i := f (m ! i)]))"

text \<open>
  The end of the list that starts at \<open>i\<close>, in at most \<open>n\<close> steps; a list with more is a cycle, on which
  the code's loop does not end.
\<close>

primrec drpm_tail :: "nat \<Rightarrow> h264_drpm list \<Rightarrow> nat \<Rightarrow> nat option" where
  "drpm_tail 0 m i = None"
| "drpm_tail (Suc n) m i = (case drpm_Next (m ! i) of None \<Rightarrow> Some i | Some j \<Rightarrow> drpm_tail n m j)"

definition drpm_append :: "nat \<Rightarrow> h264d_dec \<Rightarrow> (mpp_ret \<times> h264d_dec) option" where
  "drpm_append i d =
    (case sl_dec_ref_pic_marking_buffer (d_sl d) of
       None \<Rightarrow> Some (MPP_OK, upd_sl (sl_dec_ref_pic_marking_buffer_update (\<lambda>_. Some i)) d)
     | Some h \<Rightarrow> map_option (\<lambda>t. (MPP_OK, upd_drpm t (drpm_Next_update (\<lambda>_. Some i)) d))
                   (drpm_tail (Suc MAX_MARKING_TIMES) (cb_dec_ref_pic_marking_buffer (d_cur d)) h))"

text \<open>The loop over the commands, with room for \<open>k\<close> more in the buffer.\<close>

primrec mmco_loop :: "nat \<Rightarrow> h264d_dec parser list" where
  "mmco_loop 0 = [FAULT_IF (\<lambda>_. True)]"
| "mmco_loop (Suc k) =
    (let i = MAX_MARKING_TIMES - Suc k in
     [UPD (upd_drpm i (drpm_Next_update (\<lambda>_. None))),
      READ_UE (\<lambda>v. upd_drpm i (memory_management_control_operation_update (\<lambda>_. s32 v))),
      COND (\<lambda>d. mmco i d = 1 \<or> mmco i d = 3)
        [READ_UE (\<lambda>v. upd_drpm i (difference_of_pic_nums_minus1_update (\<lambda>_. s32 v)))] [],
      COND (\<lambda>d. mmco i d = 2) [READ_UE (\<lambda>v. upd_drpm i (mm_long_term_pic_num_update (\<lambda>_. s32 v)))] [],
      COND (\<lambda>d. mmco i d = 3 \<or> mmco i d = 6)
        [READ_UE (\<lambda>v. upd_drpm i (mm_long_term_frame_idx_update (\<lambda>_. s32 v)))] [],
      COND (\<lambda>d. mmco i d = 4) [READ_UE (\<lambda>v. upd_drpm i (max_long_term_frame_idx_plus1_update (\<lambda>_. s32 v)))] [],
      CALL (drpm_append i),
      COND (\<lambda>d. mmco i d \<noteq> 0) (mmco_loop k) []])"

definition dec_ref_pic_marking :: "h264d_dec parser" where
  "dec_ref_pic_marking = SEQ
    [UPD (upd_sl (sl_drpm_used_bitlen_update (\<lambda>_. 0))),
     MEASURE (\<lambda>n. upd_sl (sl_drpm_used_bitlen_update (\<lambda>_. n)))
      [COND (\<lambda>d. sl_idr_flag (d_sl d) \<noteq> 0 \<or> svc_extension_flag d = 0 \<and> mvc_non_idr_flag (d_mvcExt d) = 0)
        [READ_ONEBIT (\<lambda>v. upd_sl (sl_no_output_of_prior_pics_flag_update (\<lambda>_. s32 v))),
         UPD (\<lambda>d. upd_vs (vs_no_output_of_prior_pics_flag_update (\<lambda>_. sl_no_output_of_prior_pics_flag (d_sl d))) d),
         READ_ONEBIT (\<lambda>v. upd_sl (sl_long_term_reference_flag_update (\<lambda>_. s32 v)))]
        [READ_ONEBIT (\<lambda>v. upd_sl (sl_adaptive_ref_pic_buffering_flag_update (\<lambda>_. s32 v))),
         COND (\<lambda>d. sl_adaptive_ref_pic_buffering_flag (d_sl d) \<noteq> 0) (mmco_loop MAX_MARKING_TIMES) []]]]"

section \<open>The parameter sets of a slice\<close>

text \<open>The operations on the picture buffers: of layer 0 or 1, of type 1 or 2.\<close>

type_synonym dec_op = "h264d_dec \<Rightarrow> (mpp_ret \<times> h264d_dec) option"

record dpb_ops =
  op_exit_picture :: dec_op
  op_flush_dpb :: "nat \<Rightarrow> int \<Rightarrow> dec_op"
  op_init_dpb :: "nat \<Rightarrow> int \<Rightarrow> dec_op"

text \<open>\<open>FUN_CHECK\<close> and \<open>VAL_CHECK\<close> between calls.\<close>

definition and_then :: "(mpp_ret \<times> 's) option \<Rightarrow> ('s \<Rightarrow> (mpp_ret \<times> 's) option) \<Rightarrow> (mpp_ret \<times> 's) option" where
  "and_then r f = (case r of None \<Rightarrow> None | Some (ret, d) \<Rightarrow> if ret = MPP_OK then f d else Some (ret, d))"

definition ok_dec :: dec_op where
  "ok_dec d = Some (MPP_OK, d)"

definition finish_dec_pic :: "dpb_ops \<Rightarrow> dec_op" where
  "finish_dec_pic ops d = (if vs_dec_pic (d_vs d) then op_exit_picture ops d else ok_dec d)"

text \<open>One layer with a new set: the buffer is emptied and made anew.\<close>

definition renew_dpb :: "dpb_ops \<Rightarrow> nat \<Rightarrow> int \<Rightarrow> bool \<Rightarrow> h264_sps \<Rightarrow> dec_op" where
  "renew_dpb ops l ty flush sps d =
    (if \<not> video_pars_changed (p_Vid (d_slice d)) sps l then ok_dec d
     else and_then (and_then (if flush then op_flush_dpb ops l ty d else ok_dec d) (op_init_dpb ops l ty))
       (\<lambda>d. ok_dec (d\<lparr>d_slice := (d_slice d)\<lparr>p_Vid := update_last_video_pars sps l (p_Vid (d_slice d))\<rparr>,
                      d_vs := (d_vs d)\<lparr>vs_dpb_size := (vs_dpb_size (d_vs d))[l := vs_layer_size (d_vs d) ! l]\<rparr>\<rparr>)))"

definition activate_sps :: "dpb_ops \<Rightarrow> sps_ptr \<Rightarrow> nat \<Rightarrow> dec_op" where
  "activate_sps ops sps subset_sps d =
    and_then (and_then (finish_dec_pic ops d) (\<lambda>d.
      if vs_active_mvc_sps_flag (d_vs d) \<noteq> 0
      then
        let p = SubSps subset_sps; id = s_seq_parameter_set_id (sps_at p (p_Vid (d_slice d)));
            d = upd_vs (\<lambda>v. v\<lparr>vs_active_sps := Some p, vs_active_subsps := Some subset_sps, vs_active_sps_id := [0, id]\<rparr>) d
        in if id < 0 then Some (MPP_ERR_VALUE, d)
           else and_then (renew_dpb ops 1 2 True (sps_at p (p_Vid (d_slice d))) d)
                  (\<lambda>d. if vs_dpb_size (d_vs d) ! 1 = 0 then Some (MPP_ERR_VALUE, d) else ok_dec d)
      else
        let id = s_seq_parameter_set_id (sps_at sps (p_Vid (d_slice d)));
            d = upd_vs (\<lambda>v. v\<lparr>vs_active_sps := Some sps, vs_active_subsps := None\<rparr>) d
        in if id < 0 then Some (MPP_ERR_VALUE, d)
           else and_then (renew_dpb ops 0 1 (vs_no_output_of_prior_pics_flag (d_vs d) = 0) (sps_at sps (p_Vid (d_slice d)))
                   (upd_vs (vs_active_sps_id_update (\<lambda>_. [id, 0])) d))
                  (\<lambda>d. if vs_dpb_size (d_vs d) ! 0 = 0 then Some (MPP_ERR_VALUE, d) else ok_dec d)))
      (\<lambda>d. ok_dec (d\<lparr>d_slice := (d_slice d)\<lparr>p_Vid :=
         update_video_pars (sps_at (the (vs_active_sps (d_vs d))) (p_Vid (d_slice d))) (p_Vid (d_slice d))\<rparr>\<rparr>))"

definition activate_pps :: "dpb_ops \<Rightarrow> nat \<Rightarrow> dec_op" where
  "activate_pps ops pps d =
    (if vs_active_pps (d_vs d) = Some pps then ok_dec d
     else and_then (finish_dec_pic ops d) (\<lambda>d. ok_dec (upd_vs (vs_active_pps_update (\<lambda>_. Some pps)) d)))"

definition sps_checked :: "h264_sps \<Rightarrow> bool" where
  "sps_checked s \<longleftrightarrow> \<not> (s_seq_parameter_set_id s > 63 \<or> s_separate_colour_plane_flag s = 1 \<or> s_chroma_format_idc s = 3
     \<or> s_bit_depth_luma_minus8 s > 2 \<or> s_bit_depth_chroma_minus8 s > 2 \<or> s_log2_max_frame_num_minus4 s > 12
     \<or> s_pic_order_cnt_type s > 2 \<or> s_log2_max_pic_order_cnt_lsb_minus4 s > 12
     \<or> s_num_ref_frames_in_pic_order_cnt_cycle s > 255 \<or> s_max_num_ref_frames s > 16
     \<or> s_pic_width_in_mbs_minus1 s < 3 \<or> s_pic_width_in_mbs_minus1 s > 255
     \<or> s_pic_height_in_map_units_minus1 s < 3 \<or> s_pic_height_in_map_units_minus1 s > 143)"

definition subsps_checked :: "h264_subsps \<Rightarrow> bool" where
  "subsps_checked s \<longleftrightarrow> ss_num_views_minus1 s = 1
     \<and> (ss_num_anchor_refs_l0 s ! 0 > 0 \<longrightarrow> ss_anchor_ref_l0 s ! 0 ! 0 = ss_view_id s ! 0)
     \<and> (ss_num_anchor_refs_l1 s ! 0 > 0 \<longrightarrow> ss_anchor_ref_l1 s ! 0 ! 0 = ss_view_id s ! 1)
     \<and> (ss_num_non_anchor_refs_l0 s ! 0 > 0 \<longrightarrow> ss_non_anchor_ref_l0 s ! 0 ! 0 = ss_view_id s ! 0)
     \<and> (ss_num_non_anchor_refs_l1 s ! 0 > 0 \<longrightarrow> ss_non_anchor_ref_l1 s ! 0 ! 0 = ss_view_id s ! 1)"

definition pps_checked :: "h264_sps \<Rightarrow> h264_pps \<Rightarrow> bool" where
  "pps_checked s p \<longleftrightarrow> \<not> (p_pic_parameter_set_id p > 255 \<or> p_seq_parameter_set_id p > 63 \<or> p_num_slice_groups_minus1 p > 0
     \<or> p_num_ref_idx_l0_default_active_minus1 p > 31 \<or> p_num_ref_idx_l1_default_active_minus1 p > 31
     \<or> p_pic_init_qp_minus26 p > 25 \<or> p_pic_init_qp_minus26 p < - (26 + 6 * s_bit_depth_luma_minus8 s)
     \<or> p_pic_init_qs_minus26 p > 25 \<or> p_pic_init_qs_minus26 p < - 26
     \<or> p_chroma_qp_index_offset p > 12 \<or> p_chroma_qp_index_offset p < - 12 \<or> p_redundant_pic_cnt_present_flag p = 1)"

definition check_sps_pps :: "h264_sps \<Rightarrow> h264_subsps option \<Rightarrow> h264_pps \<Rightarrow> mpp_ret" where
  "check_sps_pps sps subset_sps pps =
    (if sps_checked sps \<and> (case subset_sps of None \<Rightarrow> True | Some s \<Rightarrow> subsps_checked s) \<and> pps_checked sps pps
     then MPP_OK else MPP_NOK)"

text \<open>
  The choice of the SPS: the pointer, the subset SPS if any, \<open>active_mvc_sps_flag\<close>. A view that is
  neither the first nor the second of the subset SPS leaves the flag as it was.
\<close>

definition choose_sps :: "nat \<Rightarrow> h264d_dec \<Rightarrow> (sps_ptr \<times> nat option \<times> int) option" where
  "choose_sps i d =
    (let ss = vd_subspsSet (p_Vid (d_slice d)) ! i; view = sint (mvc_view_id (d_mvcExt d)); ids = ss_view_id ss in
     if mvc_valid (d_mvcExt d) = 0 \<or> ss_Valid ss = 0 then Some (Sps i, None, 0)
     else if ids = [] then None
     else if view = ids ! 0 then Some (Sps i, None, 0)
     else if length ids < 2 then None
     else Some (SubSps i, Some i, if view = ids ! 1 then 1 else vs_active_mvc_sps_flag (d_vs d)))"

definition set_slice_user_parmeters :: "dpb_ops \<Rightarrow> dec_op" where
  "set_slice_user_parmeters ops d =
    (let v = p_Vid (d_slice d); k = sl_pic_parameter_set_id (d_sl d); pps = vd_ppsSet v ! nat k in
     if k < 0 \<or> k \<ge> int (length (vd_ppsSet v)) then None
     else if p_Valid pps = 0 then Some (MPP_ERR_VALUE, d)
     else
       let j = p_seq_parameter_set_id pps; i = nat j in
       if j < 0 \<or> j \<ge> int (length (vd_spsSet v)) \<or> j \<ge> int (length (vd_subspsSet v)) then None
       else case choose_sps i d of
         None \<Rightarrow> None
       | Some (p, sub, mvc) \<Rightarrow>
           let d = upd_vs (vs_active_mvc_sps_flag_update (\<lambda>_. mvc)) d;
               subset = (if mvc \<noteq> 0 then map_option (\<lambda>i. vd_subspsSet v ! i) sub else None);
               sps = (if mvc \<noteq> 0 then SubSps i else p) in
           if mvc \<noteq> 0 \<and> (case subset of None \<Rightarrow> True | Some s \<Rightarrow> ss_Valid s = 0) then Some (MPP_ERR_VALUE, d)
           else if mvc = 0 \<and> s_Valid (sps_at sps v) = 0 then Some (MPP_ERR_VALUE, d)
           else if check_sps_pps (sps_at sps v) subset pps = MPP_NOK then Some (MPP_ERR_VALUE, d)
           else and_then (and_then (activate_sps ops sps i d) (activate_pps ops (nat k)))
             (\<lambda>d. let d = (if dec_mvc_valid d = 0 then d
                           else upd_vs (vs_active_subsps_update (\<lambda>_.
                             if ss_Valid (vd_subspsSet (p_Vid (d_slice d)) ! i) \<noteq> 0 then Some i else None)) d)
                  in ok_dec (d\<lparr>d_sl := (d_sl d)\<lparr>sl_active_sps := vs_active_sps (d_vs d), sl_active_pps := vs_active_pps (d_vs d)\<rparr>,
                             d_vs := (d_vs d)\<lparr>vs_type := sl_slice_type (d_sl d)\<rparr>\<rparr>)))"

section \<open>The slice header\<close>

definition init_slice_parmeters :: dec_op where
  "init_slice_parmeters d =
    (let x = d_mvcExt d;
         idr = of_bool (nalu_type (d_nalu d) = NALU_TYPE_IDR \<or> mvc_valid x \<noteq> 0 \<and> mvc_non_idr_flag x = 0);
         d = upd_sl (\<lambda>s. s\<lparr>sl_idr_flag := idr, sl_nal_reference_idc := nal_reference_idc (d_nalu d)\<rparr>) d;
         d = d\<lparr>err_used_ref_flag := of_bool (sl_nal_reference_idc (d_sl d) \<noteq> 0),
               err_dpb_err_flag := if sl_slice_type (d_sl d) = I_SLICE then 0 else err_dpb_err_flag d\<rparr>;
         ids = (case vs_active_subsps (d_vs d) of None \<Rightarrow> [] | Some i \<Rightarrow> ss_view_id (vd_subspsSet (p_Vid (d_slice d)) ! i));
         avc = (svc_extension_flag d = - 1); prefix = (svc_extension_flag d = 0 \<or> mvc_iPrefixNALU x \<noteq> 0);
         view = (if prefix then sint (mvc_view_id x)
                 else if avc then if mvc_valid x \<noteq> 0 then ids ! 0 else 0 else sl_view_id (d_sl d)) in
     if \<not> prefix \<and> avc \<and> mvc_valid x \<noteq> 0 \<and> ids = [] then None
     else
       let d = (if prefix
                then upd_sl (\<lambda>s. s\<lparr>sl_view_id := view, sl_inter_view_flag := sint (mvc_inter_view_flag x),
                                  sl_anchor_pic_flag := sint (mvc_anchor_pic_flag x)\<rparr>) d
                else if avc
                then upd_sl (\<lambda>s. s\<lparr>sl_view_id := view, sl_inter_view_flag := 1, sl_anchor_pic_flag := idr\<rparr>) d
                else d);
           d = d\<lparr>layer_id := view\<rparr>
       in if view < 0 then ok_dec d
          else if view \<ge> 2 then None
          else ok_dec (upd_sl (sl_p_Dpb_update (\<lambda>_. Some (nat view))) d))"

abbreviation (input) "FRAME \<equiv> (3 :: int)"
abbreviation (input) "TOP_FIELD \<equiv> (1 :: int)"
abbreviation (input) "BOTTOM_FIELD \<equiv> (2 :: int)"

definition slice_start :: "dpb_ops \<Rightarrow> h264d_dec parser list" where
  "slice_start ops =
    [READ_UE (\<lambda>v. upd_sl (sl_start_mb_nr_update (\<lambda>_. v))),
     READ_UE (\<lambda>v d. d\<lparr>d_vs := (d_vs d)\<lparr>vs_slice_type := s32 (v mod 5)\<rparr>, d_sl := (d_sl d)\<lparr>sl_slice_type := s32 (v mod 5)\<rparr>\<rparr>),
     READ_UE (\<lambda>v. upd_sl (sl_pic_parameter_set_id_update (\<lambda>_. s32 v))),
     CALL init_slice_parmeters, CALL (set_slice_user_parmeters ops)]"

definition set_structure :: "int \<Rightarrow> h264d_dec \<Rightarrow> h264d_dec" where
  "set_structure s = upd_vs (vs_structure_update (\<lambda>_. s))"

definition slice_frame_num :: "h264d_dec parser list" where
  "slice_frame_num =
    [FAULT_IF (\<lambda>d. s_log2_max_frame_num_minus4 (active_sps d) + 4 < 0),
     READ_BITS_OF (\<lambda>d. s_log2_max_frame_num_minus4 (active_sps d) + 4) (\<lambda>v. upd_sl (sl_frame_num_update (\<lambda>_. s32 v))),
     COND (\<lambda>d. s_frame_mbs_only_flag (active_sps d) \<noteq> 0)
       [UPD (set_structure FRAME), UPD (upd_sl (\<lambda>s. s\<lparr>sl_field_pic_flag := 0, sl_bottom_field_flag := 0\<rparr>))]
       [READ_ONEBIT (\<lambda>v. upd_sl (sl_field_pic_flag_update (\<lambda>_. s32 v))),
        COND (\<lambda>d. sl_field_pic_flag (d_sl d) \<noteq> 0)
          [READ_ONEBIT (\<lambda>v. upd_sl (sl_bottom_field_flag_update (\<lambda>_. s32 v))),
           UPD (\<lambda>d. set_structure (if sl_bottom_field_flag (d_sl d) \<noteq> 0 then BOTTOM_FIELD else TOP_FIELD) d)]
          [UPD (set_structure FRAME), UPD (upd_sl (sl_bottom_field_flag_update (\<lambda>_. 0)))]],
     UPD (\<lambda>d. upd_sl (\<lambda>s. s\<lparr>sl_structure := vs_structure (d_vs d), sl_mb_aff_frame_flag :=
        of_bool (s_mb_adaptive_frame_field_flag (active_sps d) \<noteq> 0 \<and> sl_field_pic_flag s = 0)\<rparr>) d),
     COND (\<lambda>d. sl_idr_flag (d_sl d) \<noteq> 0 \<or> svc_extension_flag d = 0 \<and> mvc_non_idr_flag (d_mvcExt d) = 0)
       [READ_UE (\<lambda>v. upd_sl (sl_idr_pic_id_update (\<lambda>_. s32 v)))] []]"

text \<open>Whether the slice carries the order of the bottom field of its frame.\<close>

definition bottom_order :: "h264d_dec \<Rightarrow> bool" where
  "bottom_order d \<longleftrightarrow> p_bottom_field_pic_order_in_frame_present_flag (active_pps d) = 1 \<and> sl_field_pic_flag (d_sl d) = 0"

definition upd_delta :: "nat \<Rightarrow> int \<Rightarrow> h264d_dec \<Rightarrow> h264d_dec" where
  "upd_delta i v = upd_sl (sl_delta_pic_order_cnt_update (\<lambda>l. l[i := v]))"

definition slice_poc :: "h264d_dec parser list" where
  "slice_poc =
    [COND (\<lambda>d. s_pic_order_cnt_type (active_sps d) = 0)
       [FAULT_IF (\<lambda>d. s_log2_max_pic_order_cnt_lsb_minus4 (active_sps d) + 4 < 0),
        READ_BITS_OF (\<lambda>d. s_log2_max_pic_order_cnt_lsb_minus4 (active_sps d) + 4) (\<lambda>v. upd_sl (sl_pic_order_cnt_lsb_update (\<lambda>_. s32 v))),
        COND bottom_order [READ_SE (\<lambda>v. upd_sl (sl_delta_pic_order_cnt_bottom_update (\<lambda>_. v)))]
          [UPD (upd_sl (sl_delta_pic_order_cnt_bottom_update (\<lambda>_. 0)))]] [],
     COND (\<lambda>d. s_pic_order_cnt_type (active_sps d) = 1)
       [COND (\<lambda>d. s_delta_pic_order_always_zero_flag (active_sps d) = 0)
          [READ_SE (upd_delta 0), COND bottom_order [READ_SE (upd_delta 1)] [UPD (upd_delta 1 0)]]
          [UPD (upd_delta 0 0), UPD (upd_delta 1 0)]] []]"

definition upd_active :: "nat \<Rightarrow> int \<Rightarrow> h264d_dec \<Rightarrow> h264d_dec" where
  "upd_active l n = upd_sl (sl_num_ref_idx_active_update (\<lambda>x. x[l := n]))"

definition slice_refs :: "h264d_dec parser list" where
  "slice_refs =
    [COND (\<lambda>d. p_redundant_pic_cnt_present_flag (active_pps d) \<noteq> 0)
       [READ_UE (\<lambda>v. upd_sl (sl_redundant_pic_cnt_update (\<lambda>_. s32 v)))] [],
     COND (\<lambda>d. sl_slice_type (d_sl d) = B_SLICE)
       [READ_ONEBIT (\<lambda>v. upd_sl (sl_direct_spatial_mv_pred_flag_update (\<lambda>_. s32 v)))]
       [UPD (upd_sl (sl_direct_spatial_mv_pred_flag_update (\<lambda>_. 0)))],
     UPD (\<lambda>d. upd_active 0 (p_num_ref_idx_l0_default_active_minus1 (active_pps d) + 1) d),
     UPD (\<lambda>d. upd_active 1 (p_num_ref_idx_l1_default_active_minus1 (active_pps d) + 1) d),
     COND (\<lambda>d. sl_slice_type (d_sl d) = P_SLICE \<or> sl_slice_type (d_sl d) = SP_SLICE \<or> sl_slice_type (d_sl d) = B_SLICE)
       [READ_ONEBIT (\<lambda>v. upd_sl (sl_num_ref_idx_override_flag_update (\<lambda>_. s32 v))),
        COND (\<lambda>d. sl_num_ref_idx_override_flag (d_sl d) \<noteq> 0)
          [READ_UE (\<lambda>v. upd_active 0 (s32 (v + 1))),
           COND (\<lambda>d. sl_slice_type (d_sl d) = B_SLICE) [READ_UE (\<lambda>v. upd_active 1 (s32 (v + 1)))] []] []] [],
     COND (\<lambda>d. sl_slice_type (d_sl d) \<noteq> B_SLICE) [UPD (upd_active 1 0)] []]"

definition slice_rest :: "h264d_dec parser list" where
  "slice_rest =
    [ref_pic_list_mvc_modification,
     COND (\<lambda>d. p_weighted_pred_flag (active_pps d) \<noteq> 0 \<and> (sl_slice_type (d_sl d) = P_SLICE \<or> sl_slice_type (d_sl d) = SP_SLICE)
          \<or> p_weighted_bipred_idc (active_pps d) = 1 \<and> sl_slice_type (d_sl d) = B_SLICE)
       [pred_weight_table] [],
     UPD (upd_sl (sl_drpm_used_bitlen_update (\<lambda>_. 0))),
     COND (\<lambda>d. sl_nal_reference_idc (d_sl d) \<noteq> 0) [dec_ref_pic_marking] []]"

definition slice_header :: "dpb_ops \<Rightarrow> h264d_dec parser list" where
  "slice_header ops = slice_start ops @ slice_frame_num
     @ [MEASURE (\<lambda>n. upd_sl (sl_poc_used_bitlen_update (\<lambda>_. n))) slice_poc] @ slice_refs @ slice_rest"

definition process_slice :: "dpb_ops \<Rightarrow> dec_op" where
  "process_slice ops d =
    (case SEQ (slice_header ops) d (bitctx (d_slice d)) of
       (ret, d, c) \<Rightarrow> if sl_fault (d_sl d) then None else Some (ret, d\<lparr>d_slice := (d_slice d)\<lparr>bitctx := c\<rparr>\<rparr>))"
end
