(* ===== verification/H264dPoc.thy ===== *)
theory H264dPoc
  imports H264dSlice H264dSpec RkvDpbSpec
begin

text \<open>
  The picture order count: \<open>decode_poc\<close> of mpp/codec/dec/h264/h264d_init.c, for the three types. It reads the
  active SPS and the slice, and keeps what the next picture needs in \<open>H264dVideoCtx_t\<close>. \<open>None\<close> is a
  read past \<open>offset_for_ref_frame\<close>; a sum that leaves \<open>RK_S32\<close> wraps.
\<close>

section \<open>The model\<close>

text \<open>\<open>decode_poc\<close> of type 0: the position before the picture, the most significant part, the result.\<close>

definition poc_prev :: "h264_slice \<Rightarrow> h264d_vid \<Rightarrow> h264d_vid" where
  "poc_prev s v =
    (if sl_idr_flag s \<noteq> 0 then v\<lparr>vs_PrevPicOrderCntMsb := 0, vs_PrevPicOrderCntLsb := 0\<rparr>
     else if vs_last_has_mmco_5 v \<noteq> 0
     then v\<lparr>vs_PrevPicOrderCntMsb := 0,
            vs_PrevPicOrderCntLsb := if vs_last_pic_bottom_field v \<noteq> 0 then 0 else sl_toppoc s\<rparr>
     else v)"

definition poc_msb :: "u32 \<Rightarrow> int \<Rightarrow> h264d_vid \<Rightarrow> int" where
  "poc_msb m lsb v =
    (let prev = vs_PrevPicOrderCntLsb v; msb = vs_PrevPicOrderCntMsb v; half = s32 (m div 2) in
     if lsb < prev \<and> wrap32 (prev - lsb) \<ge> half then s32 (word_of_int msb + m)
     else if lsb > prev \<and> wrap32 (lsb - prev) > half then s32 (word_of_int msb - m)
     else msb)"

definition set_pocs :: "int \<Rightarrow> int \<Rightarrow> h264_slice \<Rightarrow> h264_slice" where
  "set_pocs tp bt s =
    (if sl_field_pic_flag s = 0
     then s\<lparr>sl_toppoc := tp, sl_bottompoc := bt, sl_ThisPOC := min tp bt, sl_framepoc := min tp bt\<rparr>
     else if sl_bottom_field_flag s = 0 then s\<lparr>sl_toppoc := tp, sl_ThisPOC := tp, sl_framepoc := tp\<rparr>
     else s\<lparr>sl_bottompoc := bt, sl_ThisPOC := bt, sl_framepoc := bt\<rparr>)"

definition decode_poc0 :: "h264_sps \<Rightarrow> h264d_vid \<times> h264_slice \<Rightarrow> h264d_vid \<times> h264_slice" where
  "decode_poc0 sps = (\<lambda>(v, s).
    let m = push_bit (nat (s_log2_max_pic_order_cnt_lsb_minus4 sps + 4)) 1 :: u32;
        v = poc_prev s v; lsb = sl_pic_order_cnt_lsb s; msb = poc_msb m lsb v; tp = wrap32 (msb + lsb);
        s = set_pocs tp (if sl_field_pic_flag s = 0 then wrap32 (tp + sl_delta_pic_order_cnt_bottom s) else tp)
              (s\<lparr>sl_PicOrderCntMsb := msb\<rparr>);
        v = v\<lparr>vs_ThisPOC := sl_ThisPOC s, vs_PreviousFrameNum := word_of_int (sl_frame_num s)\<rparr>
    in (if sl_nal_reference_idc s \<noteq> 0 then v\<lparr>vs_PrevPicOrderCntLsb := lsb, vs_PrevPicOrderCntMsb := msb\<rparr> else v, s))"

text \<open>Types 1 and 2: the frame number offset; the last frame number is kept at the end.\<close>

definition frame_num_offset :: "int \<Rightarrow> h264_slice \<Rightarrow> h264d_vid \<Rightarrow> h264d_vid" where
  "frame_num_offset max_frame_num s v =
    (let v = (if vs_last_has_mmco_5 v \<noteq> 0 then v\<lparr>vs_PreviousFrameNumOffset := 0, vs_PreviousFrameNum := 0\<rparr> else v) in
     v\<lparr>vs_FrameNumOffset := word_of_int (if sl_frame_num s < s32 (vs_PreviousFrameNum v)
        then vs_PreviousFrameNumOffset v + max_frame_num else vs_PreviousFrameNumOffset v)\<rparr>)"

definition keep_frame_num :: "h264_slice \<Rightarrow> h264d_vid \<Rightarrow> h264d_vid" where
  "keep_frame_num s v =
    v\<lparr>vs_PreviousFrameNum := word_of_int (sl_frame_num s), vs_PreviousFrameNumOffset := s32 (vs_FrameNumOffset v)\<rparr>"

definition sum_offsets :: "h264_sps \<Rightarrow> int \<Rightarrow> int \<Rightarrow> int option" where
  "sum_offsets sps n a =
    (if nat n > length (s_offset_for_ref_frame sps) then None
     else Some (foldl (\<lambda>a x. wrap32 (a + x)) a (take (nat n) (s_offset_for_ref_frame sps))))"

definition expected_poc :: "h264_sps \<Rightarrow> u32 \<Rightarrow> h264d_vid \<Rightarrow> h264d_vid option" where
  "expected_poc sps nr v =
    (let n = s_num_ref_frames_in_pic_order_cnt_cycle sps in
     case sum_offsets sps n 0 of None \<Rightarrow> None
     | Some delta \<Rightarrow>
         let v = v\<lparr>vs_ExpectedDeltaPerPicOrderCntCycle := delta\<rparr> in
         if nr = 0 then Some (v\<lparr>vs_ExpectedPicOrderCnt := 0\<rparr>)
         else
           let q = s32 ((nr - 1) div word_of_int n); r = s32 ((nr - 1) mod word_of_int n) in
           map_option (\<lambda>e. v\<lparr>vs_PicOrderCntCycleCnt := q, vs_FrameNumInPicOrderCntCycle := r, vs_ExpectedPicOrderCnt := e\<rparr>)
             (sum_offsets sps (r + 1) (wrap32 (q * delta))))"

definition decode_poc1 :: "h264_sps \<Rightarrow> int \<Rightarrow> h264d_vid \<times> h264_slice \<Rightarrow> (mpp_ret \<times> h264d_vid \<times> h264_slice) option" where
  "decode_poc1 sps max_frame_num = (\<lambda>(v, s).
    let v = (if sl_idr_flag s \<noteq> 0 then v\<lparr>vs_FrameNumOffset := 0\<rparr> else frame_num_offset max_frame_num s v) in
    if sl_idr_flag s \<noteq> 0 \<and> sl_frame_num s \<noteq> 0 then Some (MPP_ERR_VALUE, v, s)
    else
      let nr = (if s_num_ref_frames_in_pic_order_cnt_cycle sps \<noteq> 0
                 then vs_FrameNumOffset v + word_of_int (sl_frame_num s) else 0);
          nr = (if sl_nal_reference_idc s = 0 \<and> nr > 0 then nr - 1 else nr);
          s = s\<lparr>sl_AbsFrameNum := nr\<rparr> in
      case expected_poc sps nr v of None \<Rightarrow> None
      | Some v \<Rightarrow>
          let v = (if sl_nal_reference_idc s = 0
                   then v\<lparr>vs_ExpectedPicOrderCnt := wrap32 (vs_ExpectedPicOrderCnt v + s_offset_for_non_ref_pic sps)\<rparr> else v);
              tp = wrap32 (vs_ExpectedPicOrderCnt v + sl_delta_pic_order_cnt s ! 0);
              bt = wrap32 (tp + s_offset_for_top_to_bottom_field sps
                + (if sl_field_pic_flag s = 0 then sl_delta_pic_order_cnt s ! 1 else 0))
          in Some (MPP_OK, keep_frame_num s v, set_pocs tp bt s))"

definition decode_poc2 :: "int \<Rightarrow> h264d_vid \<times> h264_slice \<Rightarrow> mpp_ret \<times> h264d_vid \<times> h264_slice" where
  "decode_poc2 max_frame_num = (\<lambda>(v, s).
    if sl_idr_flag s \<noteq> 0
    then
      let v = v\<lparr>vs_FrameNumOffset := 0\<rparr>; s = s\<lparr>sl_ThisPOC := 0, sl_framepoc := 0, sl_toppoc := 0, sl_bottompoc := 0\<rparr>
      in if sl_frame_num s \<noteq> 0 then (MPP_ERR_VALUE, v, s) else (MPP_OK, keep_frame_num s v, s)
    else
      let v = frame_num_offset max_frame_num s v; nr = vs_FrameNumOffset v + word_of_int (sl_frame_num s);
          p = s32 (if sl_nal_reference_idc s = 0 then 2 * nr - 1 else 2 * nr)
      in (MPP_OK, keep_frame_num s v, set_pocs p p (s\<lparr>sl_AbsFrameNum := nr\<rparr>)))"

definition decode_poc :: "h264_sps \<Rightarrow> int \<Rightarrow> h264d_vid \<times> h264_slice \<Rightarrow> (mpp_ret \<times> h264d_vid \<times> h264_slice) option" where
  "decode_poc sps max_frame_num x =
    (if s_pic_order_cnt_type sps = 0 then Some (MPP_OK, decode_poc0 sps x)
     else if s_pic_order_cnt_type sps = 1 then decode_poc1 sps max_frame_num x
     else if s_pic_order_cnt_type sps = 2 then Some (decode_poc2 max_frame_num x)
     else Some (MPP_NOK, x))"


section \<open>Type 0\<close>

text \<open>The pictures of a stream one after the other, no reference reset between them.\<close>

fun decode_pocs :: "h264_sps \<Rightarrow> int \<Rightarrow> h264d_vid \<Rightarrow> h264_slice list \<Rightarrow> h264_slice list option" where
  "decode_pocs sps mf v [] = Some []"
| "decode_pocs sps mf v (s # ss) =
    (case decode_poc sps mf (v, s) of
       Some (MPP_OK, v', s') \<Rightarrow> map_option ((#) s') (decode_pocs sps mf v' ss)
     | _ \<Rightarrow> None)"

text \<open>
  What the syntax asks of the order counts: each is sent modulo \<open>M\<close> and is less than half of it, or half, away
  from that of the reference picture before.
\<close>

definition poc_near :: "int \<Rightarrow> int \<Rightarrow> int \<Rightarrow> bool" where
  "poc_near M prev p \<longleftrightarrow> - M < 2 * (p - prev) \<and> 2 * (p - prev) \<le> M \<and> \<bar>p\<bar> < 2 ^ 30"

fun poc_stream :: "int \<Rightarrow> int \<Rightarrow> (h264_slice \<times> int) list \<Rightarrow> bool" where
  "poc_stream M prev [] \<longleftrightarrow> True"
| "poc_stream M prev ((s, p) # xs) \<longleftrightarrow>
    (let prev = (if sl_idr_flag s \<noteq> 0 then 0 else prev)
     in sl_pic_order_cnt_lsb s = p mod M \<and> sl_field_pic_flag s = 0 \<and> poc_near M prev p
        \<and> poc_stream M (if sl_nal_reference_idc s \<noteq> 0 then p else prev) xs)"

definition poc_kept :: "int \<Rightarrow> int \<Rightarrow> h264d_vid \<Rightarrow> bool" where
  "poc_kept M prev v \<longleftrightarrow> vs_last_has_mmco_5 v = 0 \<and> vs_PrevPicOrderCntLsb v = prev mod M
     \<and> vs_PrevPicOrderCntMsb v = prev - prev mod M \<and> \<bar>prev\<bar> < 2 ^ 30"

lemma multiple_between:
  fixes M :: int
  assumes "0 < M" shows "0 < M * x \<Longrightarrow> M * x < 2 * M \<Longrightarrow> x = 1" "- M < M * x \<Longrightarrow> M * x < M \<Longrightarrow> x = 0"
    "- (2 * M) < M * x \<Longrightarrow> M * x < 0 \<Longrightarrow> x = - 1"
proof -
  have c: "M * x < M * y \<longleftrightarrow> x < y" for x y using assms by (simp add: mult_less_cancel_left_pos)
  show "0 < M * x \<Longrightarrow> M * x < 2 * M \<Longrightarrow> x = 1" using c [of 0 x] c [of x 2] by (simp add: mult.commute)
  show "- M < M * x \<Longrightarrow> M * x < M \<Longrightarrow> x = 0" using c [of "- 1" x] c [of x 1] by simp
  show "- (2 * M) < M * x \<Longrightarrow> M * x < 0 \<Longrightarrow> x = - 1" using c [of "- 2" x] c [of x 0] by (simp add: mult.commute)
qed

text \<open>The three cases of \<open>poc_msb\<close>, in exact arithmetic.\<close>

lemma msb_cases:
  fixes M :: int
  assumes M: "0 < M" "even M" and near: "- M < 2 * (p - prev)" "2 * (p - prev) \<le> M"
  defines "r \<equiv> prev mod M" and "l \<equiv> p mod M"
  shows "(if l < r \<and> r - l \<ge> M div 2 then prev - r + M else if r < l \<and> l - r > M div 2 then prev - r - M else prev - r) = p - l"
proof -
  obtain h where h: "M = 2 * h" using M(2) by (elim evenE)
  have d: "prev = M * (prev div M) + r" "p = M * (p div M) + l" by (simp_all add: r_def l_def)
  define x where "x = p div M - prev div M"
  have x: "M * x = p - prev + r - l" using d by (simp add: algebra_simps x_def)
  have b: "0 \<le> r" "r < M" "0 \<le> l" "l < M" using M(1) by (simp_all add: r_def l_def)
  have "x = (if l < r \<and> r - l \<ge> h then 1 else if r < l \<and> l - r > h then - 1 else 0)"
    using multiple_between [OF M(1), of x, unfolded x] b near by (auto simp: h)
  moreover have "p - l = prev - r + M * x" using x by simp
  ultimately show ?thesis by (simp add: h)
qed

lemma poc_msb_near:
  assumes kept: "poc_kept (2 ^ n) prev v" and near: "poc_near (2 ^ n) prev p" and n: "4 \<le> n" "n \<le> 16"
  shows "poc_msb (push_bit n 1) (p mod 2 ^ n) v = p - p mod 2 ^ n"
proof -
  have M: "(16::int) \<le> 2 ^ n" "(2::int) ^ n \<le> 65536" "even ((2::int) ^ n)"
    using power_increasing [of 4 n "2::int"] power_increasing [of n 16 "2::int"] n by simp_all
  have w: "(push_bit n 1 :: u32) = word_of_int (2 ^ n)" by (simp add: push_bit_eq_mult)
  have u: "uint (push_bit n 1 :: u32) = 2 ^ n" unfolding w unsigned_of_int using M n by (simp add: take_bit_int_eq_self_iff)
  have u': "uint ((2::u32) ^ n) = 2 ^ n" using u by (simp add: push_bit_eq_mult)
  have half: "s32 (push_bit n 1 div 2) = 2 ^ n div 2"
  proof -
    have "uint ((push_bit n 1 :: u32) div 2) = 2 ^ n div 2" by (simp add: uint_div u' push_bit_eq_mult)
    then have "(push_bit n 1 :: u32) div 2 = word_of_int (2 ^ n div 2)" by (metis word_of_int_uint)
    then show ?thesis using M wrap32_id [of "2 ^ n div 2"] by (simp add: s32_def wrap32_def)
  qed
  have r: "0 \<le> prev mod 2 ^ n" "prev mod 2 ^ n < 2 ^ n" "0 \<le> p mod 2 ^ n" "p mod 2 ^ n < 2 ^ n" using M by simp_all
  have k: "vs_PrevPicOrderCntLsb v = prev mod 2 ^ n" "vs_PrevPicOrderCntMsb v = prev - prev mod 2 ^ n" "\<bar>prev\<bar> < 2 ^ 30"
    using kept by (simp_all add: poc_kept_def)
  have s: "s32 (word_of_int x + push_bit n 1) = wrap32 (x + 2 ^ n)" "s32 (word_of_int x - push_bit n 1) = wrap32 (x - 2 ^ n)" for x
    unfolding w s32_def wrap32_def by (simp_all only: of_int_add of_int_diff)
  have w: "wrap32 (prev mod 2 ^ n - p mod 2 ^ n) = prev mod 2 ^ n - p mod 2 ^ n"
    "wrap32 (p mod 2 ^ n - prev mod 2 ^ n) = p mod 2 ^ n - prev mod 2 ^ n"
    "wrap32 (prev - prev mod 2 ^ n + 2 ^ n) = prev - prev mod 2 ^ n + 2 ^ n"
    "wrap32 (prev - prev mod 2 ^ n - 2 ^ n) = prev - prev mod 2 ^ n - 2 ^ n"
    by (rule wrap32_id [simplified], use r k(3) [simplified] M in linarith, use r k(3) [simplified] M in linarith)+
  have "poc_msb (push_bit n 1) (p mod 2 ^ n) v =
    (if p mod 2 ^ n < prev mod 2 ^ n \<and> prev mod 2 ^ n - p mod 2 ^ n \<ge> 2 ^ n div 2 then prev - prev mod 2 ^ n + 2 ^ n
     else if prev mod 2 ^ n < p mod 2 ^ n \<and> p mod 2 ^ n - prev mod 2 ^ n > 2 ^ n div 2 then prev - prev mod 2 ^ n - 2 ^ n
     else prev - prev mod 2 ^ n)"
    unfolding poc_msb_def half s k(1,2) Let_def w by simp
  also have "\<dots> = p - p mod 2 ^ n" using M near by (intro msb_cases) (simp_all add: poc_near_def)
  finally show ?thesis .
qed

lemma poc_kept_start: "poc_kept M prev v \<Longrightarrow> poc_kept M (if sl_idr_flag s \<noteq> 0 then 0 else prev) (poc_prev s v)"
  by (simp add: poc_kept_def poc_prev_def)

lemma decode_poc0_step:
  assumes sps: "s_pic_order_cnt_type sps = 0" "s_log2_max_pic_order_cnt_lsb_minus4 sps = int n - 4" "4 \<le> n" "n \<le> 16"
    and kept: "poc_kept (2 ^ n) prev v" and s: "sl_pic_order_cnt_lsb s = p mod 2 ^ n" "sl_field_pic_flag s = 0"
    and near: "poc_near (2 ^ n) (if sl_idr_flag s \<noteq> 0 then 0 else prev) p"
  shows "\<exists>v' s'. decode_poc sps mf (v, s) = Some (MPP_OK, v', s') \<and> sl_toppoc s' = p
    \<and> sl_ThisPOC s' = min p (wrap32 (p + sl_delta_pic_order_cnt_bottom s))
    \<and> poc_kept (2 ^ n) (if sl_nal_reference_idc s \<noteq> 0 then p else if sl_idr_flag s \<noteq> 0 then 0 else prev) v'"
proof -
  note k = poc_kept_start [OF kept, of s]
  have m: "poc_msb (push_bit n 1) (p mod 2 ^ n) (poc_prev s v) = p - p mod 2 ^ n"
    by (rule poc_msb_near [OF k near sps(3,4)])
  have "nat (s_log2_max_pic_order_cnt_lsb_minus4 sps + 4) = n" using sps(2) by simp
  moreover have "wrap32 p = p" using near by (intro wrap32_id) (auto simp: poc_near_def)
  ultimately show ?thesis using sps(1) m s k near
    by (auto simp: decode_poc_def decode_poc0_def Let_def set_pocs_def poc_kept_def poc_near_def)
qed

lemma decode_pocs_stream:
  assumes sps: "s_pic_order_cnt_type sps = 0" "s_log2_max_pic_order_cnt_lsb_minus4 sps = int n - 4" "4 \<le> n" "n \<le> 16"
  shows "poc_kept (2 ^ n) prev v \<Longrightarrow> poc_stream (2 ^ n) prev (zip ss ps) \<Longrightarrow> length ss = length ps \<Longrightarrow>
    \<exists>rs. decode_pocs sps mf v ss = Some rs \<and> map sl_toppoc rs = ps
      \<and> map sl_ThisPOC rs = map2 (\<lambda>s p. min p (wrap32 (p + sl_delta_pic_order_cnt_bottom s))) ss ps"
proof (induction ss arbitrary: ps prev v)
  case (Cons s ss)
  then obtain p qs where ps: "ps = p # qs" by (cases ps) simp_all
  note c = Cons.prems [unfolded ps, simplified, unfolded Let_def]
  from decode_poc0_step [OF sps Cons.prems(1), of s p mf] c obtain v' s' where
    d: "decode_poc sps mf (v, s) = Some (MPP_OK, v', s')" "sl_toppoc s' = p"
      "sl_ThisPOC s' = min p (wrap32 (p + sl_delta_pic_order_cnt_bottom s))"
      "poc_kept (2 ^ n) (if sl_nal_reference_idc s \<noteq> 0 then p else if sl_idr_flag s \<noteq> 0 then 0 else prev) v'" by auto
  from Cons.IH [OF d(4), of qs] c obtain rs where
    "decode_pocs sps mf v' ss = Some rs" "map sl_toppoc rs = qs"
    "map sl_ThisPOC rs = map2 (\<lambda>s p. min p (wrap32 (p + sl_delta_pic_order_cnt_bottom s))) ss qs" by auto
  with d show ?case by (auto simp: ps)
qed simp


lemma decode_pocs_start:
  assumes "s_pic_order_cnt_type sps = 0"
  shows "decode_pocs sps mf v (s # ss) = decode_pocs sps mf (poc_prev s v) (s # ss)"
proof -
  have "poc_prev s (poc_prev s v) = poc_prev s v" by (simp add: poc_prev_def)
  then show ?thesis using assms by (simp add: decode_poc_def decode_poc0_def Let_def)
qed

lemma poc_stream_bound: "poc_stream M prev (zip ss ps) \<Longrightarrow> length ss = length ps \<Longrightarrow> p \<in> set ps \<Longrightarrow> \<bar>p\<bar> < 2 ^ 30"
proof (induction ss arbitrary: ps prev)
  case (Cons s ss)
  then obtain q qs where "ps = q # qs" by (cases ps) auto
  with Cons show ?case by (auto simp: Let_def poc_near_def)
qed simp

lemma poc_type0_start:
  assumes sps: "s_pic_order_cnt_type sps = 0" "s_log2_max_pic_order_cnt_lsb_minus4 sps = int n - 4" "4 \<le> n" "n \<le> 16"
    and v: "vs_last_has_mmco_5 v = 0" and ss: "ss \<noteq> []" "sl_idr_flag (hd ss) \<noteq> 0" "length ss = length ps"
    and st: "poc_stream (2 ^ n) 0 (zip ss ps)"
  shows "\<exists>rs. decode_pocs sps mf v ss = Some rs \<and> map sl_toppoc rs = ps
    \<and> map sl_ThisPOC rs = map2 (\<lambda>s p. min p (wrap32 (p + sl_delta_pic_order_cnt_bottom s))) ss ps"
proof -
  obtain s ss' where s: "ss = s # ss'" using ss(1) by (cases ss) auto
  have "poc_kept (2 ^ n) 0 (poc_prev s v)" using v ss(2) by (simp add: s poc_kept_def poc_prev_def)
  from decode_pocs_stream [OF sps this st ss(3), of mf] show ?thesis
    using decode_pocs_start [OF sps(1), of mf v s ss'] by (simp add: s)
qed

text \<open>
  C11: picture order counts of type 0 survive their truncation. A stream sends each count modulo
  \<open>2\<^sup>n\<close>. When it starts with an IDR picture and every count is within half of \<open>2\<^sup>n\<close> of the
  reference picture before it (above \<open>-2\<^sup>n/2\<close>, at most \<open>2\<^sup>n/2\<close>), the decoder recovers each count exactly, whatever
  counts it kept from before; the count of a frame is the smaller one of its two fields.
\<close>

theorem poc_type0_recovered:
  assumes "s_pic_order_cnt_type sps = 0" and "s_log2_max_pic_order_cnt_lsb_minus4 sps = int n - 4" and "4 \<le> n" and "n \<le> 16"
    and "vs_last_has_mmco_5 v = 0" and "ss \<noteq> []" and "sl_idr_flag (hd ss) \<noteq> 0"
    and "length ss = length ps" and "poc_stream (2 ^ n) 0 (zip ss ps)"
  shows "\<exists>rs. decode_pocs sps mf v ss = Some rs \<and> map sl_toppoc rs = ps
    \<and> map sl_ThisPOC rs = map2 (\<lambda>s p. min p (wrap32 (p + sl_delta_pic_order_cnt_bottom s))) ss ps"
  using poc_type0_start [OF assms] .

definition poc_demo_slice :: "int \<Rightarrow> int \<Rightarrow> h264_slice" where
  "poc_demo_slice idr lsb = zero_slice\<lparr>sl_idr_flag := idr, sl_nal_reference_idc := 1, sl_pic_order_cnt_lsb := lsb\<rparr>"

theorem poc_type0_recovered_witness:
  "\<exists>rs. decode_pocs zero_sps 16 zero_vid (map2 poc_demo_slice [1, 0, 0, 0, 0] [0, 8, 4, 12, 4]) = Some rs
    \<and> map sl_toppoc rs = [0, 8, 4, 12, 20]"
proof -
  have "poc_stream (2 ^ 4) 0 (zip (map2 poc_demo_slice [1, 0, 0, 0, 0] [0, 8, 4, 12, 4]) [0, 8, 4, 12, 20])"
    by (simp add: poc_demo_slice_def zero_slice_def poc_near_def)
  then show ?thesis
    using poc_type0_recovered [of zero_sps 4 zero_vid "map2 poc_demo_slice [1, 0, 0, 0, 0] [0, 8, 4, 12, 4]" "[0, 8, 4, 12, 20]" 16]
    by (auto simp: zero_sps_def zero_vid_def poc_demo_slice_def zero_slice_def)
qed

section \<open>The order counts of the encoder\<close>

text \<open>
  The field \<open>poc_lsb\<close> of a register of the encoder (hal_h264e_rkv.c), from which the hardware writes the slice
  header, and the part of the headers of a run that the order count depends on.
\<close>

definition rkv_poc_lsb :: "h264e_sps \<Rightarrow> rkv_dpb \<Rightarrow> int option" where
  "rkv_poc_lsb sps d = do { f \<leftarrow> deref d (fdec d); Some (fr_poc f AND (push_bit (nat (i_log2_max_poc_lsb sps)) 1 - 1)) }"

fun rkv_headers :: "h264e_sps \<Rightarrow> int list \<Rightarrow> h264e_ref_param \<times> rkv_dpb \<Rightarrow> h264_slice list option" where
  "rkv_headers sps [] s = Some []"
| "rkv_headers sps (c # cs) s = do {
     (cfg, d) \<leftarrow> rkv_gen_frame sps c s;
     lsb \<leftarrow> rkv_poc_lsb sps d;
     ss \<leftarrow> rkv_headers sps cs (cfg, d);
     Some (zero_slice\<lparr>sl_idr_flag := of_bool (c = RKVENC_CODING_TYPE_IDR), sl_nal_reference_idc := int (i_nal_ref_idc d),
       sl_pic_order_cnt_lsb := lsb\<rparr> # ss) }"

text \<open>Twice the distance to the last IDR picture, for the pictures from number \<open>cnt\<close> on.\<close>

fun pocs_from :: "int \<Rightarrow> int \<Rightarrow> int list \<Rightarrow> int list" where
  "pocs_from cnt idr [] = []"
| "pocs_from cnt idr (c # cs) =
    (let idr = (if c = RKVENC_CODING_TYPE_IDR then cnt else idr) in 2 * (cnt - idr) # pocs_from (cnt + 1) idr cs)"

lemma length_pocs_from: "length (pocs_from a b cs) = length cs"
  by (induction cs arbitrary: a b) (simp_all add: Let_def)

lemma dec_sps_lsb: "i_poc_type e = 0 \<Longrightarrow> s_log2_max_pic_order_cnt_lsb_minus4 (dec_sps e s) = i_log2_max_poc_lsb e - 4"
  by (simp add: dec_sps_def dec_sps_vui_def dec_sps_size_def dec_sps_poc_def run_if_def)

lemma zero_slice_header: "sl_field_pic_flag zero_slice = 0" "sl_delta_pic_order_cnt_bottom zero_slice = 0"
  by (simp_all add: zero_slice_def)

lemma rkv_headers_stream:
  assumes cfg: "plain_ref cfg" and n: "i_num_ref_frames sps = int n" "n \<le> 15" and m: "i_log2_max_poc_lsb sps = int m" "4 \<le> m"
  shows "between n xs ys d \<Longrightarrow> set cs \<subseteq> {1, 2, 3, 4} \<Longrightarrow> i_frame_cnt d + int (length cs) < 2 ^ 29 \<Longrightarrow>
    \<exists>ss. rkv_headers sps cs (cfg, d) = Some ss \<and> length ss = length cs \<and> (\<forall>s \<in> set ss. sl_delta_pic_order_cnt_bottom s = 0)
      \<and> poc_stream (2 ^ m) (2 * (i_frame_cnt d - i_last_idr d) - 2) (zip ss (pocs_from (i_frame_cnt d) (i_last_idr d) cs))"
proof (induction cs arbitrary: xs ys d)
  case (Cons c cs)
  let ?idr = "if c = 1 then i_frame_cnt d else i_last_idr d"
  from gen_frame_step [OF Cons.prems(1) cfg _ n, of c] Cons.prems(2) obtain ys' k d' where
    g: "rkv_gen_frame sps c (cfg, d) = Some (cfg, d')" "between n (window n ((if c = 1 then [] else xs) @ [k])) ys' d'"
      "fdec d' = Some k" "i_frame_cnt d' = i_frame_cnt d + 1" "i_last_idr d' = ?idr" "deref d' (Some k) \<noteq> None"
      "fr_poc (frame_buf d' ! k) = 2 * (i_frame_cnt d - ?idr)" "i_nal_ref_idc d' \<noteq> 0" by auto
  have fr: "deref d' (Some k) = Some (frame_buf d' ! k)" using g(6) by (simp add: deref_def rd_def split: if_splits)
  have lsb: "rkv_poc_lsb sps d' = Some (2 * (i_frame_cnt d - ?idr) mod 2 ^ m)"
    using fr g(3,7) m(1) by (simp add: rkv_poc_lsb_def push_bit_eq_mult take_bit_eq_mod [symmetric] take_bit_eq_mask mask_eq_exp_minus_1)
  from Cons.IH [OF g(2)] Cons.prems(2,3) g(4) obtain ss where
    i: "rkv_headers sps cs (cfg, d') = Some ss" "length ss = length cs" "\<forall>s \<in> set ss. sl_delta_pic_order_cnt_bottom s = 0"
      "poc_stream (2 ^ m) (2 * (i_frame_cnt d' - i_last_idr d') - 2) (zip ss (pocs_from (i_frame_cnt d') (i_last_idr d') cs))" by auto
  have M: "(16::int) \<le> 2 ^ m" using power_increasing [of 4 m "2::int"] m(2) by simp
  have b: "0 \<le> i_last_idr d" "i_last_idr d \<le> i_frame_cnt d" using Cons.prems(1) by (simp_all add: between_def)
  have near: "poc_near (2 ^ m) (if c = 1 then 0 else 2 * (i_frame_cnt d - i_last_idr d) - 2) (2 * (i_frame_cnt d - ?idr))"
    using M b Cons.prems(3) by (simp add: poc_near_def)
  have "2 * (i_frame_cnt d' - i_last_idr d') - 2 = 2 * (i_frame_cnt d - ?idr)" using g(4,5) by simp
  then show ?case using g(1,8) lsb i near by (cases "c = 1") (simp_all add: g(4,5) zero_slice_header Let_def)
qed simp

text \<open>
  C7: encoder and decoder agree on the picture order counts. For every sequence of IDR, I, P and kept B
  pictures that starts with an IDR picture, and a stream whose SPS is the encoder's as the decoder has parsed it, the
  decoder, given the truncated counts of the encoder's register, finds for every picture twice
  its distance from the last IDR picture: the counts grow by two, without a jump where the truncated count wraps.
\<close>

theorem encoder_pocs_decoded:
  assumes "plain_ref cfg" and "i_num_ref_frames sps = int n" and "n \<le> 15" and "set cs \<subseteq> {1, 2, 3, 4}" and "length cs < 2 ^ 29"
    and "cs \<noteq> []" and "hd cs = 1" and "i_poc_type sps = 0" and "i_chroma_format_idc sps = 1"
    and "i_log2_max_poc_lsb sps = int m" and "4 \<le> m" and "m \<le> 16" and "vs_last_has_mmco_5 v = 0"
  shows "\<exists>ss rs. rkv_headers sps cs (cfg, h264e_rkv_reference_init cfg) = Some ss
    \<and> decode_pocs (dec_sps sps s) mf v ss = Some rs \<and> map sl_ThisPOC rs = pocs_from 0 0 cs"
proof -
  let ?d = "h264e_rkv_reference_init cfg"
  have d: "i_frame_cnt ?d = 0" "i_last_idr ?d = 0" by (simp_all add: h264e_rkv_reference_init_def)
  from rkv_headers_stream [OF assms(1-3,10,11) init_between [of n cfg] assms(4)] assms(5) d obtain ss where
    ss: "rkv_headers sps cs (cfg, ?d) = Some ss" "length ss = length cs" "\<forall>s \<in> set ss. sl_delta_pic_order_cnt_bottom s = 0"
      "poc_stream (2 ^ m) (- 2) (zip ss (pocs_from 0 0 cs))" by auto
  obtain c cs' where c: "cs = c # cs'" using assms(6) by (cases cs) auto
  obtain x xs where x: "ss = x # xs" using ss(2) c by (cases ss) auto
  have idr: "sl_idr_flag (hd ss) \<noteq> 0"
    using ss(1) assms(7) by (auto simp: c zero_slice_def split: prod.splits bind_splits)
  then have st: "poc_stream (2 ^ m) 0 (zip ss (pocs_from 0 0 cs))"
    using ss(4) by (simp add: x c Let_def)
  have sps: "s_pic_order_cnt_type (dec_sps sps s) = 0" "s_log2_max_pic_order_cnt_lsb_minus4 (dec_sps sps s) = int m - 4"
    using dec_sps_sets(8) [OF assms(9)] dec_sps_lsb assms(8,10) by simp_all
  have len: "length ss = length (pocs_from 0 0 cs)" using ss(2) by (simp add: length_pocs_from)
  from poc_type0_start [OF sps assms(11,12,13) _ idr len st, of mf] x obtain rs where
    rs: "decode_pocs (dec_sps sps s) mf v ss = Some rs"
      "map sl_ThisPOC rs = map2 (\<lambda>s p. min p (wrap32 (p + sl_delta_pic_order_cnt_bottom s))) ss (pocs_from 0 0 cs)" by auto
  have "wrap32 p = p" if "p \<in> set (pocs_from 0 0 cs)" for p
    using poc_stream_bound [OF st len that] by (intro wrap32_id) auto
  then have "map2 (\<lambda>s p. min p (wrap32 (p + sl_delta_pic_order_cnt_bottom s))) ss (pocs_from 0 0 cs) = pocs_from 0 0 cs"
    using ss(3) len by (intro nth_equalityI) auto
  then show ?thesis using ss(1) rs by auto
qed

theorem encoder_pocs_decoded_witness:
  "\<exists>ss rs. rkv_headers ((refs_sps 1)\<lparr>i_poc_type := 0, i_log2_max_poc_lsb := 4, i_chroma_format_idc := 1\<rparr>) [1, 3, 3, 3, 3, 3, 3, 3, 3, 3, 1, 3]
      (h264e_set_ref, h264e_rkv_reference_init h264e_set_ref) = Some ss
    \<and> decode_pocs (dec_sps ((refs_sps 1)\<lparr>i_poc_type := 0, i_log2_max_poc_lsb := 4, i_chroma_format_idc := 1\<rparr>) zero_sps) 16 zero_vid ss = Some rs
    \<and> map sl_ThisPOC rs = [0, 2, 4, 6, 8, 10, 12, 14, 16, 18, 0, 2]"
proof -
  have "pocs_from 0 0 [1, 3, 3, 3, 3, 3, 3, 3, 3, 3, 1, 3] = [0, 2, 4, 6, 8, 10, 12, 14, 16, 18, 0, 2]" by code_simp
  then show ?thesis
    using encoder_pocs_decoded [of h264e_set_ref "(refs_sps 1)\<lparr>i_poc_type := 0, i_log2_max_poc_lsb := 4, i_chroma_format_idc := 1\<rparr>"
        1 "[1, 3, 3, 3, 3, 3, 3, 3, 3, 3, 1, 3]" 4 zero_vid zero_sps 16]
    by (simp add: refs_sps_def plain_ref_def h264e_set_ref_def zero_vid_def)
qed

end
