(* ===== verification/H264dDpb.thy ===== *)
theory H264dDpb
  imports H264dSlice "HOL-Library.Monad_Syntax"
begin

text \<open>
  The decoded picture buffer: mpp/codec/dec/h264/h264d_dpb.c. Pictures and frame stores are shared through
  pointers, so they live in a store of addresses, \<open>h_pic\<close> and \<open>h_fs\<close>: \<open>None\<close> is memory that is not
  allocated, or no longer. A function is a function of the state; its result \<open>None\<close> is an access through \<open>NULL\<close>, to freed
  memory, outside an array, or a loop that does not end. Allocations always succeed.
  The calls of the buffer slots (mpp/base/mpp_buf_slot.cpp) and of the frames in them are kept in order in \<open>h_slots\<close>.

  Of a picture the members that are only copied (cropping, sizes, the chroma format, \<open>proc_flag\<close> and the like) are left out;
  \<open>sp_mmcos\<close> is the list of commands that \<open>dec_ref_pic_marking_buffer\<close> heads.
\<close>

section \<open>The state\<close>

datatype mem_type = Mem_NULL | Mem_Malloc | Mem_Clone | Mem_UnPaired | Mem_TopOnly | Mem_BotOnly | Mem_Fake

record store_pic =
  sp_structure :: int
  sp_poc :: int
  sp_top_poc :: int
  sp_bottom_poc :: int
  sp_frame_poc :: int
  sp_ThisPOC :: int
  sp_pic_num :: int
  sp_long_term_pic_num :: int
  sp_long_term_frame_idx :: int
  sp_frame_num :: u32
  sp_is_long_term :: int
  sp_used_for_reference :: int
  sp_is_output :: int
  sp_colmv_no_used_flag :: int
  sp_top_field :: "nat option"
  sp_bottom_field :: "nat option"
  sp_frame :: "nat option"
  sp_slice_type :: int
  sp_idr_flag :: int
  sp_no_output_of_prior_pics_flag :: int
  sp_long_term_reference_flag :: int
  sp_adaptive_ref_pic_buffering_flag :: int
  sp_frame_mbs_only_flag :: int
  sp_mmcos :: "h264_drpm list"
  sp_view_id :: int
  sp_inter_view_flag :: int
  sp_anchor_pic_flag :: int
  sp_iCodingType :: int
  sp_layer_id :: int
  sp_is_mmco_5 :: int
  sp_poc_mmco5 :: int
  sp_top_poc_mmco5 :: int
  sp_bot_poc_mmco5 :: int
  sp_combine_flag :: int
  sp_mem_malloc_type :: mem_type
  sp_mem_mark :: "nat option"

record frame_store =
  fs_is_used :: int
  fs_is_reference :: int
  fs_is_long_term :: int
  fs_is_orig_reference :: int
  fs_frame_num_wrap :: int
  fs_long_term_frame_idx :: int
  fs_is_output :: int
  fs_poc :: int
  fs_view_id :: int
  fs_inter_view_flag :: "int list"
  fs_anchor_pic_flag :: "int list"
  fs_layer_id :: int
  fs_slice_type :: int
  fs_frame_num :: u32
  fs_structure :: int
  fs_is_directout :: int
  fs_frame :: "nat option"
  fs_top_field :: "nat option"
  fs_bottom_field :: "nat option"

record dpb_buf =
  db_size :: nat
  db_used_size :: nat
  db_ref_frames_in_buffer :: nat
  db_ltref_frames_in_buffer :: nat
  db_used_size_il :: nat
  db_poc_interval :: int
  db_last_output_poc :: int
  db_last_output_view_id :: int
  db_max_long_term_pic_idx :: int
  db_init_done :: int
  db_num_ref_frames :: int
  db_layer_id :: int
  db_fs :: "nat list"
  db_fs_ref :: "nat option list"
  db_fs_ltref :: "nat option list"
  db_fs_ilref :: "nat option"
  db_last_picture :: "nat option"

record dpb_mark =
  mk_top_used :: u8
  mk_bot_used :: u8
  mk_out_flag :: u8
  mk_slot_idx :: int
  mk_poc :: int
  mk_pic :: "nat option"

text \<open>What the decoder asks of a buffer slot and of the frame in it.\<close>

datatype slot_call =
    Set_codec_use int | Clr_codec_use int | Set_queue_use int | Set_hal_input int | Set_hal_output int
  | Enqueue_display int | Frame_poc int int | Frame_viewid int int | Frame_errinfo int | Frame_discard int

text \<open>
  The two buffers with the stores around them, and what \<open>h264d_dpb.c\<close> uses of the contexts: of the error context
  the flags, of the video context the order counts, the copy of the last stored picture and the stand-in for a missing
  reference. The member \<open>out_buffer\<close> of the video context is the frame store at address 0.
\<close>

record dpb_state =
  h_pic :: "nat \<Rightarrow> store_pic option"
  h_fs :: "nat \<Rightarrow> frame_store option"
  h_next :: nat
  h_mark :: "dpb_mark list"
  h_slots :: "slot_call list"
  h_dpb :: "dpb_buf list"
  h_last_has_mmco_5 :: int
  h_last_pic_bottom_field :: int
  h_last_pic :: "store_pic option"
  h_no_ref_pic :: "nat option"
  h_max_frame_num :: int
  h_used_ref_flag :: int
  h_i_slice_no :: int
  h_first_iframe_poc :: int
  h_mvc_output :: bool
  h_last_frame_slot_idx :: int

abbreviation (input) "out_buffer \<equiv> (0 :: nat)"
abbreviation (input) "INT_MIN \<equiv> (- 2147483648 :: int)"
abbreviation (input) "INT_MAX \<equiv> (2147483647 :: int)"

definition zero_pic :: store_pic where
  "zero_pic = \<lparr>sp_structure = 0, sp_poc = 0, sp_top_poc = 0, sp_bottom_poc = 0, sp_frame_poc = 0, sp_ThisPOC = 0,
     sp_pic_num = 0, sp_long_term_pic_num = 0, sp_long_term_frame_idx = 0, sp_frame_num = 0, sp_is_long_term = 0,
     sp_used_for_reference = 0, sp_is_output = 0, sp_colmv_no_used_flag = 0, sp_top_field = None, sp_bottom_field = None,
     sp_frame = None, sp_slice_type = 0, sp_idr_flag = 0, sp_no_output_of_prior_pics_flag = 0, sp_long_term_reference_flag = 0,
     sp_adaptive_ref_pic_buffering_flag = 0, sp_frame_mbs_only_flag = 0, sp_mmcos = [], sp_view_id = 0, sp_inter_view_flag = 0,
     sp_anchor_pic_flag = 0, sp_iCodingType = 0, sp_layer_id = 0, sp_is_mmco_5 = 0, sp_poc_mmco5 = 0, sp_top_poc_mmco5 = 0,
     sp_bot_poc_mmco5 = 0, sp_combine_flag = 0, sp_mem_malloc_type = Mem_NULL, sp_mem_mark = None\<rparr>"

definition zero_fs :: frame_store where
  "zero_fs = \<lparr>fs_is_used = 0, fs_is_reference = 0, fs_is_long_term = 0, fs_is_orig_reference = 0, fs_frame_num_wrap = 0,
     fs_long_term_frame_idx = 0, fs_is_output = 0, fs_poc = 0, fs_view_id = 0, fs_inter_view_flag = [0, 0],
     fs_anchor_pic_flag = [0, 0], fs_layer_id = 0, fs_slice_type = 0, fs_frame_num = 0, fs_structure = 0, fs_is_directout = 0,
     fs_frame = None, fs_top_field = None, fs_bottom_field = None\<rparr>"

section \<open>Access to the store\<close>

type_synonym dpb_op = "dpb_state \<Rightarrow> dpb_state option"
type_synonym dpb_call = "dpb_state \<Rightarrow> (mpp_ret \<times> dpb_state) option"

definition get_pic :: "nat option \<Rightarrow> dpb_state \<Rightarrow> store_pic option" where
  "get_pic p s = do { a \<leftarrow> p; h_pic s a }"

definition upd_pic :: "nat option \<Rightarrow> (store_pic \<Rightarrow> store_pic) \<Rightarrow> dpb_op" where
  "upd_pic p f s = do { a \<leftarrow> p; x \<leftarrow> h_pic s a; Some (s\<lparr>h_pic := (h_pic s)(a := Some (f x))\<rparr>) }"

definition get_fs :: "nat option \<Rightarrow> dpb_state \<Rightarrow> frame_store option" where
  "get_fs p s = do { a \<leftarrow> p; h_fs s a }"

definition upd_fs :: "nat option \<Rightarrow> (frame_store \<Rightarrow> frame_store) \<Rightarrow> dpb_op" where
  "upd_fs p f s = do { a \<leftarrow> p; x \<leftarrow> h_fs s a; Some (s\<lparr>h_fs := (h_fs s)(a := Some (f x))\<rparr>) }"

definition get_mark :: "nat option \<Rightarrow> dpb_state \<Rightarrow> dpb_mark option" where
  "get_mark p s = do { k \<leftarrow> p; if k < length (h_mark s) then Some (h_mark s ! k) else None }"

definition upd_mark :: "nat option \<Rightarrow> (dpb_mark \<Rightarrow> dpb_mark) \<Rightarrow> dpb_op" where
  "upd_mark p f s = do { k \<leftarrow> p; x \<leftarrow> get_mark p s; Some (s\<lparr>h_mark := (h_mark s)[k := f x]\<rparr>) }"

definition dpb_of :: "nat \<Rightarrow> dpb_state \<Rightarrow> dpb_buf" where
  "dpb_of l s = h_dpb s ! l"

definition upd_dpb :: "nat \<Rightarrow> (dpb_buf \<Rightarrow> dpb_buf) \<Rightarrow> dpb_state \<Rightarrow> dpb_state" where
  "upd_dpb l f s = s\<lparr>h_dpb := (h_dpb s)[l := f (h_dpb s ! l)]\<rparr>"

definition slot_call :: "slot_call \<Rightarrow> dpb_state \<Rightarrow> dpb_state" where
  "slot_call e s = s\<lparr>h_slots := h_slots s @ [e]\<rparr>"

text \<open>An element of an array, of an array of pointers; a statement under a condition; a loop over values known before.\<close>

definition elem :: "'a list \<Rightarrow> nat \<Rightarrow> 'a option" where
  "elem xs i = (if i < length xs then Some (xs ! i) else None)"

definition do_if :: "bool \<Rightarrow> ('s \<Rightarrow> 's option) \<Rightarrow> 's \<Rightarrow> 's option" where
  "do_if b f s = (if b then f s else Some s)"

primrec each :: "'a list \<Rightarrow> ('a \<Rightarrow> 's \<Rightarrow> 's option) \<Rightarrow> 's \<Rightarrow> 's option" where
  "each [] f s = Some s"
| "each (x # xs) f s = do { s \<leftarrow> f x s; each xs f s }"

text \<open>A search: the test of an element may fault; the first hit is the result.\<close>

primrec first :: "('a \<Rightarrow> bool option) \<Rightarrow> 'a list \<Rightarrow> 'a option option" where
  "first t [] = Some None"
| "first t (x # xs) = do { b \<leftarrow> t x; if b then Some (Some x) else first t xs }"

abbreviation (input) has_top :: "int \<Rightarrow> bool" where "has_top x \<equiv> x AND 1 \<noteq> 0"
abbreviation (input) has_bottom :: "int \<Rightarrow> bool" where "has_bottom x \<equiv> x AND 2 \<noteq> 0"

definition alloc_storable_picture :: "int \<Rightarrow> dpb_state \<Rightarrow> nat \<times> dpb_state" where
  "alloc_storable_picture structure s =
    (h_next s, s\<lparr>h_next := h_next s + 1, h_pic := (h_pic s)(h_next s := Some (zero_pic\<lparr>sp_view_id := -1, sp_structure := structure\<rparr>))\<rparr>)"

definition alloc_frame_store :: "dpb_state \<Rightarrow> nat \<times> dpb_state" where
  "alloc_frame_store s = (h_next s, s\<lparr>h_next := h_next s + 1, h_fs := (h_fs s)(h_next s := Some zero_fs)\<rparr>)"

definition reset_dpb_mark :: "dpb_mark \<Rightarrow> dpb_mark" where
  "reset_dpb_mark m = m\<lparr>mk_top_used := 0, mk_bot_used := 0, mk_out_flag := 0, mk_slot_idx := -1, mk_pic := None\<rparr>"

definition free_dpb_mark :: "nat option \<Rightarrow> int \<Rightarrow> dpb_op" where
  "free_dpb_mark p structure s = do {
     let dec = (\<lambda>x :: u8. if x > 0 then x - 1 else 0);
     s \<leftarrow> do_if (structure = FRAME \<or> structure = TOP_FIELD) (upd_mark p (\<lambda>m. m\<lparr>mk_top_used := dec (mk_top_used m)\<rparr>)) s;
     s \<leftarrow> do_if (structure = FRAME \<or> structure = BOTTOM_FIELD) (upd_mark p (\<lambda>m. m\<lparr>mk_bot_used := dec (mk_bot_used m)\<rparr>)) s;
     m \<leftarrow> get_mark p s;
     if mk_top_used m = 0 \<and> mk_bot_used m = 0 \<and> mk_out_flag m = 0 \<and> mk_slot_idx m \<ge> 0
     then upd_mark p reset_dpb_mark (slot_call (Clr_codec_use (mk_slot_idx m)) s)
     else Some s }"

definition free_storable_picture :: "nat option \<Rightarrow> dpb_op" where
  "free_storable_picture p s =
    (case p of None \<Rightarrow> Some s
     | Some a \<Rightarrow> do {
         x \<leftarrow> h_pic s a;
         s \<leftarrow> do_if (sp_mem_malloc_type x = Mem_Malloc \<or> sp_mem_malloc_type x = Mem_Clone) (free_dpb_mark (sp_mem_mark x) (sp_structure x)) s;
         s \<leftarrow> do_if (sp_mem_malloc_type x = Mem_TopOnly) (free_dpb_mark (sp_mem_mark x) TOP_FIELD) s;
         s \<leftarrow> do_if (sp_mem_malloc_type x = Mem_BotOnly) (free_dpb_mark (sp_mem_mark x) BOTTOM_FIELD) s;
         Some (s\<lparr>h_pic := (h_pic s)(a := None)\<rparr>) })"

text \<open>\<open>free_storable_picture(fs->...); fs->... = NULL\<close> for the three pictures of a frame store.\<close>

definition free_frame_of :: "nat option \<Rightarrow> dpb_op" where
  "free_frame_of p s = do { f \<leftarrow> get_fs p s; s \<leftarrow> free_storable_picture (fs_frame f) s; upd_fs p (fs_frame_update (\<lambda>_. None)) s }"

definition free_top_of :: "nat option \<Rightarrow> dpb_op" where
  "free_top_of p s = do { f \<leftarrow> get_fs p s; s \<leftarrow> free_storable_picture (fs_top_field f) s; upd_fs p (fs_top_field_update (\<lambda>_. None)) s }"

definition free_bottom_of :: "nat option \<Rightarrow> dpb_op" where
  "free_bottom_of p s = do { f \<leftarrow> get_fs p s; s \<leftarrow> free_storable_picture (fs_bottom_field f) s; upd_fs p (fs_bottom_field_update (\<lambda>_. None)) s }"

definition free_frame_store :: "nat option \<Rightarrow> dpb_op" where
  "free_frame_store p s =
    (case p of None \<Rightarrow> Some s
     | Some a \<Rightarrow> do {
         s \<leftarrow> free_frame_of p s; s \<leftarrow> free_top_of p s; s \<leftarrow> free_bottom_of p s;
         Some (s\<lparr>h_fs := (h_fs s)(a := None)\<rparr>) })"

section \<open>Marking\<close>

definition get_pic_num_x :: "store_pic \<Rightarrow> int \<Rightarrow> int" where
  "get_pic_num_x p diff =
    (let currPicNum = (if sp_structure p = FRAME then s32 (sp_frame_num p) else s32 (2 * sp_frame_num p + 1))
     in wrap32 (currPicNum - (diff + 1)))"

abbreviation (input) no_ref :: "store_pic \<Rightarrow> store_pic" where
  "no_ref \<equiv> sp_used_for_reference_update (\<lambda>_. 0)"

definition unmark_for_reference :: "nat option \<Rightarrow> dpb_op" where
  "unmark_for_reference p s = do {
     f \<leftarrow> get_fs p s;
     s \<leftarrow> do_if (has_top (fs_is_used f) \<and> fs_top_field f \<noteq> None) (upd_pic (fs_top_field f) no_ref) s;
     s \<leftarrow> do_if (has_bottom (fs_is_used f) \<and> fs_bottom_field f \<noteq> None) (upd_pic (fs_bottom_field f) no_ref) s;
     s \<leftarrow> do_if (fs_is_used f = 3) (\<lambda>s. do {
            s \<leftarrow> do_if (fs_top_field f \<noteq> None \<and> fs_bottom_field f \<noteq> None)
                   (\<lambda>s. do { s \<leftarrow> upd_pic (fs_top_field f) no_ref s; upd_pic (fs_bottom_field f) no_ref s }) s;
            upd_pic (fs_frame f) no_ref s }) s;
     upd_fs p (fs_is_reference_update (\<lambda>_. 0)) s }"

abbreviation (input) no_long_ref :: "store_pic \<Rightarrow> store_pic" where
  "no_long_ref \<equiv> \<lambda>x. x\<lparr>sp_used_for_reference := 0, sp_is_long_term := 0\<rparr>"

definition unmark_for_long_term_reference :: "nat option \<Rightarrow> dpb_op" where
  "unmark_for_long_term_reference p s = do {
     f \<leftarrow> get_fs p s;
     s \<leftarrow> do_if (has_top (fs_is_used f) \<and> fs_top_field f \<noteq> None) (upd_pic (fs_top_field f) no_long_ref) s;
     s \<leftarrow> do_if (has_bottom (fs_is_used f) \<and> fs_bottom_field f \<noteq> None) (upd_pic (fs_bottom_field f) no_long_ref) s;
     s \<leftarrow> do_if (fs_is_used f = 3) (\<lambda>s. do {
            s \<leftarrow> do_if (fs_top_field f \<noteq> None \<and> fs_bottom_field f \<noteq> None)
                   (\<lambda>s. do { s \<leftarrow> upd_pic (fs_top_field f) no_long_ref s; upd_pic (fs_bottom_field f) no_long_ref s }) s;
            upd_pic (fs_frame f) no_long_ref s }) s;
     upd_fs p (\<lambda>f. f\<lparr>fs_is_reference := 0, fs_is_long_term := 0\<rparr>) s }"

text \<open>
  \<open>is_short_term_reference\<close> and \<open>is_long_term_reference\<close> differ in the test of one picture.
\<close>

definition short_ref :: "store_pic \<Rightarrow> bool" where
  "short_ref x \<longleftrightarrow> sp_used_for_reference x \<noteq> 0 \<and> sp_is_long_term x = 0"

definition long_ref :: "store_pic \<Rightarrow> bool" where
  "long_ref x \<longleftrightarrow> sp_used_for_reference x \<noteq> 0 \<and> sp_is_long_term x \<noteq> 0"

definition pic_test :: "(store_pic \<Rightarrow> bool) \<Rightarrow> nat option \<Rightarrow> dpb_state \<Rightarrow> bool option" where
  "pic_test t p s = (case p of None \<Rightarrow> Some False | Some a \<Rightarrow> map_option t (h_pic s a))"

definition fs_test :: "(store_pic \<Rightarrow> bool) \<Rightarrow> nat option \<Rightarrow> dpb_state \<Rightarrow> bool option" where
  "fs_test t p s = do {
     f \<leftarrow> get_fs p s;
     b \<leftarrow> (if fs_is_used f = 3 then map_option t (get_pic (fs_frame f) s) else Some False);
     if b then Some True else do {
       b \<leftarrow> (if has_top (fs_is_used f) then pic_test t (fs_top_field f) s else Some False);
       if b then Some True
       else if has_bottom (fs_is_used f) then pic_test t (fs_bottom_field f) s else Some False } }"

definition is_short_term_reference :: "nat option \<Rightarrow> dpb_state \<Rightarrow> bool option" where
  "is_short_term_reference = fs_test short_ref"

definition is_long_term_reference :: "nat option \<Rightarrow> dpb_state \<Rightarrow> bool option" where
  "is_long_term_reference = fs_test long_ref"

definition is_used_for_reference :: "nat option \<Rightarrow> dpb_state \<Rightarrow> bool option" where
  "is_used_for_reference p s =
    (case p of None \<Rightarrow> Some False
     | Some a \<Rightarrow> do {
         f \<leftarrow> h_fs s a;
         if fs_is_reference f \<noteq> 0 then Some True else fs_test (\<lambda>x. sp_used_for_reference x \<noteq> 0) p s })"

text \<open>
  The lists of references are rebuilt by \<open>update_ref_list\<close> and \<open>update_ltref_list\<close>; their counters are \<open>RK_U8\<close>.
\<close>

partial_function (option) ref_scan :: "(nat option \<Rightarrow> bool option) \<Rightarrow> dpb_buf \<Rightarrow> u8 \<Rightarrow> u8 \<Rightarrow> nat option list \<Rightarrow> (u8 \<times> nat option list) option" where
  "ref_scan t b i j r =
    (if unat i < db_used_size b
     then do {
       a \<leftarrow> elem (db_fs b) (unat i);
       x \<leftarrow> t (Some a);
       if x then (if unat j < length r then ref_scan t b (i + 1) (j + 1) (r[unat j := Some a]) else None)
       else ref_scan t b (i + 1) j r }
     else Some (j, r))"

partial_function (option) ref_clear :: "dpb_buf \<Rightarrow> u8 \<Rightarrow> nat option list \<Rightarrow> nat option list option" where
  "ref_clear b j r =
    (if unat j < db_size b
     then (if unat j < length r then ref_clear b (j + 1) (r[unat j := None]) else None)
     else Some r)"

definition update_ref_list :: "nat \<Rightarrow> dpb_op" where
  "update_ref_list l s = do {
     (j, r) \<leftarrow> ref_scan (\<lambda>p. is_short_term_reference p s) (dpb_of l s) 0 0 (db_fs_ref (dpb_of l s));
     r \<leftarrow> ref_clear (dpb_of l s) j r;
     Some (upd_dpb l (\<lambda>b. b\<lparr>db_fs_ref := r, db_ref_frames_in_buffer := unat j\<rparr>) s) }"

definition update_ltref_list :: "nat \<Rightarrow> dpb_op" where
  "update_ltref_list l s = do {
     (j, r) \<leftarrow> ref_scan (\<lambda>p. is_long_term_reference p s) (dpb_of l s) 0 0 (db_fs_ltref (dpb_of l s));
     r \<leftarrow> ref_clear (dpb_of l s) j r;
     Some (upd_dpb l (\<lambda>b. b\<lparr>db_fs_ltref := r, db_ltref_frames_in_buffer := unat j\<rparr>) s) }"

text \<open>The stores a loop over the two lists visits.\<close>

definition ref_stores :: "nat \<Rightarrow> dpb_state \<Rightarrow> nat option list" where
  "ref_stores l s = map (\<lambda>i. if i < length (db_fs_ref (dpb_of l s)) then db_fs_ref (dpb_of l s) ! i else None)
     [0..<db_ref_frames_in_buffer (dpb_of l s)]"

definition ltref_stores :: "nat \<Rightarrow> dpb_state \<Rightarrow> nat option list" where
  "ltref_stores l s = map (\<lambda>i. if i < length (db_fs_ltref (dpb_of l s)) then db_fs_ltref (dpb_of l s) ! i else None)
     [0..<db_ltref_frames_in_buffer (dpb_of l s)]"

text \<open>A loop over stores that may end early (\<open>return\<close>, \<open>break\<close>).\<close>

primrec each_until :: "'a list \<Rightarrow> ('a \<Rightarrow> 's \<Rightarrow> (bool \<times> 's) option) \<Rightarrow> 's \<Rightarrow> (bool \<times> 's) option" where
  "each_until [] f s = Some (False, s)"
| "each_until (x # xs) f s = do { (stop, s) \<leftarrow> f x s; if stop then Some (True, s) else each_until xs f s }"

definition after :: "(bool \<times> 's) option \<Rightarrow> 's option" where
  "after r = map_option snd r"

text \<open>One field of a store: \<open>top\<close> tells which. \<open>g\<close> changes the pictures that lose the mark.\<close>

definition field_bit :: "bool \<Rightarrow> int" where
  "field_bit t = (if t then 1 else 2)"

definition fs_field :: "bool \<Rightarrow> frame_store \<Rightarrow> nat option" where
  "fs_field t f = (if t then fs_top_field f else fs_bottom_field f)"

definition unmark_short_field :: "bool \<Rightarrow> int \<Rightarrow> nat option \<Rightarrow> dpb_state \<Rightarrow> (bool \<times> dpb_state) option" where
  "unmark_short_field t picNumX p s = do {
     f \<leftarrow> get_fs p s;
     if fs_is_reference f AND field_bit t \<noteq> 0 \<and> fs_is_long_term f AND field_bit t = 0
     then do {
       x \<leftarrow> get_pic (fs_field t f) s;
       if sp_pic_num x = picNumX
       then do {
         s \<leftarrow> upd_pic (fs_field t f) no_ref s;
         s \<leftarrow> upd_fs p (fs_is_reference_update (\<lambda>r. r AND field_bit (\<not> t))) s;
         s \<leftarrow> do_if (fs_is_used f = 3) (upd_pic (fs_frame f) no_ref) s;
         Some (True, s) }
       else Some (False, s) }
     else Some (False, s) }"

definition mm_unmark_short_term_for_reference :: "nat \<Rightarrow> store_pic \<Rightarrow> int \<Rightarrow> dpb_op" where
  "mm_unmark_short_term_for_reference l p diff s =
    (let picNumX = get_pic_num_x p diff in
     after (each_until (ref_stores l s) (\<lambda>q s.
       if sp_structure p = FRAME
       then do {
         f \<leftarrow> get_fs q s;
         if fs_is_reference f = 3 \<and> fs_is_long_term f = 0
         then do {
           x \<leftarrow> get_pic (fs_frame f) s;
           if sp_pic_num x = picNumX then do { s \<leftarrow> unmark_for_reference q s; Some (True, s) } else Some (False, s) }
         else Some (False, s) }
       else do {
         (stop, s) \<leftarrow> unmark_short_field True picNumX q s;
         if stop then Some (True, s) else unmark_short_field False picNumX q s }) s))"

definition unmark_long_field :: "bool \<Rightarrow> int \<Rightarrow> nat option \<Rightarrow> dpb_state \<Rightarrow> (bool \<times> dpb_state) option" where
  "unmark_long_field t num p s = do {
     f \<leftarrow> get_fs p s;
     if fs_is_reference f AND field_bit t \<noteq> 0 \<and> fs_is_long_term f AND field_bit t \<noteq> 0
     then do {
       x \<leftarrow> get_pic (fs_field t f) s;
       if sp_long_term_pic_num x = num
       then do {
         s \<leftarrow> upd_pic (fs_field t f) no_long_ref s;
         s \<leftarrow> upd_fs p (\<lambda>f. f\<lparr>fs_is_reference := fs_is_reference f AND field_bit (\<not> t),
                                fs_is_long_term := fs_is_long_term f AND field_bit (\<not> t)\<rparr>) s;
         s \<leftarrow> do_if (fs_is_used f = 3) (upd_pic (fs_frame f) no_long_ref) s;
         Some (True, s) }
       else Some (False, s) }
     else Some (False, s) }"

definition mm_unmark_long_term_for_reference :: "nat \<Rightarrow> store_pic \<Rightarrow> int \<Rightarrow> dpb_op" where
  "mm_unmark_long_term_for_reference l p num s =
    after (each_until (ltref_stores l s) (\<lambda>q s.
      if sp_structure p = FRAME
      then do {
        f \<leftarrow> get_fs q s;
        if fs_is_reference f = 3 \<and> fs_is_long_term f = 3
        then do {
          x \<leftarrow> get_pic (fs_frame f) s;
          s \<leftarrow> do_if (sp_long_term_pic_num x = num) (unmark_for_long_term_reference q) s;
          Some (False, s) }
        else Some (False, s) }
      else do {
        (stop, s) \<leftarrow> unmark_long_field True num q s;
        if stop then Some (True, s) else unmark_long_field False num q s }) s)"

definition unmark_long_term_frame_for_reference_by_frame_idx :: "nat \<Rightarrow> int \<Rightarrow> dpb_op" where
  "unmark_long_term_frame_for_reference_by_frame_idx l idx s =
    each (ltref_stores l s) (\<lambda>q s. do {
      f \<leftarrow> get_fs q s;
      do_if (fs_long_term_frame_idx f = idx) (unmark_for_long_term_reference q) s }) s"

text \<open>The other field is kept when it belongs to the same frame as the picture that takes the index.\<close>

definition long_field_stale :: "nat \<Rightarrow> int \<Rightarrow> bool \<Rightarrow> u32 \<Rightarrow> int \<Rightarrow> nat option \<Rightarrow> dpb_state \<Rightarrow> bool option" where
  "long_field_stale l structure mark_current curr_frame_num curr_pic_num q s = do {
     f \<leftarrow> get_fs q s;
     if fs_is_long_term f = 3 \<or> fs_is_long_term f = structure then Some True
     else if mark_current
     then (case db_last_picture (dpb_of l s) of
             None \<Rightarrow> Some True
           | Some a \<Rightarrow> if q \<noteq> Some a then Some True else map_option (\<lambda>x. fs_frame_num x \<noteq> curr_frame_num) (h_fs s a))
     else Some (fs_frame_num f \<noteq> word_of_int (drop_bit 1 curr_pic_num)) }"

definition unmark_long_term_field_for_reference_by_frame_idx :: "nat \<Rightarrow> int \<Rightarrow> int \<Rightarrow> bool \<Rightarrow> u32 \<Rightarrow> int \<Rightarrow> dpb_call" where
  "unmark_long_term_field_for_reference_by_frame_idx l structure idx mark_current curr_frame_num curr_pic_num s =
    (if structure = FRAME then Some (MPP_ERR_VALUE, s)
     else do {
       let num = (if curr_pic_num < 0 then wrap32 (curr_pic_num + wrap32 (2 * h_max_frame_num s)) else curr_pic_num);
       s \<leftarrow> each (ltref_stores l s) (\<lambda>q s. do {
         f \<leftarrow> get_fs q s;
         if fs_long_term_frame_idx f = idx \<and> (structure = TOP_FIELD \<or> structure = BOTTOM_FIELD)
         then do {
           b \<leftarrow> long_field_stale l structure mark_current curr_frame_num num q s;
           do_if b (unmark_for_long_term_reference q) s }
         else Some s }) s;
       Some (MPP_OK, s) })"

definition mark_long_frame :: "int \<Rightarrow> int \<Rightarrow> nat option \<Rightarrow> dpb_state \<Rightarrow> (bool \<times> dpb_state) option" where
  "mark_long_frame idx picNumX q s = do {
     f \<leftarrow> get_fs q s;
     if fs_is_reference f = 3
     then do {
       x \<leftarrow> get_pic (fs_frame f) s;
       if sp_is_long_term x = 0 \<and> sp_pic_num x = picNumX
       then do {
         let mark = (\<lambda>x. x\<lparr>sp_long_term_frame_idx := idx, sp_long_term_pic_num := idx, sp_is_long_term := 1\<rparr>);
         s \<leftarrow> upd_pic (fs_frame f) mark s;
         s \<leftarrow> do_if (fs_top_field f \<noteq> None \<and> fs_bottom_field f \<noteq> None)
                (\<lambda>s. do { s \<leftarrow> upd_pic (fs_top_field f) mark s; upd_pic (fs_bottom_field f) mark s }) s;
         s \<leftarrow> upd_fs q (\<lambda>f. f\<lparr>fs_long_term_frame_idx := idx, fs_is_long_term := 3\<rparr>) s;
         Some (True, s) }
       else Some (False, s) }
     else Some (False, s) }"

definition mark_long_field :: "bool \<Rightarrow> int \<Rightarrow> int \<Rightarrow> int \<Rightarrow> nat option \<Rightarrow> dpb_state \<Rightarrow> (bool \<times> dpb_state) option" where
  "mark_long_field t add idx picNumX q s = do {
     f \<leftarrow> get_fs q s;
     if fs_is_reference f AND field_bit t \<noteq> 0
     then do {
       x \<leftarrow> get_pic (fs_field t f) s;
       if sp_is_long_term x = 0 \<and> sp_pic_num x = picNumX
       then do {
         s \<leftarrow> upd_pic (fs_field t f) (\<lambda>x. x\<lparr>sp_long_term_frame_idx := idx, sp_long_term_pic_num := 2 * idx + add, sp_is_long_term := 1\<rparr>) s;
         s \<leftarrow> upd_fs q (\<lambda>f. f\<lparr>fs_long_term_frame_idx := idx, fs_is_long_term := fs_is_long_term f OR field_bit t\<rparr>) s;
         s \<leftarrow> do_if (fs_is_long_term f OR field_bit t = 3)
                (upd_pic (fs_frame f) (\<lambda>x. x\<lparr>sp_is_long_term := 1, sp_long_term_frame_idx := idx, sp_long_term_pic_num := idx\<rparr>)) s;
         Some (True, s) }
       else Some (False, s) }
     else Some (False, s) }"

definition mark_pic_long_term :: "nat \<Rightarrow> store_pic \<Rightarrow> int \<Rightarrow> int \<Rightarrow> dpb_op" where
  "mark_pic_long_term l p idx picNumX s =
    after (each_until (ref_stores l s) (\<lambda>q s.
      if sp_structure p = FRAME then mark_long_frame idx picNumX q s
      else do {
        (stop, s) \<leftarrow> mark_long_field True (of_bool (sp_structure p = TOP_FIELD)) idx picNumX q s;
        if stop then Some (True, s)
        else mark_long_field False (of_bool (sp_structure p \<noteq> TOP_FIELD)) idx picNumX q s }) s)"

text \<open>The field a picture number names, \<open>FRAME\<close> when there is none.\<close>

definition field_with_num :: "nat \<Rightarrow> int \<Rightarrow> dpb_state \<Rightarrow> int option" where
  "field_with_num l picNumX s = do {
     let hit = (\<lambda>t q. do {
       f \<leftarrow> get_fs q s;
       if fs_is_reference f AND field_bit t \<noteq> 0
       then map_option (\<lambda>x. sp_pic_num x = picNumX) (get_pic (fs_field t f) s) else Some False });
     r \<leftarrow> first (\<lambda>(t, q). hit t q) (concat (map (\<lambda>q. [(True, q), (False, q)]) (ref_stores l s)));
     Some (case r of None \<Rightarrow> FRAME | Some (t, _) \<Rightarrow> if t then TOP_FIELD else BOTTOM_FIELD) }"

definition mm_assign_long_term_frame_idx :: "nat \<Rightarrow> store_pic \<Rightarrow> int \<Rightarrow> int \<Rightarrow> dpb_call" where
  "mm_assign_long_term_frame_idx l p diff idx s =
    (let picNumX = get_pic_num_x p diff in
     and_then
       (if sp_structure p = FRAME
        then map_option (Pair MPP_OK) (unmark_long_term_frame_for_reference_by_frame_idx l idx s)
        else do {
          structure \<leftarrow> field_with_num l picNumX s;
          if structure = FRAME then Some (MPP_ERR_VALUE, s)
          else unmark_long_term_field_for_reference_by_frame_idx l structure idx False 0 picNumX s })
       (\<lambda>s. map_option (Pair MPP_OK) (mark_pic_long_term l p idx picNumX s)))"

definition mm_update_max_long_term_frame_idx :: "nat \<Rightarrow> int \<Rightarrow> dpb_op" where
  "mm_update_max_long_term_frame_idx l plus1 s = do {
     let s = upd_dpb l (db_max_long_term_pic_idx_update (\<lambda>_. wrap32 (plus1 - 1))) s;
     each (ltref_stores l s) (\<lambda>q s. do {
       f \<leftarrow> get_fs q s;
       do_if (fs_long_term_frame_idx f > db_max_long_term_pic_idx (dpb_of l s)) (unmark_for_long_term_reference q) s }) s }"

definition mm_unmark_all_short_term_for_reference :: "nat \<Rightarrow> dpb_op" where
  "mm_unmark_all_short_term_for_reference l s = do {
     s \<leftarrow> each (ref_stores l s) unmark_for_reference s;
     update_ref_list l s }"

definition mm_unmark_all_long_term_for_reference :: "nat \<Rightarrow> dpb_op" where
  "mm_unmark_all_long_term_for_reference l = mm_update_max_long_term_frame_idx l 0"

definition mm_mark_current_picture_long_term :: "nat \<Rightarrow> nat \<Rightarrow> int \<Rightarrow> dpb_op" where
  "mm_mark_current_picture_long_term l a idx s = do {
     p \<leftarrow> h_pic s a;
     s \<leftarrow> (if sp_structure p = FRAME then unmark_long_term_frame_for_reference_by_frame_idx l idx s
          else map_option snd (unmark_long_term_field_for_reference_by_frame_idx l (sp_structure p) idx True
                 (word_of_int (sp_pic_num p)) 0 s));
     upd_pic (Some a) (\<lambda>p. p\<lparr>sp_is_long_term := 1, sp_long_term_frame_idx := idx\<rparr>) s }"

text \<open>The stores in use, and the oldest short term reference among them.\<close>

definition used_stores :: "nat \<Rightarrow> dpb_state \<Rightarrow> nat option list" where
  "used_stores l s = map (\<lambda>i. elem (db_fs (dpb_of l s)) i) [0..<db_used_size (dpb_of l s)]"

definition sliding_window_memory_management :: "nat \<Rightarrow> dpb_op" where
  "sliding_window_memory_management l s =
    (let b = dpb_of l s in
     if (of_nat (db_ref_frames_in_buffer b) :: u32) = word_of_int (max 1 (db_num_ref_frames b)) - of_nat (db_ltref_frames_in_buffer b)
     then after (each_until (used_stores l s) (\<lambda>q s. do {
       f \<leftarrow> get_fs q s;
       if fs_is_reference f \<noteq> 0 \<and> fs_is_long_term f = 0
       then do { s \<leftarrow> unmark_for_reference q s; s \<leftarrow> update_ref_list l s; Some (True, s) }
       else Some (False, s) }) s)
     else Some s)"

definition check_num_ref :: "nat \<Rightarrow> dpb_op" where
  "check_num_ref l s =
    (let b = dpb_of l s in
     if int (db_ltref_frames_in_buffer b + db_ref_frames_in_buffer b) > max 1 (db_num_ref_frames b)
     then sliding_window_memory_management l s else Some s)"

section \<open>Removal and output\<close>

text \<open>The element at \<open>pos\<close> goes to the end of the used part, the ones after it move down.\<close>

definition move_to_end :: "nat \<Rightarrow> nat \<Rightarrow> nat list \<Rightarrow> nat list option" where
  "move_to_end pos n l = do {
     tmp \<leftarrow> elem l pos;
     l \<leftarrow> each [pos..<n - 1] (\<lambda>i l. do { x \<leftarrow> elem l (i + 1); Some (l[i := x]) }) l;
     if 0 < n \<and> n \<le> length l then Some (l[n - 1 := tmp]) else None }"

definition remove_frame_from_dpb :: "nat \<Rightarrow> nat \<Rightarrow> dpb_call" where
  "remove_frame_from_dpb l pos s = do {
     a \<leftarrow> elem (db_fs (dpb_of l s)) pos;
     f \<leftarrow> h_fs s a;
     if fs_is_used f \<notin> {0, 1, 2, 3} then Some (MPP_NOK, s)
     else do {
       s \<leftarrow> do_if (fs_is_used f = 3) (\<lambda>s. do { s \<leftarrow> free_frame_of (Some a) s; s \<leftarrow> free_top_of (Some a) s; free_bottom_of (Some a) s }) s;
       s \<leftarrow> do_if (fs_is_used f = 2) (free_bottom_of (Some a)) s;
       s \<leftarrow> do_if (fs_is_used f = 1) (free_top_of (Some a)) s;
       s \<leftarrow> upd_fs (Some a) (\<lambda>f. f\<lparr>fs_is_used := 0, fs_is_long_term := 0, fs_is_reference := 0, fs_is_orig_reference := 0\<rparr>) s;
       l' \<leftarrow> move_to_end pos (db_used_size (dpb_of l s)) (db_fs (dpb_of l s));
       Some (MPP_OK, upd_dpb l (\<lambda>b. b\<lparr>db_fs := l', db_used_size := db_used_size b - 1\<rparr>) s) } }"

text \<open>Without a frame to remove the result is \<open>MPP_ERR_UNKNOW\<close>.\<close>

definition unused_store :: "nat \<Rightarrow> dpb_state \<Rightarrow> nat option option" where
  "unused_store l s = first (\<lambda>i. do {
     a \<leftarrow> elem (db_fs (dpb_of l s)) i;
     f \<leftarrow> h_fs s a;
     if fs_is_output f \<noteq> 0 then map_option Not (is_used_for_reference (Some a) s) else Some False })
     [0..<db_used_size (dpb_of l s)]"

definition remove_unused_frame_from_dpb :: "nat \<Rightarrow> dpb_call" where
  "remove_unused_frame_from_dpb l s = do {
     r \<leftarrow> unused_store l s;
     case r of None \<Rightarrow> Some (MPP_ERR_UNKNOW, s) | Some i \<Rightarrow> remove_frame_from_dpb l i s }"

partial_function (option) remove_all_unused :: "nat \<Rightarrow> dpb_state \<Rightarrow> dpb_state option" where
  "remove_all_unused l s = do {
     (ret, s) \<leftarrow> remove_unused_frame_from_dpb l s;
     if ret = MPP_OK then remove_all_unused l s else Some s }"

text \<open>
  The stored picture with the smallest order count that is still to be output. When all are output the
  position is that of the smallest count of all.
\<close>

definition smallest_step :: "frame_store \<times> nat \<Rightarrow> (int \<times> int) \<times> bool \<times> int \<times> int \<Rightarrow> (int \<times> int) \<times> bool \<times> int \<times> int" where
  "smallest_step = (\<lambda>(f, i) ((min_poc, min_pos), find_flag, poc, pos).
     (if min_poc > fs_poc f then (fs_poc f, int i) else (min_poc, min_pos),
      if poc > fs_poc f \<and> fs_is_output f = 0 then (True, fs_poc f, int i) else (find_flag, poc, pos)))"

definition get_smallest_poc :: "nat \<Rightarrow> dpb_state \<Rightarrow> (bool \<times> int \<times> int) option" where
  "get_smallest_poc l s = do {
     fs \<leftarrow> each [0..<db_used_size (dpb_of l s)]
             (\<lambda>i xs. do { a \<leftarrow> elem (db_fs (dpb_of l s)) i; f \<leftarrow> h_fs s a; Some (xs @ [(f, i)]) }) [];
     case fold smallest_step fs ((INT_MAX, -1), False, INT_MAX, -1) of
       ((min_poc, min_pos), find_flag, poc, pos) \<Rightarrow>
         Some (if find_flag then (True, poc, pos) else (False, min_poc, min_pos)) }"

text \<open>The store at a position that \<open>get_smallest_poc\<close> has found.\<close>

definition store_at :: "nat \<Rightarrow> int \<Rightarrow> dpb_state \<Rightarrow> nat option" where
  "store_at l pos s = (if pos < 0 then None else elem (db_fs (dpb_of l s)) (nat pos))"

text \<open>The frame of two fields; the first part makes the picture when there is none.\<close>

definition combined_frame :: "nat option \<Rightarrow> bool \<Rightarrow> dpb_op" where
  "combined_frame p combine_flag s = do {
     f \<leftarrow> get_fs p s;
     if fs_frame f \<noteq> None then Some s
     else do {
       let (a, s) = alloc_storable_picture FRAME s;
       s \<leftarrow> upd_fs p (fs_frame_update (\<lambda>_. Some a)) s;
       t \<leftarrow> get_pic (fs_top_field f) s;
       s \<leftarrow> upd_pic (Some a) (sp_colmv_no_used_flag_update (\<lambda>_. sp_colmv_no_used_flag t)) s;
       if combine_flag \<or> fs_is_used f \<notin> {1, 2}
       then upd_pic (Some a) (\<lambda>x. x\<lparr>sp_mem_malloc_type := sp_mem_malloc_type t, sp_mem_mark := sp_mem_mark t\<rparr>) s
       else if fs_is_used f = 1 then upd_pic (Some a) (sp_mem_mark_update (\<lambda>_. sp_mem_mark t)) s
       else do {
         b \<leftarrow> get_pic (fs_bottom_field f) s;
         upd_pic (Some a) (sp_mem_mark_update (\<lambda>_. sp_mem_mark b)) s } } }"

definition dpb_combine_field_yuv :: "nat option \<Rightarrow> bool \<Rightarrow> dpb_op" where
  "dpb_combine_field_yuv p combine_flag s = do {
     s \<leftarrow> combined_frame p combine_flag s;
     f \<leftarrow> get_fs p s;
     t \<leftarrow> get_pic (fs_top_field f) s;
     b \<leftarrow> get_pic (fs_bottom_field f) s;
     let poc = min (sp_poc t) (sp_poc b);
     s \<leftarrow> upd_fs p (fs_poc_update (\<lambda>_. poc)) s;
     s \<leftarrow> upd_pic (fs_frame f) (\<lambda>x. x\<lparr>sp_poc := poc, sp_frame_poc := poc, sp_top_poc := sp_poc t, sp_bottom_poc := sp_poc b,
            sp_used_for_reference := of_bool (sp_used_for_reference t \<noteq> 0 \<and> sp_used_for_reference b \<noteq> 0),
            sp_is_long_term := of_bool (sp_is_long_term t \<noteq> 0 \<and> sp_is_long_term b \<noteq> 0)\<rparr>) s;
     s \<leftarrow> upd_pic (fs_bottom_field f) (\<lambda>x. x\<lparr>sp_frame_poc := poc, sp_top_poc := sp_poc t\<rparr>) s;
     s \<leftarrow> upd_pic (fs_top_field f) (\<lambda>x. x\<lparr>sp_frame_poc := poc, sp_bottom_poc := sp_poc b\<rparr>) s;
     x \<leftarrow> get_pic (fs_frame f) s;
     s \<leftarrow> do_if (sp_is_long_term x \<noteq> 0) (upd_pic (fs_frame f) (sp_long_term_frame_idx_update (\<lambda>_. fs_long_term_frame_idx f))) s;
     let link = (\<lambda>x. x\<lparr>sp_top_field := fs_top_field f, sp_bottom_field := fs_bottom_field f, sp_frame := fs_frame f\<rparr>);
     s \<leftarrow> upd_pic (fs_frame f) link s;
     s \<leftarrow> upd_pic (fs_top_field f) link s;
     s \<leftarrow> upd_pic (fs_bottom_field f) link s;
     t \<leftarrow> get_pic (fs_top_field f) s;
     b \<leftarrow> get_pic (fs_bottom_field f) s;
     upd_pic (fs_frame f) (\<lambda>x. x\<lparr>sp_is_mmco_5 := of_bool (sp_is_mmco_5 t \<noteq> 0 \<or> sp_is_mmco_5 b \<noteq> 0),
       sp_poc_mmco5 := min (sp_top_poc_mmco5 t) (sp_bot_poc_mmco5 b),
       sp_top_poc_mmco5 := sp_top_poc_mmco5 t, sp_bot_poc_mmco5 := sp_bot_poc_mmco5 t\<rparr>) s }"

text \<open>
  \<open>write_picture\<close> hands the slot of a frame to the display, unless views are output together, for which the
  code has no call. A frame with an error is flagged or marked to be discarded.
\<close>

definition flag_frame :: "int \<Rightarrow> dpb_state \<Rightarrow> dpb_state" where
  "flag_frame slot s = slot_call (if h_used_ref_flag s \<noteq> 0 then Frame_errinfo slot else Frame_discard slot) s"

definition write_picture :: "nat option \<Rightarrow> dpb_op" where
  "write_picture p s = do {
     x \<leftarrow> get_pic p s;
     if sp_mem_malloc_type x \<in> {Mem_Malloc, Mem_TopOnly, Mem_BotOnly} \<and> sp_structure x = FRAME
     then do {
       m \<leftarrow> get_mark (sp_mem_mark x) s;
       if mk_out_flag m \<noteq> 0
       then do {
         let slot = mk_slot_idx m;
         let s = slot_call (Frame_poc slot (sp_poc x)) s;
         s \<leftarrow> upd_mark (sp_mem_mark x) (mk_poc_update (\<lambda>_. sp_poc x)) s;
         let s = slot_call (Frame_viewid slot (sp_layer_id x)) s;
         let s = (if sp_mem_malloc_type x \<noteq> Mem_Malloc then flag_frame slot s else s);
         let s = (if h_i_slice_no s < 2 \<and> sp_poc x < h_first_iframe_poc s then flag_frame slot s else s);
         let s = slot_call (Set_queue_use slot) s;
         if h_mvc_output s then Some s
         else upd_mark (sp_mem_mark x) (mk_out_flag_update (\<lambda>_. 0))
                (slot_call (Enqueue_display slot) s\<lparr>h_last_frame_slot_idx := slot\<rparr>) }
       else Some s }
     else Some s }"

text \<open>A store with one field is completed by an empty other field and written.\<close>

definition write_unpaired_field :: "nat option \<Rightarrow> dpb_call" where
  "write_unpaired_field p s = do {
     f \<leftarrow> get_fs p s;
     if fs_is_used f \<ge> 3 then Some (MPP_ERR_VALUE, s)
     else do {
       s \<leftarrow> do_if (has_top (fs_is_used f)) (\<lambda>s. do {
              x \<leftarrow> get_pic (fs_top_field f) s;
              let (a, s) = alloc_storable_picture BOTTOM_FIELD s;
              s \<leftarrow> upd_fs p (fs_bottom_field_update (\<lambda>_. Some a)) s;
              s \<leftarrow> upd_pic (Some a) (sp_mem_malloc_type_update (\<lambda>_. Mem_UnPaired)) s;
              s \<leftarrow> dpb_combine_field_yuv p False s;
              f \<leftarrow> get_fs p s;
              s \<leftarrow> upd_pic (fs_frame f) (\<lambda>x. x\<lparr>sp_view_id := fs_view_id f, sp_mem_malloc_type := Mem_TopOnly\<rparr>) s;
              write_picture (fs_frame f) s }) s;
       s \<leftarrow> do_if (has_bottom (fs_is_used f)) (\<lambda>s. do {
              x \<leftarrow> get_pic (fs_bottom_field f) s;
              let (a, s) = alloc_storable_picture TOP_FIELD s;
              s \<leftarrow> upd_fs p (fs_top_field_update (\<lambda>_. Some a)) s;
              s \<leftarrow> upd_pic (Some a) (sp_mem_malloc_type_update (\<lambda>_. Mem_UnPaired)) s;
              s \<leftarrow> dpb_combine_field_yuv p False s;
              f \<leftarrow> get_fs p s;
              s \<leftarrow> upd_pic (fs_frame f) (\<lambda>x. x\<lparr>sp_view_id := fs_view_id f, sp_mem_malloc_type := Mem_BotOnly\<rparr>) s;
              write_picture (fs_frame f) s }) s;
       s \<leftarrow> upd_fs p (fs_is_used_update (\<lambda>_. 3)) s;
       Some (MPP_OK, s) } }"

definition flush_direct_output :: dpb_call where
  "flush_direct_output s = and_then (write_unpaired_field (Some out_buffer) s) (\<lambda>s. do {
     s \<leftarrow> free_frame_of (Some out_buffer) s;
     s \<leftarrow> free_top_of (Some out_buffer) s;
     s \<leftarrow> free_bottom_of (Some out_buffer) s;
     s \<leftarrow> upd_fs (Some out_buffer) (fs_is_used_update (\<lambda>_. 0)) s;
     Some (MPP_OK, s) })"

definition write_stored_frame :: "nat \<Rightarrow> nat option \<Rightarrow> dpb_call" where
  "write_stored_frame l p s =
    (if p = None then Some (MPP_ERR_INIT, s)
     else and_then (flush_direct_output s) (\<lambda>s. do {
       f \<leftarrow> get_fs p s;
       and_then
         (if fs_is_used f < 3
          then and_then (write_unpaired_field p s) (\<lambda>s. do {
            s \<leftarrow> free_top_of p s; s \<leftarrow> free_bottom_of p s; Some (MPP_OK, s) })
          else do { s \<leftarrow> write_picture (fs_frame f) s; Some (MPP_OK, s) })
         (\<lambda>s. do {
            f \<leftarrow> get_fs p s;
            s \<leftarrow> upd_fs p (fs_is_output_update (\<lambda>_. 1)) (upd_dpb l (db_last_output_poc_update (\<lambda>_. fs_poc f)) s);
            Some (MPP_OK, s) }) }))"

definition output_one_frame_from_dpb :: "nat \<Rightarrow> dpb_call" where
  "output_one_frame_from_dpb l s = do {
     (find_flag, poc, pos) \<leftarrow> get_smallest_poc l s;
     if \<not> find_flag then Some (MPP_OK, s)
     else do {
       p \<leftarrow> map_option Some (store_at l pos s);
       and_then (write_stored_frame l p s) (\<lambda>s. do {
         p \<leftarrow> map_option Some (store_at l pos s);
         used \<leftarrow> is_used_for_reference p s;
         if used then Some (MPP_OK, s) else remove_frame_from_dpb l (nat pos) s }) } }"

section \<open>Storing a picture\<close>

definition dpb_split_field :: "nat option \<Rightarrow> dpb_op" where
  "dpb_split_field p s = do {
     f \<leftarrow> get_fs p s;
     x \<leftarrow> get_pic (fs_frame f) s;
     s \<leftarrow> upd_fs p (fs_poc_update (\<lambda>_. sp_poc x)) s;
     if sp_frame_mbs_only_flag x \<noteq> 0
     then do {
       s \<leftarrow> upd_fs p (\<lambda>f. f\<lparr>fs_top_field := None, fs_bottom_field := None\<rparr>) s;
       upd_pic (fs_frame f) (\<lambda>x. x\<lparr>sp_top_field := None, sp_bottom_field := None, sp_frame := fs_frame f\<rparr>) s }
     else do {
       let (t, s) = alloc_storable_picture TOP_FIELD s;
       let (b, s) = alloc_storable_picture BOTTOM_FIELD s;
       s \<leftarrow> upd_fs p (\<lambda>f. f\<lparr>fs_top_field := Some t, fs_bottom_field := Some b\<rparr>) s;
       let fields = (\<lambda>g s. do { s \<leftarrow> upd_pic (Some t) g s; upd_pic (Some b) g s });
       s \<leftarrow> fields (sp_colmv_no_used_flag_update (\<lambda>_. sp_colmv_no_used_flag x)) s;
       s \<leftarrow> do_if (sp_mem_malloc_type x = Mem_Malloc \<or> sp_mem_malloc_type x = Mem_Clone) (\<lambda>s. do {
              s \<leftarrow> fields (\<lambda>y. y\<lparr>sp_mem_mark := sp_mem_mark x, sp_mem_malloc_type := sp_mem_malloc_type x\<rparr>) s;
              upd_mark (sp_mem_mark x) (\<lambda>m. m\<lparr>mk_bot_used := mk_bot_used m + 1, mk_top_used := mk_top_used m + 1\<rparr>) s }) s;
       s \<leftarrow> fields (\<lambda>y. y\<lparr>sp_layer_id := sp_layer_id x, sp_view_id := fs_view_id f, sp_frame_poc := sp_frame_poc x,
              sp_bottom_poc := sp_bottom_poc x, sp_top_poc := sp_top_poc x,
              sp_used_for_reference := sp_used_for_reference x, sp_is_long_term := sp_is_long_term x,
              sp_long_term_frame_idx := sp_long_term_frame_idx x,
              sp_top_field := Some t, sp_bottom_field := Some b, sp_frame := fs_frame f,
              sp_is_mmco_5 := sp_is_mmco_5 x, sp_poc_mmco5 := sp_poc_mmco5 x,
              sp_iCodingType := sp_iCodingType x, sp_slice_type := sp_slice_type x\<rparr>) s;
       s \<leftarrow> upd_fs p (fs_long_term_frame_idx_update (\<lambda>_. sp_long_term_frame_idx x)) s;
       s \<leftarrow> upd_pic (fs_frame f) (\<lambda>x. x\<lparr>sp_top_field := Some t, sp_bottom_field := Some b, sp_frame := fs_frame f\<rparr>) s;
       i0 \<leftarrow> elem (fs_inter_view_flag f) 0;
       i1 \<leftarrow> elem (fs_inter_view_flag f) 1;
       s \<leftarrow> upd_pic (Some t) (\<lambda>y. y\<lparr>sp_poc := sp_top_poc x, sp_top_poc_mmco5 := sp_top_poc_mmco5 x, sp_inter_view_flag := i0\<rparr>) s;
       upd_pic (Some b) (\<lambda>y. y\<lparr>sp_poc := sp_bottom_poc x, sp_bot_poc_mmco5 := sp_bot_poc_mmco5 x, sp_inter_view_flag := i1\<rparr>) s } }"

definition dpb_combine_field :: "nat option \<Rightarrow> bool \<Rightarrow> dpb_op" where
  "dpb_combine_field p combine_flag s = do {
     s \<leftarrow> dpb_combine_field_yuv p combine_flag s;
     f \<leftarrow> get_fs p s;
     t \<leftarrow> get_pic (fs_top_field f) s;
     upd_pic (fs_frame f) (\<lambda>x. x\<lparr>sp_layer_id := fs_layer_id f, sp_view_id := fs_view_id f, sp_iCodingType := sp_iCodingType t,
       sp_frame_num := sp_frame_num t, sp_is_output := fs_is_output f, sp_slice_type := fs_slice_type f\<rparr>) s }"

text \<open>The bits of a store that a picture of one structure sets: 3, 1 or 2.\<close>

definition put_reference :: "store_pic \<Rightarrow> int \<Rightarrow> frame_store \<Rightarrow> frame_store" where
  "put_reference x n f =
    (if sp_used_for_reference x = 0 then f
     else let f = f\<lparr>fs_is_reference := fs_is_reference f OR n, fs_is_orig_reference := fs_is_orig_reference f OR n\<rparr> in
       if sp_is_long_term x = 0 then f
       else f\<lparr>fs_is_long_term := fs_is_long_term f OR n, fs_long_term_frame_idx := sp_long_term_frame_idx x\<rparr>)"

definition put_field :: "bool \<Rightarrow> nat \<Rightarrow> store_pic \<Rightarrow> frame_store \<Rightarrow> frame_store" where
  "put_field t a x f = put_reference x (field_bit t)
    ((if t then f\<lparr>fs_top_field := Some a\<rparr> else f\<lparr>fs_bottom_field := Some a\<rparr>)
       \<lparr>fs_is_used := fs_is_used f OR field_bit t,
        fs_inter_view_flag := (fs_inter_view_flag f)[of_bool (\<not> t) := sp_inter_view_flag x],
        fs_anchor_pic_flag := (fs_anchor_pic_flag f)[of_bool (\<not> t) := sp_anchor_pic_flag x]\<rparr>)"

definition put_frame :: "nat \<Rightarrow> store_pic \<Rightarrow> frame_store \<Rightarrow> frame_store" where
  "put_frame a x f = put_reference x 3
    (f\<lparr>fs_frame := Some a, fs_is_used := 3,
       fs_is_reference := if sp_used_for_reference x \<noteq> 0 then 0 else fs_is_reference f,
       fs_is_orig_reference := if sp_used_for_reference x \<noteq> 0 then 0 else fs_is_orig_reference f,
       fs_is_long_term := if sp_used_for_reference x \<noteq> 0 \<and> sp_is_long_term x \<noteq> 0 then 0 else fs_is_long_term f,
       fs_inter_view_flag := [sp_inter_view_flag x, sp_inter_view_flag x],
       fs_anchor_pic_flag := [sp_anchor_pic_flag x, sp_anchor_pic_flag x]\<rparr>)"

definition insert_picture_in_dpb :: "nat option \<Rightarrow> nat \<Rightarrow> bool \<Rightarrow> dpb_op" where
  "insert_picture_in_dpb p a combine_flag s = do {
     x \<leftarrow> h_pic s a;
     s \<leftarrow> (if sp_structure x = FRAME
          then do {
            s \<leftarrow> upd_fs p (put_frame a x) s;
            s \<leftarrow> dpb_split_field p s;
            upd_fs p (fs_poc_update (\<lambda>_. sp_poc x)) s }
          else if sp_structure x = TOP_FIELD \<or> sp_structure x = BOTTOM_FIELD
          then do {
            s \<leftarrow> upd_fs p (put_field (sp_structure x = TOP_FIELD) a x) s;
            f \<leftarrow> get_fs p s;
            if fs_is_used f = 3 then dpb_combine_field p combine_flag s
            else upd_fs p (fs_poc_update (\<lambda>_. sp_poc x)) s }
          else Some s);
     x \<leftarrow> h_pic s a;
     upd_fs p (\<lambda>f. f\<lparr>fs_layer_id := sp_layer_id x, fs_view_id := sp_view_id x, fs_frame_num := word_of_int (sp_pic_num x),
       fs_is_output := sp_is_output x, fs_slice_type := sp_slice_type x, fs_structure := sp_structure x\<rparr>) s }"

partial_function (option) flush_outputs :: "nat \<Rightarrow> dpb_state \<Rightarrow> (mpp_ret \<times> dpb_state) option" where
  "flush_outputs l s =
    (if db_used_size (dpb_of l s) = 0 then Some (MPP_OK, s)
     else do {
       (ret, s) \<leftarrow> output_one_frame_from_dpb l s;
       if ret = MPP_OK then flush_outputs l s else Some (ret, s) })"

definition flush_dpb :: "nat \<Rightarrow> dpb_call" where
  "flush_dpb l s =
    (if db_init_done (dpb_of l s) = 0 then Some (MPP_OK, s)
     else do {
       (bad, s) \<leftarrow> each_until (used_stores l s) (\<lambda>q s. do {
         f \<leftarrow> get_fs q s;
         if fs_layer_id f \<noteq> db_layer_id (dpb_of l s) then Some (True, s)
         else do { s \<leftarrow> unmark_for_reference q s; Some (False, s) } }) s;
       if bad then Some (MPP_ERR_VALUE, s)
       else do {
         s \<leftarrow> remove_all_unused l s;
         and_then (flush_outputs l s) (\<lambda>s. Some (MPP_OK, upd_dpb l (db_last_output_poc_update (\<lambda>_. INT_MIN)) s)) } })"

text \<open>An IDR picture empties the buffer; the pictures are shown first unless the picture forbids it.\<close>

definition idr_drop_all :: "nat \<Rightarrow> dpb_op" where
  "idr_drop_all l s = do {
     s \<leftarrow> each [0..<db_used_size (dpb_of l s)] (\<lambda>i s. do {
       q \<leftarrow> elem (db_fs (dpb_of l s)) i;
       s \<leftarrow> free_frame_store (Some q) s;
       let (n, s) = alloc_frame_store s;
       Some (upd_dpb l (\<lambda>b. b\<lparr>db_fs := (db_fs b)[i := n]\<rparr>) s) }) s;
     let b = dpb_of l s;
     if db_ref_frames_in_buffer b > length (db_fs_ref b) \<or> db_ltref_frames_in_buffer b > length (db_fs_ltref b) then None
     else Some (upd_dpb l (\<lambda>b. b\<lparr>
       db_fs_ref := replicate (db_ref_frames_in_buffer b) None @ drop (db_ref_frames_in_buffer b) (db_fs_ref b),
       db_fs_ltref := replicate (db_ltref_frames_in_buffer b) None @ drop (db_ltref_frames_in_buffer b) (db_fs_ltref b),
       db_used_size := 0\<rparr>) s) }"

definition idr_memory_management :: "nat \<Rightarrow> nat \<Rightarrow> dpb_call" where
  "idr_memory_management l a s = do {
     x \<leftarrow> h_pic s a;
     (ret, s) \<leftarrow> (if sp_no_output_of_prior_pics_flag x \<noteq> 0 then map_option (Pair MPP_OK) (idr_drop_all l s) else flush_dpb l s);
     if ret \<noteq> MPP_OK
     then do {
       s \<leftarrow> each [0..<db_used_size (dpb_of l s)] (\<lambda>i s. do { q \<leftarrow> elem (db_fs (dpb_of l s)) i; free_frame_store (Some q) s }) s;
       Some (ret, s) }
     else do {
       let s = upd_dpb l (db_last_picture_update (\<lambda>_. None)) s;
       s \<leftarrow> update_ref_list l s;
       s \<leftarrow> update_ltref_list l s;
       x \<leftarrow> h_pic s a;
       let long = (sp_long_term_reference_flag x \<noteq> 0);
       let s = upd_dpb l (\<lambda>b. b\<lparr>db_last_output_poc := INT_MIN, db_max_long_term_pic_idx := if long then 0 else -1,
                 db_last_output_view_id := -1\<rparr>) s;
       s \<leftarrow> upd_pic (Some a) (\<lambda>x. if long then x\<lparr>sp_is_long_term := 1, sp_long_term_frame_idx := 0\<rparr>
                               else x\<lparr>sp_is_long_term := 0\<rparr>) s;
       Some (MPP_OK, s) } }"

text \<open>The commands of a picture, one after the other; the list of the picture shrinks with them.\<close>

definition run_mmco :: "nat \<Rightarrow> nat \<Rightarrow> h264_drpm \<Rightarrow> bool \<Rightarrow> dpb_call" where
  "run_mmco l a c is_last s = do {
     p \<leftarrow> h_pic s a;
     let ok = map_option (Pair MPP_OK);
     let lists = (\<lambda>s. do { s \<leftarrow> update_ref_list l s; update_ltref_list l s });
     let op = memory_management_control_operation c;
     if op = 0 then Some (if is_last then MPP_OK else MPP_ERR_VALUE, s)
     else if op = 1 then ok (do {
       s \<leftarrow> mm_unmark_short_term_for_reference l p (difference_of_pic_nums_minus1 c) s; update_ref_list l s })
     else if op = 2 then ok (do {
       s \<leftarrow> mm_unmark_long_term_for_reference l p (mm_long_term_pic_num c) s; update_ltref_list l s })
     else if op = 3 then ok (do {
       (_, s) \<leftarrow> mm_assign_long_term_frame_idx l p (difference_of_pic_nums_minus1 c) (mm_long_term_frame_idx c) s; lists s })
     else if op = 4 then ok (do {
       s \<leftarrow> mm_update_max_long_term_frame_idx l (max_long_term_frame_idx_plus1 c) s; update_ltref_list l s })
     else if op = 5 then ok (do {
       s \<leftarrow> mm_unmark_all_short_term_for_reference l s;
       s \<leftarrow> mm_unmark_all_long_term_for_reference l s;
       Some (s\<lparr>h_last_has_mmco_5 := 1\<rparr>) })
     else if op = 6 then ok (do {
       s \<leftarrow> mm_mark_current_picture_long_term l a (mm_long_term_frame_idx c) s; check_num_ref l s })
     else Some (MPP_NOK, s) }"

primrec run_mmcos :: "nat \<Rightarrow> nat \<Rightarrow> h264_drpm list \<Rightarrow> dpb_call" where
  "run_mmcos l a [] s = Some (MPP_OK, s)"
| "run_mmcos l a (c # cs) s =
    and_then (run_mmco l a c (cs = []) s) (\<lambda>s. do { s \<leftarrow> upd_pic (Some a) (sp_mmcos_update (\<lambda>_. cs)) s; run_mmcos l a cs s })"

definition after_mmco_5 :: "store_pic \<Rightarrow> store_pic" where
  "after_mmco_5 p =
    (let p = p\<lparr>sp_pic_num := 0, sp_frame_num := 0\<rparr> in
     if sp_structure p = TOP_FIELD then p\<lparr>sp_is_mmco_5 := 1, sp_top_poc_mmco5 := sp_top_poc p, sp_poc := 0, sp_top_poc := 0\<rparr>
     else if sp_structure p = BOTTOM_FIELD
     then p\<lparr>sp_is_mmco_5 := 1, sp_bot_poc_mmco5 := sp_bottom_poc p, sp_poc := 0, sp_bottom_poc := 0\<rparr>
     else if sp_structure p = FRAME
     then
       let t = wrap32 (sp_top_poc p - sp_poc p); b = wrap32 (sp_bottom_poc p - sp_poc p)
       in p\<lparr>sp_is_mmco_5 := 1, sp_top_poc_mmco5 := sp_top_poc p, sp_bot_poc_mmco5 := sp_bottom_poc p,
            sp_poc_mmco5 := min (sp_top_poc p) (sp_bottom_poc p), sp_top_poc := t, sp_bottom_poc := b,
            sp_poc := min t b, sp_frame_poc := min t b\<rparr>
     else p)"

definition adaptive_memory_management :: "nat \<Rightarrow> nat \<Rightarrow> dpb_call" where
  "adaptive_memory_management l a s = do {
     let s = s\<lparr>h_last_has_mmco_5 := 0\<rparr>;
     x \<leftarrow> h_pic s a;
     if \<not> (sp_idr_flag x = 0 \<and> sp_adaptive_ref_pic_buffering_flag x \<noteq> 0) then Some (MPP_ERR_VALUE, s)
     else and_then (run_mmcos l a (sp_mmcos x) s) (\<lambda>s.
       if h_last_has_mmco_5 s = 0 then Some (MPP_OK, s)
       else do {
         s \<leftarrow> upd_pic (Some a) after_mmco_5 s;
         x \<leftarrow> h_pic s a;
         flush_dpb (if sp_layer_id x = 0 then 0 else 1) s }) }"

definition get_filed_dpb_combine_flag :: "nat option \<Rightarrow> store_pic \<Rightarrow> dpb_state \<Rightarrow> bool option" where
  "get_filed_dpb_combine_flag p_last p s =
    (if sp_structure p \<noteq> TOP_FIELD \<and> sp_structure p \<noteq> BOTTOM_FIELD then Some False
     else case p_last of
       None \<Rightarrow> Some False
     | Some a \<Rightarrow> do {
         f \<leftarrow> h_fs s a;
         Some (s32 (fs_frame_num f) = sp_pic_num p
           \<and> (sp_structure p = TOP_FIELD \<and> fs_is_used f = 2 \<or> sp_structure p = BOTTOM_FIELD \<and> fs_is_used f = 1)
           \<and> (sp_used_for_reference p \<noteq> 0) = (fs_is_orig_reference f \<noteq> 0)) })"

text \<open>\<open>direct_output\<close>: a picture that is shown without being stored. The order count is read from the picture at the end.\<close>

definition direct_field :: "bool \<Rightarrow> nat \<Rightarrow> nat \<Rightarrow> store_pic \<Rightarrow> dpb_call" where
  "direct_field t l a p s = do {
     f \<leftarrow> get_fs (Some out_buffer) s;
     and_then (if fs_is_used f AND field_bit t \<noteq> 0 then flush_direct_output s else Some (MPP_OK, s)) (\<lambda>s. do {
       s \<leftarrow> upd_fs (Some out_buffer) (\<lambda>f. (if t then f\<lparr>fs_top_field := Some a\<rparr> else f\<lparr>fs_bottom_field := Some a\<rparr>)
              \<lparr>fs_is_used := fs_is_used f OR field_bit t, fs_frame_num := word_of_int (sp_pic_num p), fs_is_directout := 1\<rparr>) s;
       Some (MPP_OK, upd_dpb l (db_last_picture_update (\<lambda>_. Some out_buffer)) s) }) }"

definition direct_output :: "nat \<Rightarrow> nat \<Rightarrow> dpb_call" where
  "direct_output l a s = do {
     p \<leftarrow> h_pic s a;
     let s = s\<lparr>h_last_pic := Some p\<rparr>;
     if sp_structure p = FRAME
     then and_then (flush_direct_output s) (\<lambda>s. do {
       s \<leftarrow> write_picture (Some a) s;
       s \<leftarrow> free_storable_picture (Some a) s;
       let s = upd_dpb l (db_last_picture_update (\<lambda>_. None)) s;
       s \<leftarrow> upd_fs (Some out_buffer) (\<lambda>f. f\<lparr>fs_is_used := 0, fs_is_directout := 0\<rparr>) s;
       p \<leftarrow> h_pic s a;
       Some (MPP_OK, upd_dpb l (db_last_output_poc_update (\<lambda>_. sp_poc p)) s) })
     else and_then
       (if sp_structure p = TOP_FIELD then direct_field True l a p s
        else if sp_structure p = BOTTOM_FIELD then direct_field False l a p s
        else Some (MPP_OK, s))
       (\<lambda>s. do {
          f \<leftarrow> get_fs (Some out_buffer) s;
          if fs_is_used f \<noteq> 3 then Some (MPP_OK, s)
          else do {
            s \<leftarrow> dpb_combine_field_yuv (Some out_buffer) False s;
            f \<leftarrow> get_fs (Some out_buffer) s;
            s \<leftarrow> upd_pic (fs_frame f) (sp_view_id_update (\<lambda>_. fs_view_id f)) s;
            s \<leftarrow> write_picture (fs_frame f) s;
            s \<leftarrow> free_frame_of (Some out_buffer) s;
            s \<leftarrow> free_top_of (Some out_buffer) s;
            s \<leftarrow> free_bottom_of (Some out_buffer) s;
            s \<leftarrow> upd_fs (Some out_buffer) (\<lambda>f. f\<lparr>fs_is_used := 0, fs_is_directout := 0\<rparr>) s;
            p \<leftarrow> h_pic s a;
            Some (MPP_OK, upd_dpb l (\<lambda>b. b\<lparr>db_last_output_poc := sp_poc p, db_last_picture := None\<rparr>) s) } }) }"


section \<open>The operations other files call\<close>

text \<open>
  Making room for a picture: frames are shown, and dropped when they are no references, until there is a free
  store. The flag tells that \<open>store_picture_in_dpb\<close> is left: with the error, or because the picture was shown directly.
\<close>

definition drop_smallest :: "nat \<Rightarrow> nat \<Rightarrow> int \<Rightarrow> dpb_call" where
  "drop_smallest l a min_pos s = do {
     q \<leftarrow> map_option Some (store_at l min_pos s);
     s \<leftarrow> unmark_for_reference q s;
     f \<leftarrow> get_fs q s;
     and_then (if fs_is_output f = 0 then write_stored_frame l q s else Some (MPP_OK, s)) (\<lambda>s.
     and_then (remove_frame_from_dpb l (nat min_pos) s) (\<lambda>s. do {
       s \<leftarrow> upd_pic (Some a) (sp_is_long_term_update (\<lambda>_. 0)) s;
       Some (MPP_OK, s) })) }"

partial_function (option) make_room :: "nat \<Rightarrow> nat \<Rightarrow> dpb_state \<Rightarrow> (mpp_ret \<times> bool \<times> dpb_state) option" where
  "make_room l a s =
    (if db_used_size (dpb_of l s) < db_size (dpb_of l s) then Some (MPP_OK, False, s)
     else do {
       (_, s) \<leftarrow> remove_unused_frame_from_dpb l s;
       (find_flag, min_poc, min_pos) \<leftarrow> get_smallest_poc l s;
       p \<leftarrow> h_pic s a;
       let first = (\<not> find_flag \<or> sp_poc p < min_poc);
       if sp_used_for_reference p = 0 \<and> first
       then do { (ret, s) \<leftarrow> direct_output l a s; Some (ret, True, s) }
       else do {
         (ret, s) \<leftarrow> (if first then drop_smallest l a min_pos s else Some (MPP_OK, s));
         if ret \<noteq> MPP_OK then Some (ret, True, s)
         else do {
           (ret, s) \<leftarrow> output_one_frame_from_dpb l s;
           if ret \<noteq> MPP_OK then Some (ret, True, s) else make_room l a s } } })"

text \<open>Frames whose order count follows that of the last output are shown at once.\<close>

partial_function (option) output_in_order :: "nat \<Rightarrow> dpb_state \<Rightarrow> (mpp_ret \<times> dpb_state) option" where
  "output_in_order l s =
    (if db_last_output_poc (dpb_of l s) \<le> INT_MIN then Some (MPP_OK, s)
     else do {
       (find_flag, min_poc, min_pos) \<leftarrow> get_smallest_poc l s;
       if \<not> find_flag \<or> wrap32 (min_poc - db_last_output_poc (dpb_of l s)) > db_poc_interval (dpb_of l s) then Some (MPP_OK, s)
       else do {
         q \<leftarrow> map_option Some (store_at l min_pos s);
         (ret, s) \<leftarrow> write_stored_frame l q s;
         if ret = MPP_OK then output_in_order l s else Some (ret, s) } })"

definition output_new_frame :: "nat \<Rightarrow> nat \<Rightarrow> dpb_call" where
  "output_new_frame l a s = do {
     q \<leftarrow> map_option Some (elem (db_fs (dpb_of l s)) (db_used_size (dpb_of l s) - 1));
     f \<leftarrow> get_fs q s;
     if fs_is_used f \<noteq> 3 then Some (MPP_OK, s)
     else do {
       let last = db_last_output_poc (dpb_of l s);
       let s = (if last > INT_MIN \<and> \<bar>wrap32 (fs_poc f - last)\<bar> AND 1 \<noteq> 0 then upd_dpb l (db_poc_interval_update (\<lambda>_. 1)) s else s);
       p \<leftarrow> h_pic s a;
       and_then (if sp_idr_flag p \<noteq> 0 \<or> sp_poc p = 0 \<or> last = INT_MIN then write_stored_frame l q s else Some (MPP_OK, s)) (\<lambda>s.
       and_then (output_in_order l s) (\<lambda>s. do { s \<leftarrow> remove_all_unused l s; Some (MPP_OK, s) })) } }"

definition store_new :: "nat \<Rightarrow> nat \<Rightarrow> dpb_call" where
  "store_new l a s = do {
     q \<leftarrow> map_option Some (elem (db_fs (dpb_of l s)) (db_used_size (dpb_of l s)));
     s \<leftarrow> insert_picture_in_dpb q a False s;
     p \<leftarrow> h_pic s a;
     let s = upd_dpb l (\<lambda>b. b\<lparr>db_last_picture := if sp_structure p \<noteq> FRAME then q else None, db_used_size := db_used_size b + 1\<rparr>) s;
     and_then (output_new_frame l a (s\<lparr>h_last_pic := Some p\<rparr>)) (\<lambda>s. do {
       s \<leftarrow> update_ref_list l s;
       s \<leftarrow> update_ltref_list l s;
       Some (MPP_OK, s) }) }"

definition mark_references :: "nat \<Rightarrow> nat \<Rightarrow> dpb_call" where
  "mark_references l a s = do {
     p \<leftarrow> h_pic s a;
     if sp_idr_flag p \<noteq> 0 then idr_memory_management l a s
     else if sp_used_for_reference p \<noteq> 0 \<and> sp_adaptive_ref_pic_buffering_flag p \<noteq> 0 then adaptive_memory_management l a s
     else Some (MPP_OK, s) }"

definition store_second_field :: "nat \<Rightarrow> nat \<Rightarrow> dpb_call" where
  "store_second_field l a s = do {
     q \<leftarrow> map_option Some (db_last_picture (dpb_of l s));
     f \<leftarrow> get_fs q s;
     and_then
       (if fs_is_directout f \<noteq> 0 then direct_output l a s
        else do {
          s \<leftarrow> insert_picture_in_dpb q a True s;
          s \<leftarrow> update_ref_list l s;
          s \<leftarrow> update_ltref_list l s;
          Some (MPP_OK, s) })
       (\<lambda>s. Some (MPP_OK, upd_dpb l (db_last_picture_update (\<lambda>_. None)) s)) }"

definition store_picture_in_dpb :: "nat \<Rightarrow> nat option \<Rightarrow> dpb_call" where
  "store_picture_in_dpb l ap s =
    (case ap of None \<Rightarrow> Some (MPP_ERR_VALUE, s)
     | Some a \<Rightarrow> do {
         p \<leftarrow> h_pic s a;
         let s = s\<lparr>h_last_pic := None\<rparr>;
         s \<leftarrow> (case sp_mem_mark p of None \<Rightarrow> Some s
              | Some k \<Rightarrow> do {
                  m \<leftarrow> get_mark (Some k) s;
                  Some (if mk_slot_idx m \<ge> 0 then slot_call (Set_codec_use (mk_slot_idx m)) s else s) });
         let s = s\<lparr>h_last_has_mmco_5 := 0, h_last_pic_bottom_field := of_bool (sp_structure p = BOTTOM_FIELD)\<rparr>;
         and_then (mark_references l a s) (\<lambda>s. do {
           p \<leftarrow> h_pic s a;
           combine \<leftarrow> get_filed_dpb_combine_flag (db_last_picture (dpb_of l s)) p s;
           if combine then store_second_field l a s
           else do {
             s \<leftarrow> (if sp_idr_flag p = 0 \<and> sp_used_for_reference p \<noteq> 0 \<and> sp_adaptive_ref_pic_buffering_flag p = 0
                  then do { s \<leftarrow> sliding_window_memory_management l s; upd_pic (Some a) (sp_is_long_term_update (\<lambda>_. 0)) s }
                  else Some s);
             s \<leftarrow> remove_all_unused l s;
             (ret, left, s) \<leftarrow> make_room l a s;
             if left then Some (ret, s) else store_new l a s } }) })"

function round_log2_loop :: "int \<Rightarrow> nat \<Rightarrow> nat" where
  "round_log2_loop sq r = (if 2 ^ (r + 1) \<le> sq then round_log2_loop sq (r + 1) else r)"
  by auto
termination
proof (relation "measure (\<lambda>(sq, r). nat sq - r)")
  fix sq :: int and r :: nat
  assume "2 ^ (r + 1) \<le> sq"
  moreover have "int (r + 1) < int (2 ^ (r + 1))" unfolding of_nat_less_iff by (rule less_exp)
  ultimately show "((sq, r + 1), (sq, r)) \<in> measure (\<lambda>(sq, r). nat sq - r)" by simp
qed simp

definition RoundLog2 :: "int \<Rightarrow> int" where
  "RoundLog2 v = (int (round_log2_loop (v * v) 0) + 1) div 2"

text \<open>\<open>getDpbSize\<close>; the views are given when the active SPS is that of an MVC stream. \<open>None\<close> is a division by 0.\<close>

definition getDpbSize :: "int option \<Rightarrow> h264_sps \<Rightarrow> int option" where
  "getDpbSize views sps = do {
     let pic_size = wrap32 ((s_pic_width_in_mbs_minus1 sps + 1) * (s_pic_height_in_map_units_minus1 sps + 1)
           * (if s_frame_mbs_only_flag sps \<noteq> 0 then 1 else 2) * 384);
     let base = (if s_level_idc sps = 11
           then Some (if \<not> is_prext_profile (s_profile_idc sps) \<and> s_constrained_set3_flag sps = 1 then 152064 else 345600)
           else level_buf_size sps);
     case base of None \<Rightarrow> Some 0
     | Some sz \<Rightarrow>
         if pic_size = 0 then None
         else do {
           let n = sz sdiv pic_size;
           n \<leftarrow> (case views of None \<Rightarrow> Some (min n 16)
                | Some v \<Rightarrow> if v = 0 then None else Some (min (2 * n) (max 1 (RoundLog2 v) * 16) sdiv v));
           Some (if s_vui_parameters_present_flag sps \<noteq> 0 \<and> vui_bitstream_restriction_flag (s_vui_seq_parameters sps) \<noteq> 0
                 then s32 (max 1 (vui_max_dec_frame_buffering (s_vui_seq_parameters sps))) else n) } }"

definition free_dpb :: "nat \<Rightarrow> dpb_op" where
  "free_dpb l s = do {
     s \<leftarrow> (if db_fs (dpb_of l s) = [] then Some s
          else each [0..<db_size (dpb_of l s)] (\<lambda>i s. do { q \<leftarrow> elem (db_fs (dpb_of l s)) i; free_frame_store (Some q) s }) s);
     s \<leftarrow> free_frame_store (db_fs_ilref (dpb_of l s)) s;
     let s = upd_dpb l (\<lambda>b. b\<lparr>db_fs := [], db_fs_ref := [], db_fs_ltref := [], db_fs_ilref := None,
               db_last_output_view_id := -1, db_last_output_poc := INT_MIN, db_init_done := 0\<rparr>) s;
     s \<leftarrow> free_storable_picture (h_no_ref_pic s) s;
     Some (s\<lparr>h_no_ref_pic := None\<rparr>) }"

definition new_store :: "dpb_state \<Rightarrow> (nat \<times> dpb_state) option" where
  "new_store s = (let (a, s) = alloc_frame_store s in map_option (Pair a) (upd_fs (Some a) (\<lambda>f. f\<lparr>fs_layer_id := -1, fs_view_id := -1\<rparr>) s))"

primrec new_stores :: "nat \<Rightarrow> dpb_state \<Rightarrow> (nat list \<times> dpb_state) option" where
  "new_stores 0 s = Some ([], s)"
| "new_stores (Suc n) s = do { (a, s) \<leftarrow> new_store s; (as, s) \<leftarrow> new_stores n s; Some (a # as, s) }"

definition init_dpb :: "int option \<Rightarrow> h264_sps option \<Rightarrow> nat \<Rightarrow> int \<Rightarrow> dpb_call" where
  "init_dpb views sps_opt l type s =
    (case sps_opt of None \<Rightarrow> Some (MPP_NOK, s)
     | Some sps \<Rightarrow> do {
         s \<leftarrow> (if db_init_done (dpb_of l s) \<noteq> 0 then free_dpb l s else Some s);
         n \<leftarrow> getDpbSize views sps;
         let size = unat (word_of_int n :: u32);
         if size = 0 then Some (MPP_ERR_VALUE, upd_dpb l (db_size_update (\<lambda>_. 0)) s)
         else do {
           (as, s) \<leftarrow> new_stores size s;
           (il, s) \<leftarrow> (if type = 2
             then do {
               let (a, s) = alloc_frame_store s;
               s \<leftarrow> upd_fs (Some a) (fs_view_id_update (\<lambda>_. -1)) s;
               Some (Some a, s) }
             else Some (None, s));
           let s = upd_dpb l (\<lambda>b. b\<lparr>db_size := size, db_num_ref_frames := s_max_num_ref_frames sps, db_used_size := 0,
             db_last_picture := None, db_ref_frames_in_buffer := 0, db_ltref_frames_in_buffer := 0,
             db_fs := as, db_fs_ref := replicate size None, db_fs_ltref := replicate size None, db_fs_ilref := il,
             db_last_output_poc := INT_MIN, db_last_output_view_id := -1, db_init_done := 1\<rparr>) s;
           s \<leftarrow> (if h_no_ref_pic s \<noteq> None then Some s
                else do {
                  let (a, s) = alloc_storable_picture FRAME s;
                  s \<leftarrow> upd_pic (Some a) (\<lambda>x. x\<lparr>sp_top_field := Some a, sp_bottom_field := Some a, sp_frame := Some a\<rparr>) s;
                  Some (s\<lparr>h_no_ref_pic := Some a\<rparr>) });
           Some (MPP_OK, s\<lparr>h_last_has_mmco_5 := 0\<rparr>) } })"

definition output_dpb :: "nat \<Rightarrow> dpb_call" where
  "output_dpb l s = map_option (Pair MPP_OK) (remove_all_unused l s)"

text \<open>\<open>ready\<close> stands for \<open>exit_picture_flag\<close>, \<open>have_outpicture_flag\<close> and \<open>iNumOfSlicesDecoded\<close>.\<close>

definition exit_picture :: "bool \<Rightarrow> nat option \<Rightarrow> dpb_state \<Rightarrow> (mpp_ret \<times> nat option \<times> dpb_state) option" where
  "exit_picture ready dec_pic s =
    (case dec_pic of None \<Rightarrow> Some (MPP_OK, None, s)
     | Some a \<Rightarrow>
         if \<not> ready then Some (MPP_OK, dec_pic, s)
         else do {
           p \<leftarrow> h_pic s a;
           (ret, s) \<leftarrow> store_picture_in_dpb (nat (sp_layer_id p)) dec_pic s;
           Some (ret, if ret = MPP_OK then None else dec_pic, s) })"

end
